(* ===== verification/Prelude.thy ===== *)
theory Prelude
  imports Main "HOL-Library.Word" "HOL-Library.List_Lexorder"
begin

text \<open>
  Shared vocabulary of the development: machine integers and byte strings, the \<open>Result\<close> type
  of the Rust sources with the combinators that stand for the \<open>?\<close> operator, UTF-8 validity as
  \<open>std::str::from_utf8\<close> decides it, big-endian integer coding as \<open>to_be_bytes\<close> and
  \<open>from_be_bytes\<close> compute it, and the record of library functions the sources call but do not
  contain (Unicode normalisation and case folding, the two digests, the base32 text codec).
\<close>

unbundle bit_operations_syntax

type_synonym u8 = "8 word"
type_synonym u64 = "64 word"
type_synonym i64 = "64 word"
type_synonym bytes = "u8 list"

named_theorems result_simps \<open>how the result combinators evaluate and when they succeed\<close>
named_theorems byte_simps \<open>big-endian and head-byte arithmetic\<close>

section \<open>Results\<close>

text \<open>\<open>Result<'a, 'e>\<close>: \<open>Inl\<close> is \<open>Err\<close>, \<open>Inr\<close> is \<open>Ok\<close>.\<close>

type_synonym ('a, 'e) result = "'e + 'a"

text \<open>\<open>let x = r?; f(x)\<close>\<close>

fun and_then :: "('a, 'e) result \<Rightarrow> ('a \<Rightarrow> ('b, 'e) result) \<Rightarrow> ('b, 'e) result" where
  "and_then (Inl e) f = Inl e"
| "and_then (Inr x) f = f x"

fun map_err :: "('e \<Rightarrow> 'f) \<Rightarrow> ('a, 'e) result \<Rightarrow> ('a, 'f) result" where
  "map_err g (Inl e) = Inl (g e)"
| "map_err g (Inr x) = Inr x"

fun ok_or :: "'a option \<Rightarrow> 'e \<Rightarrow> ('a, 'e) result" where
  "ok_or None e = Inl e"
| "ok_or (Some x) e = Inr x"

text \<open>\<open>if !c { return Err(e) }\<close>\<close>

definition ensure :: "bool \<Rightarrow> 'e \<Rightarrow> (unit, 'e) result" where
  "ensure c e = (if c then Inr () else Inl e)"

definition discard :: "('a, 'e) result \<Rightarrow> (unit, 'e) result" where
  "discard r = and_then r (\<lambda>_. Inr ())"

text \<open>A sequence of checks, each followed by \<open>?\<close>: the first error is the result.\<close>

primrec all_ok :: "(unit, 'e) result list \<Rightarrow> (unit, 'e) result" where
  "all_ok [] = Inr ()"
| "all_ok (c # cs) = and_then c (\<lambda>_. all_ok cs)"

text \<open>\<open>iter.map(f).collect::<Result<Vec<_>, _>>()\<close>\<close>

primrec collect_results :: "('a, 'e) result list \<Rightarrow> ('a list, 'e) result" where
  "collect_results [] = Inr []"
| "collect_results (r # rs) = and_then r (\<lambda>x. and_then (collect_results rs) (\<lambda>xs. Inr (x # xs)))"

text \<open>A loop whose body updates local state and may return early with an error.\<close>

primrec try_fold :: "('s \<Rightarrow> 'a \<Rightarrow> ('s, 'e) result) \<Rightarrow> 's \<Rightarrow> 'a list \<Rightarrow> ('s, 'e) result" where
  "try_fold f s [] = Inr s"
| "try_fold f s (x # xs) = and_then (f s x) (\<lambda>s. try_fold f s xs)"

lemma and_then_Inr [simp, result_simps]:
  "and_then r f = Inr y \<longleftrightarrow> (\<exists>x. r = Inr x \<and> f x = Inr y)"
  by (cases r) auto

lemma and_then_Inl [result_simps]:
  "and_then r f = Inl e \<longleftrightarrow> r = Inl e \<or> (\<exists>x. r = Inr x \<and> f x = Inl e)"
  by (cases r) auto

lemma and_then_cong [fundef_cong]:
  "r = s \<Longrightarrow> (\<And>x. s = Inr x \<Longrightarrow> f x = g x) \<Longrightarrow> and_then r f = and_then s g"
  by (cases s) auto

lemma and_then_assoc: "and_then (and_then r f) g = and_then r (\<lambda>x. and_then (f x) g)"
  by (cases r) auto

lemma map_err_Inr [simp, result_simps]: "map_err g r = Inr x \<longleftrightarrow> r = Inr x"
  by (cases r) auto

lemma ok_or_Inr [simp, result_simps]: "ok_or v e = Inr x \<longleftrightarrow> v = Some x"
  by (cases v) auto

lemma ensure_Inr [simp, result_simps]: "ensure c e = Inr u \<longleftrightarrow> c"
  by (simp add: ensure_def)

lemma ensure_True [simp, result_simps]: "ensure True e = Inr ()"
  and ensure_False [simp, result_simps]: "ensure False e = Inl e"
  by (simp_all add: ensure_def)

lemma discard_Inr [simp, result_simps]: "discard r = Inr u \<longleftrightarrow> (\<exists>x. r = Inr x)"
  by (cases r) (auto simp: discard_def)

lemma discard_simps [simp]: "discard (Inr x) = Inr ()" "discard (Inl e) = Inl e"
  by (simp_all add: discard_def)

lemma all_ok_Inr [result_simps]: "all_ok cs = Inr u \<longleftrightarrow> (\<forall>c \<in> set cs. c = Inr ())"
  by (induction cs) auto

lemma all_ok_append: "all_ok (xs @ ys) = and_then (all_ok xs) (\<lambda>_. all_ok ys)"
  by (induction xs) (auto simp: and_then_assoc)

lemma collect_results_Inr [result_simps]:
  "collect_results rs = Inr xs \<longleftrightarrow> rs = map Inr xs"
  by (induction rs arbitrary: xs) auto

section \<open>Library functions outside the sources\<close>

text \<open>
  \<open>nfc\<close> is \<open>UnicodeNormalization::nfc\<close>, \<open>case_fold\<close> is \<open>UnicodeCaseFold::case_fold\<close>,
  \<open>sha256\<close> and \<open>blake3\<close> are the digests of the crates of those names, and the last two are
  \<open>BASE32HEX_NOPAD\<close> of \<open>data_encoding\<close>. They are parameters: every definition that calls one
  takes the record as an argument, and nothing is assumed of them except where a theorem says so.
\<close>

record externals =
  nfc :: "bytes \<Rightarrow> bytes"
  case_fold :: "bytes \<Rightarrow> bytes"
  sha256 :: "bytes \<Rightarrow> bytes"
  blake3 :: "bytes \<Rightarrow> bytes"
  base32_encode :: "bytes \<Rightarrow> bytes"
  base32_decode :: "bytes \<Rightarrow> bytes option"

text \<open>\<open>text.nfc().eq(text.chars())\<close>\<close>

definition is_nfc :: "externals \<Rightarrow> bytes \<Rightarrow> bool" where
  "is_nfc X s \<longleftrightarrow> nfc X s = s"

text \<open>
  A concrete instance for witnesses: text over code points that neither normalisation nor case
  folding changes, with a padded prefix standing for a digest and two letters per byte for base32.
\<close>

primrec nibble_encode :: "bytes \<Rightarrow> bytes" where
  "nibble_encode [] = []"
| "nibble_encode (b # bs) = of_nat (65 + unat b div 16) # of_nat (65 + unat b mod 16) # nibble_encode bs"

fun nibble_decode :: "bytes \<Rightarrow> bytes option" where
  "nibble_decode [] = Some []"
| "nibble_decode [b] = None"
| "nibble_decode (h # l # bs) =
     (if 65 \<le> unat h \<and> unat h < 81 \<and> 65 \<le> unat l \<and> unat l < 81
      then map_option (Cons (of_nat ((unat h - 65) * 16 + (unat l - 65)))) (nibble_decode bs)
      else None)"

lemma unat_letter:
  "n < 16 \<Longrightarrow> unat (of_nat (65 + n) :: u8) = 65 + n"
  by (simp only: unat_of_nat) (simp add: take_bit_nat_eq_self)

lemma nibbles [simp]: "unat (b :: u8) div 16 < 16" "unat b mod 16 < 16"
  using unsigned_less [of b, where ?'a = nat] by (simp_all add: less_mult_imp_div_less)

lemma nibble_decode_encode: "nibble_decode (nibble_encode bs) = Some bs"
  by (induction bs) (simp_all add: unat_letter del: of_nat_add of_nat_mult)

lemma nibble_encode_decode: "nibble_decode s = Some bs \<Longrightarrow> nibble_encode bs = s"
proof (induction s arbitrary: bs rule: nibble_decode.induct)
  case (3 h l s)
  define v where "v = (unat h - 65) * 16 + (unat l - 65)"
  from 3 obtain cs where c: "65 \<le> unat h" "unat h < 81" "65 \<le> unat l" "unat l < 81"
      "nibble_encode cs = s" "bs = of_nat v # cs"
    by (auto split: if_splits simp: v_def simp del: of_nat_add of_nat_mult)
  define k where "k = unat l - 65"
  from c have "k < 16" by (simp add: k_def)
  then have "v < 256" "v div 16 = unat h - 65" "v mod 16 = unat l - 65"
    using c by (simp_all add: v_def k_def [symmetric])
  moreover from this have "unat (of_nat v :: u8) = v"
    by (simp only: unat_of_nat) (simp add: take_bit_nat_eq_self)
  ultimately show ?case using c by (simp del: of_nat_add)
qed simp_all

lemma nibble_decode_iff: "nibble_decode s = Some bs \<longleftrightarrow> s = nibble_encode bs"
  using nibble_decode_encode nibble_encode_decode by blast

lemma nibble_alphabet: "c \<in> set (nibble_encode bs) \<Longrightarrow> 0x41 \<le> c \<and> c \<le> 0x56"
proof (induction bs)
  case (Cons b bs)
  have "65 + unat b div 16 \<le> 0x56" "65 + unat b mod 16 \<le> 0x56"
    using nibbles [of b] by linarith+
  with Cons show ?case by (auto simp: word_le_nat_alt unat_letter simp del: of_nat_add)
qed simp

definition pad32 :: "bytes \<Rightarrow> bytes" where
  "pad32 bs = take 32 (bs @ replicate 32 0)"

definition sample_externals :: externals where
  "sample_externals = \<lparr>nfc = \<lambda>s. s, case_fold = \<lambda>s. s, sha256 = pad32, blake3 = pad32,
     base32_encode = nibble_encode, base32_decode = nibble_decode\<rparr>"

lemma sample_externals_sel [simp]:
  "nfc sample_externals = (\<lambda>s. s)" "case_fold sample_externals = (\<lambda>s. s)"
  "sha256 sample_externals = pad32" "blake3 sample_externals = pad32"
  "base32_encode sample_externals = nibble_encode" "base32_decode sample_externals = nibble_decode"
  by (simp_all add: sample_externals_def)

lemma is_nfc_sample [simp]: "is_nfc sample_externals s"
  by (simp add: is_nfc_def)

section \<open>Codecs\<close>

text \<open>
  The contract the byte formats share: decoding inverts encoding up to the representative \<open>canon\<close>
  that the format has for a value, and only encodings of representatives are accepted. Clients
  then know that the format is injective and that decoding determines the bytes.
\<close>

locale codec =
  fixes encode :: "'v \<Rightarrow> ('b, 'e) result"
    and decode :: "'b \<Rightarrow> ('v, 'd) result"
    and canon :: "'v \<Rightarrow> 'v"
    and valid :: "'v \<Rightarrow> bool"
  assumes decode_encode: "valid v \<Longrightarrow> encode v = Inr b \<Longrightarrow> decode b = Inr (canon v)"
    and encode_decode: "decode b = Inr v \<Longrightarrow> valid v \<and> canon v = v \<and> encode v = Inr b"
begin

lemma decode_iff: "decode b = Inr v \<longleftrightarrow> valid v \<and> canon v = v \<and> encode v = Inr b"
  using decode_encode [of v b] encode_decode [of b v] by auto

lemma encode_inj:
  "valid v \<Longrightarrow> valid w \<Longrightarrow> encode v = Inr b \<Longrightarrow> encode w = Inr b \<Longrightarrow> canon v = canon w"
  using decode_encode [of v b] decode_encode [of w b] by simp

lemma decode_inj: "decode b = Inr v \<Longrightarrow> decode c = Inr v \<Longrightarrow> b = c"
  using encode_decode [of b v] encode_decode [of c v] by simp

lemma encode_canon: "valid v \<Longrightarrow> encode v = Inr b \<Longrightarrow> valid (canon v) \<and> encode (canon v) = Inr b"
  using decode_encode encode_decode by blast

end

section \<open>Machine sizes\<close>

text \<open>\<open>usize::MAX\<close> on the supported 64-bit targets.\<close>

definition usize_max :: nat where
  "usize_max = 2 ^ 64 - 1"

lemma unat_of_nat_usize [simp]: "n \<le> usize_max \<Longrightarrow> unat (of_nat n :: u64) = n"
  by (simp add: usize_max_def unat_of_nat take_bit_nat_eq_self)

lemma unat_le_usize_max [simp]: "unat (w :: u64) \<le> usize_max"
  using unsigned_less [of w, where ?'a = nat] by (simp add: usize_max_def)

text \<open>Narrowing: a value below \<open>2 ^ n\<close> is its own low bits, and an \<open>as u8\<close> round trip keeps it.\<close>

lemma take_bit_self_if_less: "unat (a :: 'a::len word) < 2 ^ n \<Longrightarrow> take_bit n a = a"
  by (intro unsigned_word_eqI [where ?'a = nat]) (simp add: unsigned_take_bit_eq take_bit_nat_eq_self)

lemma ucast_small_u8: "n \<le> 0xff \<Longrightarrow> ucast (ucast (n :: u64) :: u8) = n"
  by (rule unsigned_word_eqI [where ?'a = nat])
    (simp add: unsigned_ucast_eq unsigned_take_bit_eq word_le_nat_alt take_bit_nat_eq_self)

lemma ucast_u8_u64 [simp]: "ucast (ucast (b :: u8) :: u64) = b"
  by (rule bit_word_eqI) (auto simp: bit_ucast_iff)

text \<open>\<open>u64::checked_add\<close>\<close>

definition checked_add :: "u64 \<Rightarrow> u64 \<Rightarrow> u64 option" where
  "checked_add a b = (if unat a + unat b < 2 ^ 64 then Some (a + b) else None)"

lemma checked_add_Some:
  "checked_add a b = Some c \<longleftrightarrow> unat a + unat b < 2 ^ 64 \<and> c = a + b"
  by (auto simp: checked_add_def)

lemma unat_checked_add: "checked_add a b = Some c \<Longrightarrow> unat c = unat a + unat b"
  by (auto simp: checked_add_Some unat_word_ariths)

lemma checked_add_code [code]: "checked_add a b = (if a + b < a then None else Some (a + b))"
proof (cases "unat a + unat b < 2 ^ 64")
  case True
  then show ?thesis by (auto simp: checked_add_def word_less_nat_alt unat_word_ariths)
next
  case False
  have "(unat a + unat b) mod 2 ^ 64 = unat a + unat b - 2 ^ 64"
    using False unsigned_less [of a, where ?'a = nat] unsigned_less [of b, where ?'a = nat]
    by (subst mod_if) (simp add: le_mod_geq)
  with False unsigned_less [of b, where ?'a = nat] show ?thesis
    by (simp add: checked_add_def word_less_nat_alt unat_word_ariths)
qed

section \<open>UTF-8 validity\<close>

definition cont_byte :: "u8 \<Rightarrow> bool" where
  "cont_byte b \<longleftrightarrow> 0x80 \<le> b \<and> b \<le> 0xBF"

fun utf8_valid :: "bytes \<Rightarrow> bool" where
  "utf8_valid [] = True"
| "utf8_valid (a # bs) =
     (if a \<le> 0x7F then utf8_valid bs
      else if 0xC2 \<le> a \<and> a \<le> 0xDF then
        (case bs of b # cs \<Rightarrow> cont_byte b \<and> utf8_valid cs | _ \<Rightarrow> False)
      else if 0xE0 \<le> a \<and> a \<le> 0xEF then
        (case bs of
           b # c # cs \<Rightarrow>
             (if a = 0xE0 then 0xA0 \<le> b \<and> b \<le> 0xBF
              else if a = 0xED then 0x80 \<le> b \<and> b \<le> 0x9F
              else cont_byte b) \<and> cont_byte c \<and> utf8_valid cs
         | _ \<Rightarrow> False)
      else if 0xF0 \<le> a \<and> a \<le> 0xF4 then
        (case bs of
           b # c # d # cs \<Rightarrow>
             (if a = 0xF0 then 0x90 \<le> b \<and> b \<le> 0xBF
              else if a = 0xF4 then 0x80 \<le> b \<and> b \<le> 0x8F
              else cont_byte b) \<and> cont_byte c \<and> cont_byte d \<and> utf8_valid cs
         | _ \<Rightarrow> False)
      else False)"

section \<open>Big-endian integers\<close>

text \<open>The low \<open>n\<close> bytes of a value, most significant first, and the value of such a string.\<close>

primrec be_bytes :: "nat \<Rightarrow> u64 \<Rightarrow> bytes" where
  "be_bytes 0 v = []"
| "be_bytes (Suc n) v = be_bytes n (drop_bit 8 v) @ [ucast v]"

definition be_value :: "bytes \<Rightarrow> u64" where
  "be_value bs = foldl (\<lambda>acc b. push_bit 8 acc OR ucast b) 0 bs"

lemma length_be_bytes [simp]: "length (be_bytes n v) = n"
  by (induction n arbitrary: v) auto

lemma be_value_Nil [simp]: "be_value [] = 0"
  and be_value_snoc [simp]: "be_value (bs @ [b]) = push_bit 8 (be_value bs) OR ucast b"
  by (simp_all add: be_value_def)

lemma be_value_be_bytes: "be_value (be_bytes n v) = take_bit (8 * n) v"
proof (induction n arbitrary: v)
  case 0
  then show ?case by simp
next
  case (Suc n)
  have "push_bit 8 (take_bit (8 * n) (drop_bit 8 v)) OR ucast (ucast v :: u8)
      = take_bit (8 * Suc n) v"
    by (rule bit_word_eqI)
      (auto simp: bit_or_iff bit_push_bit_iff bit_take_bit_iff bit_drop_bit_eq bit_ucast_iff)
  then show ?case by (simp add: Suc.IH)
qed

lemma be_value_bound: "length bs \<le> 7 \<Longrightarrow> take_bit (8 * length bs) (be_value bs) = be_value bs"
proof (induction bs rule: rev_induct)
  case Nil
  then show ?case by simp
next
  case (snoc b bs)
  then have "take_bit (8 * length bs) (be_value bs) = be_value bs"
    by simp
  then have bits: "bit (be_value bs) i \<Longrightarrow> i < 8 * length bs" for i
    by (metis bit_take_bit_iff)
  have "n < 8 + 8 * length bs" if "bit (be_value bs) (n - 8)" for n
    using bits [OF that] by simp
  moreover have "n < 8 + 8 * length bs" if "bit b n" for n
    using bit_imp_le_length [OF that] by simp
  ultimately show ?case
    by (intro bit_word_eqI) (auto simp: bit_or_iff bit_push_bit_iff bit_take_bit_iff bit_ucast_iff)
qed

lemma be_bytes_be_value: "length bs \<le> 8 \<Longrightarrow> be_bytes (length bs) (be_value bs) = bs"
proof (induction bs rule: rev_induct)
  case Nil
  then show ?case by simp
next
  case (snoc b bs)
  then have le: "length bs \<le> 7" by simp
  from be_value_bound [OF le] have bits: "bit (be_value bs) i \<Longrightarrow> i < 8 * length bs" for i
    by (metis bit_take_bit_iff)
  have "drop_bit 8 (push_bit 8 (be_value bs) OR ucast b) = be_value bs"
    by (rule bit_word_eqI)
      (use le in \<open>auto simp: bit_or_iff bit_push_bit_iff bit_drop_bit_eq bit_ucast_iff
         dest: bits bit_imp_le_length\<close>)
  moreover have "ucast (push_bit 8 (be_value bs) OR ucast b :: u64) = b"
    by (rule bit_word_eqI)
      (auto simp: bit_or_iff bit_push_bit_iff bit_ucast_iff dest: bit_imp_le_length)
  ultimately show ?case using snoc by simp
qed

end
