(* ===== verification/Canonical.thy ===== *)
theory Canonical
  imports Prelude
begin

text \<open>
  Canonical CBOR, \<open>crates/rgit-objects/src/canonical.rs\<close>: the restricted value type, the bounded
  encoder \<open>Value::encode_into\<close>, and the decoder with its offset into the input. Lengths
  (\<open>usize\<close>) are natural numbers bounded by \<open>usize_max\<close>; integers of the data are words.
\<close>

section \<open>Values, limits and errors\<close>

datatype cvalue =
    Unsigned u64
  | Signed i64
  | Bytes bytes
  | Text bytes
  | Array "cvalue list"
  | Map "(u64 \<times> cvalue) list"
  | Bool bool
  | Null

record canonical_limits =
  max_bytes :: nat
  max_byte_string_bytes :: nat
  max_string_bytes :: nat
  max_depth :: nat
  max_collection_items :: nat

datatype canonical_error =
    SizeLimit | DepthLimit | CollectionLimit | Truncated | TrailingBytes | ForbiddenType
  | NonMinimalInteger | InvalidMapKey | MapOrder | Utf8 | NonNormalizedText | NonCanonical
  | InvalidValue

definition METADATA_MAX_ENCODED_BYTES :: nat where "METADATA_MAX_ENCODED_BYTES = 1024 * 1024"
definition METADATA_MAX_BYTE_STRING_BYTES :: nat where "METADATA_MAX_BYTE_STRING_BYTES = 256 * 1024"
definition METADATA_MAX_TEXT_STRING_BYTES :: nat where "METADATA_MAX_TEXT_STRING_BYTES = 64 * 1024"
definition METADATA_MAX_DEPTH :: nat where "METADATA_MAX_DEPTH = 64"
definition METADATA_MAX_COLLECTION_ITEMS :: nat where "METADATA_MAX_COLLECTION_ITEMS = 65536"
definition BULK_MAX_ENCODED_BYTES :: nat where "BULK_MAX_ENCODED_BYTES = 16 * 1024 * 1024"
definition BULK_MAX_BYTE_STRING_BYTES :: nat where "BULK_MAX_BYTE_STRING_BYTES = 4 * 1024 * 1024"
definition BULK_MAX_TEXT_STRING_BYTES :: nat where "BULK_MAX_TEXT_STRING_BYTES = 64 * 1024"
definition BULK_MAX_DEPTH :: nat where "BULK_MAX_DEPTH = 64"
definition BULK_MAX_COLLECTION_ITEMS :: nat where "BULK_MAX_COLLECTION_ITEMS = 1000000"

lemmas limit_consts =
  METADATA_MAX_ENCODED_BYTES_def METADATA_MAX_BYTE_STRING_BYTES_def METADATA_MAX_TEXT_STRING_BYTES_def
  METADATA_MAX_DEPTH_def METADATA_MAX_COLLECTION_ITEMS_def BULK_MAX_ENCODED_BYTES_def
  BULK_MAX_BYTE_STRING_BYTES_def BULK_MAX_TEXT_STRING_BYTES_def BULK_MAX_DEPTH_def
  BULK_MAX_COLLECTION_ITEMS_def

definition metadata :: canonical_limits where
  "metadata = \<lparr>max_bytes = METADATA_MAX_ENCODED_BYTES,
     max_byte_string_bytes = METADATA_MAX_BYTE_STRING_BYTES,
     max_string_bytes = METADATA_MAX_TEXT_STRING_BYTES,
     max_depth = METADATA_MAX_DEPTH,
     max_collection_items = METADATA_MAX_COLLECTION_ITEMS\<rparr>"

definition bulk :: canonical_limits where
  "bulk = \<lparr>max_bytes = BULK_MAX_ENCODED_BYTES,
     max_byte_string_bytes = BULK_MAX_BYTE_STRING_BYTES,
     max_string_bytes = BULK_MAX_TEXT_STRING_BYTES,
     max_depth = BULK_MAX_DEPTH,
     max_collection_items = BULK_MAX_COLLECTION_ITEMS\<rparr>"

lemma metadata_sel [simp]:
  "max_bytes metadata = 1048576" "max_byte_string_bytes metadata = 262144"
  "max_string_bytes metadata = 65536" "max_depth metadata = 64"
  "max_collection_items metadata = 65536"
  by (simp_all add: metadata_def limit_consts)

lemma bulk_sel [simp]:
  "max_bytes bulk = 16777216" "max_byte_string_bytes bulk = 4194304"
  "max_string_bytes bulk = 65536" "max_depth bulk = 64" "max_collection_items bulk = 1000000"
  by (simp_all add: bulk_def limit_consts)

definition min_usize :: "nat \<Rightarrow> nat \<Rightarrow> nat" where
  "min_usize left right = (if left < right then left else right)"

definition restricted_by :: "canonical_limits \<Rightarrow> canonical_limits \<Rightarrow> canonical_limits" where
  "restricted_by self ceiling =
     \<lparr>max_bytes = min_usize (max_bytes self) (max_bytes ceiling),
      max_byte_string_bytes =
        min_usize (max_byte_string_bytes self) (max_byte_string_bytes ceiling),
      max_string_bytes = min_usize (max_string_bytes self) (max_string_bytes ceiling),
      max_depth = min_usize (max_depth self) (max_depth ceiling),
      max_collection_items =
        min_usize (max_collection_items self) (max_collection_items ceiling)\<rparr>"

section \<open>Encoder\<close>

definition check_collection :: "nat \<Rightarrow> canonical_limits \<Rightarrow> (unit, canonical_error) result" where
  "check_collection len L = (if len > max_collection_items L then Inl CollectionLimit else Inr ())"

text \<open>\<open>out.extend_from_slice\<close> behind the overflow and size checks.\<close>

definition extend :: "bytes \<Rightarrow> bytes \<Rightarrow> canonical_limits \<Rightarrow> (bytes, canonical_error) result" where
  "extend out bs L =
     (if length out + length bs > usize_max then Inl SizeLimit
      else if length out + length bs > max_bytes L then Inl SizeLimit
      else Inr (out @ bs))"

definition push_head ::
  "bytes \<Rightarrow> u8 \<Rightarrow> u64 \<Rightarrow> canonical_limits \<Rightarrow> (bytes, canonical_error) result" where
  "push_head out major n L =
     (let prefix = push_bit 5 major in
      if n \<le> 23 then extend out [prefix OR ucast n] L
      else if n \<le> 0xff then extend out [prefix OR 24, ucast n] L
      else if n \<le> 0xffff then
        and_then (extend out [prefix OR 25] L) (\<lambda>out. extend out (be_bytes 2 n) L)
      else if n \<le> 0xffffffff then
        and_then (extend out [prefix OR 26] L) (\<lambda>out. extend out (be_bytes 4 n) L)
      else and_then (extend out [prefix OR 27] L) (\<lambda>out. extend out (be_bytes 8 n) L))"

text \<open>\<open>ordered.windows(2).any(|pair| p(pair[0], pair[1]))\<close>\<close>

fun windows2_any :: "('a \<Rightarrow> 'a \<Rightarrow> bool) \<Rightarrow> 'a list \<Rightarrow> bool" where
  "windows2_any p (x # y # xs) = (p x y \<or> windows2_any p (y # xs))"
| "windows2_any p _ = False"

lemma size_list_insort_key: "size_list f (insort_key g x xs) = Suc (f x + size_list f xs)"
  by (induction xs) auto

lemma size_list_sort_key [termination_simp]: "size_list f (sort_key g xs) = size_list f xs"
  by (induction xs) (auto simp: sort_key_def size_list_insort_key)

fun encode_into ::
  "externals \<Rightarrow> canonical_limits \<Rightarrow> nat \<Rightarrow> cvalue \<Rightarrow> bytes \<Rightarrow> (bytes, canonical_error) result"
and encode_items ::
  "externals \<Rightarrow> canonical_limits \<Rightarrow> nat \<Rightarrow> cvalue list \<Rightarrow> bytes \<Rightarrow> (bytes, canonical_error) result"
and encode_entries ::
  "externals \<Rightarrow> canonical_limits \<Rightarrow> nat \<Rightarrow> (u64 \<times> cvalue) list \<Rightarrow> bytes \<Rightarrow> (bytes, canonical_error) result"
where
  "encode_into X L depth v out =
     (if depth > max_depth L then Inl DepthLimit
      else case v of
        Unsigned n \<Rightarrow> push_head out 0 n L
      | Signed n \<Rightarrow>
          if 0 \<le> sint n then push_head out 0 n L
          else push_head out 1 (word_of_int (- 1 - sint n)) L
      | Bytes bs \<Rightarrow>
          if length bs > max_byte_string_bytes L then Inl SizeLimit
          else and_then (push_head out 2 (of_nat (length bs)) L) (\<lambda>out. extend out bs L)
      | Text s \<Rightarrow>
          if \<not> is_nfc X s then Inl InvalidValue
          else if length s > max_string_bytes L then Inl SizeLimit
          else and_then (push_head out 3 (of_nat (length s)) L) (\<lambda>out. extend out s L)
      | Array vs \<Rightarrow>
          and_then (check_collection (length vs) L) (\<lambda>_.
          and_then (push_head out 4 (of_nat (length vs)) L) (\<lambda>out.
            encode_items X L (depth + 1) vs out))
      | Map es \<Rightarrow>
          and_then (check_collection (length es) L) (\<lambda>_.
          and_then (push_head out 5 (of_nat (length es)) L) (\<lambda>out.
            let ordered = sort_key fst es in
            if windows2_any (\<lambda>a b. fst a = fst b) ordered then Inl InvalidValue
            else encode_entries X L (depth + 1) ordered out))
      | Bool False \<Rightarrow> extend out [0xf4] L
      | Bool True \<Rightarrow> extend out [0xf5] L
      | Null \<Rightarrow> extend out [0xf6] L)"
| "encode_items X L depth [] out = Inr out"
| "encode_items X L depth (v # vs) out =
     and_then (encode_into X L depth v out) (\<lambda>out. encode_items X L depth vs out)"
| "encode_entries X L depth [] out = Inr out"
| "encode_entries X L depth ((k, v) # es) out =
     and_then (push_head out 0 k L) (\<lambda>out.
     and_then (encode_into X L depth v out) (\<lambda>out. encode_entries X L depth es out))"

declare encode_into.simps [simp del]

definition encode_with_limits ::
  "externals \<Rightarrow> cvalue \<Rightarrow> canonical_limits \<Rightarrow> (bytes, canonical_error) result" where
  "encode_with_limits X v L = encode_into X L 0 v []"

definition encode :: "externals \<Rightarrow> cvalue \<Rightarrow> (bytes, canonical_error) result" where
  "encode X v = encode_with_limits X v metadata"

section \<open>Decoder\<close>

text \<open>
  \<open>Decoder\<close> is the input, the limits and the offset; every step takes the offset and returns the
  next one with its result.
\<close>

definition dec_byte :: "bytes \<Rightarrow> nat \<Rightarrow> (u8 \<times> nat, canonical_error) result" where
  "dec_byte input offset =
     (if offset < length input then Inr (input ! offset, offset + 1) else Inl Truncated)"

definition dec_take :: "bytes \<Rightarrow> nat \<Rightarrow> nat \<Rightarrow> (bytes \<times> nat, canonical_error) result" where
  "dec_take input offset len =
     (if offset + len > usize_max then Inl SizeLimit
      else if offset + len \<le> length input then Inr (take len (drop offset input), offset + len)
      else Inl Truncated)"

definition dec_argument :: "bytes \<Rightarrow> nat \<Rightarrow> u8 \<Rightarrow> (u64 \<times> nat, canonical_error) result" where
  "dec_argument input offset additional =
     (if additional \<le> 23 then Inr (ucast additional, offset)
      else if additional = 24 then
        and_then (dec_byte input offset) (\<lambda>(b, offset).
          if (ucast b :: u64) < 24 then Inl NonMinimalInteger else Inr (ucast b, offset))
      else if additional = 25 then
        and_then (dec_take input offset 2) (\<lambda>(bs, offset).
          if be_value bs \<le> 0xff then Inl NonMinimalInteger else Inr (be_value bs, offset))
      else if additional = 26 then
        and_then (dec_take input offset 4) (\<lambda>(bs, offset).
          if be_value bs \<le> 0xffff then Inl NonMinimalInteger else Inr (be_value bs, offset))
      else if additional = 27 then
        and_then (dec_take input offset 8) (\<lambda>(bs, offset).
          if be_value bs \<le> 0xffffffff then Inl NonMinimalInteger else Inr (be_value bs, offset))
      else Inl ForbiddenType)"

text \<open>
  \<open>usize::try_from(u64)\<close> never fails where \<open>usize\<close> has 64 bits, so the three length readers
  differ in their limit and in the error they report.
\<close>

definition dec_length ::
  "canonical_limits \<Rightarrow> bytes \<Rightarrow> nat \<Rightarrow> u8 \<Rightarrow> (nat \<times> nat, canonical_error) result" where
  "dec_length L input offset additional =
     and_then (dec_argument input offset additional) (\<lambda>(n, offset).
       if unat n > usize_max then Inl CollectionLimit
       else if unat n > max_collection_items L then Inl CollectionLimit
       else Inr (unat n, offset))"

definition dec_string_length ::
  "canonical_limits \<Rightarrow> bytes \<Rightarrow> nat \<Rightarrow> u8 \<Rightarrow> (nat \<times> nat, canonical_error) result" where
  "dec_string_length L input offset additional =
     and_then (dec_argument input offset additional) (\<lambda>(n, offset).
       if unat n > usize_max then Inl SizeLimit
       else if unat n > max_string_bytes L then Inl SizeLimit
       else Inr (unat n, offset))"

definition dec_byte_string_length ::
  "canonical_limits \<Rightarrow> bytes \<Rightarrow> nat \<Rightarrow> u8 \<Rightarrow> (nat \<times> nat, canonical_error) result" where
  "dec_byte_string_length L input offset additional =
     and_then (dec_argument input offset additional) (\<lambda>(n, offset).
       if unat n > usize_max then Inl SizeLimit
       else if unat n > max_byte_string_bytes L then Inl SizeLimit
       else Inr (unat n, offset))"

text \<open>
  \<open>dec_items\<close> is the loop over array elements and \<open>dec_entries\<close> the loop over map entries, with
  the previous key and the set of keys seen.
\<close>

function dec_value ::
  "externals \<Rightarrow> canonical_limits \<Rightarrow> bytes \<Rightarrow> nat \<Rightarrow> nat \<Rightarrow> (cvalue \<times> nat, canonical_error) result"
and dec_items ::
  "externals \<Rightarrow> canonical_limits \<Rightarrow> bytes \<Rightarrow> nat \<Rightarrow> nat \<Rightarrow> nat \<Rightarrow> (cvalue list \<times> nat, canonical_error) result"
and dec_entries ::
  "externals \<Rightarrow> canonical_limits \<Rightarrow> bytes \<Rightarrow> nat \<Rightarrow> nat \<Rightarrow> u64 option \<Rightarrow> u64 set \<Rightarrow> nat \<Rightarrow>
     ((u64 \<times> cvalue) list \<times> nat, canonical_error) result"
where
  "dec_value X L input depth offset =
     (if depth > max_depth L then Inl DepthLimit
      else and_then (dec_byte input offset) (\<lambda>(initial, offset).
        let major = drop_bit 5 initial; additional = initial AND 0x1f in
        if major = 0 then
          and_then (dec_argument input offset additional) (\<lambda>(n, offset). Inr (Unsigned n, offset))
        else if major = 1 then
          and_then (dec_argument input offset additional) (\<lambda>(n, offset).
            if n > 0x7fffffffffffffff then Inl ForbiddenType
            else Inr (Signed (- 1 - n), offset))
        else if major = 2 then
          and_then (dec_byte_string_length L input offset additional) (\<lambda>(len, offset).
          and_then (dec_take input offset len) (\<lambda>(bs, offset). Inr (Bytes bs, offset)))
        else if major = 3 then
          and_then (dec_string_length L input offset additional) (\<lambda>(len, offset).
          and_then (dec_take input offset len) (\<lambda>(bs, offset).
            if \<not> utf8_valid bs then Inl Utf8
            else if \<not> is_nfc X bs then Inl NonNormalizedText
            else Inr (Text bs, offset)))
        else if major = 4 then
          and_then (dec_length L input offset additional) (\<lambda>(len, offset).
          and_then (dec_items X L input len (depth + 1) offset) (\<lambda>(vs, offset).
            Inr (Array vs, offset)))
        else if major = 5 then
          and_then (dec_length L input offset additional) (\<lambda>(len, offset).
          and_then (dec_entries X L input len (depth + 1) None {} offset) (\<lambda>(es, offset).
            Inr (Map es, offset)))
        else if major = 7 then
          (if additional = 20 then Inr (Bool False, offset)
           else if additional = 21 then Inr (Bool True, offset)
           else if additional = 22 then Inr (Null, offset)
           else Inl ForbiddenType)
        else Inl ForbiddenType))"
| "dec_items X L input 0 depth offset = Inr ([], offset)"
| "dec_items X L input (Suc n) depth offset =
     and_then (dec_value X L input depth offset) (\<lambda>(v, offset).
     and_then (dec_items X L input n depth offset) (\<lambda>(vs, offset). Inr (v # vs, offset)))"
| "dec_entries X L input 0 depth previous keys offset = Inr ([], offset)"
| "dec_entries X L input (Suc n) depth previous keys offset =
     and_then (dec_byte input offset) (\<lambda>(key_initial, offset).
       if drop_bit 5 key_initial \<noteq> 0 then Inl InvalidMapKey
       else and_then (dec_argument input offset (key_initial AND 0x1f)) (\<lambda>(key, offset).
         if (case previous of None \<Rightarrow> False | Some old \<Rightarrow> old \<ge> key) \<or> key \<in> keys then Inl MapOrder
         else and_then (dec_value X L input depth offset) (\<lambda>(v, offset).
              and_then (dec_entries X L input n depth (Some key) (insert key keys) offset)
                (\<lambda>(es, offset). Inr ((key, v) # es, offset)))))"
  by pat_completeness auto
termination
  by (relation "measures
        [\<lambda>x. case x of Inl (X, L, input, d, off) \<Rightarrow> Suc (max_depth L) - d
             | Inr (Inl (X, L, input, n, d, off)) \<Rightarrow> Suc (max_depth L) - d
             | Inr (Inr (X, L, input, n, d, prev, keys, off)) \<Rightarrow> Suc (max_depth L) - d,
         \<lambda>x. case x of Inl _ \<Rightarrow> 0 | _ \<Rightarrow> 1,
         \<lambda>x. case x of Inl _ \<Rightarrow> 0
             | Inr (Inl (X, L, input, n, d, off)) \<Rightarrow> n
             | Inr (Inr (X, L, input, n, d, prev, keys, off)) \<Rightarrow> n]") auto

declare dec_value.simps [simp del]

definition decode_canonical ::
  "externals \<Rightarrow> bytes \<Rightarrow> canonical_limits \<Rightarrow> (cvalue, canonical_error) result" where
  "decode_canonical X input L =
     (if length input > max_bytes L then Inl SizeLimit
      else and_then (dec_value X L input 0 0) (\<lambda>(v, offset).
        if offset \<noteq> length input then Inl TrailingBytes
        else and_then (encode_with_limits X v L) (\<lambda>bs.
          if bs \<noteq> input then Inl NonCanonical else Inr v)))"

end
