(* ===== verification/Canonical_Spec.thy ===== *)
theory Canonical_Spec
  imports Canonical
begin

text \<open>
  What canonical CBOR promises. \<open>enc\<close> is the encoding as a plain function of the value, \<open>fits\<close>
  says which values a profile admits, \<open>norm\<close> is the one representative a value has on the wire
  (map entries by key, non-negative integers unsigned). The bounded encoder computes \<open>enc\<close> exactly
  on admitted values; the decoder inverts it and accepts nothing else.
\<close>

section \<open>Encoding as a specification\<close>

definition head :: "u8 \<Rightarrow> u64 \<Rightarrow> bytes" where
  "head m n =
     (if n \<le> 23 then [push_bit 5 m OR ucast n]
      else if n \<le> 0xff then [push_bit 5 m OR 24, ucast n]
      else if n \<le> 0xffff then (push_bit 5 m OR 25) # be_bytes 2 n
      else if n \<le> 0xffffffff then (push_bit 5 m OR 26) # be_bytes 4 n
      else (push_bit 5 m OR 27) # be_bytes 8 n)"

fun enc :: "cvalue \<Rightarrow> bytes" where
  "enc (Unsigned n) = head 0 n"
| "enc (Signed n) = (if 0 \<le> sint n then head 0 n else head 1 (word_of_int (- 1 - sint n)))"
| "enc (Bytes bs) = head 2 (of_nat (length bs)) @ bs"
| "enc (Text s) = head 3 (of_nat (length s)) @ s"
| "enc (Array vs) = head 4 (of_nat (length vs)) @ concat (map enc vs)"
| "enc (Map es) = head 5 (of_nat (length es)) @
     concat (map (\<lambda>(k, v). head 0 k @ enc v) (sort_key fst es))"
| "enc (Bool False) = [0xf4]"
| "enc (Bool True) = [0xf5]"
| "enc Null = [0xf6]"

definition enc_entry :: "u64 \<times> cvalue \<Rightarrow> bytes" where
  "enc_entry e = head 0 (fst e) @ enc (snd e)"

lemma enc_entry_pair [simp]: "enc_entry (k, v) = head 0 k @ enc v"
  by (simp add: enc_entry_def)

lemma enc_Map: "enc (Map es) = head 5 (of_nat (length es)) @ concat (map enc_entry (sort_key fst es))"
  by (auto simp: enc_entry_def case_prod_beta intro!: arg_cong [where f = concat])

text \<open>The profile's resource limits and the value's own validity, at a nesting depth.\<close>

fun fits :: "externals \<Rightarrow> canonical_limits \<Rightarrow> nat \<Rightarrow> cvalue \<Rightarrow> bool" where
  "fits X L d v \<longleftrightarrow> d \<le> max_depth L \<and>
     (case v of
        Bytes bs \<Rightarrow> length bs \<le> max_byte_string_bytes L
      | Text s \<Rightarrow> is_nfc X s \<and> length s \<le> max_string_bytes L
      | Array vs \<Rightarrow> length vs \<le> max_collection_items L \<and> (\<forall>w \<in> set vs. fits X L (d + 1) w)
      | Map es \<Rightarrow> length es \<le> max_collection_items L \<and> distinct (map fst es) \<and>
          (\<forall>e \<in> set es. fits X L (d + 1) (snd e))
      | _ \<Rightarrow> True)"

declare fits.simps [simp del]

fun norm :: "cvalue \<Rightarrow> cvalue" where
  "norm (Signed n) = (if 0 \<le> sint n then Unsigned n else Signed n)"
| "norm (Array vs) = Array (map norm vs)"
| "norm (Map es) = Map (map (\<lambda>(k, v). (k, norm v)) (sort_key fst es))"
| "norm v = v"

text \<open>\<open>String\<close> values hold valid UTF-8: an invariant of the Rust type.\<close>

fun text_wf :: "cvalue \<Rightarrow> bool" where
  "text_wf (Text s) = utf8_valid s"
| "text_wf (Array vs) = (\<forall>v \<in> set vs. text_wf v)"
| "text_wf (Map es) = (\<forall>e \<in> set es. text_wf (snd e))"
| "text_wf _ = True"

text \<open>The limit fields are \<open>usize\<close> values.\<close>

definition limits_wf :: "canonical_limits \<Rightarrow> bool" where
  "limits_wf L \<longleftrightarrow> max_bytes L \<le> usize_max \<and> max_byte_string_bytes L \<le> usize_max \<and>
     max_string_bytes L \<le> usize_max \<and> max_collection_items L \<le> usize_max"

lemma limits_wf_metadata [simp]: "limits_wf metadata"
  and limits_wf_bulk [simp]: "limits_wf bulk"
  by (simp_all add: limits_wf_def usize_max_def)

section \<open>Sorted map entries\<close>

lemma insort_key_map_snd:
  "insort_key fst (k, f v) (map (\<lambda>(k, v). (k, f v)) xs)
   = map (\<lambda>(k, v). (k, f v)) (insort_key fst (k, v) xs)"
  by (induction xs) auto

lemma sort_key_map_snd:
  "sort_key fst (map (\<lambda>(k, v). (k, f v)) es) = map (\<lambda>(k, v). (k, f v)) (sort_key fst es)"
  by (induction es) (auto simp: insort_key_map_snd)

lemma map_insort_key: "map f (insort_key f x xs) = insort (f x) (map f xs)"
  by (induction xs) auto

lemma map_sort_key: "map f (sort_key f xs) = sort (map f xs)"
  by (induction xs) (auto simp: map_insort_key)

lemma distinct_map_sort_key [simp]: "distinct (map f (sort_key f xs)) = distinct (map f xs)"
  by (simp add: map_sort_key)

lemma windows2_any_sorted:
  "sorted xs \<Longrightarrow> windows2_any (=) xs \<longleftrightarrow> \<not> distinct xs" for xs :: "'a::linorder list"
  by (induction "(=) :: 'a \<Rightarrow> 'a \<Rightarrow> bool" xs rule: windows2_any.induct) auto

lemma windows2_any_map: "windows2_any (\<lambda>a b. p (f a) (f b)) xs = windows2_any p (map f xs)"
  by (induction "\<lambda>a b. p (f a) (f b)" xs rule: windows2_any.induct) auto

lemma windows2_any_keys:
  "windows2_any (\<lambda>a b. fst a = fst b) (sort_key fst es) \<longleftrightarrow> \<not> distinct (map fst es)"
  using windows2_any_sorted [of "map fst (sort_key fst es)"]
  by (simp add: windows2_any_map [where p = "(=)" and f = fst])

section \<open>The encoder computes the specification\<close>

lemma extend_eq:
  "limits_wf L \<Longrightarrow> extend out bs L =
     (if length out + length bs \<le> max_bytes L then Inr (out @ bs) else Inl SizeLimit)"
  by (auto simp: extend_def limits_wf_def)

lemma push_head_eq:
  "limits_wf L \<Longrightarrow> push_head out m n L =
     (if length out + length (head m n) \<le> max_bytes L then Inr (out @ head m n) else Inl SizeLimit)"
  by (auto simp: push_head_def head_def extend_eq Let_def)

lemma encode_into_iff:
  "limits_wf L \<Longrightarrow> length out \<le> max_bytes L \<Longrightarrow> encode_into X L d v out = Inr out' \<longleftrightarrow>
     fits X L d v \<and> out' = out @ enc v \<and> length out' \<le> max_bytes L"
and encode_items_iff:
  "limits_wf L \<Longrightarrow> length out \<le> max_bytes L \<Longrightarrow> encode_items X L d vs out = Inr out' \<longleftrightarrow>
     (\<forall>v \<in> set vs. fits X L d v) \<and> out' = out @ concat (map enc vs) \<and> length out' \<le> max_bytes L"
and encode_entries_iff:
  "limits_wf L \<Longrightarrow> length out \<le> max_bytes L \<Longrightarrow> encode_entries X L d es out = Inr out' \<longleftrightarrow>
     (\<forall>e \<in> set es. fits X L d (snd e)) \<and> out' = out @ concat (map enc_entry es)
     \<and> length out' \<le> max_bytes L"
proof (induction X L d v out and X L d vs out and X L d es out
    arbitrary: out' and out' and out'
    rule: encode_into_encode_items_encode_entries.induct)
  case (1 X L d v out)
  note [simp] = extend_eq [OF 1(3)] push_head_eq [OF 1(3)]
  show ?case
  proof (cases v)
    case (Array vs)
    then show ?thesis using 1
      by (auto simp: encode_into.simps fits.simps check_collection_def)
  next
    case (Map es)
    then show ?thesis using 1
      by (auto simp: encode_into.simps fits.simps check_collection_def windows2_any_keys enc_Map
           simp del: enc.simps(6))
  next
    case (Bool b)
    then show ?thesis using 1 by (cases b) (auto simp: encode_into.simps fits.simps)
  qed (use 1 in \<open>auto simp: encode_into.simps fits.simps\<close>)
next
  case (3 X L d v vs out)
  show ?case
  proof (cases "fits X L d v \<and> length out + length (enc v) \<le> max_bytes L")
    case True
    with 3 have "encode_into X L d v out = Inr (out @ enc v)" by simp
    with 3 True show ?thesis by (auto simp: add.assoc)
  next
    case False
    with 3(1,3,4) show ?thesis by auto
  qed
next
  case (5 X L d k v es out)
  show ?case
  proof (cases "fits X L d v \<and> length out + length (head 0 k) + length (enc v) \<le> max_bytes L")
    case True
    with 5(3,4) have head: "push_head out 0 k L = Inr (out @ head 0 k)"
      by (simp add: push_head_eq)
    with 5(1,3) True have "encode_into X L d v (out @ head 0 k) = Inr (out @ head 0 k @ enc v)"
      by simp
    with 5(2,3) head True show ?thesis by (auto simp: enc_entry_def add.assoc)
  next
    case False
    with 5(1,3,4) show ?thesis by (auto simp: push_head_eq enc_entry_def)
  qed
qed auto

section \<open>Head bytes\<close>

lemma head_byte_additional: "(a :: u8) < 32 \<Longrightarrow> (push_bit 5 m OR a) AND 0x1f = a"
proof -
  assume "a < 32"
  then have a: "take_bit 5 a = a" using take_bit_self_if_less [of a 5] by (simp add: word_less_nat_alt)
  have "(push_bit 5 m OR a) AND 0x1f = take_bit 5 (push_bit 5 m OR a)"
    by (simp add: take_bit_eq_mask mask_eq_exp_minus_1)
  also have "\<dots> = a"
    by (simp add: take_bit_or take_bit_push_bit a)
  finally show ?thesis .
qed

lemma head_byte_major: "(a :: u8) < 32 \<Longrightarrow> m < 8 \<Longrightarrow> drop_bit 5 (push_bit 5 m OR a) = m"
proof -
  assume "a < 32" "m < 8"
  then have a: "take_bit 5 a = a" and m: "take_bit 3 m = m"
    using take_bit_self_if_less [of a 5] take_bit_self_if_less [of m 3]
    by (simp_all add: word_less_nat_alt)
  from a have "\<not> bit a i" if "5 \<le> i" for i using that by (metis bit_take_bit_iff not_le)
  moreover from m have "i < 3" if "bit m i" for i using that by (metis bit_take_bit_iff)
  ultimately show ?thesis
    by (intro bit_word_eqI) (auto simp: bit_or_iff bit_push_bit_iff bit_drop_bit_eq)
qed

lemma head_byte_split: "push_bit 5 (drop_bit 5 b) OR (b AND 0x1f) = (b :: u8)"
proof -
  have "push_bit 5 (drop_bit 5 b) OR take_bit 5 b = b"
    by (rule bit_word_eqI) (auto simp: bit_or_iff bit_push_bit_iff bit_drop_bit_eq bit_take_bit_iff)
  then show ?thesis by (simp add: take_bit_eq_mask mask_eq_exp_minus_1)
qed

section \<open>Reading at an offset\<close>

definition at_offset :: "bytes \<Rightarrow> nat \<Rightarrow> bytes \<Rightarrow> bool" where
  "at_offset input offset bs \<longleftrightarrow>
     offset + length bs \<le> length input \<and> take (length bs) (drop offset input) = bs"

lemma at_offset_Nil [simp]: "at_offset input offset [] \<longleftrightarrow> offset \<le> length input"
  by (simp add: at_offset_def)

lemma at_offset_append [simp]:
  "at_offset input offset (as @ bs) \<longleftrightarrow>
     at_offset input offset as \<and> at_offset input (offset + length as) bs"
  by (auto simp: at_offset_def take_add add.commute add.left_commute)

lemma at_offset_single: "at_offset input offset [b] \<longleftrightarrow> offset < length input \<and> input ! offset = b"
  by (cases "offset < length input") (auto simp: at_offset_def simp flip: Cons_nth_drop_Suc)

lemma at_offset_Cons:
  "at_offset input offset (b # bs) \<longleftrightarrow> at_offset input offset [b] \<and> at_offset input (Suc offset) bs"
  using at_offset_append [of input offset "[b]" bs] by simp

lemma at_offset_zero: "at_offset input 0 bs \<longleftrightarrow> (\<exists>post. input = bs @ post)"
  unfolding at_offset_def
  by (metis append_eq_conv_conj append_take_drop_id drop0 add_0 nat_le_linear take_all)

lemma dec_byte_iff:
  "dec_byte input offset = Inr (b, next) \<longleftrightarrow> at_offset input offset [b] \<and> next = offset + 1"
  by (auto simp: dec_byte_def at_offset_single)

lemma dec_take_iff:
  "length input \<le> usize_max \<Longrightarrow> dec_take input offset len = Inr (bs, next) \<longleftrightarrow>
     at_offset input offset bs \<and> length bs = len \<and> next = offset + len"
  by (auto simp: dec_take_def at_offset_def)

lemma be_value_le:
  assumes "length bs = k" "k \<le> 7"
  shows "unat (be_value bs) < 2 ^ (8 * k)"
proof -
  have "take_bit (8 * k) (be_value bs) = be_value bs"
    using be_value_bound assms by blast
  then have "unat (be_value bs) = take_bit (8 * k) (unat (be_value bs))"
    by (metis unsigned_take_bit_eq)
  then show ?thesis by (metis take_bit_nat_less_exp)
qed

lemma be_value_be_bytes_le: "unat n < 2 ^ (8 * k) \<Longrightarrow> be_value (be_bytes k n) = n"
  by (simp add: be_value_be_bytes take_bit_self_if_less)

lemmas head_word_simps = word_le_nat_alt word_less_nat_alt head_byte_additional head_byte_major

lemma dec_head_complete:
  assumes "at_offset input offset (head m n)" "m < 8" "length input \<le> usize_max"
  shows "\<exists>b. dec_byte input offset = Inr (b, offset + 1) \<and> drop_bit 5 b = m \<and>
     dec_argument input (offset + 1) (b AND 0x1f) = Inr (n, offset + length (head m n))"
proof -
  consider "n \<le> 23" | "\<not> n \<le> 23" "n \<le> 0xff" | "\<not> n \<le> 23" "\<not> n \<le> 0xff" "n \<le> 0xffff"
    | "\<not> n \<le> 23" "\<not> n \<le> 0xff" "\<not> n \<le> 0xffff" "n \<le> 0xffffffff"
    | "\<not> n \<le> 23" "\<not> n \<le> 0xff" "\<not> n \<le> 0xffff" "\<not> n \<le> 0xffffffff"
    by blast
  then show ?thesis
  proof cases
    case 1
    then have "ucast n < (32 :: u8)" "ucast n \<le> (23 :: u8)"
      by (auto simp: word_less_nat_alt word_le_nat_alt unsigned_ucast_eq unsigned_take_bit_eq
           take_bit_nat_eq_self)
    moreover have "ucast (ucast n :: u8) = n"
      using 1 by (intro ucast_small_u8) (simp add: word_le_nat_alt)
    moreover note 1
    ultimately show ?thesis using assms
      by (intro exI [of _ "push_bit 5 m OR ucast n"])
        (simp add: head_def dec_byte_iff dec_argument_def head_byte_additional head_byte_major
           del: drop_bit_or)
  next
    case 2
    have "ucast (ucast n :: u8) = n" by (rule ucast_small_u8) (rule 2(2))
    moreover from 2 have "\<not> n \<le> 23" "\<not> n < 24" by (auto simp: word_less_nat_alt word_le_nat_alt)
    ultimately have n: "ucast (ucast n :: u8) = n" "\<not> n \<le> 23" "\<not> n < 24" by blast+
    from 2 n(2) assms have "dec_byte input offset = Inr (push_bit 5 m OR 24, offset + 1)"
      and "dec_byte input (offset + 1) = Inr (ucast n, offset + 2)"
      by (auto simp: head_def dec_byte_iff at_offset_Cons [of _ _ _ "[_]"])
    with 2 n assms(2) show ?thesis
      by (simp add: head_def dec_argument_def head_byte_additional head_byte_major del: drop_bit_or)
  next
    case 3
    then have n: "be_value (be_bytes 2 n) = n"
      by (intro be_value_be_bytes_le) (simp add: word_le_nat_alt)
    from 3 assms have "dec_byte input offset = Inr (push_bit 5 m OR 25, offset + 1)"
      and "dec_take input (offset + 1) 2 = Inr (be_bytes 2 n, offset + 3)"
      by (auto simp: head_def dec_byte_iff dec_take_iff at_offset_Cons [of _ _ _ "be_bytes _ _"])
    with 3 n assms(2) show ?thesis
      by (simp add: head_def dec_argument_def head_byte_additional head_byte_major del: drop_bit_or)
  next
    case 4
    then have n: "be_value (be_bytes 4 n) = n"
      by (intro be_value_be_bytes_le) (simp add: word_le_nat_alt)
    from 4 assms have "dec_byte input offset = Inr (push_bit 5 m OR 26, offset + 1)"
      and "dec_take input (offset + 1) 4 = Inr (be_bytes 4 n, offset + 5)"
      by (auto simp: head_def dec_byte_iff dec_take_iff at_offset_Cons [of _ _ _ "be_bytes _ _"])
    with 4 n assms(2) show ?thesis
      by (simp add: head_def dec_argument_def head_byte_additional head_byte_major del: drop_bit_or)
  next
    case 5
    then have n: "be_value (be_bytes 8 n) = n"
      using unsigned_less [of n, where ?'a = nat] by (intro be_value_be_bytes_le) simp
    from 5 assms have "dec_byte input offset = Inr (push_bit 5 m OR 27, offset + 1)"
      and "dec_take input (offset + 1) 8 = Inr (be_bytes 8 n, offset + 9)"
      by (auto simp: head_def dec_byte_iff dec_take_iff at_offset_Cons [of _ _ _ "be_bytes _ _"])
    with 5 n assms(2) show ?thesis
      by (simp add: head_def dec_argument_def head_byte_additional head_byte_major del: drop_bit_or)
  qed
qed

lemma dec_head_sound:
  assumes "dec_byte input offset = Inr (b, o1)" "dec_argument input o1 (b AND 0x1f) = Inr (n, o2)"
    and "length input \<le> usize_max"
  shows "at_offset input offset (head (drop_bit 5 b) n) \<and>
     o2 = offset + length (head (drop_bit 5 b) n)"
proof -
  let ?a = "b AND 0x1f"
  have b: "at_offset input offset [b]" "o1 = Suc offset"
    using assms(1) by (auto simp: dec_byte_iff)
  have split: "push_bit 5 (drop_bit 5 b) OR ?a = b" by (rule head_byte_split)
  note read = dec_take_iff [OF assms(3)] dec_byte_iff
  consider "?a \<le> 23" | "?a = 24" | "?a = 25" | "?a = 26" | "?a = 27"
    using assms(2) by (auto simp: dec_argument_def split: if_splits)
  then show ?thesis
  proof cases
    case 1
    then have "n = ucast ?a" "o2 = o1" "n \<le> 23"
      using assms(2) by (auto simp: dec_argument_def word_le_nat_alt unsigned_ucast_eq take_bit_nat_eq_self)
    then show ?thesis using b split by (simp add: head_def)
  next
    case 2
    then obtain c where c: "at_offset input o1 [c]" "n = ucast c" "24 \<le> n" "o2 = o1 + 1"
      using assms(2) by (auto simp: dec_argument_def read split: if_splits)
    then have "n \<le> 0xff" "\<not> n \<le> 23" using unsigned_less [of c, where ?'a = nat]
      by (auto simp: word_le_nat_alt unsigned_ucast_eq take_bit_nat_eq_self)
    with c b split 2 show ?thesis by (simp add: head_def at_offset_Cons [of _ _ _ "[_]"])
  next
    case 3
    then obtain bs where bs: "at_offset input o1 bs" "n = be_value bs" "length bs = 2"
        "0xff < n" "o2 = o1 + 2"
      using assms(2) by (auto simp: dec_argument_def read split: if_splits)
    then have "n \<le> 0xffff" "\<not> n \<le> 23" using be_value_le [of bs 2]
      by (auto simp: word_le_nat_alt word_less_nat_alt)
    moreover have "be_bytes 2 n = bs" using bs be_bytes_be_value [of bs] by simp
    ultimately show ?thesis using bs b split 3
      by (simp add: head_def at_offset_Cons [of _ _ _ bs])
  next
    case 4
    then obtain bs where bs: "at_offset input o1 bs" "n = be_value bs" "length bs = 4"
        "0xffff < n" "o2 = o1 + 4"
      using assms(2) by (auto simp: dec_argument_def read split: if_splits)
    then have "n \<le> 0xffffffff" "\<not> n \<le> 23" "\<not> n \<le> 0xff"
      using be_value_le [of bs 4] by (auto simp: word_le_nat_alt word_less_nat_alt)
    moreover have "be_bytes 4 n = bs" using bs be_bytes_be_value [of bs] by simp
    ultimately show ?thesis using bs b split 4
      by (simp add: head_def at_offset_Cons [of _ _ _ bs])
  next
    case 5
    then obtain bs where bs: "at_offset input o1 bs" "n = be_value bs" "length bs = 8"
        "0xffffffff < n" "o2 = o1 + 8"
      using assms(2) by (auto simp: dec_argument_def read split: if_splits)
    then have "\<not> n \<le> 23" "\<not> n \<le> 0xff" "\<not> n \<le> 0xffff" by (auto simp: word_le_nat_alt word_less_nat_alt)
    moreover have "be_bytes 8 n = bs" using bs be_bytes_be_value [of bs] by simp
    ultimately show ?thesis using bs b split 5
      by (simp add: head_def at_offset_Cons [of _ _ _ bs])
  qed
qed

section \<open>The decoder inverts the encoding\<close>

lemma dec_items_complete:
  assumes "\<And>v offset. v \<in> set vs \<Longrightarrow> at_offset input offset (enc v) \<Longrightarrow>
      dec_value X L input d offset = Inr (norm v, offset + length (enc v))"
    and "at_offset input offset (concat (map enc vs))"
  shows "dec_items X L input (length vs) d offset =
     Inr (map norm vs, offset + length (concat (map enc vs)))"
  using assms
proof (induction vs arbitrary: offset)
  case Nil
  then show ?case by simp
next
  case (Cons v vs)
  then have "dec_value X L input d offset = Inr (norm v, offset + length (enc v))"
    and "dec_items X L input (length vs) d (offset + length (enc v)) =
      Inr (map norm vs, offset + length (enc v) + length (concat (map enc vs)))"
    by simp_all
  then show ?case by (simp add: add.assoc)
qed

lemma dec_entries_complete:
  assumes "\<And>e offset. e \<in> set es \<Longrightarrow> at_offset input offset (enc (snd e)) \<Longrightarrow>
      dec_value X L input d offset = Inr (norm (snd e), offset + length (enc (snd e)))"
    and "at_offset input offset (concat (map enc_entry es))"
    and "sorted_wrt (<) (map fst es)"
    and "\<forall>e \<in> set es. fst e \<notin> keys \<and> (\<forall>old. previous = Some old \<longrightarrow> old < fst e)"
    and "length input \<le> usize_max"
  shows "dec_entries X L input (length es) d previous keys offset =
     Inr (map (\<lambda>(k, v). (k, norm v)) es, offset + length (concat (map enc_entry es)))"
  using assms
proof (induction es arbitrary: offset previous keys)
  case Nil
  then show ?case by simp
next
  case (Cons e es)
  obtain k v where e: "e = (k, v)" by (cases e)
  let ?o = "offset + length (head 0 k)"
  from Cons.prems(2) e have at: "at_offset input offset (head 0 k)" "at_offset input ?o (enc v)"
      "at_offset input (?o + length (enc v)) (concat (map enc_entry es))"
    by (auto simp: add.assoc)
  obtain b where b: "dec_byte input offset = Inr (b, offset + 1)" "drop_bit 5 b = 0"
      "dec_argument input (offset + 1) (b AND 0x1f) = Inr (k, ?o)"
    using dec_head_complete [OF at(1) _ Cons.prems(5)] by auto
  have v: "dec_value X L input d ?o = Inr (norm v, ?o + length (enc v))"
    using Cons.prems(1) [of e] at(2) e by simp
  have "dec_entries X L input (length es) d (Some k) (insert k keys) (?o + length (enc v)) =
      Inr (map (\<lambda>(k, v). (k, norm v)) es,
        ?o + length (enc v) + length (concat (map enc_entry es)))"
    by (rule Cons.IH) (use Cons.prems at(3) e in auto)
  then show ?case
    using b v e Cons.prems(4) by (auto simp: add.assoc split: option.splits)
qed

lemma length_sort_key_entries: "length (sort_key f xs) = length xs"
  by simp

lemma sorted_keys_strict:
  "distinct (map fst es) \<Longrightarrow> sorted_wrt (<) (map fst (sort_key fst es))"
  for es :: "(u64 \<times> 'b) list"
  by (simp add: strict_sorted_iff)

lemma signed_negative:
  assumes "sint (n :: i64) < 0"
  shows "word_of_int (- 1 - sint n) \<le> (0x7fffffffffffffff :: u64)"
    and "- 1 - word_of_int (- 1 - sint n) = n"
proof -
  have "- (2 ^ 63) \<le> sint n" using sint_ge [of n] by simp
  with assms have u: "uint (word_of_int (- 1 - sint n) :: u64) = - 1 - sint n"
    by (simp add: unsigned_of_int take_bit_int_eq_self del: of_int_diff)
  then show "word_of_int (- 1 - sint n) \<le> (0x7fffffffffffffff :: u64)"
    using \<open>- (2 ^ 63) \<le> sint n\<close> by (simp add: word_le_def del: of_int_diff)
  show "- 1 - word_of_int (- 1 - sint n) = n" by simp
qed

lemma dec_value_head:
  assumes "at_offset input offset (head m n)" "m < 8" "length input \<le> usize_max"
    "d \<le> max_depth L"
  obtains b where "dec_byte input offset = Inr (b, Suc offset)" "drop_bit 5 b = m"
    "dec_argument input (Suc offset) (b AND 0x1f) = Inr (n, offset + length (head m n))"
  using dec_head_complete [OF assms(1-3)] by auto

lemma dec_value_complete:
  assumes "fits X L d v" "text_wf v" "limits_wf L" "length input \<le> usize_max"
    and "at_offset input offset (enc v)"
  shows "dec_value X L input d offset = Inr (norm v, offset + length (enc v))"
  using assms
proof (induction X L d v arbitrary: offset rule: fits.induct)
  case (1 X L d v)
  note len = dec_length_def dec_string_length_def dec_byte_string_length_def
  from 1(3) have d: "d \<le> max_depth L" by (simp add: fits.simps)
  note head = dec_value_head [OF _ _ 1(6) d]
  note take = dec_take_iff [OF 1(6)]
  from 1(5) have usize: "max_byte_string_bytes L \<le> usize_max" "max_string_bytes L \<le> usize_max"
    "max_collection_items L \<le> usize_max" by (auto simp: limits_wf_def)
  show ?case
  proof (cases v)
    case (Unsigned n)
    with 1(7) have "at_offset input offset (head 0 n)" by simp
    then show ?thesis by (rule head) (use d Unsigned in \<open>auto simp: dec_value.simps [of _ _ _ d]\<close>)
  next
    case (Signed n)
    show ?thesis
    proof (cases "0 \<le> sint n")
      case True
      with 1(7) Signed have "at_offset input offset (head 0 n)" by simp
      then show ?thesis
        by (rule head) (use d Signed True in \<open>auto simp: dec_value.simps [of _ _ _ d]\<close>)
    next
      case False
      let ?m = "word_of_int (- 1 - sint n)"
      from False 1(7) Signed have "at_offset input offset (head 1 ?m)" by simp
      moreover from False have "\<not> ?m > (0x7fffffffffffffff :: u64)"  "- 1 - ?m = n"
        using signed_negative [of n] by (simp_all del: of_int_diff)
      ultimately show ?thesis
        using False d Signed
        by - (rule head, assumption, simp, simp add: dec_value.simps [of _ _ _ d] del: of_int_diff)
    qed
  next
    case (Bytes bs)
    with 1(3) usize have n: "length bs \<le> max_byte_string_bytes L" "length bs \<le> usize_max"
      by (auto simp: fits.simps)
    from 1(7) Bytes have at: "at_offset input offset (head 2 (of_nat (length bs)))"
      "at_offset input (offset + length (head 2 (of_nat (length bs)))) bs" by simp_all
    from at(2) have "dec_take input (offset + length (head 2 (of_nat (length bs)))) (length bs) =
        Inr (bs, offset + length (head 2 (of_nat (length bs))) + length bs)" by (simp add: take)
    with at(1) n d Bytes show ?thesis
      by - (rule head, assumption, simp, simp add: dec_value.simps [of _ _ _ d] len add.assoc)
  next
    case (Text s)
    with 1(3) usize have n: "length s \<le> max_string_bytes L" "length s \<le> usize_max" "is_nfc X s"
      by (auto simp: fits.simps)
    from 1(7) Text have at: "at_offset input offset (head 3 (of_nat (length s)))"
      "at_offset input (offset + length (head 3 (of_nat (length s)))) s" by simp_all
    from at(2) have "dec_take input (offset + length (head 3 (of_nat (length s)))) (length s) =
        Inr (s, offset + length (head 3 (of_nat (length s))) + length s)" by (simp add: take)
    with at(1) n d Text 1(4) show ?thesis
      by - (rule head, assumption, simp, simp add: dec_value.simps [of _ _ _ d] len add.assoc)
  next
    case (Array vs)
    let ?h = "head 4 (of_nat (length vs))"
    from 1(3) usize Array have n: "length vs \<le> max_collection_items L" "length vs \<le> usize_max"
      by (auto simp: fits.simps)
    from 1(7) Array have at: "at_offset input offset ?h"
      "at_offset input (offset + length ?h) (concat (map enc vs))" by simp_all
    have "dec_items X L input (length vs) (d + 1) (offset + length ?h) =
        Inr (map norm vs, offset + length ?h + length (concat (map enc vs)))"
      by (rule dec_items_complete [OF _ at(2)], rule 1(1) [OF Array])
        (use 1(3-6) Array in \<open>auto simp: fits.simps [of X L d]\<close>)
    with at(1) n d Array show ?thesis
      by - (rule head, assumption, simp, simp add: dec_value.simps [of _ _ _ d] len add.assoc)
  next
    case (Map es)
    let ?h = "head 5 (of_nat (length es))" and ?s = "sort_key fst es"
    from 1(3) usize Map have n: "length es \<le> max_collection_items L" "length es \<le> usize_max"
      and "distinct (map fst es)"
      by (auto simp: fits.simps)
    from 1(7) Map have at: "at_offset input offset ?h"
      "at_offset input (offset + length ?h) (concat (map enc_entry ?s))"
      by (simp_all add: enc_Map del: enc.simps(6))
    have "dec_entries X L input (length ?s) (d + 1) None {} (offset + length ?h) =
        Inr (map (\<lambda>(k, v). (k, norm v)) ?s, offset + length ?h + length (concat (map enc_entry ?s)))"
      by (rule dec_entries_complete [OF _ at(2)], rule 1(2) [OF Map])
        (use 1(3-6) Map sorted_keys_strict [OF \<open>distinct (map fst es)\<close>] in
          \<open>auto simp: fits.simps [of X L d]\<close>)
    with at(1) n d Map show ?thesis
      by - (rule head, assumption, simp,
          simp add: dec_value.simps [of _ _ _ d] len enc_Map add.assoc del: enc.simps(6))
  next
    case (Bool b)
    then show ?thesis using d 1(7)
      by (cases b) (auto simp: dec_value.simps [of _ _ _ d] dec_byte_def at_offset_single)
  next
    case Null
    then show ?thesis using d 1(7)
      by (auto simp: dec_value.simps [of _ _ _ d] dec_byte_def at_offset_single)
  qed
qed

section \<open>The decoder accepts only encodings\<close>

definition canonical_at :: "externals \<Rightarrow> canonical_limits \<Rightarrow> nat \<Rightarrow> cvalue \<Rightarrow> bool" where
  "canonical_at X L d v \<longleftrightarrow> fits X L d v \<and> norm v = v \<and> text_wf v"

lemma sort_key_sorted_entries:
  "sorted_wrt (<) (map fst es) \<Longrightarrow> sort_key fst es = es" for es :: "(u64 \<times> 'b) list"
  by (simp add: sort_key_id_if_sorted strict_sorted_iff)

lemma canonical_at_Array:
  "d \<le> max_depth L \<Longrightarrow> length vs \<le> max_collection_items L \<Longrightarrow>
   (\<forall>v \<in> set vs. canonical_at X L (d + 1) v) \<Longrightarrow> canonical_at X L d (Array vs)"
  by (auto simp: canonical_at_def fits.simps [of X L d] intro: map_idI)

lemma canonical_at_Map:
  "d \<le> max_depth L \<Longrightarrow> length es \<le> max_collection_items L \<Longrightarrow> sorted_wrt (<) (map fst es) \<Longrightarrow>
   (\<forall>e \<in> set es. canonical_at X L (d + 1) (snd e)) \<Longrightarrow> canonical_at X L d (Map es)"
  by (auto simp: canonical_at_def fits.simps [of X L d] sort_key_sorted_entries strict_sorted_iff
      intro!: map_idI)

lemma signed_decoded:
  assumes "n \<le> (0x7fffffffffffffff :: u64)"
  shows "sint (- 1 - n) < 0" "word_of_int (- 1 - sint (- 1 - n)) = n"
proof -
  have "uint n \<le> 0x7fffffffffffffff" using assms by (simp add: word_le_def)
  then have "sint (word_of_int (- 1 - uint n) :: u64) = - 1 - uint n"
    using uint_ge_0 [of n]
    by (simp add: signed_of_int signed_take_bit_int_eq_self order_less_le_trans [of _ 0]
        del: of_int_diff uint_ge_0)
  moreover have "- 1 - uint n < 0" using uint_ge_0 [of n] by linarith
  ultimately show "sint (- 1 - n) < 0" by simp
  show "word_of_int (- 1 - sint (- 1 - n)) = n" by simp
qed

lemma dec_value_sound:
  "length input \<le> usize_max \<Longrightarrow> dec_value X L input d offset = Inr (v, next) \<Longrightarrow>
     at_offset input offset (enc v) \<and> next = offset + length (enc v) \<and> canonical_at X L d v"
and dec_items_sound:
  "length input \<le> usize_max \<Longrightarrow> offset \<le> length input \<Longrightarrow>
   dec_items X L input n d offset = Inr (vs, next) \<Longrightarrow>
     at_offset input offset (concat (map enc vs)) \<and> next = offset + length (concat (map enc vs)) \<and>
     length vs = n \<and> (\<forall>v \<in> set vs. canonical_at X L d v)"
and dec_entries_sound:
  "length input \<le> usize_max \<Longrightarrow> offset \<le> length input \<Longrightarrow>
   dec_entries X L input n d previous keys offset = Inr (es, next) \<Longrightarrow>
     at_offset input offset (concat (map enc_entry es)) \<and>
     next = offset + length (concat (map enc_entry es)) \<and>
     length es = n \<and> (\<forall>e \<in> set es. canonical_at X L d (snd e)) \<and>
     sorted_wrt (<) (map fst es) \<and> (\<forall>e \<in> set es. \<forall>old. previous = Some old \<longrightarrow> old < fst e)"
proof (induction X L input d offset and X L input n d offset and X L input n d previous keys offset
    arbitrary: v "next" and vs "next" and es "next"
    rule: dec_value_dec_items_dec_entries.induct)
  case (1 X L input d offset)
  note IH = 1(1,2) and val = 1(4) and usize = 1(3) and len = dec_length_def dec_string_length_def dec_byte_string_length_def
  note take = dec_take_iff [OF usize]
  from 1(4) have d: "d \<le> max_depth L" by (auto simp: dec_value.simps [of _ _ _ d] split: if_splits)
  from 1(4) d obtain b where b: "dec_byte input offset = Inr (b, offset + 1)"
    by (auto simp: dec_value.simps [of _ _ _ d] dec_byte_iff)
  let ?m = "drop_bit 5 b" and ?arg = "dec_argument input (offset + 1) (b AND 0x1f)"
  note sound = dec_head_sound [OF b _ usize]
  consider "?m = 0" | "?m = 1" | "?m = 2" | "?m = 3" | "?m = 4" | "?m = 5" | "?m = 7"
    using 1(4) d b by (auto simp: dec_value.simps [of _ _ _ d] Let_def split: if_splits)
  then show ?case
  proof cases
    case 1
    with val d b
    obtain n where "?arg = Inr (n, next)" "v = Unsigned n"
      by (auto simp: dec_value.simps [of _ _ _ d])
    with sound [of n "next"] 1 d show ?thesis by (auto simp: canonical_at_def fits.simps)
  next
    case 2
    with val d b
    obtain n where "?arg = Inr (n, next)" "n \<le> 0x7fffffffffffffff" "v = Signed (- 1 - n)"
      by (auto simp: dec_value.simps [of _ _ _ d] split: if_splits)
    with sound [of n "next"] 2 d signed_decoded [of n] show ?thesis
      by (auto simp: canonical_at_def fits.simps)
  next
    case 3
    with val d b
    obtain n o2 bs where n: "?arg = Inr (n, o2)" "unat n \<le> max_byte_string_bytes L"
      "dec_take input o2 (unat n) = Inr (bs, next)" "v = Bytes bs"
      by (auto simp: dec_value.simps [of _ _ _ d] len split: if_splits)
    with sound [OF n(1)] 3 d show ?thesis by (auto simp: take canonical_at_def fits.simps add.assoc)
  next
    case 4
    with val d b
    obtain n o2 bs where n: "?arg = Inr (n, o2)" "unat n \<le> max_string_bytes L"
      "dec_take input o2 (unat n) = Inr (bs, next)" "v = Text bs" "utf8_valid bs" "is_nfc X bs"
      by (auto simp: dec_value.simps [of _ _ _ d] len split: if_splits)
    with sound [OF n(1)] 4 d show ?thesis by (auto simp: take canonical_at_def fits.simps add.assoc)
  next
    case 5
    with val d b
    obtain n o2 vs where n: "?arg = Inr (n, o2)" "unat n \<le> max_collection_items L"
      "dec_items X L input (unat n) (d + 1) o2 = Inr (vs, next)" "v = Array vs"
      by (auto simp: dec_value.simps [of _ _ _ d] len split: if_splits)
    have h: "at_offset input offset (head 4 n)" "o2 = offset + length (head 4 n)"
      and o2: "o2 \<le> length input"
      using sound [OF n(1)] 5 by (auto simp: at_offset_def)
    have "dec_length L input (offset + 1) (b AND 0x1f) = Inr (unat n, o2)"
      using n by (simp add: len not_less)
    from IH(1) [OF _ b refl refl refl _ _ _ _ _ this refl usize o2 n(3)] 5 d
    have "at_offset input o2 (concat (map enc vs))" "next = o2 + length (concat (map enc vs))"
      "length vs = unat n" "\<forall>v \<in> set vs. canonical_at X L (d + 1) v" by auto
    with h n d show ?thesis by (auto simp: add.assoc intro: canonical_at_Array)
  next
    case 6
    with val d b
    obtain n o2 es where n: "?arg = Inr (n, o2)" "unat n \<le> max_collection_items L"
      "dec_entries X L input (unat n) (d + 1) None {} o2 = Inr (es, next)" "v = Map es"
      by (auto simp: dec_value.simps [of _ _ _ d] len split: if_splits)
    have h: "at_offset input offset (head 5 n)" "o2 = offset + length (head 5 n)"
      and o2: "o2 \<le> length input"
      using sound [OF n(1)] 6 by (auto simp: at_offset_def)
    have "dec_length L input (offset + 1) (b AND 0x1f) = Inr (unat n, o2)"
      using n by (simp add: len not_less)
    from IH(2) [OF _ b refl refl refl _ _ _ _ _ _ this refl usize o2 n(3)] 6 d
    have es: "at_offset input o2 (concat (map enc_entry es))"
      "next = o2 + length (concat (map enc_entry es))" "length es = unat n"
      "\<forall>e \<in> set es. canonical_at X L (d + 1) (snd e)" "sorted_wrt (<) (map fst es)" by auto
    with h n d show ?thesis
      by (auto simp: add.assoc enc_Map sort_key_sorted_entries simp del: enc.simps(6)
          intro!: canonical_at_Map)
  next
    case 7
    have byte: "at_offset input offset [b]" using b by (simp add: dec_byte_iff)
    have split: "push_bit 5 7 OR (b AND 0x1f) = b" using head_byte_split [of b] 7 by simp
    from val d b 7 split consider "v = Bool False" "b = 0xf4" | "v = Bool True" "b = 0xf5"
      | "v = Null" "b = 0xf6"
      by (auto simp: dec_value.simps [of _ _ _ d] Let_def split: if_splits)
    moreover have "next = Suc offset"
      using val d b 7 by (auto simp: dec_value.simps [of _ _ _ d] Let_def split: if_splits)
    ultimately show ?thesis
      using byte d by cases (auto simp: canonical_at_def fits.simps)
  qed
next
  case (3 X L input n d offset)
  then obtain v vs' o1 where v: "dec_value X L input d offset = Inr (v, o1)"
      "dec_items X L input n d o1 = Inr (vs', next)" "vs = v # vs'"
    by auto
  from 3(1) [OF 3(3) v(1)] have "at_offset input offset (enc v)" "o1 = offset + length (enc v)"
    "canonical_at X L d v" by auto
  moreover from this have "o1 \<le> length input" by (simp add: at_offset_def)
  ultimately show ?case
    using 3(2) [OF v(1) refl 3(3) _ v(2)] v(3) by (auto simp: add.assoc)
next
  case (5 X L input n d previous keys offset)
  then obtain b o1 k o2 v o3 es' where
    b: "dec_byte input offset = Inr (b, o1)" "drop_bit 5 b = 0"
      "dec_argument input o1 (b AND 0x1f) = Inr (k, o2)"
    and order: "\<not> ((case previous of None \<Rightarrow> False | Some old \<Rightarrow> old \<ge> k) \<or> k \<in> keys)"
    and v: "dec_value X L input d o2 = Inr (v, o3)"
    and es: "dec_entries X L input n d (Some k) (insert k keys) o3 = Inr (es', next)"
      "es = (k, v) # es'"
    by (auto split: if_splits)
  from dec_head_sound [OF b(1,3) 5(3)] b(2)
  have h: "at_offset input offset (head 0 k)" "o2 = offset + length (head 0 k)" by auto
  from 5(1) [OF b(1) refl _ b(3) refl order 5(3) v] b(2)
  have vs: "at_offset input o2 (enc v)" "o3 = o2 + length (enc v)" "canonical_at X L d v" by auto
  then have "o3 \<le> length input" by (simp add: at_offset_def)
  from 5(2) [OF b(1) refl _ b(3) refl order v refl 5(3) this es(1)] b(2)
  have rest: "at_offset input o3 (concat (map enc_entry es'))"
    "next = o3 + length (concat (map enc_entry es'))" "length es' = n"
    "\<forall>e \<in> set es'. canonical_at X L d (snd e)" "sorted_wrt (<) (map fst es')"
    "\<forall>e \<in> set es'. k < fst e"
    by auto
  moreover have "old < k" if "previous = Some old" for old using order that by auto
  ultimately show ?case
    using h vs es(2) by (auto simp: add.assoc intro: order.strict_trans)
qed auto

section \<open>Encoding and decoding of complete values\<close>

lemma encode_with_limits_iff:
  "limits_wf L \<Longrightarrow> encode_with_limits X v L = Inr bs \<longleftrightarrow>
     fits X L 0 v \<and> bs = enc v \<and> length bs \<le> max_bytes L"
  by (auto simp: encode_with_limits_def encode_into_iff)

lemma dec_value_whole:
  assumes "limits_wf L" "length input \<le> max_bytes L"
  shows "dec_value X L input 0 0 = Inr (v, length input) \<longleftrightarrow>
     canonical_at X L 0 v \<and> input = enc v"
proof -
  have usize: "length input \<le> usize_max" using assms by (simp add: limits_wf_def)
  have "input = enc v" if "at_offset input 0 (enc v)" "length input = length (enc v)"
    using that by (auto simp: at_offset_def)
  with dec_value_sound [OF usize] dec_value_complete [OF _ _ assms(1) usize, of X 0 v 0]
  show ?thesis by (fastforce simp: canonical_at_def at_offset_def)
qed

lemma decode_canonical_eq:
  assumes "limits_wf L"
  shows "decode_canonical X input L =
    (if length input > max_bytes L then Inl SizeLimit
     else and_then (dec_value X L input 0 0) (\<lambda>(v, offset).
       if offset \<noteq> length input then Inl TrailingBytes else Inr v))"
proof (cases "length input \<le> max_bytes L \<and> (\<exists>v. dec_value X L input 0 0 = Inr (v, length input))")
  case True
  then obtain v where v: "dec_value X L input 0 0 = Inr (v, length input)" by blast
  then have "canonical_at X L 0 v" "input = enc v"
    using dec_value_whole [OF assms] True by auto
  then have "encode_with_limits X v L = Inr input"
    using True assms by (simp add: encode_with_limits_iff canonical_at_def)
  with v show ?thesis by (simp add: decode_canonical_def)
next
  case False
  then show ?thesis
    by (cases "dec_value X L input 0 0") (auto simp: decode_canonical_def)
qed

lemma decode_canonical_iff:
  assumes "limits_wf L"
  shows "decode_canonical X input L = Inr v \<longleftrightarrow>
    length input \<le> max_bytes L \<and> canonical_at X L 0 v \<and> input = enc v"
  using dec_value_whole [OF assms] by (auto simp: decode_canonical_eq [OF assms])

lemma canonical_at_norm:
  assumes "limits_wf L" "fits X L 0 v" "text_wf v" "length (enc v) \<le> max_bytes L"
  shows "canonical_at X L 0 (norm v) \<and> enc (norm v) = enc v"
proof -
  have "length (enc v) \<le> usize_max" using assms by (simp add: limits_wf_def)
  then have "dec_value X L (enc v) 0 0 = Inr (norm v, length (enc v))"
    using dec_value_complete [OF assms(2,3,1)] by (simp add: at_offset_def)
  then show ?thesis using dec_value_whole [OF assms(1,4)] by simp
qed

lemma limits_wf_restricted [simp]: "limits_wf (restricted_by L bulk)"
  "limits_wf (restricted_by L metadata)"
  by (auto simp: limits_wf_def restricted_by_def min_usize_def usize_max_def)

text \<open>
  The admission profile of every caller is its own limits capped by the bulk ceiling; under any
  such profile canonical CBOR is a codec.
\<close>

interpretation canonical_cbor: codec
  "\<lambda>v. encode_with_limits X v (restricted_by L bulk)"
  "\<lambda>bs. decode_canonical X bs (restricted_by L bulk)" norm text_wf for X L
proof unfold_locales
  fix v bs
  assume "text_wf v" "encode_with_limits X v (restricted_by L bulk) = Inr bs"
  then show "decode_canonical X bs (restricted_by L bulk) = Inr (norm v)"
    using canonical_at_norm [of "restricted_by L bulk" X v]
    by (auto simp: encode_with_limits_iff decode_canonical_iff)
next
  fix bs v
  assume "decode_canonical X bs (restricted_by L bulk) = Inr v"
  then show "text_wf v \<and> norm v = v \<and> encode_with_limits X v (restricted_by L bulk) = Inr bs"
    by (auto simp: encode_with_limits_iff decode_canonical_iff canonical_at_def)
qed

section \<open>Properties\<close>

text \<open>What evaluates encodings of concrete values.\<close>

lemmas canonical_eval =
  encode_with_limits_iff fits.simps head_def

lemma fits_restricted:
  "fits X (restricted_by K L) d v \<longleftrightarrow> fits X K d v \<and> fits X L d v"
proof (induction X L d v rule: fits.induct)
  case (1 X L d v)
  show ?case
  proof (cases v)
    case (Array vs)
    with 1(1) show ?thesis
      by (auto simp: fits.simps [of X _ d] restricted_by_def min_usize_def)
  next
    case (Map es)
    with 1(2) show ?thesis
      by (auto simp: fits.simps [of X _ d] restricted_by_def min_usize_def)
  qed (auto simp: fits.simps [of X _ d] restricted_by_def min_usize_def)
qed

lemma limits_wf_restricted_by: "limits_wf K \<Longrightarrow> limits_wf L \<Longrightarrow> limits_wf (restricted_by K L)"
  by (auto simp: limits_wf_def restricted_by_def min_usize_def)

text \<open>
  C9: Encode then decode. Whatever value the bounded encoder accepts under a profile, the decoder
  accepts its bytes under the same profile and returns the value with map entries in key order and
  non-negative signed integers as unsigned ones.
\<close>

theorem canonical_roundtrip:
  assumes "limits_wf L" "text_wf v" "encode_with_limits X v L = Inr bs"
  shows "decode_canonical X bs L = Inr (norm v)"
  using assms canonical_at_norm [of L X v]
  by (auto simp: encode_with_limits_iff decode_canonical_iff)

theorem canonical_roundtrip_witness:
  "decode_canonical sample_externals [0xa2, 0x01, 0x05, 0x02, 0x62, 0x68, 0x69] metadata =
     Inr (norm (Map [(2, Text [0x68, 0x69]), (1, Signed 5)]))"
  by (rule canonical_roundtrip [OF limits_wf_metadata])
    (simp, simp add: canonical_eval word_le_nat_alt)

text \<open>
  C5: The decoder's language. Bytes are accepted exactly when they are the encoding of a value that
  fits the profile, is its own representative and holds valid UTF-8, so no second byte string
  decodes to the same value.
\<close>

theorem canonical_decode_accepts_iff:
  assumes "limits_wf L"
  shows "decode_canonical X input L = Inr v \<longleftrightarrow>
    length input \<le> max_bytes L \<and> fits X L 0 v \<and> norm v = v \<and> text_wf v \<and> input = enc v"
  using decode_canonical_iff [OF assms] by (auto simp: canonical_at_def)

theorem canonical_decode_accepts_iff_witness:
  "decode_canonical sample_externals [0x18, 0x2a] metadata = Inr (Unsigned 42) \<longleftrightarrow>
    length [0x18, 0x2a :: u8] \<le> max_bytes metadata \<and> fits sample_externals metadata 0 (Unsigned 42) \<and>
    norm (Unsigned 42) = Unsigned 42 \<and> text_wf (Unsigned 42) \<and> [0x18, 0x2a] = enc (Unsigned 42)"
  by (rule canonical_decode_accepts_iff [OF limits_wf_metadata])

text \<open>
  The final re-encoding comparison of \<open>decode_canonical\<close> never rejects: an input that the
  decoder consumes completely is already canonical, so \<open>NonCanonical\<close> is unreachable and the
  result is that of the parse alone.
\<close>

theorem canonical_recheck_redundant:
  assumes "limits_wf L"
  shows "decode_canonical X input L =
    (if length input > max_bytes L then Inl SizeLimit
     else and_then (dec_value X L input 0 0) (\<lambda>(v, offset).
       if offset \<noteq> length input then Inl TrailingBytes else Inr v))"
  by (rule decode_canonical_eq [OF assms])

theorem canonical_recheck_redundant_witness:
  "decode_canonical sample_externals [0xf6] bulk =
    (if length [0xf6 :: u8] > max_bytes bulk then Inl SizeLimit
     else and_then (dec_value sample_externals bulk [0xf6] 0 0) (\<lambda>(v, offset).
       if offset \<noteq> length [0xf6 :: u8] then Inl TrailingBytes else Inr v))"
  by (rule canonical_recheck_redundant [OF limits_wf_bulk])

text \<open>
  C24: Encoder admission. Encoding succeeds exactly on values that fit the profile (depth, string and
  collection limits, normalised text, no repeated map key) and whose encoding fits \<open>max_bytes\<close>; the
  output is then the specified encoding.
\<close>

theorem canonical_encode_iff:
  assumes "limits_wf L"
  shows "encode_with_limits X v L = Inr bs \<longleftrightarrow>
     fits X L 0 v \<and> bs = enc v \<and> length bs \<le> max_bytes L"
  by (rule encode_with_limits_iff [OF assms])

theorem canonical_encode_iff_witness:
  "encode_with_limits sample_externals (Array [Null]) metadata = Inr [0x81, 0xf6] \<longleftrightarrow>
     fits sample_externals metadata 0 (Array [Null]) \<and> [0x81, 0xf6] = enc (Array [Null]) \<and>
     length [0x81, 0xf6 :: u8] \<le> max_bytes metadata"
  by (rule canonical_encode_iff [OF limits_wf_metadata])

text \<open>
  Self-delimiting. Appending anything to a canonical encoding is reported as trailing bytes, so
  no encoding is a proper prefix of another.
\<close>

theorem canonical_trailing_bytes:
  assumes "limits_wf L" "text_wf v" "encode_with_limits X v L = Inr bs"
    and "extra \<noteq> []" "length (bs @ extra) \<le> max_bytes L"
  shows "decode_canonical X (bs @ extra) L = Inl TrailingBytes"
proof -
  have bs: "fits X L 0 v" "bs = enc v" using assms by (auto simp: encode_with_limits_iff)
  have "length (bs @ extra) \<le> usize_max" using assms by (simp add: limits_wf_def)
  then have "dec_value X L (bs @ extra) 0 0 = Inr (norm v, length bs)"
    using dec_value_complete [OF bs(1) assms(2,1)] bs(2) by (simp add: at_offset_def)
  then show ?thesis using assms by (simp add: decode_canonical_eq [OF assms(1)])
qed

theorem canonical_trailing_bytes_witness:
  "decode_canonical sample_externals ([0xf5] @ [0x00]) metadata = Inl TrailingBytes"
  by (rule canonical_trailing_bytes [OF limits_wf_metadata, of "Bool True"])
    (simp_all add: canonical_eval)

text \<open>
  \<open>restricted_by\<close> is the meet of two profiles: a value encodes under the combination exactly when
  it encodes under both, with the same bytes.
\<close>

theorem restricted_by_meet:
  assumes "limits_wf K" "limits_wf L"
  shows "encode_with_limits X v (restricted_by K L) = Inr bs \<longleftrightarrow>
     encode_with_limits X v K = Inr bs \<and> encode_with_limits X v L = Inr bs"
  using assms by (auto simp: encode_with_limits_iff limits_wf_restricted_by fits_restricted)
    (auto simp: restricted_by_def min_usize_def split: if_splits)

theorem restricted_by_meet_witness:
  "encode_with_limits sample_externals Null (restricted_by bulk metadata) = Inr [0xf6] \<longleftrightarrow>
     encode_with_limits sample_externals Null bulk = Inr [0xf6] \<and>
     encode_with_limits sample_externals Null metadata = Inr [0xf6]"
  by (rule restricted_by_meet [OF limits_wf_bulk limits_wf_metadata])

end
