(* ===== verification/Ident.thy ===== *)
theory Ident
  imports Prelude "HOL-Library.Product_Lexorder"
begin

text \<open>
  Object identifiers, \<open>crates/rgit-objects/src/id.rs\<close>: the varint coding of the header fields, the
  domain-separated digest preimage, the binary and the text form of an identifier, and the derived
  order that sorted collections use. Varints are specified on natural numbers by \<open>varint\<close>.
\<close>

section \<open>Identifiers and errors\<close>

datatype hash_algorithm = Sha256 | Blake3_256

primrec hash_code :: "hash_algorithm \<Rightarrow> u64" where
  "hash_code Sha256 = 0x12"
| "hash_code Blake3_256 = 0x1e"

datatype object_id =
  ObjectId (format_version: u64) (algorithm: hash_algorithm) (digest: bytes)

datatype object_id_error =
    Prefix | Base32 | Format u64 | Algorithm u64 | DigestLength u64 | Length | NonMinimalVarint

text \<open>The digest is a \<open>[u8; 32]\<close> and every constructor of the module sets format 0.\<close>

definition oid_wf :: "object_id \<Rightarrow> bool" where
  "oid_wf i \<longleftrightarrow> format_version i = 0 \<and> length (digest i) = 32"

text \<open>The derived \<open>Ord\<close>: fields in declaration order.\<close>

instantiation hash_algorithm :: linorder
begin

definition less_eq_hash_algorithm :: "hash_algorithm \<Rightarrow> hash_algorithm \<Rightarrow> bool" where
  "less_eq_hash_algorithm a b \<longleftrightarrow> a = Sha256 \<or> b = Blake3_256"

definition less_hash_algorithm :: "hash_algorithm \<Rightarrow> hash_algorithm \<Rightarrow> bool" where
  "less_hash_algorithm a b \<longleftrightarrow> a = Sha256 \<and> b = Blake3_256"

instance
proof (standard, goal_cases)
  case (1 x y) then show ?case
    by (cases x; cases y) (simp_all add: less_eq_hash_algorithm_def less_hash_algorithm_def)
next
  case (2 x) then show ?case by (cases x) (simp_all add: less_eq_hash_algorithm_def)
next
  case (3 x y z) then show ?case by (cases y) (auto simp: less_eq_hash_algorithm_def)
next
  case (4 x y) then show ?case by (cases x; cases y) (auto simp: less_eq_hash_algorithm_def)
next
  case (5 x y) then show ?case by (cases x; cases y) (simp_all add: less_eq_hash_algorithm_def)
qed

end

definition oid_key :: "object_id \<Rightarrow> u64 \<times> hash_algorithm \<times> bytes" where
  "oid_key i = (format_version i, algorithm i, digest i)"

lemma oid_key_inj: "oid_key i = oid_key j \<longleftrightarrow> i = j"
  by (auto simp: oid_key_def intro: object_id.expand)

instantiation object_id :: linorder
begin

definition less_eq_object_id :: "object_id \<Rightarrow> object_id \<Rightarrow> bool" where
  "less_eq_object_id i j \<longleftrightarrow> oid_key i \<le> oid_key j"

definition less_object_id :: "object_id \<Rightarrow> object_id \<Rightarrow> bool" where
  "less_object_id i j \<longleftrightarrow> oid_key i < oid_key j"

instance
  by standard (auto simp: less_eq_object_id_def less_object_id_def simp flip: oid_key_inj)

end

section \<open>Varints\<close>

lemma unat_shift7: "unat (drop_bit 7 (v :: u64)) = unat v div 128"
  by (simp add: drop_bit_eq_div unat_div_distrib)

function push_varint :: "bytes \<Rightarrow> u64 \<Rightarrow> bytes" where
  "push_varint out value =
     (let byte = ucast (value AND 0x7f) :: u8;
          value = drop_bit 7 value;
          byte = (if value \<noteq> 0 then byte OR 0x80 else byte);
          out = out @ [byte]
      in if value = 0 then out else push_varint out value)"
  by pat_completeness auto
termination
proof (relation "measure (\<lambda>(out, value). unat value)")
  fix out and v v' :: u64
  assume v: "v' = drop_bit 7 v" "v' \<noteq> 0"
  then have "unat v' = unat v div 128"
    by (simp only: unat_shift7)
  moreover from v have "unat v' \<noteq> 0" by (simp add: unsigned_eq_0_iff)
  ultimately have "unat v' < unat v" by (cases "unat v = 0") auto
  then show "((out', v'), out, v) \<in> measure (\<lambda>(out, value). unat value)" for out'
    by simp
qed simp

declare push_varint.simps [simp del]

text \<open>The loop of \<open>read_varint\<close> over the shifts 0, 7, \<dots>, 63.\<close>

fun read_varint_loop ::
  "bytes \<Rightarrow> nat \<Rightarrow> nat list \<Rightarrow> nat \<Rightarrow> u64 \<Rightarrow> (u64 \<times> nat, object_id_error) result" where
  "read_varint_loop bs start [] at acc = Inl Length"
| "read_varint_loop bs start (shift # shifts) at acc =
     (if \<not> at < length bs then Inl Length
      else
        let byte = bs ! at; at = at + 1 in
        if shift = 63 \<and> byte > 1 then Inl Length
        else
          let acc = acc OR push_bit shift (ucast (byte AND 0x7f)) in
          if byte AND 0x80 = 0 then
            (if length (push_varint [] acc) \<noteq> at - start then Inl NonMinimalVarint
             else Inr (acc, at))
          else read_varint_loop bs start shifts at acc)"

definition varint_shifts :: "nat list" where
  "varint_shifts = [0, 7, 14, 21, 28, 35, 42, 49, 56, 63]"

definition read_varint :: "bytes \<Rightarrow> nat \<Rightarrow> (u64 \<times> nat, object_id_error) result" where
  "read_varint bs at = read_varint_loop bs at varint_shifts at 0"

section \<open>Preimage, binary and text form\<close>

text \<open>The bytes of \<open>RGIT-OBJECT\0\<close>.\<close>

definition object_domain :: bytes where
  "object_domain = [0x52, 0x47, 0x49, 0x54, 0x2d, 0x4f, 0x42, 0x4a, 0x45, 0x43, 0x54, 0x00]"

definition preimage :: "u64 \<Rightarrow> u64 \<Rightarrow> bytes \<Rightarrow> bytes" where
  "preimage kind schema_version payload =
     (let out = object_domain;
          out = push_varint out kind;
          out = push_varint out schema_version
      in out @ payload)"

definition from_payload ::
  "externals \<Rightarrow> u64 \<Rightarrow> u64 \<Rightarrow> bytes \<Rightarrow> hash_algorithm \<Rightarrow> object_id" where
  "from_payload X kind schema_version payload alg =
     (let p = preimage kind schema_version payload;
          d = (case alg of Sha256 \<Rightarrow> sha256 X p | Blake3_256 \<Rightarrow> blake3 X p)
      in ObjectId 0 alg d)"

definition to_bytes :: "object_id \<Rightarrow> bytes" where
  "to_bytes i =
     (let out = push_varint [] (format_version i);
          out = push_varint out (hash_code (algorithm i));
          out = push_varint out 32
      in out @ digest i)"

definition algorithm_of_code :: "u64 \<Rightarrow> (hash_algorithm, object_id_error) result" where
  "algorithm_of_code code =
     (if code = 0x12 then Inr Sha256
      else if code = 0x1e then Inr Blake3_256
      else Inl (Algorithm code))"

definition from_bytes :: "bytes \<Rightarrow> (object_id, object_id_error) result" where
  "from_bytes bs =
     and_then (read_varint bs 0) (\<lambda>(fmt, at).
       if fmt \<noteq> 0 then Inl (Format fmt)
       else and_then (read_varint bs at) (\<lambda>(code, at).
         and_then (algorithm_of_code code) (\<lambda>alg.
         and_then (read_varint bs at) (\<lambda>(len, at).
           if len \<noteq> 32 then Inl (DigestLength len)
           else if length bs \<noteq> at + 32 then Inl Length
           else Inr (ObjectId fmt alg (drop at bs))))))"

definition ascii_lower :: "u8 \<Rightarrow> u8" where
  "ascii_lower c = (if 0x41 \<le> c \<and> c \<le> 0x5a then c + 0x20 else c)"

definition ascii_upper :: "u8 \<Rightarrow> u8" where
  "ascii_upper c = (if 0x61 \<le> c \<and> c \<le> 0x7a then c - 0x20 else c)"

definition display :: "externals \<Rightarrow> object_id \<Rightarrow> bytes" where
  "display X i = [0x72, 0x67, 0x30, 0x5f] @ map ascii_lower (base32_encode X (to_bytes i))"

definition strip_prefix :: "bytes \<Rightarrow> bytes \<Rightarrow> bytes option" where
  "strip_prefix p s = (if take (length p) s = p then Some (drop (length p) s) else None)"

definition from_str :: "externals \<Rightarrow> bytes \<Rightarrow> (object_id, object_id_error) result" where
  "from_str X s =
     and_then (ok_or (case strip_prefix [0x72, 0x67, 0x30, 0x5f] s of
                        Some e \<Rightarrow> Some e
                      | None \<Rightarrow> strip_prefix [0x52, 0x47, 0x30, 0x5f] s) Prefix) (\<lambda>encoded.
     and_then (ok_or (base32_decode X (map ascii_upper encoded)) Base32) (\<lambda>bs.
       from_bytes bs))"


section \<open>Varint specification\<close>

text \<open>Base-128 digits, least significant first, with the continuation bit on all but the last.\<close>

fun varint :: "nat \<Rightarrow> bytes" where
  "varint n = (if n < 128 then [of_nat n] else of_nat (n mod 128 + 128) # varint (n div 128))"

declare varint.simps [simp del]

primrec varint_value :: "bytes \<Rightarrow> nat" where
  "varint_value [] = 0"
| "varint_value (b # bs) = unat b mod 128 + 128 * varint_value bs"

text \<open>The shape the reader consumes: continuation bytes, then one byte without the bit.\<close>

fun varint_shape :: "bytes \<Rightarrow> bool" where
  "varint_shape [] = False"
| "varint_shape [b] = (unat b < 128)"
| "varint_shape (b # bs) = (128 \<le> unat b \<and> varint_shape bs)"

lemma varint_ne [simp]: "varint n \<noteq> []"
  by (subst varint.simps) simp

lemma unat_of_nat_u8: "n < 256 \<Longrightarrow> unat (of_nat n :: u8) = n"
  by (simp add: unat_of_nat take_bit_nat_eq_self)

lemma unat_continuation: "unat (of_nat (n mod 128) + 128 :: u8) = n mod 128 + 128"
  using unat_of_nat_u8 [of "n mod 128 + 128"] by (simp add: order.strict_trans [OF mod_less_divisor])

lemma varint_shape_Cons: "bs \<noteq> [] \<Longrightarrow> varint_shape (b # bs) \<longleftrightarrow> 128 \<le> unat b \<and> varint_shape bs"
  by (cases bs) auto

lemma varint_shape_varint [simp]: "varint_shape (varint n)"
  by (induction n rule: varint.induct)
    (subst varint.simps, simp add: unat_of_nat_u8 unat_continuation varint_shape_Cons)

lemma varint_value_varint [simp]: "varint_value (varint n) = n"
  by (induction n rule: varint.induct)
    (subst varint.simps, simp add: unat_of_nat_u8 unat_continuation mod_add_self2)

lemma varint_inj: "varint m = varint n \<longleftrightarrow> m = n"
  by (metis varint_value_varint)

lemma varint_self_delimiting:
  assumes "varint_shape xs" "varint_shape ys" "xs @ as = ys @ bs"
  shows "xs = ys \<and> as = bs"
  using assms
proof (induction xs arbitrary: ys rule: varint_shape.induct)
  case (2 b)
  then show ?case by (cases ys rule: varint_shape.cases) auto
next
  case (3 b c cs)
  then show ?case by (cases ys rule: varint_shape.cases) auto
qed simp

lemma varint_append_eq: "varint m @ as = varint n @ bs \<longleftrightarrow> m = n \<and> as = bs"
  using varint_self_delimiting [of "varint m" "varint n" as bs] by (auto simp: varint_inj)

lemma varint_minimal:
  "varint_shape bs \<Longrightarrow> length (varint (varint_value bs)) = length bs \<Longrightarrow> varint (varint_value bs) = bs"
proof (induction bs rule: varint_shape.induct)
  case (2 b)
  then show ?case by (simp add: varint.simps)
next
  case (3 b c cs)
  let ?v = "varint_value (c # cs)"
  have b: "128 \<le> unat b" "unat b < 256" "varint_shape (c # cs)"
    using "3.prems" unsigned_less [of b, where ?'a = nat] by auto
  have nz: "?v \<noteq> 0"
  proof
    assume "?v = 0"
    then have "length (varint (varint_value (b # c # cs))) = 1"
      by (subst varint.simps) simp
    with "3.prems" show False by simp
  qed
  moreover have "of_nat (unat b mod 128 + 128) = b"
    using b le_mod_geq [of 128 "unat b"] by (simp del: of_nat_add)
  moreover have "unat b mod 128 < 128" by simp
  ultimately have step: "varint (varint_value (b # c # cs)) = b # varint ?v"
    by (subst varint.simps) (simp del: of_nat_add varint_value.simps(2) add: varint_value.simps(2) [of b])
  with "3.prems" b "3.IH" show ?case by simp
qed simp

lemma varint_value_less: "varint_value bs < 128 ^ length bs"
  by (induction bs) (simp, fastforce)

lemma varint_length:
  "n < 128 ^ k \<Longrightarrow> 0 < k \<Longrightarrow> length (varint n) \<le> k"
proof (induction n arbitrary: k rule: varint.induct)
  case (1 n)
  show ?case
  proof (cases "n < 128")
    case True
    then show ?thesis using 1 by (subst varint.simps) simp
  next
    case False
    with 1 obtain j where k: "k = Suc j" "0 < j" by (cases k; cases "k - 1") auto
    with 1 have "n div 128 < 128 ^ j" by (simp add: less_mult_imp_div_less)
    with 1 False k have "length (varint (n div 128)) \<le> j" by blast
    with False k show ?thesis by (subst varint.simps) simp
  qed
qed

section \<open>The loops against the specification\<close>

lemma unat_and_mask7: "unat ((b :: 'a::len word) AND mask 7) = unat b mod 128"
  using unsigned_take_bit_eq [of 7 b, where ?'a = nat]
  unfolding take_bit_eq_mod [of 7 "unat b"] unfolding take_bit_eq_mask by simp

lemma mask7: "(0x7f :: 'a::len word) = mask 7"
  by (simp add: mask_eq_exp_minus_1)

lemma low7: "ucast ((v :: u64) AND 0x7f) = (of_nat (unat v mod 128) :: u8)"
  by (rule unsigned_word_eqI [where ?'a = nat])
    (simp add: unsigned_ucast_eq mask7 unat_and_mask7 unat_of_nat_u8 take_bit_nat_eq_self
       order.strict_trans [OF mod_less_divisor])


lemma or_push_bit:
  assumes "unat (a :: 'a::len word) < 2 ^ s"
  shows "a OR push_bit s x = a + push_bit s x"
proof -
  have "bit a n \<Longrightarrow> n < s" for n
    using take_bit_self_if_less [OF assms] by (metis bit_take_bit_iff)
  then have "a AND push_bit s x = 0"
    by (intro bit_word_eqI) (auto simp: bit_and_iff bit_push_bit_iff dest!: leD)
  then show ?thesis by (simp add: disjunctive_add_eq_or)
qed

lemma or_bit7: "c < 128 \<Longrightarrow> (of_nat c :: u8) OR 0x80 = of_nat (c + 0x80)"
  using or_push_bit [of "of_nat c :: u8" 7 1] by (simp add: unat_of_nat_u8)

lemma push_varint_eq: "push_varint out v = out @ varint (unat v)"
proof (induction out v rule: push_varint.induct)
  case (1 out v)
  have "drop_bit 7 v = 0 \<longleftrightarrow> unat v div 128 = 0"
    by (metis unat_shift7 unsigned_eq_0_iff)
  with 1 show ?case
    by (subst push_varint.simps, subst varint.simps)
      (auto simp: Let_def low7 or_bit7 unat_shift7 div_eq_0_iff simp del: of_nat_add)
qed

text \<open>One round of the reader: the new bits lie above those read so far.\<close>

lemma unat_accumulate:
  assumes "unat (acc :: u64) < 2 ^ s" "unat acc + x * 2 ^ s < 2 ^ 64"
  shows "unat (acc OR push_bit s (of_nat x)) = unat acc + x * 2 ^ s"
proof -
  have "acc OR push_bit s (of_nat x) = of_nat (unat acc + x * 2 ^ s)"
    unfolding or_push_bit [OF assms(1)] by (simp add: push_bit_eq_mult)
  also have "unat \<dots> = unat acc + x * 2 ^ s"
    using assms(2) by (simp only: unat_of_nat) (simp add: take_bit_nat_eq_self)
  finally show ?thesis .
qed

lemma ucast_low7: "ucast ((b :: u8) AND 0x7f) = (of_nat (unat b mod 128) :: u64)"
  by (rule unsigned_word_eqI [where ?'a = nat])
    (simp add: unsigned_ucast_eq mask7 unat_and_mask7 unat_of_nat take_bit_nat_eq_self
       order.strict_trans [OF mod_less_divisor])

lemma and_bit7: "(b :: u8) AND 0x80 = 0 \<longleftrightarrow> unat b < 128"
proof -
  have "b AND 0x80 = 0 \<longleftrightarrow> \<not> bit b 7"
    using and_exp_eq_0_iff_not_bit [of b 7] by simp
  also have "bit b 7 \<longleftrightarrow> odd (unat b div 128)"
    using bit_unsigned_iff [of b 7, where ?'a = nat] by (simp add: bit_iff_odd)
  also have "odd (unat b div 128) \<longleftrightarrow> 128 \<le> unat b"
  proof (cases "unat b < 128")
    case False
    then have "unat b div 128 = 1"
      using unsigned_less [of b, where ?'a = nat] by (intro div_nat_eqI) simp_all
    with False show ?thesis by simp
  qed simp
  finally show ?thesis by auto
qed

text \<open>
  The reader from shift \<open>s\<close> on: it succeeds with the value of the bytes it consumed added above
  the accumulated bits.
\<close>

definition shifts_from :: "nat \<Rightarrow> nat list" where
  "shifts_from k = map ((*) 7) [k..<10]"

lemma varint_shifts_eq: "varint_shifts = shifts_from 0"
  by (simp add: varint_shifts_def shifts_from_def upt_rec)

lemma shifts_from_step: "k < 10 \<Longrightarrow> shifts_from k = 7 * k # shifts_from (Suc k)"
  and shifts_from_end: "\<not> k < 10 \<Longrightarrow> shifts_from k = []"
  by (simp_all add: shifts_from_def upt_rec)

lemma varint_prefix_unfold:
  "(\<exists>cs. varint_shape cs \<and> take (length cs) (drop at bs) = cs \<and> P cs) \<longleftrightarrow>
    at < length bs \<and>
    (if unat (bs ! at) < 128 then P [bs ! at]
     else \<exists>cs. varint_shape cs \<and> take (length cs) (drop (Suc at) bs) = cs \<and> P (bs ! at # cs))"
  (is "?L \<longleftrightarrow> ?R")
proof
  assume ?L
  then obtain b cs where c: "varint_shape (b # cs)" "take (length (b # cs)) (drop at bs) = b # cs"
      "P (b # cs)"
    by (metis varint_shape.simps(1) neq_Nil_conv)
  then have at: "at < length bs" by (cases "at < length bs") auto
  with c have "b = bs ! at" "take (length cs) (drop (Suc at) bs) = cs"
    by (simp_all add: Cons_nth_drop_Suc [symmetric])
  with c at show ?R by (cases cs) auto
next
  assume R: ?R
  then have d: "drop at bs = bs ! at # drop (Suc at) bs"
    by (simp add: Cons_nth_drop_Suc)
  show ?L
  proof (cases "unat (bs ! at) < 128")
    case True
    with R d show ?L by (intro exI [of _ "[bs ! at]"]) simp
  next
    case False
    with R obtain cs where "varint_shape cs" "take (length cs) (drop (Suc at) bs) = cs" "P (bs ! at # cs)"
      by auto
    with False d show ?L by (intro exI [of _ "bs ! at # cs"]) (cases cs; simp)
  qed
qed

lemma varint_length_u64: "length (varint (unat (v :: u64))) \<le> 10"
  using unsigned_less [of v, where ?'a = nat] by (intro varint_length) simp_all

lemma digit_bound: "a < 2 ^ (7 * k) \<Longrightarrow> x < 128 \<Longrightarrow> a + x * 2 ^ (7 * k) < (2 :: nat) ^ (7 * Suc k)"
proof -
  assume "a < 2 ^ (7 * k)" "x < 128"
  then have "a + x * 2 ^ (7 * k) < (x + 1) * 2 ^ (7 * k)" by simp
  also have "\<dots> \<le> 128 * 2 ^ (7 * k)" using \<open>x < 128\<close> by (intro mult_right_mono) auto
  finally show ?thesis by (simp add: power_add)
qed

lemma read_varint_loop_iff:
  assumes "unat acc < 2 ^ (7 * k)" "k \<le> 10" "at = start + k"
  shows "read_varint_loop bs start (shifts_from k) at acc = Inr (v, at') \<longleftrightarrow>
    (\<exists>cs. varint_shape cs \<and> take (length cs) (drop at bs) = cs \<and> at' = at + length cs \<and>
       unat v = unat acc + varint_value cs * 2 ^ (7 * k) \<and> length (varint (unat v)) = at' - start)"
  using assms
proof (induction "10 - k" arbitrary: k at acc)
  case 0
  then have k: "k = 10" by simp
  have "False" if "varint_shape cs" "length (varint (unat v)) = at + length cs - start" for cs
    using that varint_length_u64 [of v] "0.prems"(3) k by (cases cs) auto
  then show ?case by (auto simp only: k shifts_from_end) (auto simp: shifts_from_end)
next
  case (Suc j)
  define b where "b = bs ! at"
  define acc' :: u64 where "acc' = acc OR push_bit (7 * k) (ucast (b AND 0x7f))"
  have k: "k < 10" "k \<le> 9" using Suc.hyps by auto
  have unfold: "read_varint_loop bs start (shifts_from k) at acc = Inr (v, at') \<longleftrightarrow>
     at < length bs \<and> \<not> (k = 9 \<and> 1 < b) \<and>
     (if unat b < 128 then length (varint (unat acc')) = Suc at - start \<and> v = acc' \<and> at' = Suc at
      else read_varint_loop bs start (shifts_from (Suc k)) (Suc at) acc' = Inr (v, at'))"
    using k by (auto simp: shifts_from_step Let_def and_bit7 push_varint_eq acc'_def b_def)
  have acc': "unat acc' = unat acc + unat b mod 128 * 2 ^ (7 * k)"
    if "unat acc + unat b mod 128 * 2 ^ (7 * k) < 2 ^ 64"
    unfolding acc'_def ucast_low7 by (rule unat_accumulate [OF Suc.prems(1) that])
  have le8: "unat acc + unat b mod 128 * 2 ^ (7 * k) < 2 ^ (7 * Suc k)"
    by (rule digit_bound [OF Suc.prems(1)]) simp
  show ?case
  proof (cases "k = 9")
    case False
    then have "(2 :: nat) ^ (7 * Suc k) \<le> 2 ^ 64" using k by (intro power_increasing) auto
    then have a: "unat acc' = unat acc + unat b mod 128 * 2 ^ (7 * k)"
      using acc' le8 by linarith
    with le8 have IH: "read_varint_loop bs start (shifts_from (Suc k)) (Suc at) acc' = Inr (v, at') \<longleftrightarrow>
      (\<exists>cs. varint_shape cs \<and> take (length cs) (drop (Suc at) bs) = cs \<and> at' = Suc at + length cs \<and>
       unat v = unat acc' + varint_value cs * 2 ^ (7 * Suc k) \<and> length (varint (unat v)) = at' - start)"
      using Suc.hyps(2) Suc.prems k by (intro Suc.hyps(1)) auto
    show ?thesis
      unfolding unfold varint_prefix_unfold [of at] IH b_def [symmetric]
      using False a unsigned_word_eqI [of v acc', where ?'a = nat]
      by (auto simp: algebra_simps power_add)
  next
    case True
    have v: "unat v < 2 ^ 64" using unsigned_less [of v, where ?'a = nat] by simp
    have gt: "1 < b \<longleftrightarrow> 1 < unat b" by (simp add: word_less_nat_alt)
    consider "unat b \<le> 1" | "1 < unat b" "unat b < 128" | "128 \<le> unat b" by linarith
    then show ?thesis
    proof cases
      case 1
      then have "unat acc' = unat acc + unat b * 2 ^ (7 * k)"
        using acc' True Suc.prems(1) by simp
      with 1 show ?thesis
        unfolding unfold varint_prefix_unfold [of at] b_def [symmetric] gt
        using unsigned_word_eqI [of v acc', where ?'a = nat] by auto
    next
      case 2
      have "unat v \<noteq> unat acc + unat b * 2 ^ (7 * k)"
        using v 2 True by simp
      with 2 True show ?thesis
        unfolding unfold varint_prefix_unfold [of at] b_def [symmetric] gt by simp
    next
      case 3
      have "length (varint (unat v)) \<noteq> Suc at + length cs - start" if "varint_shape cs" for cs
        using that varint_length_u64 [of v] Suc.prems(3) True by (cases cs) auto
      with 3 True show ?thesis
        unfolding unfold varint_prefix_unfold [of at] b_def [symmetric] gt by (auto, blast)
    qed
  qed
qed

text \<open>Reading a varint: exactly its minimal coding is accepted.\<close>

lemma read_varint_iff:
  "read_varint bs at = Inr (v, at') \<longleftrightarrow>
    take (length (varint (unat v))) (drop at bs) = varint (unat v) \<and> at' = at + length (varint (unat v))"
proof -
  have "read_varint bs at = Inr (v, at') \<longleftrightarrow>
    (\<exists>cs. varint_shape cs \<and> take (length cs) (drop at bs) = cs \<and> at' = at + length cs \<and>
       unat v = varint_value cs \<and> length (varint (unat v)) = at' - at)"
    unfolding read_varint_def varint_shifts_eq
    using read_varint_loop_iff [of 0 0 at at bs v at'] by simp
  also have "\<dots> \<longleftrightarrow> take (length (varint (unat v))) (drop at bs) = varint (unat v) \<and>
      at' = at + length (varint (unat v))" (is "?L \<longleftrightarrow> ?R")
  proof
    assume ?L then show ?R by (auto dest: varint_minimal)
  next
    assume ?R then show ?L by (intro exI [of _ "varint (unat v)"]) simp
  qed
  finally show ?thesis .
qed

lemma read_varint_drop: "read_varint bs at = Inr (v, at') \<Longrightarrow> varint (unat v) @ drop at' bs = drop at bs"
  using append_take_drop_id [of "length (varint (unat v))" "drop at bs"]
  by (simp add: read_varint_iff add.commute)


lemma algorithm_of_code_Inr: "algorithm_of_code c = Inr a \<longleftrightarrow> c = hash_code a"
  by (cases a) (auto simp: algorithm_of_code_def)

lemma to_bytes_eq:
  "to_bytes i = varint (unat (format_version i)) @ varint (unat (hash_code (algorithm i))) @ varint 32 @ digest i"
  by (simp add: to_bytes_def push_varint_eq)

text \<open>The header of a well-formed identifier is the three bytes format, algorithm, length.\<close>

lemma to_bytes_wf: "oid_wf i \<Longrightarrow> to_bytes i = [0, ucast (hash_code (algorithm i)), 32] @ digest i"
  by (cases "algorithm i") (simp_all add: to_bytes_eq oid_wf_def varint.simps)

lemma from_bytes_to_bytes: "oid_wf i \<Longrightarrow> from_bytes (to_bytes i) = Inr i"
proof -
  assume wf: "oid_wf i"
  let ?f = "varint (unat (format_version i))" and ?a = "varint (unat (hash_code (algorithm i)))"
  have r: "read_varint (to_bytes i) 0 = Inr (format_version i, length ?f)"
    "read_varint (to_bytes i) (length ?f) = Inr (hash_code (algorithm i), length ?f + length ?a)"
    "read_varint (to_bytes i) (length ?f + length ?a) = Inr (32, length ?f + length ?a + length (varint 32))"
    by (simp_all add: to_bytes_eq read_varint_iff)
  have "algorithm_of_code (hash_code (algorithm i)) = Inr (algorithm i)"
    by (simp add: algorithm_of_code_Inr)
  with wf r show ?thesis
    by (cases i) (simp add: from_bytes_def oid_wf_def to_bytes_eq)
qed

lemma to_bytes_from_bytes: "from_bytes bs = Inr i \<Longrightarrow> oid_wf i \<and> to_bytes i = bs"
proof -
  assume "from_bytes bs = Inr i"
  then obtain at1 code at2 alg at3 where r:
      "read_varint bs 0 = Inr (0, at1)" "read_varint bs at1 = Inr (code, at2)"
      "algorithm_of_code code = Inr alg" "read_varint bs at2 = Inr (32, at3)"
      "length bs = at3 + 32" "i = ObjectId 0 alg (drop at3 bs)"
    by (auto simp: from_bytes_def split: if_splits)
  then have c: "code = hash_code alg" by (simp add: algorithm_of_code_Inr)
  from r(1,2,4) [THEN read_varint_drop] have "to_bytes i = bs"
    by (simp add: to_bytes_eq r(6) c)
  with r show ?thesis by (simp add: oid_wf_def)
qed

text \<open>The binary form as a codec; its client facts are \<open>object_id_bytes.decode_inj\<close> and relatives.\<close>

interpretation object_id_bytes: codec "\<lambda>i. Inr (to_bytes i) :: (bytes, object_id_error) result" from_bytes "\<lambda>i. i" oid_wf
  by unfold_locales (auto simp: from_bytes_to_bytes dest: to_bytes_from_bytes)

section \<open>Text form\<close>

text \<open>
  What the text form relies on of the base32hex codec: it decodes its own output, decodes nothing
  else (no padding, no stray trailing bits), and its alphabet has no lower-case letters.
\<close>

definition base32_contract :: "externals \<Rightarrow> bool" where
  "base32_contract X \<longleftrightarrow>
     (\<forall>b. base32_decode X (base32_encode X b) = Some b \<and>
          (\<forall>c \<in> set (base32_encode X b). 0x30 \<le> c \<and> c \<le> 0x39 \<or> 0x41 \<le> c \<and> c \<le> 0x56)) \<and>
     (\<forall>s b. base32_decode X s = Some b \<longrightarrow> base32_encode X b = s)"

lemma upper_lower:
  "0x30 \<le> c \<and> c \<le> 0x39 \<or> 0x41 \<le> c \<and> c \<le> 0x56 \<Longrightarrow> ascii_upper (ascii_lower c) = c"
  by (auto simp: ascii_upper_def ascii_lower_def word_le_nat_alt unat_word_ariths)

lemma upper_lower_base32:
  "base32_contract X \<Longrightarrow> map ascii_upper (map ascii_lower (base32_encode X b)) = base32_encode X b"
  unfolding map_map by (rule map_idI) (use upper_lower in \<open>simp add: base32_contract_def\<close>)


lemma strip_prefix_Some: "strip_prefix p s = Some e \<longleftrightarrow> s = p @ e"
  by (auto simp: strip_prefix_def) (metis append_take_drop_id)

lemma from_str_iff:
  assumes "base32_contract X"
  shows "from_str X s = Inr i \<longleftrightarrow>
    oid_wf i \<and> (\<exists>e. (s = [0x72, 0x67, 0x30, 0x5f] @ e \<or> s = [0x52, 0x47, 0x30, 0x5f] @ e) \<and>
      map ascii_upper e = base32_encode X (to_bytes i))"
proof -
  have b32: "base32_decode X t = Some b \<longleftrightarrow> t = base32_encode X b" for t b
    using assms by (auto simp: base32_contract_def)
  have "from_str X s = Inr i \<longleftrightarrow>
    (\<exists>e. (s = [0x72, 0x67, 0x30, 0x5f] @ e \<or> s = [0x52, 0x47, 0x30, 0x5f] @ e) \<and>
      (\<exists>bs. map ascii_upper e = base32_encode X bs \<and> from_bytes bs = Inr i))"
    by (auto simp: from_str_def b32 strip_prefix_Some split: option.splits)
      (auto simp: strip_prefix_def split: if_splits)
  also have "\<dots> \<longleftrightarrow> oid_wf i \<and>
      (\<exists>e. (s = [0x72, 0x67, 0x30, 0x5f] @ e \<or> s = [0x52, 0x47, 0x30, 0x5f] @ e) \<and>
      map ascii_upper e = base32_encode X (to_bytes i))"
    using from_bytes_to_bytes [of i] to_bytes_from_bytes [of _ i] by metis
  finally show ?thesis .
qed

section \<open>Properties\<close>

text \<open>
  C25: Binary identifiers. \<open>from_bytes\<close> accepts exactly the bytes \<open>to_bytes\<close> writes for a
  well-formed identifier, and returns that identifier: one identifier has one binary form.
\<close>

theorem object_id_bytes_roundtrip:
  "from_bytes bs = Inr i \<longleftrightarrow> oid_wf i \<and> to_bytes i = bs"
  using object_id_bytes.decode_iff [of bs i] by auto

text \<open>
  Varints. Wherever it stands in the input, a varint is read back exactly when it is the minimal
  coding \<open>push_varint\<close> writes; the reader then stops right behind it.
\<close>

theorem read_varint_exact:
  "read_varint bs at = Inr (v, at') \<longleftrightarrow>
    take (length (push_varint [] v)) (drop at bs) = push_varint [] v \<and>
    at' = at + length (push_varint [] v)"
  by (simp add: push_varint_eq read_varint_iff)

text \<open>
  Domain separation. The digest preimage determines kind, schema version and payload, so two
  objects that differ in any of them are hashed from different bytes.
\<close>

theorem preimage_injective:
  "preimage kind schema payload = preimage kind' schema' payload' \<longleftrightarrow>
    kind = kind' \<and> schema = schema' \<and> payload = payload'"
  by (auto simp: preimage_def push_varint_eq varint_append_eq intro: unsigned_word_eqI)

text \<open>
  C26: Text identifiers. Given the base32hex contract, the displayed text of an identifier parses back to it,
  and so does every text with the prefix in lower case or in upper case, followed by the displayed digits in
  any letter case. Nothing else parses: a text that parses has one of the two prefixes and is the displayed
  text of the resulting well-formed identifier up to the case of its letters.
\<close>

theorem object_id_text_roundtrip:
  assumes "base32_contract X"
  shows "(oid_wf i \<longrightarrow> from_str X (display X i) = Inr i \<and>
      (\<forall>p e. p \<in> {[0x72, 0x67, 0x30, 0x5f], [0x52, 0x47, 0x30, 0x5f]} \<longrightarrow>
        map ascii_upper e = map ascii_upper (drop 4 (display X i)) \<longrightarrow> from_str X (p @ e) = Inr i)) \<and>
    (from_str X s = Inr i \<longrightarrow> oid_wf i \<and> take 4 s \<in> {[0x72, 0x67, 0x30, 0x5f], [0x52, 0x47, 0x30, 0x5f]} \<and>
      map ascii_upper s = map ascii_upper (display X i))"
proof -
  note up = upper_lower_base32 [OF assms, of "to_bytes i", simplified]
  have p: "map ascii_upper [0x52, 0x47, 0x30, 0x5f] = map ascii_upper [0x72, 0x67, 0x30, 0x5f]"
    by (simp add: ascii_upper_def)
  show ?thesis
    unfolding from_str_iff [OF assms] display_def using up p by auto
qed

lemma base32_contract_sample: "base32_contract sample_externals"
  by (auto simp: base32_contract_def nibble_decode_iff dest: nibble_alphabet)

theorem object_id_text_roundtrip_witness:
  "let i = ObjectId 0 Sha256 (pad32 [7]);
       s = [0x52, 0x47, 0x30, 0x5f] @ drop 4 (display sample_externals i) in
    from_str sample_externals (display sample_externals i) = Inr i \<and> from_str sample_externals s = Inr i \<and>
    s \<noteq> display sample_externals i"
proof -
  let ?i = "ObjectId 0 Sha256 (pad32 [7])"
  have "oid_wf ?i" by code_simp
  then show ?thesis
    using object_id_text_roundtrip [OF base32_contract_sample, of ?i] by (auto simp: Let_def display_def)
qed

end
