(* ===== verification/Kinds.thy ===== *)
theory Kinds
  imports Canonical_Spec Ident
begin

text \<open>
  The shared vocabulary of objects, \<open>crates/rgit-objects/src/types.rs\<close>: stable identifiers,
  reference keys, object kinds and signature purposes with their registered codes, the typed
  references and times that objects embed, signatures with their derived order, and the preimage
  that is signed. Variants that share a name in the source carry a suffix or prefix here
  (\<open>MarkerKind\<close> of \<open>ObjectKind\<close>, \<open>ForMarker\<close> of \<open>SignaturePurpose\<close>, \<open>KeyMarker\<close> of
  \<open>ReferenceKey\<close>).
\<close>

section \<open>Object kinds\<close>

datatype object_kind =
    ChunkKind | BlobKind | SecretRefKind | ManifestKind | SubprojectKind | SnapshotKind
    | ChangeRevisionKind | LineStateKind | ConflictKind | OperationKind | MarkerKind
    | ReleaseKind | PolicyKind | RepositoryRootKind | IdentityKind | GroupMembershipKind
    | KeyEnvelopeSetKind | ChangeRelationKind | ConflictResolutionKind | ReviewEvidenceKind
    | ApprovalEvidenceKind | CiEvidenceKind | PolicyDecisionEvidenceKind
    | ProjectionRulesKind | ProjectionProofKind | BuildProvenanceKind | ArtifactKind
    | OperationPayloadKind | ViewKind | MigrationKind | RulesetKind

primrec kind_code :: "object_kind \<Rightarrow> u64" where
  "kind_code ChunkKind = 1"
| "kind_code BlobKind = 2"
| "kind_code SecretRefKind = 3"
| "kind_code ManifestKind = 4"
| "kind_code SubprojectKind = 5"
| "kind_code SnapshotKind = 6"
| "kind_code ChangeRevisionKind = 7"
| "kind_code LineStateKind = 8"
| "kind_code ConflictKind = 9"
| "kind_code OperationKind = 10"
| "kind_code MarkerKind = 11"
| "kind_code ReleaseKind = 12"
| "kind_code PolicyKind = 13"
| "kind_code RepositoryRootKind = 14"
| "kind_code IdentityKind = 15"
| "kind_code GroupMembershipKind = 16"
| "kind_code KeyEnvelopeSetKind = 17"
| "kind_code ChangeRelationKind = 18"
| "kind_code ConflictResolutionKind = 19"
| "kind_code ReviewEvidenceKind = 20"
| "kind_code ApprovalEvidenceKind = 21"
| "kind_code CiEvidenceKind = 22"
| "kind_code PolicyDecisionEvidenceKind = 23"
| "kind_code ProjectionRulesKind = 24"
| "kind_code ProjectionProofKind = 25"
| "kind_code BuildProvenanceKind = 26"
| "kind_code ArtifactKind = 27"
| "kind_code OperationPayloadKind = 28"
| "kind_code ViewKind = 29"
| "kind_code MigrationKind = 30"
| "kind_code RulesetKind = 31"

definition object_kind_of :: "u64 \<Rightarrow> (object_kind, u64) result" where
  "object_kind_of value =
     (if value = 1 then Inr ChunkKind
      else if value = 2 then Inr BlobKind
      else if value = 3 then Inr SecretRefKind
      else if value = 4 then Inr ManifestKind
      else if value = 5 then Inr SubprojectKind
      else if value = 6 then Inr SnapshotKind
      else if value = 7 then Inr ChangeRevisionKind
      else if value = 8 then Inr LineStateKind
      else if value = 9 then Inr ConflictKind
      else if value = 10 then Inr OperationKind
      else if value = 11 then Inr MarkerKind
      else if value = 12 then Inr ReleaseKind
      else if value = 13 then Inr PolicyKind
      else if value = 14 then Inr RepositoryRootKind
      else if value = 15 then Inr IdentityKind
      else if value = 16 then Inr GroupMembershipKind
      else if value = 17 then Inr KeyEnvelopeSetKind
      else if value = 18 then Inr ChangeRelationKind
      else if value = 19 then Inr ConflictResolutionKind
      else if value = 20 then Inr ReviewEvidenceKind
      else if value = 21 then Inr ApprovalEvidenceKind
      else if value = 22 then Inr CiEvidenceKind
      else if value = 23 then Inr PolicyDecisionEvidenceKind
      else if value = 24 then Inr ProjectionRulesKind
      else if value = 25 then Inr ProjectionProofKind
      else if value = 26 then Inr BuildProvenanceKind
      else if value = 27 then Inr ArtifactKind
      else if value = 28 then Inr OperationPayloadKind
      else if value = 29 then Inr ViewKind
      else if value = 30 then Inr MigrationKind
      else if value = 31 then Inr RulesetKind
      else Inl value)"

definition supports_schema :: "object_kind \<Rightarrow> u64 \<Rightarrow> bool" where
  "supports_schema k schema \<longleftrightarrow> schema = 0 \<or> k = OperationKind \<and> schema = 1"

definition latest_schema_version :: "object_kind \<Rightarrow> u64" where
  "latest_schema_version k = (if k = OperationKind then 1 else 0)"

lemma object_kind_of_code [simp]: "object_kind_of (kind_code k) = Inr k"
  by (cases k) (simp_all add: object_kind_of_def)

lemma object_kind_of_Inr: "object_kind_of n = Inr k \<longleftrightarrow> n = kind_code k"
proof
  assume "object_kind_of n = Inr k"
  then show "n = kind_code k"
    unfolding object_kind_of_def by (simp split: if_splits)
qed simp

lemma kind_code_inj: "kind_code k = kind_code l \<longleftrightarrow> k = l"
  by (metis object_kind_of_code sum.inject(2))

section \<open>Signature algorithms and purposes\<close>

datatype signature_algorithm = Ed25519

primrec signature_algorithm_code :: "signature_algorithm \<Rightarrow> u64" where
  "signature_algorithm_code Ed25519 = 0"

definition signature_algorithm_of :: "u64 \<Rightarrow> (signature_algorithm, u64) result" where
  "signature_algorithm_of value = (if value = 0 then Inr Ed25519 else Inl value)"

datatype signature_purpose =
    ForLineState | ForOperation | ForMarker | ForRelease | ForPolicy | ForRepositoryRoot
    | ForIdentity | ForGroupMembership | ForConflictResolution | ForReviewEvidence
    | ForApprovalEvidence | ForCiEvidence | ForPolicyDecisionEvidence | ForBuildProvenance
    | ForView | ForMigration

primrec purpose_code :: "signature_purpose \<Rightarrow> u64" where
  "purpose_code ForLineState = 0"
| "purpose_code ForOperation = 1"
| "purpose_code ForMarker = 2"
| "purpose_code ForRelease = 3"
| "purpose_code ForPolicy = 4"
| "purpose_code ForRepositoryRoot = 5"
| "purpose_code ForIdentity = 6"
| "purpose_code ForGroupMembership = 7"
| "purpose_code ForConflictResolution = 8"
| "purpose_code ForReviewEvidence = 9"
| "purpose_code ForApprovalEvidence = 10"
| "purpose_code ForCiEvidence = 11"
| "purpose_code ForPolicyDecisionEvidence = 12"
| "purpose_code ForBuildProvenance = 13"
| "purpose_code ForView = 14"
| "purpose_code ForMigration = 15"

primrec purpose_str :: "signature_purpose \<Rightarrow> string" where
  "purpose_str ForLineState = ''line-state''"
| "purpose_str ForOperation = ''operation''"
| "purpose_str ForMarker = ''marker''"
| "purpose_str ForRelease = ''release''"
| "purpose_str ForPolicy = ''policy''"
| "purpose_str ForRepositoryRoot = ''repository-root''"
| "purpose_str ForIdentity = ''identity''"
| "purpose_str ForGroupMembership = ''group-membership''"
| "purpose_str ForConflictResolution = ''conflict-resolution''"
| "purpose_str ForReviewEvidence = ''review-evidence''"
| "purpose_str ForApprovalEvidence = ''approval-evidence''"
| "purpose_str ForCiEvidence = ''ci-evidence''"
| "purpose_str ForPolicyDecisionEvidence = ''policy-decision-evidence''"
| "purpose_str ForBuildProvenance = ''build-provenance''"
| "purpose_str ForView = ''view''"
| "purpose_str ForMigration = ''migration''"

definition purpose_of_str :: "string \<Rightarrow> (signature_purpose, unit) result" where
  "purpose_of_str value =
     (if value = ''line-state'' then Inr ForLineState
      else if value = ''operation'' then Inr ForOperation
      else if value = ''marker'' then Inr ForMarker
      else if value = ''release'' then Inr ForRelease
      else if value = ''policy'' then Inr ForPolicy
      else if value = ''repository-root'' then Inr ForRepositoryRoot
      else if value = ''identity'' then Inr ForIdentity
      else if value = ''group-membership'' then Inr ForGroupMembership
      else if value = ''conflict-resolution'' then Inr ForConflictResolution
      else if value = ''review-evidence'' then Inr ForReviewEvidence
      else if value = ''approval-evidence'' then Inr ForApprovalEvidence
      else if value = ''ci-evidence'' then Inr ForCiEvidence
      else if value = ''policy-decision-evidence'' then Inr ForPolicyDecisionEvidence
      else if value = ''build-provenance'' then Inr ForBuildProvenance
      else if value = ''view'' then Inr ForView
      else if value = ''migration'' then Inr ForMigration
      else Inl ())"

definition purpose_of :: "u64 \<Rightarrow> (signature_purpose, u64) result" where
  "purpose_of value =
     (if value = 0 then Inr ForLineState
      else if value = 1 then Inr ForOperation
      else if value = 2 then Inr ForMarker
      else if value = 3 then Inr ForRelease
      else if value = 4 then Inr ForPolicy
      else if value = 5 then Inr ForRepositoryRoot
      else if value = 6 then Inr ForIdentity
      else if value = 7 then Inr ForGroupMembership
      else if value = 8 then Inr ForConflictResolution
      else if value = 9 then Inr ForReviewEvidence
      else if value = 10 then Inr ForApprovalEvidence
      else if value = 11 then Inr ForCiEvidence
      else if value = 12 then Inr ForPolicyDecisionEvidence
      else if value = 13 then Inr ForBuildProvenance
      else if value = 14 then Inr ForView
      else if value = 15 then Inr ForMigration
      else Inl value)"

lemma purpose_of_code [simp]: "purpose_of (purpose_code p) = Inr p"
  by (cases p) (simp_all add: purpose_of_def)

lemma purpose_of_Inr: "purpose_of n = Inr p \<longleftrightarrow> n = purpose_code p"
proof
  assume "purpose_of n = Inr p"
  then show "n = purpose_code p"
    unfolding purpose_of_def by (simp split: if_splits)
qed simp

lemma purpose_code_inj: "purpose_code p = purpose_code q \<longleftrightarrow> p = q"
  by (metis purpose_of_code sum.inject(2))

lemma purpose_of_purpose_str [simp]: "purpose_of_str (purpose_str p) = Inr p"
  by (cases p) (simp_all add: purpose_of_str_def)

lemma purpose_of_str_Inr: "purpose_of_str s = Inr p \<longleftrightarrow> s = purpose_str p"
proof
  assume "purpose_of_str s = Inr p"
  then show "s = purpose_str p"
    unfolding purpose_of_str_def by (simp split: if_splits)
qed simp


section \<open>Stable identifiers, references and times\<close>

text \<open>The \<open>stable_id!\<close> newtypes over \<open>[u8; 16]\<close>.\<close>

type_synonym change_id = bytes
type_synonym line_id = bytes
type_synonym policy_id = bytes
type_synonym actor_id = bytes
type_synonym device_id = bytes

definition stable_id_value :: "bytes \<Rightarrow> cvalue" where
  "stable_id_value i = Bytes i"

definition oid :: "object_id \<Rightarrow> cvalue" where
  "oid i = Bytes (to_bytes i)"

definition oid_array :: "object_id list \<Rightarrow> cvalue" where
  "oid_array ids = Array (map oid ids)"

definition text_value :: "bytes \<Rightarrow> cvalue" where
  "text_value s = Text s"

definition optional :: "(u64 \<times> cvalue) list \<Rightarrow> u64 \<Rightarrow> cvalue option \<Rightarrow> (u64 \<times> cvalue) list" where
  "optional m key value = (case value of None \<Rightarrow> m | Some v \<Rightarrow> m @ [(key, v)])"

datatype reference_key =
    KeyLine line_id
  | KeyChange change_id
  | KeyOperationHead
  | KeyRelease line_id
  | KeyMarker bytes

primrec key_kind_code :: "reference_key \<Rightarrow> u64" where
  "key_kind_code (KeyLine i) = 1"
| "key_kind_code (KeyChange i) = 2"
| "key_kind_code KeyOperationHead = 3"
| "key_kind_code (KeyRelease i) = 4"
| "key_kind_code (KeyMarker i) = 5"

primrec expected_kind :: "reference_key \<Rightarrow> object_kind" where
  "expected_kind (KeyLine i) = LineStateKind"
| "expected_kind (KeyChange i) = ChangeRevisionKind"
| "expected_kind KeyOperationHead = OperationKind"
| "expected_kind (KeyRelease i) = ReleaseKind"
| "expected_kind (KeyMarker i) = MarkerKind"

primrec stable_id :: "reference_key \<Rightarrow> bytes option" where
  "stable_id (KeyLine i) = Some i"
| "stable_id (KeyChange i) = Some i"
| "stable_id KeyOperationHead = None"
| "stable_id (KeyRelease i) = Some i"
| "stable_id (KeyMarker i) = Some i"

definition reference_key_value :: "reference_key \<Rightarrow> cvalue" where
  "reference_key_value k =
     (let fields = [(0, Unsigned (key_kind_code k))];
          fields = (case stable_id k of Some i \<Rightarrow> fields @ [(1, Bytes i)] | None \<Rightarrow> fields)
      in Map fields)"

text \<open>The derived order: variant first, then the identifier.\<close>

definition reference_key_key :: "reference_key \<Rightarrow> u64 \<times> bytes" where
  "reference_key_key k = (key_kind_code k, case stable_id k of None \<Rightarrow> [] | Some i \<Rightarrow> i)"

lemma reference_key_key_inj: "reference_key_key k = reference_key_key l \<longleftrightarrow> k = l"
  by (cases k; cases l) (simp_all add: reference_key_key_def)

instantiation reference_key :: linorder
begin

definition less_eq_reference_key :: "reference_key \<Rightarrow> reference_key \<Rightarrow> bool" where
  "less_eq_reference_key k l \<longleftrightarrow> reference_key_key k \<le> reference_key_key l"

definition less_reference_key :: "reference_key \<Rightarrow> reference_key \<Rightarrow> bool" where
  "less_reference_key k l \<longleftrightarrow> reference_key_key k < reference_key_key l"

instance
  by standard
    (auto simp: less_eq_reference_key_def less_reference_key_def simp flip: reference_key_key_inj)

end

record policy_ref =
  pr_policy_id :: policy_id
  pr_version :: object_id

definition policy_ref_value :: "policy_ref \<Rightarrow> cvalue" where
  "policy_ref_value p = Map [(0, stable_id_value (pr_policy_id p)), (1, oid (pr_version p))]"

record typed_object_ref =
  tr_kind :: object_kind
  tr_id :: object_id

definition typed_object_ref_value :: "typed_object_ref \<Rightarrow> cvalue" where
  "typed_object_ref_value r = Map [(0, Unsigned (kind_code (tr_kind r))), (1, oid (tr_id r))]"

record wall_time =
  utc_seconds :: i64
  offset_seconds :: i64

definition wall_time_value :: "wall_time \<Rightarrow> cvalue" where
  "wall_time_value w = Map [(0, Signed (utc_seconds w)), (1, Signed (offset_seconds w))]"

section \<open>Signatures\<close>

datatype signature =
  Signature (sig_algorithm: signature_algorithm) (sig_signer: actor_id) (signing_key_id: bytes)
    (sig_bytes: bytes) (sig_purpose: signature_purpose)

datatype signature_error = PlaceholderKeyId | PlaceholderSignature

definition signature_new ::
  "signature_algorithm \<Rightarrow> actor_id \<Rightarrow> bytes \<Rightarrow> bytes \<Rightarrow> signature_purpose \<Rightarrow>
     (signature, signature_error) result" where
  "signature_new alg signer key_id bs purpose =
     (if key_id = replicate 32 0 then Inl PlaceholderKeyId
      else if bs = replicate 64 0 then Inl PlaceholderSignature
      else Inr (Signature alg signer key_id bs purpose))"

definition signature_value :: "signature \<Rightarrow> cvalue" where
  "signature_value s =
     Map [(0, Unsigned (signature_algorithm_code (sig_algorithm s))),
          (1, stable_id_value (sig_signer s)),
          (2, Bytes (signing_key_id s)),
          (3, Bytes (sig_bytes s)),
          (4, Unsigned (purpose_code (sig_purpose s)))]"

text \<open>The type-level facts: array lengths, and no placeholder can be built.\<close>

definition signature_wf :: "signature \<Rightarrow> bool" where
  "signature_wf s \<longleftrightarrow>
     length (sig_signer s) = 16 \<and> length (signing_key_id s) = 32 \<and> length (sig_bytes s) = 64 \<and>
     signing_key_id s \<noteq> replicate 32 0 \<and> sig_bytes s \<noteq> replicate 64 0"

definition signature_key :: "signature \<Rightarrow> bytes \<times> bytes \<times> bytes \<times> u64" where
  "signature_key s = (sig_signer s, signing_key_id s, sig_bytes s, purpose_code (sig_purpose s))"

lemma signature_key_inj: "signature_key s = signature_key t \<longleftrightarrow> s = t"
  by (cases s; cases t; cases "sig_algorithm s"; cases "sig_algorithm t")
    (auto simp: signature_key_def purpose_code_inj)

instantiation signature :: linorder
begin

definition less_eq_signature :: "signature \<Rightarrow> signature \<Rightarrow> bool" where
  "less_eq_signature s t \<longleftrightarrow> signature_key s \<le> signature_key t"

definition less_signature :: "signature \<Rightarrow> signature \<Rightarrow> bool" where
  "less_signature s t \<longleftrightarrow> signature_key s < signature_key t"

instance
  by standard (auto simp: less_eq_signature_def less_signature_def simp flip: signature_key_inj)

end

text \<open>The bytes of \<open>RGIT-SIGNATURE\0\<close>.\<close>

definition signature_domain :: bytes where
  "signature_domain =
     [0x52, 0x47, 0x49, 0x54, 0x2d, 0x53, 0x49, 0x47, 0x4e, 0x41, 0x54, 0x55, 0x52, 0x45, 0x00]"

definition signing_preimage ::
  "signature_algorithm \<Rightarrow> signature_purpose \<Rightarrow> actor_id \<Rightarrow> bytes \<Rightarrow> object_kind \<Rightarrow> u64 \<Rightarrow> bytes \<Rightarrow> bytes" where
  "signing_preimage alg purpose signer key_id kind schema_version unsigned_cbor =
     (let out = signature_domain;
          out = push_varint out 0;
          out = push_varint out (signature_algorithm_code alg);
          out = push_varint out (purpose_code purpose);
          out = out @ signer;
          out = push_varint out (of_nat (length key_id));
          out = out @ key_id;
          out = push_varint out (kind_code kind);
          out = push_varint out schema_version;
          out = push_varint out (of_nat (length unsigned_cbor))
      in out @ unsigned_cbor)"

section \<open>Properties\<close>

text \<open>
  C28: What is signed determines everything the signature claims. Two signing preimages over 16-byte
  signers and 32-byte key ids coincide only if algorithm, purpose, signer, key, object kind, schema
  version and unsigned object bytes all coincide, and no signing preimage is an object preimage.
\<close>

theorem signing_preimage_injective:
  assumes "length signer = 16" "length signer' = 16" "length key = 32" "length key' = 32"
  shows "(signing_preimage alg purpose signer key kind schema body =
      signing_preimage alg' purpose' signer' key' kind' schema' body' \<longleftrightarrow>
    alg = alg' \<and> purpose = purpose' \<and> signer = signer' \<and> key = key' \<and> kind = kind' \<and>
    schema = schema' \<and> body = body') \<and>
    signing_preimage alg purpose signer key kind schema body \<noteq> preimage k v payload"
  using assms
  by (cases alg; cases alg')
    (auto simp: signing_preimage_def preimage_def push_varint_eq varint_append_eq object_domain_def
       signature_domain_def purpose_code_inj [symmetric] kind_code_inj [symmetric]
       intro: unsigned_word_eqI)

theorem signing_preimage_injective_witness:
  "(signing_preimage Ed25519 ForMarker (replicate 16 1) (replicate 32 2) MarkerKind 0 [1] =
      signing_preimage Ed25519 ForRelease (replicate 16 1) (replicate 32 2) ReleaseKind 0 [1] \<longleftrightarrow>
    Ed25519 = Ed25519 \<and> ForMarker = ForRelease \<and> replicate 16 1 = (replicate 16 1 :: bytes) \<and>
    replicate 32 2 = (replicate 32 2 :: bytes) \<and> MarkerKind = ReleaseKind \<and> (0 :: u64) = 0 \<and>
    [1] = ([1] :: bytes)) \<and>
    signing_preimage Ed25519 ForMarker (replicate 16 1) (replicate 32 2) MarkerKind 0 [1] \<noteq>
      preimage 1 0 []"
  by (rule signing_preimage_injective) simp_all

text \<open>
  The code registries are bijections onto their ranges. A kind or purpose code is accepted
  exactly when it is the code of the variant returned, and the same holds for purpose names.
\<close>

theorem registry_codes_exact:
  "(object_kind_of n = Inr k \<longleftrightarrow> n = kind_code k) \<and>
   (purpose_of m = Inr p \<longleftrightarrow> m = purpose_code p) \<and>
   (purpose_of_str s = Inr p \<longleftrightarrow> s = purpose_str p)"
  by (simp add: object_kind_of_Inr purpose_of_Inr purpose_of_str_Inr)

end
