(* ===== verification/Paths.thy ===== *)
theory Paths
  imports Canonical_Spec
begin

text \<open>
  Path segments and portable paths, \<open>crates/rgit-objects/src/path.rs\<close>. A string is its UTF-8
  bytes; every character the module tests for is ASCII, and ASCII bytes occur in UTF-8 only as
  themselves, so character tests are byte tests. Unicode normalisation and case folding are the
  parameters \<open>nfc\<close> and \<open>case_fold\<close>.
\<close>

definition PORTABLE_COMPONENT_MAX_BYTES :: nat where "PORTABLE_COMPONENT_MAX_BYTES = 255"
definition PORTABLE_PATH_MAX_BYTES :: nat where "PORTABLE_PATH_MAX_BYTES = 1023"

datatype path_segment = PathSegment (as_str: bytes)

datatype path_error =
    Empty | NonNormalized | Unsafe | NonPortableCharacter | WindowsReserved | SegmentTooLong
  | PathTooLong

instantiation path_segment :: linorder
begin

definition less_eq_path_segment :: "path_segment \<Rightarrow> path_segment \<Rightarrow> bool" where
  "less_eq_path_segment p q \<longleftrightarrow> as_str p \<le> as_str q"

definition less_path_segment :: "path_segment \<Rightarrow> path_segment \<Rightarrow> bool" where
  "less_path_segment p q \<longleftrightarrow> as_str p < as_str q"

instance
  by standard (auto simp: less_eq_path_segment_def less_path_segment_def path_segment.expand)

end

section \<open>Segments\<close>

text \<open>\<open>portable_case_fold\<close>: full case folding followed by NFC.\<close>

definition portable_case_fold :: "externals \<Rightarrow> bytes \<Rightarrow> bytes" where
  "portable_case_fold X value = nfc X (case_fold X value)"

text \<open>The literals of the device list: con, prn, aux, nul and com/lpt with 1 to 9 and superscripts.\<close>

definition reserved_stems :: "bytes list" where
  "reserved_stems =
     [[0x63, 0x6f, 0x6e], [0x70, 0x72, 0x6e], [0x61, 0x75, 0x78], [0x6e, 0x75, 0x6c]] @
     map (\<lambda>d. [0x63, 0x6f, 0x6d] @ d)
       [[0x31], [0x32], [0x33], [0x34], [0x35], [0x36], [0x37], [0x38], [0x39],
        [0xc2, 0xb9], [0xc2, 0xb2], [0xc2, 0xb3]] @
     map (\<lambda>d. [0x6c, 0x70, 0x74] @ d)
       [[0x31], [0x32], [0x33], [0x34], [0x35], [0x36], [0x37], [0x38], [0x39],
        [0xc2, 0xb9], [0xc2, 0xb2], [0xc2, 0xb3]]"

definition is_windows_reserved :: "bytes \<Rightarrow> bool" where
  "is_windows_reserved value = (let stem = takeWhile (\<lambda>c. c \<noteq> 0x2e) value in stem \<in> set reserved_stems)"

definition is_nonportable_character :: "u8 \<Rightarrow> bool" where
  "is_nonportable_character c \<longleftrightarrow>
     c \<in> {0x3c, 0x3e, 0x3a, 0x22, 0x7c, 0x3f, 0x2a} \<or> c \<le> 0x1f \<or> c = 0x7f"

text \<open>\<open>trim_end_matches([' ', '.'])\<close>\<close>

definition trim_end :: "bytes \<Rightarrow> bytes" where
  "trim_end value = rev (dropWhile (\<lambda>c. c = 0x20 \<or> c = 0x2e) (rev value))"

definition segment_validate :: "externals \<Rightarrow> bytes \<Rightarrow> bool \<Rightarrow> (path_segment, path_error) result" where
  "segment_validate X value portable =
     (if value = [] then Inl Empty
      else if length value > PORTABLE_COMPONENT_MAX_BYTES then Inl SegmentTooLong
      else if \<not> is_nfc X value then Inl NonNormalized
      else if value = [0x2e] \<or> value = [0x2e, 0x2e] \<or> (\<exists>c \<in> set value. c \<in> {0x00, 0x2f, 0x5c})
      then Inl Unsafe
      else if portable \<and> (\<exists>c \<in> set value. is_nonportable_character c) then Inl NonPortableCharacter
      else if portable \<and> (trim_end value \<noteq> value \<or> is_windows_reserved (portable_case_fold X value))
      then Inl WindowsReserved
      else Inr (PathSegment value))"

definition segment_new :: "externals \<Rightarrow> bytes \<Rightarrow> (path_segment, path_error) result" where
  "segment_new X value = segment_validate X value False"

definition segment_new_portable :: "externals \<Rightarrow> bytes \<Rightarrow> (path_segment, path_error) result" where
  "segment_new_portable X value = segment_validate X value True"

definition ensure_portable :: "externals \<Rightarrow> path_segment \<Rightarrow> (unit, path_error) result" where
  "ensure_portable X p = discard (segment_validate X (as_str p) True)"

definition segment_case_fold :: "externals \<Rightarrow> path_segment \<Rightarrow> bytes" where
  "segment_case_fold X p = portable_case_fold X (as_str p)"

definition segment_value :: "path_segment \<Rightarrow> cvalue" where
  "segment_value p = Text (as_str p)"

text \<open>\<open>canonical_bytes\<close>: the \<open>expect\<close> is the value \<open>None\<close>.\<close>

definition segment_canonical_bytes :: "externals \<Rightarrow> path_segment \<Rightarrow> bytes option" where
  "segment_canonical_bytes X p =
     (case encode X (Text (as_str p)) of Inr bs \<Rightarrow> Some bs | Inl e \<Rightarrow> None)"

section \<open>Paths\<close>

datatype portable_path = PortablePath (segments: "path_segment list")

text \<open>The loop of \<open>PortablePath::new\<close> with the running length.\<close>

fun portable_path_check :: "externals \<Rightarrow> path_segment list \<Rightarrow> nat \<Rightarrow> (unit, path_error) result" where
  "portable_path_check X [] encoded_len = Inr ()"
| "portable_path_check X (segment # rest) encoded_len =
     and_then (ensure_portable X segment) (\<lambda>_.
       let n = encoded_len + (if encoded_len \<noteq> 0 then 1 else 0) in
       if n > usize_max then Inl PathTooLong
       else if n + length (as_str segment) > usize_max then Inl PathTooLong
       else let encoded_len = n + length (as_str segment) in
         if encoded_len > PORTABLE_PATH_MAX_BYTES then Inl PathTooLong
         else portable_path_check X rest encoded_len)"

definition portable_path_new :: "externals \<Rightarrow> path_segment list \<Rightarrow> (portable_path, path_error) result" where
  "portable_path_new X segs = and_then (portable_path_check X segs 0) (\<lambda>_. Inr (PortablePath segs))"

definition portable_path_value :: "portable_path \<Rightarrow> cvalue" where
  "portable_path_value p = Array (map segment_value (segments p))"


section \<open>Specification\<close>

text \<open>What a portable segment is, as a predicate on its text.\<close>

definition portable_byte :: "u8 \<Rightarrow> bool" where
  "portable_byte c \<longleftrightarrow>
     0x20 \<le> c \<and> c \<notin> {0x22, 0x2a, 0x2f, 0x3a, 0x3c, 0x3e, 0x3f, 0x5c, 0x7c, 0x7f}"

definition portable_text :: "externals \<Rightarrow> bytes \<Rightarrow> bool" where
  "portable_text X s \<longleftrightarrow>
     s \<noteq> [] \<and> length s \<le> 255 \<and> is_nfc X s \<and> s \<noteq> [0x2e] \<and> s \<noteq> [0x2e, 0x2e] \<and>
     (\<forall>c \<in> set s. portable_byte c) \<and>
     last s \<noteq> 0x20 \<and> last s \<noteq> 0x2e \<and>
     takeWhile (\<lambda>c. c \<noteq> 0x2e) (portable_case_fold X s) \<notin> set reserved_stems"

text \<open>The materialised relative path and the components a file system reads back from it.\<close>

fun join_slash :: "bytes list \<Rightarrow> bytes" where
  "join_slash [] = []"
| "join_slash [x] = x"
| "join_slash (x # xs) = x @ 0x2f # join_slash xs"

fun split_slash :: "bytes \<Rightarrow> bytes list" where
  "split_slash [] = [[]]"
| "split_slash (c # cs) =
     (if c = 0x2f then [] # split_slash cs
      else case split_slash cs of [] \<Rightarrow> [[c]] | x # xs \<Rightarrow> (c # x) # xs)"

definition path_text :: "portable_path \<Rightarrow> bytes" where
  "path_text p = join_slash (map as_str (segments p))"

lemma trim_end_id: "s \<noteq> [] \<Longrightarrow> trim_end s = s \<longleftrightarrow> last s \<noteq> 0x20 \<and> last s \<noteq> 0x2e"
proof -
  assume "s \<noteq> []"
  then obtain c t where s: "rev s = c # t" by (cases "rev s") auto
  then have c: "last s = c" by (metis rev_rev_ident last_rev list.sel(1) rev_is_Nil_conv list.distinct(1))
  have "dropWhile P t \<noteq> c # t" for P :: "u8 \<Rightarrow> bool"
    using length_dropWhile_le [of P t] by (metis impossible_Cons)
  then show ?thesis using s c by (simp add: trim_end_def rev_swap)
qed

lemma portable_byte_iff:
  "portable_byte c \<longleftrightarrow> \<not> is_nonportable_character c \<and> c \<notin> {0x00, 0x2f, 0x5c}"
proof -
  have "(0x20 :: u8) \<le> c \<longleftrightarrow> \<not> c \<le> 0x1f" by (auto simp: word_le_nat_alt)
  moreover have "c = 0 \<Longrightarrow> c \<le> 0x1f" by simp
  ultimately show ?thesis
    unfolding portable_byte_def is_nonportable_character_def by blast
qed

lemma segment_validate_portable:
  "segment_validate X s True = Inr p \<longleftrightarrow> portable_text X s \<and> p = PathSegment s"
proof -
  have "(\<forall>c \<in> set s. portable_byte c) \<longleftrightarrow>
      \<not> (\<exists>c \<in> set s. is_nonportable_character c) \<and> \<not> (\<exists>c \<in> set s. c \<in> {0x00, 0x2f, 0x5c})"
    unfolding portable_byte_iff by blast
  then show ?thesis
    unfolding segment_validate_def portable_text_def is_windows_reserved_def Let_def
      PORTABLE_COMPONENT_MAX_BYTES_def
    using trim_end_id [of s] by (cases "s = []") (simp_all del: bex_simps insert_iff, blast)
qed

lemma ensure_portable_iff: "ensure_portable X p = Inr () \<longleftrightarrow> portable_text X (as_str p)"
  by (simp add: ensure_portable_def segment_validate_portable)

primrec running_length :: "nat \<Rightarrow> path_segment list \<Rightarrow> nat" where
  "running_length n [] = n"
| "running_length n (s # ss) = running_length (n + (if n \<noteq> 0 then 1 else 0) + length (as_str s)) ss"

lemma running_length_ge: "n \<le> running_length n ss"
proof (induction ss arbitrary: n)
  case (Cons s ss)
  have "n \<le> n + (if n \<noteq> 0 then 1 else 0) + length (as_str s)" by simp
  also note Cons.IH [of "n + (if n \<noteq> 0 then 1 else 0) + length (as_str s)"]
  finally show ?case by simp
qed simp

lemma portable_path_check_iff:
  "n \<le> 1023 \<Longrightarrow> portable_path_check X ss n = Inr () \<longleftrightarrow>
    (\<forall>s \<in> set ss. portable_text X (as_str s)) \<and> running_length n ss \<le> 1023"
proof (induction ss arbitrary: n)
  case (Cons s ss)
  let ?m = "n + (if n \<noteq> 0 then 1 else 0) + length (as_str s)"
  have u: "?m \<le> 1023 \<Longrightarrow> ?m \<le> usize_max" "n \<le> usize_max - 1" "n + 1 \<le> usize_max"
    using Cons.prems by (simp_all add: usize_max_def)
  have "running_length n (s # ss) \<le> 1023 \<Longrightarrow> ?m \<le> 1023"
    using running_length_ge [of ?m ss] by simp
  with Cons u show ?case
    by (auto simp: ensure_portable_iff Let_def PORTABLE_PATH_MAX_BYTES_def)
qed simp

lemma running_length_pos:
  "0 < n \<Longrightarrow> running_length n ss = n + sum_list (map (\<lambda>s. Suc (length (as_str s))) ss)"
  by (induction ss arbitrary: n) auto

lemma length_join_slash:
  "length (join_slash (x # xs)) = length x + sum_list (map (\<lambda>s. Suc (length s)) xs)"
  by (induction xs arbitrary: x) auto

lemma running_length_join:
  "\<forall>s \<in> set ss. as_str s \<noteq> [] \<Longrightarrow> running_length 0 ss = length (join_slash (map as_str ss))"
  by (cases ss) (simp_all add: running_length_pos length_join_slash o_def)

lemma split_slash_single: "0x2f \<notin> set x \<Longrightarrow> split_slash x = [x]"
  by (induction x) auto

lemma split_slash_append: "0x2f \<notin> set x \<Longrightarrow> split_slash (x @ 0x2f # y) = x # split_slash y"
  by (induction x) auto

lemma split_join_slash:
  "xs \<noteq> [] \<Longrightarrow> \<forall>x \<in> set xs. 0x2f \<notin> set x \<Longrightarrow> split_slash (join_slash xs) = xs"
  by (induction xs rule: join_slash.induct) (auto simp: split_slash_single split_slash_append)

lemma portable_path_new_iff:
  "portable_path_new X ss = Inr p \<longleftrightarrow>
    p = PortablePath ss \<and> (\<forall>s \<in> set ss. portable_text X (as_str s)) \<and> length (path_text p) \<le> 1023"
proof -
  have "running_length 0 ss = length (path_text (PortablePath ss))"
    if "\<forall>s \<in> set ss. portable_text X (as_str s)"
    using that running_length_join [of ss] by (simp add: path_text_def portable_text_def)
  then show ?thesis
    using portable_path_check_iff [of 0 X ss] by (auto simp: portable_path_new_def)
qed


lemma encode_iff: "encode X v = Inr bs \<longleftrightarrow> fits X metadata 0 v \<and> bs = enc v \<and> length bs \<le> 1048576"
  by (simp add: encode_def encode_with_limits_iff)

lemma segment_validate_Inr:
  "segment_validate X s portable = Inr p \<Longrightarrow>
    p = PathSegment s \<and> s \<noteq> [] \<and> length s \<le> 255 \<and> is_nfc X s"
  by (auto simp: segment_validate_def PORTABLE_COMPONENT_MAX_BYTES_def split: if_splits)

lemma length_head: "length (head m n) \<le> 9"
  by (simp add: head_def Let_def)

lemma encode_short_text:
  "is_nfc X s \<Longrightarrow> length s \<le> 65536 \<Longrightarrow> encode X (Text s) = Inr (enc (Text s))"
  using length_head [of 3 "of_nat (length s)"] by (simp add: encode_iff fits.simps)

section \<open>Properties\<close>

text \<open>
  C27: Materialising a portable path. A path accepted by \<open>PortablePath::new\<close> is the given segments, and its
  slash-joined text is at most 1023 bytes. The empty path is accepted and its text is empty. For every other
  one, splitting the text at slashes gives back exactly the segments, each non-empty, neither \<open>.\<close> nor \<open>..\<close>, and
  free of control bytes, slashes and backslashes: no accepted path can leave the directory it is
  materialised in.
\<close>

theorem portable_path_materializes:
  assumes "portable_path_new X ss = Inr p"
  shows "segments p = ss \<and> length (path_text p) \<le> 1023 \<and>
    (if ss = [] then path_text p = []
     else split_slash (path_text p) = map as_str ss \<and>
       (\<forall>c \<in> set (split_slash (path_text p)).
          c \<noteq> [] \<and> c \<noteq> [0x2e] \<and> c \<noteq> [0x2e, 0x2e] \<and> length c \<le> 255 \<and> (\<forall>b \<in> set c. portable_byte b)))"
proof -
  from assms have p: "p = PortablePath ss" "\<forall>s \<in> set ss. portable_text X (as_str s)"
      "length (path_text p) \<le> 1023"
    by (auto simp: portable_path_new_iff)
  have "split_slash (path_text p) = map as_str ss" if "ss \<noteq> []"
    unfolding path_text_def p(1) portable_path.sel
    using p(2) that by (intro split_join_slash) (auto simp: portable_text_def portable_byte_def)
  with p show ?thesis by (auto simp: portable_text_def path_text_def)
qed

theorem portable_path_materializes_witness:
  "let ss = [PathSegment [0x61], PathSegment [0x62, 0x2e, 0x63]]; cs = split_slash (path_text (PortablePath ss)) in
    portable_path_new sample_externals ss = Inr (PortablePath ss) \<and>
    cs = map as_str ss \<and> length (path_text (PortablePath ss)) \<le> 1023 \<and>
    list_all (\<lambda>c. c \<noteq> [] \<and> c \<noteq> [0x2e] \<and> c \<noteq> [0x2e, 0x2e] \<and> length c \<le> 255 \<and> list_all portable_byte c) cs"
proof -
  let ?ss = "[PathSegment [0x61], PathSegment [0x62, 0x2e, 0x63]]"
  have "portable_path_new sample_externals ?ss = Inr (PortablePath ?ss)"
    by (simp add: portable_path_new_iff portable_text_def portable_byte_def path_text_def
       portable_case_fold_def reserved_stems_def)
  with portable_path_materializes [OF this] show ?thesis by (simp add: Let_def list_all_iff)
qed

text \<open>
  Path admission is exact. \<open>PortablePath::new\<close> succeeds if and only if every segment passes the
  portable profile and the joined text fits 1023 bytes; no overflow or order of checks rejects more.
\<close>

theorem portable_path_admission:
  "(\<exists>p. portable_path_new X ss = Inr p) \<longleftrightarrow>
    (\<forall>s \<in> set ss. segment_new_portable X (as_str s) = Inr s) \<and>
    length (join_slash (map as_str ss)) \<le> 1023"
  by (auto simp: portable_path_new_iff segment_new_portable_def segment_validate_portable path_text_def)

theorem portable_path_admission_witness:
  "(\<exists>p. portable_path_new sample_externals [PathSegment [0x61]] = Inr p) \<longleftrightarrow>
    (\<forall>s \<in> set [PathSegment [0x61]]. segment_new_portable sample_externals (as_str s) = Inr s) \<and>
    length (join_slash (map as_str [PathSegment [0x61]])) \<le> 1023"
  by (rule portable_path_admission)

text \<open>
  \<open>canonical_bytes\<close> never panics. A segment either constructor returned has a canonical
  encoding, and it decodes under the metadata limits to the text of the segment.
\<close>

theorem segment_canonical_bytes_total:
  assumes "segment_validate X s portable = Inr p" "utf8_valid s"
  shows "\<exists>bs. segment_canonical_bytes X p = Some bs \<and> decode_canonical X bs metadata = Inr (segment_value p)"
proof -
  from segment_validate_Inr [OF assms(1)] have p: "p = PathSegment s" "length s \<le> 65536" "is_nfc X s"
    by auto
  then have e: "encode X (Text s) = Inr (enc (Text s))" by (simp add: encode_short_text)
  then have "decode_canonical X (enc (Text s)) metadata = Inr (Text s)"
    using assms(2) p(3) by (simp add: decode_canonical_iff encode_iff canonical_at_def)
  with e p show ?thesis by (simp add: segment_canonical_bytes_def segment_value_def)
qed

theorem segment_canonical_bytes_total_witness:
  "\<exists>bs. segment_canonical_bytes sample_externals (PathSegment [0x61]) = Some bs \<and>
     decode_canonical sample_externals bs metadata = Inr (segment_value (PathSegment [0x61]))"
  by (rule segment_canonical_bytes_total [of _ "[0x61]" True])
    (simp_all add: segment_validate_portable portable_text_def portable_byte_def
       portable_case_fold_def reserved_stems_def)

end
