(* ===== verification/FastCdc.thy ===== *)
theory FastCdc
  imports Prelude
begin

text \<open>
  The content-defined chunker of \<open>crates/rgit-objects/src/fastcdc.rs\<close>: the gear table, the
  incremental state with \<open>push\<close> and \<open>finish\<close>, and the one-shot \<open>fastcdc_v0_chunks\<close>. The reference
  definition \<open>cdc_split\<close> cuts a complete byte string at the first admissible prefix, again and again.
\<close>

section \<open>The chunker\<close>

definition FASTCDC_V0_MIN_SIZE :: nat where "FASTCDC_V0_MIN_SIZE = 256 * 1024"
definition FASTCDC_V0_TARGET_SIZE :: nat where "FASTCDC_V0_TARGET_SIZE = 1024 * 1024"
definition FASTCDC_V0_MAX_SIZE :: nat where "FASTCDC_V0_MAX_SIZE = 4 * 1024 * 1024"
definition FASTCDC_V0_GEAR_SEED :: u64 where "FASTCDC_V0_GEAR_SEED = 0x7267697466636463"
definition FASTCDC_V0_EARLY_MASK :: u64 where "FASTCDC_V0_EARLY_MASK = push_bit 21 1 - 1"
definition FASTCDC_V0_LATE_MASK :: u64 where "FASTCDC_V0_LATE_MASK = push_bit 19 1 - 1"

definition fastcdc_v0_gear :: "u8 \<Rightarrow> u64" where
  "fastcdc_v0_gear byte =
     (let value = FASTCDC_V0_GEAR_SEED + (ucast byte + 1) * 0x9e3779b97f4a7c15;
          value = (value XOR drop_bit 30 value) * 0xbf58476d1ce4e5b9;
          value = (value XOR drop_bit 27 value) * 0x94d049bb133111eb
      in value XOR drop_bit 31 value)"

record fastcdc_v0 =
  pending :: bytes
  rolling :: u64

definition fastcdc_new :: fastcdc_v0 where
  "fastcdc_new = \<lparr>pending = [], rolling = 0\<rparr>"

text \<open>One round of the loop in \<open>push\<close>, with the chunk it completes, if any.\<close>

definition push_byte :: "fastcdc_v0 \<Rightarrow> u8 \<Rightarrow> fastcdc_v0 \<times> bytes list" where
  "push_byte self byte =
     (let pending' = pending self @ [byte]; len = length pending' in
      if len < FASTCDC_V0_MIN_SIZE then (self\<lparr>pending := pending'\<rparr>, [])
      else
        let rolling' = word_rotl 1 (rolling self) + fastcdc_v0_gear byte;
            mask = (if len < FASTCDC_V0_TARGET_SIZE then FASTCDC_V0_EARLY_MASK
                    else FASTCDC_V0_LATE_MASK) in
        if rolling' AND mask = 0 \<or> len = FASTCDC_V0_MAX_SIZE
        then (\<lparr>pending = [], rolling = 0\<rparr>, [pending'])
        else (\<lparr>pending = pending', rolling = rolling'\<rparr>, []))"

fun push :: "fastcdc_v0 \<Rightarrow> bytes \<Rightarrow> fastcdc_v0 \<times> bytes list" where
  "push self [] = (self, [])"
| "push self (byte # input) =
     (let (self, completed) = push_byte self byte; (self, more) = push self input
      in (self, completed @ more))"

definition finish :: "fastcdc_v0 \<Rightarrow> bytes list" where
  "finish self = (if pending self = [] then [] else [pending self])"

definition fastcdc_v0_chunks :: "bytes \<Rightarrow> bytes list" where
  "fastcdc_v0_chunks bs = (let (chunker, chunks) = push fastcdc_new bs in chunks @ finish chunker)"

section \<open>Reference definition\<close>

text \<open>The rolling hash covers the bytes from position \<open>MIN_SIZE - 1\<close> on.\<close>

definition roll :: "bytes \<Rightarrow> u64" where
  "roll p = foldl (\<lambda>h b. word_rotl 1 h + fastcdc_v0_gear b) 0 (drop (FASTCDC_V0_MIN_SIZE - 1) p)"

definition admissible_cut :: "bytes \<Rightarrow> bool" where
  "admissible_cut p \<longleftrightarrow>
     FASTCDC_V0_MIN_SIZE \<le> length p \<and>
     (roll p AND (if length p < FASTCDC_V0_TARGET_SIZE then FASTCDC_V0_EARLY_MASK else FASTCDC_V0_LATE_MASK) = 0 \<or>
      length p = FASTCDC_V0_MAX_SIZE)"

definition first_cut :: "bytes \<Rightarrow> nat option" where
  "first_cut bs = find (\<lambda>n. admissible_cut (take n bs)) [1..<Suc (length bs)]"

lemma first_cut_Some:
  "first_cut bs = Some n \<longleftrightarrow>
    0 < n \<and> n \<le> length bs \<and> admissible_cut (take n bs) \<and> (\<forall>m. 0 < m \<and> m < n \<longrightarrow> \<not> admissible_cut (take m bs))"
proof
  assume "first_cut bs = Some n"
  then obtain i where i: "i < length bs" "n = [1..<Suc (length bs)] ! i" "admissible_cut (take n bs)"
      "\<And>j. j < i \<Longrightarrow> \<not> admissible_cut (take ([1..<Suc (length bs)] ! j) bs)"
    by (auto simp: first_cut_def find_Some_iff simp del: upt_Suc)
  then have n: "n = Suc i" by (simp add: nth_upt del: upt_Suc)
  have "\<not> admissible_cut (take m bs)" if "0 < m" "m < n" for m
    using i(4) [of "m - 1"] i(1) that n by (simp add: nth_upt del: upt_Suc)
  with i n show "0 < n \<and> n \<le> length bs \<and> admissible_cut (take n bs) \<and>
      (\<forall>m. 0 < m \<and> m < n \<longrightarrow> \<not> admissible_cut (take m bs))"
    by auto
next
  assume "0 < n \<and> n \<le> length bs \<and> admissible_cut (take n bs) \<and>
      (\<forall>m. 0 < m \<and> m < n \<longrightarrow> \<not> admissible_cut (take m bs))"
  then show "first_cut bs = Some n"
    by (auto simp: first_cut_def find_Some_iff nth_upt simp del: upt_Suc intro!: exI [of _ "n - 1"])
qed

lemma first_cut_None:
  "first_cut bs = None \<longleftrightarrow> (\<forall>m. 0 < m \<and> m \<le> length bs \<longrightarrow> \<not> admissible_cut (take m bs))"
  by (auto simp: first_cut_def find_None_iff less_Suc_eq_le simp del: upt_Suc)

function cdc_split :: "bytes \<Rightarrow> bytes list" where
  "cdc_split bs =
     (case first_cut bs of
        Some n \<Rightarrow> take n bs # cdc_split (drop n bs)
      | None \<Rightarrow> if bs = [] then [] else [bs])"
  by pat_completeness auto
termination
  by (relation "measure length") (auto simp: first_cut_Some)

declare cdc_split.simps [simp del]

section \<open>The incremental chunker computes the reference\<close>

lemma MIN_pos: "0 < FASTCDC_V0_MIN_SIZE"
  and MIN_le_MAX: "FASTCDC_V0_MIN_SIZE \<le> FASTCDC_V0_MAX_SIZE"
  by (simp_all add: FASTCDC_V0_MIN_SIZE_def FASTCDC_V0_MAX_SIZE_def)

lemma roll_snoc:
  "roll (p @ [b]) = (if Suc (length p) < FASTCDC_V0_MIN_SIZE then 0
     else word_rotl 1 (roll p) + fastcdc_v0_gear b)"
  using MIN_pos by (auto simp: roll_def)

text \<open>The states between two bytes: no prefix of the pending bytes was a cut.\<close>

definition chunking :: "fastcdc_v0 \<Rightarrow> bool" where
  "chunking c \<longleftrightarrow> rolling c = roll (pending c) \<and>
     (\<forall>m. 0 < m \<and> m \<le> length (pending c) \<longrightarrow> \<not> admissible_cut (take m (pending c)))"

lemma chunking_new [simp]: "chunking fastcdc_new"
  by (simp add: chunking_def fastcdc_new_def roll_def)

lemma push_byte_cases:
  assumes "chunking c"
  shows "push_byte c b =
    (if admissible_cut (pending c @ [b]) then (fastcdc_new, [pending c @ [b]])
     else (\<lparr>pending = pending c @ [b], rolling = roll (pending c @ [b])\<rparr>, []))"
proof -
  have "roll (pending c) = 0" if "length (pending c) < FASTCDC_V0_MIN_SIZE"
    using that by (simp add: roll_def)
  then show ?thesis
    using assms by (auto simp: push_byte_def Let_def admissible_cut_def roll_snoc chunking_def
        fastcdc_new_def)
qed

lemma chunking_push_byte: "chunking c \<Longrightarrow> chunking (fst (push_byte c b))"
  by (auto simp: push_byte_cases) (auto simp: chunking_def le_Suc_eq)


lemma chunking_push: "chunking c \<Longrightarrow> chunking (fst (push c bs))"
  by (induction bs arbitrary: c) (auto simp: split_beta chunking_push_byte)

lemma cdc_split_uncut: "\<forall>m. 0 < m \<and> m \<le> length p \<longrightarrow> \<not> admissible_cut (take m p) \<Longrightarrow>
    cdc_split p = (if p = [] then [] else [p])"
  by (subst cdc_split.simps) (simp add: first_cut_None [symmetric])

lemma first_cut_pending:
  assumes "chunking c" "admissible_cut (pending c @ [b])"
  shows "first_cut (pending c @ b # bs) = Some (Suc (length (pending c)))"
  using assms by (auto simp: first_cut_Some chunking_def)

lemma push_refines:
  "chunking c \<Longrightarrow> snd (push c bs) @ finish (fst (push c bs)) = cdc_split (pending c @ bs)"
proof (induction bs arbitrary: c)
  case Nil
  then show ?case by (simp add: finish_def cdc_split_uncut chunking_def)
next
  case (Cons b bs)
  let ?c = "fst (push_byte c b)"
  have IH: "snd (push ?c bs) @ finish (fst (push ?c bs)) = cdc_split (pending ?c @ bs)"
    by (rule Cons.IH [OF chunking_push_byte [OF Cons.prems]])
  show ?case
  proof (cases "admissible_cut (pending c @ [b])")
    case True
    then have "cdc_split (pending c @ b # bs) = (pending c @ [b]) # cdc_split bs"
      by (subst cdc_split.simps) (simp add: first_cut_pending [OF Cons.prems])
    with IH True Cons.prems show ?thesis
      by (simp add: push_byte_cases split_beta fastcdc_new_def)
  next
    case False
    with IH Cons.prems show ?thesis by (simp add: push_byte_cases split_beta)
  qed
qed

lemma fastcdc_v0_chunks_eq: "fastcdc_v0_chunks bs = cdc_split bs"
  using push_refines [OF chunking_new, of bs] by (simp add: fastcdc_v0_chunks_def split_beta fastcdc_new_def)

lemma push_append:
  "push c (xs @ ys) = (let (c, out) = push c xs; (c, more) = push c ys in (c, out @ more))"
  by (induction xs arbitrary: c) (simp_all add: split_beta)

text \<open>Feeding a list of segments.\<close>

fun push_all :: "fastcdc_v0 \<Rightarrow> bytes list \<Rightarrow> fastcdc_v0 \<times> bytes list" where
  "push_all c [] = (c, [])"
| "push_all c (seg # segs) =
     (let (c, out) = push c seg; (c, more) = push_all c segs in (c, out @ more))"

lemma push_all_concat: "push_all c segs = push c (concat segs)"
  by (induction segs arbitrary: c) (simp_all add: push_append split_beta)

lemma concat_cdc_split: "concat (cdc_split bs) = bs"
  by (induction bs rule: cdc_split.induct) (subst cdc_split.simps, auto split: option.splits)

lemma admissible_cut_max: "length p = FASTCDC_V0_MAX_SIZE \<Longrightarrow> admissible_cut p"
  using MIN_le_MAX by (simp add: admissible_cut_def)

lemma first_cut_le_max: "first_cut bs = Some n \<Longrightarrow> n \<le> FASTCDC_V0_MAX_SIZE"
proof (rule ccontr)
  assume cut: "first_cut bs = Some n" and "\<not> n \<le> FASTCDC_V0_MAX_SIZE"
  moreover from this have "admissible_cut (take FASTCDC_V0_MAX_SIZE bs)"
    by (intro admissible_cut_max) (simp add: first_cut_Some)
  moreover have "0 < FASTCDC_V0_MAX_SIZE" using MIN_pos MIN_le_MAX by linarith
  ultimately show False by (auto simp: first_cut_Some)
qed

lemma first_cut_None_le: "first_cut bs = None \<Longrightarrow> length bs < FASTCDC_V0_MAX_SIZE"
proof (rule ccontr)
  assume "first_cut bs = None" "\<not> length bs < FASTCDC_V0_MAX_SIZE"
  moreover from this have "admissible_cut (take FASTCDC_V0_MAX_SIZE bs)"
    by (intro admissible_cut_max) simp
  moreover have "0 < FASTCDC_V0_MAX_SIZE" using MIN_pos MIN_le_MAX by linarith
  ultimately show False by (auto simp: first_cut_None)
qed

lemma cdc_split_sizes:
  "(\<forall>c \<in> set (cdc_split bs). c \<noteq> [] \<and> length c \<le> FASTCDC_V0_MAX_SIZE) \<and>
   (\<forall>c \<in> set (butlast (cdc_split bs)). FASTCDC_V0_MIN_SIZE \<le> length c)"
proof (induction bs rule: cdc_split.induct)
  case (1 bs)
  show ?case
  proof (cases "first_cut bs")
    case None
    then show ?thesis by (subst (1 2) cdc_split.simps) (auto dest: first_cut_None_le)
  next
    case (Some n)
    then have n: "take n bs \<noteq> []" "length (take n bs) \<le> FASTCDC_V0_MAX_SIZE"
        "FASTCDC_V0_MIN_SIZE \<le> length (take n bs)"
      using first_cut_le_max [OF Some] by (auto simp: first_cut_Some admissible_cut_def)
    from Some have "cdc_split bs = take n bs # cdc_split (drop n bs)"
      by (subst cdc_split.simps) simp
    with n "1.IH" [OF Some] show ?thesis by (auto split: if_splits)
  qed
qed

section \<open>Properties\<close>

text \<open>
  C15: The incremental chunker implements the reference definition: whatever the segmentation of
  the input into \<open>push\<close> calls (empty slices included), completed chunks followed by \<open>finish\<close> are
  the cuts of the concatenated stream at the first admissible prefix, repeated.
\<close>

theorem fastcdc_segmentation_independent:
  "snd (push_all fastcdc_new segs) @ finish (fst (push_all fastcdc_new segs)) = cdc_split (concat segs) \<and>
   fastcdc_v0_chunks (concat segs) = cdc_split (concat segs)"
  using push_refines [OF chunking_new, of "concat segs"]
  by (simp add: push_all_concat fastcdc_v0_chunks_eq fastcdc_new_def)

text \<open>
  C29: Chunking loses nothing and respects the profile. The chunks concatenate to the input, none is
  empty or longer than the maximum, and every chunk but the last has at least the minimum size.
\<close>

theorem fastcdc_chunks_sound:
  "concat (fastcdc_v0_chunks bs) = bs \<and>
   (\<forall>c \<in> set (fastcdc_v0_chunks bs). c \<noteq> [] \<and> length c \<le> FASTCDC_V0_MAX_SIZE) \<and>
   (\<forall>c \<in> set (butlast (fastcdc_v0_chunks bs)). FASTCDC_V0_MIN_SIZE \<le> length c)"
  using cdc_split_sizes [of bs] by (simp add: fastcdc_v0_chunks_eq concat_cdc_split)

theorem fastcdc_chunks_sound_witness:
  "concat (fastcdc_v0_chunks (replicate 5000000 1)) = replicate 5000000 1 \<and>
   list_all (\<lambda>c. c \<noteq> [] \<and> length c \<le> FASTCDC_V0_MAX_SIZE) (fastcdc_v0_chunks (replicate 5000000 1)) \<and>
   list_all (\<lambda>c. FASTCDC_V0_MIN_SIZE \<le> length c) (butlast (fastcdc_v0_chunks (replicate 5000000 1)))"
  using fastcdc_chunks_sound [of "replicate 5000000 1"] by (simp add: list_all_iff)

text \<open>
  Resynchronisation. If the chunker has just cut after a prefix, the chunks of the rest are those
  of the rest alone: two streams that share a suffix from a cut point on share all its chunks.
\<close>

theorem fastcdc_resynchronizes:
  assumes "finish (fst (push fastcdc_new pre)) = []"
  shows "fastcdc_v0_chunks (pre @ suffix) = fastcdc_v0_chunks pre @ fastcdc_v0_chunks suffix"
proof -
  have "chunking (fst (push fastcdc_new pre))" by (simp add: chunking_push)
  with assms have "fst (push fastcdc_new pre) = fastcdc_new"
    by (simp add: finish_def chunking_def fastcdc_new_def roll_def split: if_splits)
  with assms show ?thesis by (simp add: fastcdc_v0_chunks_def push_append split_beta)
qed

lemma push_first_cut:
  assumes "first_cut bs = Some n"
  shows "finish (fst (push fastcdc_new (take n bs))) = []"
proof (rule ccontr)
  let ?pre = "take n bs" and ?c = "fst (push fastcdc_new (take n bs))"
  assume "finish ?c \<noteq> []"
  then have fin: "finish ?c = [pending ?c]" by (simp add: finish_def split: if_splits)
  from assms have pre: "?pre \<noteq> []" "admissible_cut ?pre" "first_cut ?pre = Some (length ?pre)"
    by (auto simp: first_cut_Some)
  then have "cdc_split ?pre = [?pre]" by (subst cdc_split.simps) (simp add: cdc_split_uncut min_def)
  with push_refines [OF chunking_new, of ?pre] fin have "pending ?c = ?pre"
    by (simp add: fastcdc_new_def append_eq_Cons_conv)
  moreover have "chunking ?c" by (simp add: chunking_push)
  ultimately have "\<not> admissible_cut (take (length ?pre) ?pre)"
    using pre(1) unfolding chunking_def by (metis length_greater_0_conv order_refl)
  with pre(2) show False by (metis order_refl take_all)
qed

theorem fastcdc_resynchronizes_witness:
  "\<exists>n. 0 < n \<and> fastcdc_v0_chunks (replicate n 0 @ [7]) =
     fastcdc_v0_chunks (replicate n 0) @ fastcdc_v0_chunks [7]"
proof -
  obtain n where n: "first_cut (replicate FASTCDC_V0_MAX_SIZE 0) = Some n"
    using first_cut_None_le [of "replicate FASTCDC_V0_MAX_SIZE 0"] by (cases "first_cut (replicate FASTCDC_V0_MAX_SIZE 0)") auto
  have "take n (replicate FASTCDC_V0_MAX_SIZE 0) = replicate n (0 :: u8)" "0 < n"
    using n first_cut_le_max [OF n] by (auto simp: first_cut_Some min_def)
  with fastcdc_resynchronizes [OF push_first_cut [OF n], of "[7]"] show ?thesis by metis
qed

end
