(* ===== verification/Objects.thy ===== *)
theory Objects
  imports Kinds Paths FastCdc
begin

text \<open>
  The logical objects of \<open>crates/rgit-objects/src/object.rs\<close>: one record per struct with the
  source's fields (prefixed, since record fields are global), one \<open>validate\<close> and one
  \<open>canonical_value\<close> per \<open>CanonicalObject\<close> instance, and the provided methods of the trait on the
  dictionary \<open>canonical_object\<close>. A panicking \<open>expect\<close> is the error \<open>Panicked\<close>.
\<close>

section \<open>The trait\<close>

definition MAX_INLINE_BLOB_BYTES :: nat where "MAX_INLINE_BLOB_BYTES = 64 * 1024"
definition MAX_CHUNK_BYTES :: nat where "MAX_CHUNK_BYTES = BULK_MAX_BYTE_STRING_BYTES"

datatype object_error =
    CanonicalErr canonical_error
  | NonNormalizedText
  | Invalid string
  | ManifestCollision
  | Panicked

record canonical_object =
  co_kind :: object_kind
  co_schema :: u64
  co_value :: "(cvalue, object_error) result"
  co_validate :: "(unit, object_error) result"

definition object_limits :: "object_kind \<Rightarrow> canonical_limits" where
  "object_limits k = (if k = ChunkKind \<or> k = BlobKind then bulk else metadata)"

definition object_encode_with_limits ::
  "externals \<Rightarrow> canonical_object \<Rightarrow> canonical_limits \<Rightarrow> (bytes, object_error) result" where
  "object_encode_with_limits X self L =
     and_then (co_validate self) (\<lambda>_.
     and_then (co_value self) (\<lambda>v. map_err CanonicalErr (encode_with_limits X v L)))"

definition object_encode :: "externals \<Rightarrow> canonical_object \<Rightarrow> (bytes, object_error) result" where
  "object_encode X self = object_encode_with_limits X self (object_limits (co_kind self))"

definition object_identity ::
  "externals \<Rightarrow> canonical_object \<Rightarrow> hash_algorithm \<Rightarrow> (object_id, object_error) result" where
  "object_identity X self alg =
     and_then (object_encode X self) (\<lambda>bs.
       Inr (from_payload X (kind_code (co_kind self)) (co_schema self) bs alg))"

text \<open>\<open>SignedObject\<close>: the object with its unsigned projection and carried signatures.\<close>

record signed_object = canonical_object +
  so_unsigned :: "(cvalue, object_error) result"
  so_signatures :: "signature list"

definition unsigned_encode :: "externals \<Rightarrow> signed_object \<Rightarrow> (bytes, object_error) result" where
  "unsigned_encode X self =
     and_then (co_validate self) (\<lambda>_.
     and_then (so_unsigned self) (\<lambda>v.
       map_err CanonicalErr (encode_with_limits X v (object_limits (co_kind self)))))"

definition object_signing_preimage ::
  "externals \<Rightarrow> signed_object \<Rightarrow> signature \<Rightarrow> (bytes, object_error) result" where
  "object_signing_preimage X self s =
     (if s \<notin> set (so_signatures self)
      then Inl (Invalid ''signature metadata is not carried by this object'')
      else and_then (unsigned_encode X self) (\<lambda>bs.
        Inr (signing_preimage (sig_algorithm s) (sig_purpose s) (sig_signer s) (signing_key_id s)
               (co_kind self) (co_schema self) bs)))"

section \<open>Shared helpers\<close>

definition header_version :: "object_kind \<Rightarrow> u64 \<Rightarrow> policy_ref \<Rightarrow> (u64 \<times> cvalue) list" where
  "header_version kind schema policy =
     [(0, Unsigned (kind_code kind)), (1, Unsigned schema), (2, policy_ref_value policy)]"

definition header :: "object_kind \<Rightarrow> policy_ref \<Rightarrow> (u64 \<times> cvalue) list" where
  "header kind policy = header_version kind 0 policy"

definition optional_header :: "object_kind \<Rightarrow> policy_ref option \<Rightarrow> (u64 \<times> cvalue) list" where
  "optional_header kind policy =
     optional [(0, Unsigned (kind_code kind)), (1, Unsigned 0)] 2 (map_option policy_ref_value policy)"

definition ensure_nfc :: "externals \<Rightarrow> bytes list \<Rightarrow> (unit, object_error) result" where
  "ensure_nfc X values = ensure (\<forall>v \<in> set values. is_nfc X v) NonNormalizedText"

definition ensure_signature_purpose ::
  "signature \<Rightarrow> signature_purpose \<Rightarrow> (unit, object_error) result" where
  "ensure_signature_purpose s expected =
     ensure (sig_purpose s = expected) (Invalid ''signature purpose does not match object kind'')"

definition ensure_signature_set ::
  "signature list \<Rightarrow> signature_purpose \<Rightarrow> (unit, object_error) result" where
  "ensure_signature_set signatures expected =
     (if signatures = [] then Inl (Invalid ''signed object requires at least one signature'')
      else and_then (all_ok (map (\<lambda>s. ensure_signature_purpose s expected) signatures)) (\<lambda>_.
        if windows2_any (\<lambda>a b. a \<ge> b) signatures
        then Inl (Invalid ''signatures must be canonically sorted and duplicate-free'')
        else Inr ()))"

section \<open>Chunk and Blob\<close>

record chunk =
  ck_policy_ref :: policy_ref
  ck_bytes :: bytes

definition chunk_validate :: "chunk \<Rightarrow> (unit, object_error) result" where
  "chunk_validate self =
     (if length (ck_bytes self) > MAX_CHUNK_BYTES
      then Inl (Invalid ''chunk exceeds schema-0 4 MiB maximum'') else Inr ())"

definition chunk_map :: "chunk \<Rightarrow> (u64 \<times> cvalue) list" where
  "chunk_map self = header ChunkKind (ck_policy_ref self) @ [(3, Bytes (ck_bytes self))]"

definition chunk_value :: "chunk \<Rightarrow> (cvalue, object_error) result" where
  "chunk_value self = Inr (Map (chunk_map self))"

definition chunk_object :: "chunk \<Rightarrow> canonical_object" where
  "chunk_object self = \<lparr>co_kind = ChunkKind, co_schema = 0, co_value = chunk_value self,
     co_validate = chunk_validate self\<rparr>"

record chunk_ref =
  cr_id :: object_id
  cr_plaintext_length :: u64

definition chunk_ref_value :: "chunk_ref \<Rightarrow> cvalue" where
  "chunk_ref_value r = Map [(0, oid (cr_id r)), (1, Unsigned (cr_plaintext_length r))]"

datatype blob_content = Inline bytes | Chunks "chunk_ref list"

datatype chunk_algorithm = FastCdc

primrec chunk_algorithm_code :: "chunk_algorithm \<Rightarrow> u64" where
  "chunk_algorithm_code FastCdc = 0"

record chunk_profile =
  cp_algorithm :: chunk_algorithm
  cp_version :: u64
  cp_min_size :: u64
  cp_target_size :: u64
  cp_max_size :: u64

definition fastcdc_v0_profile :: chunk_profile where
  "fastcdc_v0_profile = \<lparr>cp_algorithm = FastCdc, cp_version = 0,
     cp_min_size = of_nat FASTCDC_V0_MIN_SIZE, cp_target_size = of_nat FASTCDC_V0_TARGET_SIZE,
     cp_max_size = of_nat FASTCDC_V0_MAX_SIZE\<rparr>"

definition chunk_profile_value :: "chunk_profile \<Rightarrow> cvalue" where
  "chunk_profile_value p =
     Map [(0, Unsigned (chunk_algorithm_code (cp_algorithm p))), (1, Unsigned (cp_version p)),
          (2, Unsigned (cp_min_size p)), (3, Unsigned (cp_target_size p)), (4, Unsigned (cp_max_size p))]"

definition chunk_profile_validate :: "chunk_profile \<Rightarrow> (unit, object_error) result" where
  "chunk_profile_validate p =
     ensure (p = fastcdc_v0_profile) (Invalid ''invalid chunk profile size bounds'')"

record blob =
  bl_policy_ref :: policy_ref
  bl_byte_length :: u64
  bl_content :: blob_content
  bl_chunk_profile :: "chunk_profile option"
  bl_content_hint :: "bytes option"

text \<open>\<open>try_fold(0, checked_add)\<close> over the chunk lengths.\<close>

definition chunk_length_sum :: "chunk_ref list \<Rightarrow> u64 option" where
  "chunk_length_sum chunks =
     foldl (\<lambda>sum c. Option.bind sum (\<lambda>s. checked_add s (cr_plaintext_length c))) (Some 0) chunks"

definition blob_content_validate :: "blob \<Rightarrow> (unit, object_error) result" where
  "blob_content_validate self =
     (case bl_content self of
        Inline bs \<Rightarrow>
          if bl_chunk_profile self \<noteq> None
          then Inl (Invalid ''inline blob must not declare a chunk profile'')
          else if length bs > MAX_INLINE_BLOB_BYTES then Inl (Invalid ''inline blob exceeds 64 KiB'')
          else if of_nat (length bs) \<noteq> bl_byte_length self then Inl (Invalid ''inline length mismatch'')
          else Inr ()
      | Chunks chunks \<Rightarrow>
          case bl_chunk_profile self of
            None \<Rightarrow> Inl (Invalid ''chunked blob requires a chunk profile'')
          | Some profile \<Rightarrow>
              if bl_byte_length self \<le> of_nat MAX_INLINE_BLOB_BYTES
              then Inl (Invalid ''blob at or below 64 KiB must use inline representation'')
              else if chunks = [] \<or>
                (\<exists>c \<in> set chunks. cr_plaintext_length c = 0 \<or> cr_plaintext_length c > cp_max_size profile) \<or>
                chunk_length_sum chunks \<noteq> Some (bl_byte_length self)
              then Inl (Invalid ''chunk lengths do not equal blob length'')
              else chunk_profile_validate profile)"

definition blob_validate :: "externals \<Rightarrow> blob \<Rightarrow> (unit, object_error) result" where
  "blob_validate X self =
     and_then (case bl_content_hint self of Some hint \<Rightarrow> ensure_nfc X [hint] | None \<Rightarrow> Inr ()) (\<lambda>_.
       blob_content_validate self)"

definition blob_map :: "blob \<Rightarrow> (u64 \<times> cvalue) list" where
  "blob_map self =
     (let m = header BlobKind (bl_policy_ref self) @ [(3, Unsigned (bl_byte_length self))];
          m = (case bl_content self of
                 Inline bs \<Rightarrow> m @ [(4, Bytes bs)]
               | Chunks chunks \<Rightarrow> m @ [(5, Array (map chunk_ref_value chunks))]);
          m = optional m 6 (map_option text_value (bl_content_hint self));
          m = optional m 7 (map_option chunk_profile_value (bl_chunk_profile self))
      in m)"

definition blob_value :: "blob \<Rightarrow> (cvalue, object_error) result" where
  "blob_value self = Inr (Map (blob_map self))"

definition blob_object :: "externals \<Rightarrow> blob \<Rightarrow> canonical_object" where
  "blob_object X self = \<lparr>co_kind = BlobKind, co_schema = 0, co_value = blob_value self,
     co_validate = blob_validate X self\<rparr>"

section \<open>Manifest\<close>

datatype file_mode = Regular | Executable

primrec file_mode_code :: "file_mode \<Rightarrow> u64" where
  "file_mode_code Regular = 0"
| "file_mode_code Executable = 1"

datatype manifest_target =
    TFile object_id file_mode
  | TDirectory object_id
  | TSymlink object_id
  | TSubproject object_id
  | TSecretRef object_id

record manifest_entry =
  me_name :: path_segment
  me_target :: manifest_target
  me_policy_ref :: policy_ref

definition manifest_entry_value :: "manifest_entry \<Rightarrow> cvalue" where
  "manifest_entry_value self =
     (let (kind, target, mode) = (case me_target self of
            TFile b mode \<Rightarrow> (0, b, Some (file_mode_code mode))
          | TDirectory m \<Rightarrow> (1, m, None)
          | TSymlink b \<Rightarrow> (2, b, None)
          | TSubproject s \<Rightarrow> (3, s, None)
          | TSecretRef s \<Rightarrow> (4, s, None));
          m = [(0, segment_value (me_name self)), (1, Unsigned kind), (2, oid target),
               (4, policy_ref_value (me_policy_ref self))]
      in Map (optional m 3 (map_option Unsigned mode)))"

record manifest =
  mf_policy_ref :: policy_ref
  mf_entries :: "manifest_entry list"

text \<open>The loop of \<open>validate\<close> with the sets of names and folded names seen.\<close>

definition manifest_entry_check ::
  "externals \<Rightarrow> bytes set \<times> bytes set \<Rightarrow> manifest_entry \<Rightarrow> (bytes set \<times> bytes set, object_error) result" where
  "manifest_entry_check X seen e =
     (let (names, folded) = seen in
      and_then (map_err (\<lambda>_. Invalid ''manifest entry is not portable'') (ensure_portable X (me_name e))) (\<lambda>_.
        if as_str (me_name e) \<in> names \<or> segment_case_fold X (me_name e) \<in> folded
        then Inl ManifestCollision
        else Inr (insert (as_str (me_name e)) names, insert (segment_case_fold X (me_name e)) folded)))"

definition manifest_validate :: "externals \<Rightarrow> manifest \<Rightarrow> (unit, object_error) result" where
  "manifest_validate X self = discard (try_fold (manifest_entry_check X) ({}, {}) (mf_entries self))"

definition manifest_map :: "externals \<Rightarrow> manifest \<Rightarrow> (u64 \<times> cvalue) list" where
  "manifest_map X self =
     (let entries = sort_key (\<lambda>e. the (segment_canonical_bytes X (me_name e))) (mf_entries self)
      in header ManifestKind (mf_policy_ref self) @ [(3, Array (map manifest_entry_value entries))])"

definition manifest_value :: "externals \<Rightarrow> manifest \<Rightarrow> (cvalue, object_error) result" where
  "manifest_value X self =
     (if \<exists>e \<in> set (mf_entries self). segment_canonical_bytes X (me_name e) = None then Inl Panicked
      else Inr (Map (manifest_map X self)))"

definition manifest_object :: "externals \<Rightarrow> manifest \<Rightarrow> canonical_object" where
  "manifest_object X self = \<lparr>co_kind = ManifestKind, co_schema = 0, co_value = manifest_value X self,
     co_validate = manifest_validate X self\<rparr>"


section \<open>Subproject, SecretRef, Snapshot, ChangeRevision\<close>

record subproject =
  sp_policy_ref :: policy_ref
  sp_system_kind :: bytes
  sp_repository_identity :: bytes
  sp_revision :: bytes
  sp_native_projection :: "object_id option"

definition subproject_validate :: "externals \<Rightarrow> subproject \<Rightarrow> (unit, object_error) result" where
  "subproject_validate X self = ensure_nfc X [sp_system_kind self]"

definition subproject_map :: "subproject \<Rightarrow> (u64 \<times> cvalue) list" where
  "subproject_map self =
     (let m = header SubprojectKind (sp_policy_ref self) @
            [(3, text_value (sp_system_kind self)), (4, Bytes (sp_repository_identity self)),
             (5, Bytes (sp_revision self))]
      in optional m 6 (map_option oid (sp_native_projection self)))"

definition subproject_value :: "subproject \<Rightarrow> (cvalue, object_error) result" where
  "subproject_value self = Inr (Map (subproject_map self))"

definition subproject_object :: "externals \<Rightarrow> subproject \<Rightarrow> canonical_object" where
  "subproject_object X self = \<lparr>co_kind = SubprojectKind, co_schema = 0, co_value = subproject_value self,
     co_validate = subproject_validate X self\<rparr>"

record secret_ref =
  sr_policy_ref :: policy_ref
  sr_provider_kind :: bytes
  sr_locator :: bytes
  sr_exact_version :: "bytes option"
  sr_value_schema_id :: bytes
  sr_materialization_target :: bytes
  sr_required_capability :: bytes
  sr_encrypted_development_value :: "object_id option"

definition secret_ref_validate :: "externals \<Rightarrow> secret_ref \<Rightarrow> (unit, object_error) result" where
  "secret_ref_validate X self =
     and_then (ensure_nfc X [sr_provider_kind self, sr_locator self, sr_materialization_target self,
       sr_required_capability self]) (\<lambda>_.
       case sr_exact_version self of Some v \<Rightarrow> ensure_nfc X [v] | None \<Rightarrow> Inr ())"

definition secret_ref_map :: "secret_ref \<Rightarrow> (u64 \<times> cvalue) list" where
  "secret_ref_map self =
     (let m = header SecretRefKind (sr_policy_ref self) @
            [(3, text_value (sr_provider_kind self)), (4, text_value (sr_locator self)),
             (6, Bytes (sr_value_schema_id self)), (7, text_value (sr_materialization_target self)),
             (8, text_value (sr_required_capability self))];
          m = optional m 5 (map_option text_value (sr_exact_version self));
          m = optional m 9 (map_option oid (sr_encrypted_development_value self))
      in m)"

definition secret_ref_value :: "secret_ref \<Rightarrow> (cvalue, object_error) result" where
  "secret_ref_value self = Inr (Map (secret_ref_map self))"

definition secret_ref_object :: "externals \<Rightarrow> secret_ref \<Rightarrow> canonical_object" where
  "secret_ref_object X self = \<lparr>co_kind = SecretRefKind, co_schema = 0, co_value = secret_ref_value self,
     co_validate = secret_ref_validate X self\<rparr>"

record snapshot =
  sn_policy_ref :: policy_ref
  sn_root_manifest :: object_id
  sn_parents :: "object_id list"
  sn_change_id :: change_id
  sn_author :: actor_id
  sn_device :: device_id
  sn_logical_time :: u64
  sn_wall_time :: wall_time
  sn_message_blob :: "object_id option"

text \<open>Comparing the size of a \<open>BTreeSet\<close> of the elements with the length tests distinctness.\<close>

definition snapshot_validate :: "snapshot \<Rightarrow> (unit, object_error) result" where
  "snapshot_validate self =
     ensure (card (set (sn_parents self)) = length (sn_parents self))
       (Invalid ''snapshot parents must be duplicate-free'')"

definition snapshot_map :: "snapshot \<Rightarrow> (u64 \<times> cvalue) list" where
  "snapshot_map self =
     (let m = header SnapshotKind (sn_policy_ref self) @
            [(3, oid (sn_root_manifest self)), (4, oid_array (sn_parents self)),
             (5, stable_id_value (sn_change_id self)), (6, stable_id_value (sn_author self)),
             (7, stable_id_value (sn_device self)), (8, Unsigned (sn_logical_time self)),
             (9, wall_time_value (sn_wall_time self))]
      in optional m 10 (map_option oid (sn_message_blob self)))"

definition snapshot_value :: "snapshot \<Rightarrow> (cvalue, object_error) result" where
  "snapshot_value self = Inr (Map (snapshot_map self))"

definition snapshot_object :: "snapshot \<Rightarrow> canonical_object" where
  "snapshot_object self = \<lparr>co_kind = SnapshotKind, co_schema = 0, co_value = snapshot_value self,
     co_validate = snapshot_validate self\<rparr>"

datatype change_state = ChangeOpen | ChangeAbandoned | ChangeLanded | ChangeSuperseded

primrec change_state_code :: "change_state \<Rightarrow> u64" where
  "change_state_code ChangeOpen = 0"
| "change_state_code ChangeAbandoned = 1"
| "change_state_code ChangeLanded = 2"
| "change_state_code ChangeSuperseded = 3"

record change_revision =
  cv_policy_ref :: policy_ref
  cv_change_id :: change_id
  cv_previous_revision :: "object_id option"
  cv_title_blob :: object_id
  cv_description_blob :: object_id
  cv_base_snapshot :: object_id
  cv_current_snapshot :: object_id
  cv_target_line :: line_id
  cv_observed_generation :: u64
  cv_owner :: actor_id
  cv_author :: actor_id
  cv_state :: change_state
  cv_review_policy :: policy_ref
  cv_landing_policy :: policy_ref

definition change_revision_map :: "change_revision \<Rightarrow> (u64 \<times> cvalue) list" where
  "change_revision_map self =
     (let m = header ChangeRevisionKind (cv_policy_ref self) @
            [(3, stable_id_value (cv_change_id self)), (5, oid (cv_title_blob self)),
             (6, oid (cv_description_blob self)), (7, oid (cv_base_snapshot self)),
             (8, oid (cv_current_snapshot self)), (9, stable_id_value (cv_target_line self)),
             (10, Unsigned (cv_observed_generation self)), (11, stable_id_value (cv_owner self)),
             (12, stable_id_value (cv_author self)), (13, Unsigned (change_state_code (cv_state self))),
             (14, policy_ref_value (cv_review_policy self)),
             (15, policy_ref_value (cv_landing_policy self))]
      in optional m 4 (map_option oid (cv_previous_revision self)))"

definition change_revision_value :: "change_revision \<Rightarrow> (cvalue, object_error) result" where
  "change_revision_value self = Inr (Map (change_revision_map self))"

definition change_revision_object :: "change_revision \<Rightarrow> canonical_object" where
  "change_revision_object self = \<lparr>co_kind = ChangeRevisionKind, co_schema = 0,
     co_value = change_revision_value self, co_validate = Inr ()\<rparr>"

section \<open>LineState\<close>

record line_state =
  ls_policy_ref :: policy_ref
  ls_line_id :: line_id
  ls_display_name :: bytes
  ls_head_snapshot :: object_id
  ls_generation :: u64
  ls_previous_state :: "object_id option"
  ls_integration_policy :: policy_ref
  ls_approval_policy :: policy_ref
  ls_release_policy :: policy_ref
  ls_visibility_policy :: policy_ref
  ls_transaction_operation :: object_id
  ls_signature :: signature

definition line_state_validate :: "externals \<Rightarrow> line_state \<Rightarrow> (unit, object_error) result" where
  "line_state_validate X self =
     and_then (ensure_nfc X [ls_display_name self]) (\<lambda>_.
       if (ls_generation self = 0) = (ls_previous_state self \<noteq> None)
       then Inl (Invalid ''only generation zero may omit previous line state'')
       else ensure_signature_purpose (ls_signature self) ForLineState)"

definition line_state_unsigned_map :: "line_state \<Rightarrow> (u64 \<times> cvalue) list" where
  "line_state_unsigned_map self =
     (let m = header LineStateKind (ls_policy_ref self) @
            [(3, stable_id_value (ls_line_id self)), (4, text_value (ls_display_name self)),
             (5, oid (ls_head_snapshot self)), (6, Unsigned (ls_generation self)),
             (8, policy_ref_value (ls_integration_policy self)),
             (9, policy_ref_value (ls_approval_policy self)),
             (10, policy_ref_value (ls_release_policy self)),
             (11, policy_ref_value (ls_visibility_policy self)),
             (12, oid (ls_transaction_operation self))]
      in optional m 7 (map_option oid (ls_previous_state self)))"

definition line_state_value :: "line_state \<Rightarrow> (cvalue, object_error) result" where
  "line_state_value self =
     Inr (Map (line_state_unsigned_map self @ [(13, signature_value (ls_signature self))]))"

definition line_state_object :: "externals \<Rightarrow> line_state \<Rightarrow> signed_object" where
  "line_state_object X self = \<lparr>co_kind = LineStateKind, co_schema = 0, co_value = line_state_value self,
     co_validate = line_state_validate X self,
     so_unsigned = Inr (Map (line_state_unsigned_map self)), so_signatures = [ls_signature self]\<rparr>"

section \<open>Conflict\<close>

record conflict_region =
  rg_start :: u64
  rg_end :: u64

datatype conflict_kind = ConflictContent | AddAdd | ModifyDelete | TypeChange

primrec conflict_kind_code :: "conflict_kind \<Rightarrow> u64" where
  "conflict_kind_code ConflictContent = 0"
| "conflict_kind_code AddAdd = 1"
| "conflict_kind_code ModifyDelete = 2"
| "conflict_kind_code TypeChange = 3"

record conflict =
  cf_policy_ref :: policy_ref
  cf_base :: typed_object_ref
  cf_left :: typed_object_ref
  cf_right :: typed_object_ref
  cf_path :: portable_path
  cf_conflict_kind :: conflict_kind
  cf_merge_driver :: bytes
  cf_merge_driver_version :: bytes
  cf_regions :: "conflict_region list"

definition region_check :: "u64 option \<Rightarrow> conflict_region \<Rightarrow> (u64 option, object_error) result" where
  "region_check previous_end region =
     (if rg_start region \<ge> rg_end region \<or>
         (case previous_end of None \<Rightarrow> False | Some e \<Rightarrow> rg_start region < e)
      then Inl (Invalid ''conflict regions must be nonempty, ordered, and nonoverlapping'')
      else Inr (Some (rg_end region)))"

definition conflict_validate :: "externals \<Rightarrow> conflict \<Rightarrow> (unit, object_error) result" where
  "conflict_validate X self =
     and_then (ensure_nfc X [cf_merge_driver self, cf_merge_driver_version self]) (\<lambda>_.
       discard (try_fold region_check None (cf_regions self)))"

definition region_value :: "conflict_region \<Rightarrow> cvalue" where
  "region_value r = Map [(0, Unsigned (rg_start r)), (1, Unsigned (rg_end r))]"

definition conflict_map :: "conflict \<Rightarrow> (u64 \<times> cvalue) list" where
  "conflict_map self =
     header ConflictKind (cf_policy_ref self) @
       [(3, typed_object_ref_value (cf_base self)), (4, typed_object_ref_value (cf_left self)),
        (5, typed_object_ref_value (cf_right self)), (6, portable_path_value (cf_path self)),
        (7, Unsigned (conflict_kind_code (cf_conflict_kind self))),
        (8, text_value (cf_merge_driver self)), (9, text_value (cf_merge_driver_version self)),
        (10, Array (map region_value (cf_regions self)))]"

definition conflict_value :: "conflict \<Rightarrow> (cvalue, object_error) result" where
  "conflict_value self = Inr (Map (conflict_map self))"

definition conflict_object :: "externals \<Rightarrow> conflict \<Rightarrow> canonical_object" where
  "conflict_object X self = \<lparr>co_kind = ConflictKind, co_schema = 0, co_value = conflict_value self,
     co_validate = conflict_validate X self\<rparr>"

section \<open>Operations\<close>

record line_advance_declaration =
  la_policy_ref :: policy_ref
  la_line_id :: line_id
  la_display_name :: bytes
  la_head_snapshot :: object_id
  la_generation :: u64
  la_previous_state :: "object_id option"
  la_integration_policy :: policy_ref
  la_approval_policy :: policy_ref
  la_release_policy :: policy_ref
  la_visibility_policy :: policy_ref

definition line_advance_value :: "line_advance_declaration \<Rightarrow> cvalue" where
  "line_advance_value self =
     (let m = [(0, policy_ref_value (la_policy_ref self)), (1, stable_id_value (la_line_id self)),
               (2, text_value (la_display_name self)), (3, oid (la_head_snapshot self)),
               (4, Unsigned (la_generation self)), (6, policy_ref_value (la_integration_policy self)),
               (7, policy_ref_value (la_approval_policy self)),
               (8, policy_ref_value (la_release_policy self)),
               (9, policy_ref_value (la_visibility_policy self))]
      in Map (optional m 5 (map_option oid (la_previous_state self))))"

definition line_advance_validate ::
  "externals \<Rightarrow> line_advance_declaration \<Rightarrow> (unit, object_error) result" where
  "line_advance_validate X self =
     and_then (ensure_nfc X [la_display_name self]) (\<lambda>_.
       if (la_generation self = 0) = (la_previous_state self \<noteq> None)
       then Inl (Invalid ''only generation zero line advance may omit previous state'')
       else Inr ())"

definition line_advance_matches :: "line_advance_declaration \<Rightarrow> line_state \<Rightarrow> bool" where
  "line_advance_matches self state \<longleftrightarrow>
     la_policy_ref self = ls_policy_ref state \<and> la_line_id self = ls_line_id state \<and>
     la_display_name self = ls_display_name state \<and>
     la_head_snapshot self = ls_head_snapshot state \<and> la_generation self = ls_generation state \<and>
     la_previous_state self = ls_previous_state state \<and>
     la_integration_policy self = ls_integration_policy state \<and>
     la_approval_policy self = ls_approval_policy state \<and>
     la_release_policy self = ls_release_policy state \<and>
     la_visibility_policy self = ls_visibility_policy state"

datatype operation_action =
    Transition "typed_object_ref option" "typed_object_ref option"
  | LineAdvance line_advance_declaration

primrec operation_action_value :: "operation_action \<Rightarrow> cvalue" where
  "operation_action_value (Transition before after) =
     (let m = [(0, Unsigned 0)];
          m = optional m 1 (map_option typed_object_ref_value before);
          m = optional m 2 (map_option typed_object_ref_value after)
      in Map m)"
| "operation_action_value (LineAdvance declaration) =
     Map [(0, Unsigned 1), (3, line_advance_value declaration)]"

record operation =
  op_policy_ref :: policy_ref
  op_parents :: "object_id list"
  op_actor :: actor_id
  op_device :: device_id
  op_logical_time :: u64
  op_wall_time :: wall_time
  op_actions :: "operation_action list"
  op_inverse_payloads :: "object_id list"
  op_public_envelope :: "object_id option"
  op_private_payload :: "object_id option"
  op_signature :: signature
  op_client_implementation :: bytes

primrec operation_action_validate :: "externals \<Rightarrow> operation_action \<Rightarrow> (unit, object_error) result" where
  "operation_action_validate X (Transition before after) =
     (if before = None \<and> after = None
      then Inl (Invalid ''operation transition requires a before or after reference'')
      else if (case after of None \<Rightarrow> False | Some r \<Rightarrow> tr_kind r = LineStateKind)
      then Inl (Invalid ''generic operation transition cannot install a line state'')
      else Inr ())"
| "operation_action_validate X (LineAdvance declaration) = line_advance_validate X declaration"

definition operation_validate :: "externals \<Rightarrow> operation \<Rightarrow> (unit, object_error) result" where
  "operation_validate X self =
     and_then (ensure_nfc X [op_client_implementation self]) (\<lambda>_.
     and_then (ensure (card (set (op_parents self)) = length (op_parents self))
       (Invalid ''operation parents must be duplicate-free'')) (\<lambda>_.
     and_then (all_ok (map (operation_action_validate X) (op_actions self))) (\<lambda>_.
       ensure_signature_purpose (op_signature self) ForOperation)))"

definition operation_unsigned_map :: "operation \<Rightarrow> (u64 \<times> cvalue) list" where
  "operation_unsigned_map self =
     (let m = header OperationKind (op_policy_ref self) @
            [(3, oid_array (op_parents self)), (4, stable_id_value (op_actor self)),
             (5, stable_id_value (op_device self)), (6, Unsigned (op_logical_time self)),
             (7, wall_time_value (op_wall_time self)),
             (8, Array (map operation_action_value (op_actions self))),
             (9, oid_array (op_inverse_payloads self)),
             (13, text_value (op_client_implementation self))];
          m = optional m 10 (map_option oid (op_public_envelope self))
      in optional m 11 (map_option oid (op_private_payload self)))"

definition operation_value :: "operation \<Rightarrow> (cvalue, object_error) result" where
  "operation_value self =
     Inr (Map (operation_unsigned_map self @ [(12, signature_value (op_signature self))]))"

definition operation_object :: "externals \<Rightarrow> operation \<Rightarrow> signed_object" where
  "operation_object X self = \<lparr>co_kind = OperationKind, co_schema = 0, co_value = operation_value self,
     co_validate = operation_validate X self,
     so_unsigned = Inr (Map (operation_unsigned_map self)), so_signatures = [op_signature self]\<rparr>"

datatype operation_action_v1 =
    BoundTransition reference_key "typed_object_ref option" typed_object_ref
  | LineAdvanceV1 line_advance_declaration

primrec operation_action_v1_value :: "operation_action_v1 \<Rightarrow> cvalue" where
  "operation_action_v1_value (BoundTransition key before after) =
     Map (optional [(0, Unsigned 2), (1, reference_key_value key), (3, typed_object_ref_value after)]
       2 (map_option typed_object_ref_value before))"
| "operation_action_v1_value (LineAdvanceV1 declaration) =
     Map [(0, Unsigned 1), (3, line_advance_value declaration)]"

record operation_v1 =
  o1_policy_ref :: policy_ref
  o1_parents :: "object_id list"
  o1_actor :: actor_id
  o1_device :: device_id
  o1_logical_time :: u64
  o1_wall_time :: wall_time
  o1_actions :: "operation_action_v1 list"
  o1_inverse_payloads :: "object_id list"
  o1_public_envelope :: "object_id option"
  o1_private_payload :: "object_id option"
  o1_signature :: signature
  o1_client_implementation :: bytes

primrec action_v1_key :: "externals \<Rightarrow> operation_action_v1 \<Rightarrow> (reference_key, object_error) result" where
  "action_v1_key X (BoundTransition key before after) =
     (if (case key of KeyLine _ \<Rightarrow> True | KeyOperationHead \<Rightarrow> True | _ \<Rightarrow> False)
      then Inl (Invalid ''bound transition key requires a dedicated operation action'')
      else if (case before of None \<Rightarrow> False | Some r \<Rightarrow> tr_kind r \<noteq> expected_kind key) \<or>
        tr_kind after \<noteq> expected_kind key
      then Inl (Invalid ''bound transition object kind does not match its reference key'')
      else Inr key)"
| "action_v1_key X (LineAdvanceV1 declaration) =
     and_then (line_advance_validate X declaration) (\<lambda>_. Inr (KeyLine (la_line_id declaration)))"

definition action_v1_check ::
  "externals \<Rightarrow> reference_key set \<Rightarrow> operation_action_v1 \<Rightarrow> (reference_key set, object_error) result" where
  "action_v1_check X keys action =
     and_then (action_v1_key X action) (\<lambda>key.
       if key \<in> keys then Inl (Invalid ''operation actions must have unique reference keys'')
       else Inr (insert key keys))"

definition operation_v1_validate :: "externals \<Rightarrow> operation_v1 \<Rightarrow> (unit, object_error) result" where
  "operation_v1_validate X self =
     and_then (ensure_nfc X [o1_client_implementation self]) (\<lambda>_.
     and_then (ensure (card (set (o1_parents self)) = length (o1_parents self))
       (Invalid ''operation parents must be duplicate-free'')) (\<lambda>_.
     and_then (try_fold (action_v1_check X) {} (o1_actions self)) (\<lambda>_.
       ensure_signature_purpose (o1_signature self) ForOperation)))"

definition operation_v1_unsigned_map :: "operation_v1 \<Rightarrow> (u64 \<times> cvalue) list" where
  "operation_v1_unsigned_map self =
     (let m = header_version OperationKind 1 (o1_policy_ref self) @
            [(3, oid_array (o1_parents self)), (4, stable_id_value (o1_actor self)),
             (5, stable_id_value (o1_device self)), (6, Unsigned (o1_logical_time self)),
             (7, wall_time_value (o1_wall_time self)),
             (8, Array (map operation_action_v1_value (o1_actions self))),
             (9, oid_array (o1_inverse_payloads self)),
             (13, text_value (o1_client_implementation self))];
          m = optional m 10 (map_option oid (o1_public_envelope self))
      in optional m 11 (map_option oid (o1_private_payload self)))"

definition operation_v1_value :: "operation_v1 \<Rightarrow> (cvalue, object_error) result" where
  "operation_v1_value self =
     Inr (Map (operation_v1_unsigned_map self @ [(12, signature_value (o1_signature self))]))"

definition operation_v1_object :: "externals \<Rightarrow> operation_v1 \<Rightarrow> signed_object" where
  "operation_v1_object X self = \<lparr>co_kind = OperationKind, co_schema = 1,
     co_value = operation_v1_value self, co_validate = operation_v1_validate X self,
     so_unsigned = Inr (Map (operation_v1_unsigned_map self)), so_signatures = [o1_signature self]\<rparr>"

text \<open>\<open>LineState::validate_transaction\<close> and its schema-1 counterpart.\<close>

definition check_transaction ::
  "line_state \<Rightarrow> (object_id, object_error) result \<Rightarrow> line_advance_declaration list \<Rightarrow> (unit, object_error) result" where
  "check_transaction self operation_id declarations =
     and_then operation_id (\<lambda>i.
       if i \<noteq> ls_transaction_operation self
       then Inl (Invalid ''line state transaction operation ID does not match operation'')
       else if length (filter (\<lambda>d. line_advance_matches d self) declarations) \<noteq> 1
       then Inl (Invalid ''operation must contain exactly one matching line advance declaration'')
       else Inr ())"

definition validate_transaction :: "externals \<Rightarrow> line_state \<Rightarrow> operation \<Rightarrow> (unit, object_error) result" where
  "validate_transaction X self op =
     check_transaction self
       (object_identity X (canonical_object.truncate (operation_object X op)) (algorithm (ls_transaction_operation self)))
       (List.map_filter (\<lambda>a. case a of LineAdvance d \<Rightarrow> Some d | _ \<Rightarrow> None) (op_actions op))"

definition validate_transaction_v1 ::
  "externals \<Rightarrow> line_state \<Rightarrow> operation_v1 \<Rightarrow> (unit, object_error) result" where
  "validate_transaction_v1 X self op =
     check_transaction self
       (object_identity X (canonical_object.truncate (operation_v1_object X op)) (algorithm (ls_transaction_operation self)))
       (List.map_filter (\<lambda>a. case a of LineAdvanceV1 d \<Rightarrow> Some d | _ \<Rightarrow> None) (o1_actions op))"


section \<open>Marker and Release\<close>

datatype marker_kind = MarkRelease | MarkDeployment | MarkReview | MarkPolicy | MarkBookmark

primrec marker_kind_code :: "marker_kind \<Rightarrow> u64" where
  "marker_kind_code MarkRelease = 0"
| "marker_kind_code MarkDeployment = 1"
| "marker_kind_code MarkReview = 2"
| "marker_kind_code MarkPolicy = 3"
| "marker_kind_code MarkBookmark = 4"

record marker =
  mk_policy_ref :: policy_ref
  mk_marker_kind :: marker_kind
  mk_target :: typed_object_ref
  mk_issuer :: actor_id
  mk_issue_time :: wall_time
  mk_typed_payload :: bytes
  mk_signature :: signature

definition marker_validate :: "marker \<Rightarrow> (unit, object_error) result" where
  "marker_validate self = ensure_signature_purpose (mk_signature self) ForMarker"

definition marker_unsigned_map :: "marker \<Rightarrow> (u64 \<times> cvalue) list" where
  "marker_unsigned_map self =
     header MarkerKind (mk_policy_ref self) @
       [(3, Unsigned (marker_kind_code (mk_marker_kind self))),
        (4, typed_object_ref_value (mk_target self)), (5, stable_id_value (mk_issuer self)),
        (6, wall_time_value (mk_issue_time self)), (7, Bytes (mk_typed_payload self))]"

definition marker_value :: "marker \<Rightarrow> (cvalue, object_error) result" where
  "marker_value self = Inr (Map (marker_unsigned_map self @ [(8, signature_value (mk_signature self))]))"

definition marker_object :: "marker \<Rightarrow> signed_object" where
  "marker_object self = \<lparr>co_kind = MarkerKind, co_schema = 0, co_value = marker_value self,
     co_validate = marker_validate self,
     so_unsigned = Inr (Map (marker_unsigned_map self)), so_signatures = [mk_signature self]\<rparr>"

record release =
  rl_policy_ref :: policy_ref
  rl_source_line :: line_id
  rl_source_generation :: u64
  rl_source_snapshot :: object_id
  rl_audience_policy :: policy_ref
  rl_projection_rules :: object_id
  rl_projected_root :: object_id
  rl_projection_proof :: object_id
  rl_version_identifier :: bytes
  rl_release_notes_blob :: "object_id option"
  rl_build_provenance :: "object_id list"
  rl_artifacts :: "object_id list"
  rl_policy_decision_evidence :: "object_id list"
  rl_issue_time :: wall_time
  rl_signatures :: "signature list"

definition release_validate :: "externals \<Rightarrow> release \<Rightarrow> (unit, object_error) result" where
  "release_validate X self =
     and_then (ensure_nfc X [rl_version_identifier self]) (\<lambda>_.
       ensure_signature_set (rl_signatures self) ForRelease)"

definition release_unsigned_map :: "release \<Rightarrow> (u64 \<times> cvalue) list" where
  "release_unsigned_map self =
     (let m = header ReleaseKind (rl_policy_ref self) @
            [(3, stable_id_value (rl_source_line self)), (4, Unsigned (rl_source_generation self)),
             (5, oid (rl_source_snapshot self)), (6, policy_ref_value (rl_audience_policy self)),
             (7, oid (rl_projection_rules self)), (8, oid (rl_projected_root self)),
             (9, oid (rl_projection_proof self)), (10, text_value (rl_version_identifier self)),
             (12, oid_array (rl_build_provenance self)), (13, oid_array (rl_artifacts self)),
             (14, oid_array (rl_policy_decision_evidence self)),
             (15, wall_time_value (rl_issue_time self))]
      in optional m 11 (map_option oid (rl_release_notes_blob self)))"

definition release_value :: "release \<Rightarrow> (cvalue, object_error) result" where
  "release_value self =
     Inr (Map (release_unsigned_map self @ [(16, Array (map signature_value (rl_signatures self)))]))"

definition release_object :: "externals \<Rightarrow> release \<Rightarrow> signed_object" where
  "release_object X self = \<lparr>co_kind = ReleaseKind, co_schema = 0, co_value = release_value self,
     co_validate = release_validate X self,
     so_unsigned = Inr (Map (release_unsigned_map self)), so_signatures = rl_signatures self\<rparr>"

section \<open>Policy\<close>

datatype principal_kind = PrincipalActor | PrincipalGroup | PrincipalRole | PrincipalService

primrec principal_kind_code :: "principal_kind \<Rightarrow> u64" where
  "principal_kind_code PrincipalActor = 0"
| "principal_kind_code PrincipalGroup = 1"
| "principal_kind_code PrincipalRole = 2"
| "principal_kind_code PrincipalService = 3"

record principal =
  pn_kind :: principal_kind
  pn_identifier :: bytes

datatype capability =
    CapDiscover | CapRead | CapMaterialize | CapDerive | CapReview | CapIntegrate | CapRelease
  | CapAdminister | CapAudit

primrec capability_code :: "capability \<Rightarrow> u64" where
  "capability_code CapDiscover = 0"
| "capability_code CapRead = 1"
| "capability_code CapMaterialize = 2"
| "capability_code CapDerive = 3"
| "capability_code CapReview = 4"
| "capability_code CapIntegrate = 5"
| "capability_code CapRelease = 6"
| "capability_code CapAdminister = 7"
| "capability_code CapAudit = 8"

record grant =
  gr_principal_index :: u64
  gr_capabilities :: "capability list"

datatype redaction_mode = RedactOmit | OpaquePlaceholder | TypedSummary

primrec redaction_mode_code :: "redaction_mode \<Rightarrow> u64" where
  "redaction_mode_code RedactOmit = 0"
| "redaction_mode_code OpaquePlaceholder = 1"
| "redaction_mode_code TypedSummary = 2"

datatype derivation_rule = NoDerivation | SamePolicy | ExplicitEvidence

primrec derivation_rule_code :: "derivation_rule \<Rightarrow> u64" where
  "derivation_rule_code NoDerivation = 0"
| "derivation_rule_code SamePolicy = 1"
| "derivation_rule_code ExplicitEvidence = 2"

record policy =
  po_policy_ref :: "policy_ref option"
  po_policy_id :: policy_id
  po_version_sequence :: u64
  po_previous_version :: "object_id option"
  po_principals :: "principal list"
  po_grants :: "grant list"
  po_redaction_mode :: redaction_mode
  po_derivation_rule :: derivation_rule
  po_declassification_requirements :: "object_id list"
  po_key_epoch :: u64
  po_key_envelope_set :: object_id
  po_administrators :: "actor_id list"
  po_activation_constraints :: bytes
  po_signatures :: "signature list"

definition policy_validate :: "policy \<Rightarrow> (unit, object_error) result" where
  "policy_validate self =
     and_then (ensure_signature_set (po_signatures self) ForPolicy) (\<lambda>_.
       if (po_version_sequence self = 0) = (po_previous_version self \<noteq> None)
       then Inl (Invalid ''only policy version zero may omit a previous version'')
       else if \<exists>p \<in> set (po_principals self). pn_identifier p = []
       then Inl (Invalid ''principal identifier must not be empty'')
       else if \<exists>g \<in> set (po_grants self). gr_principal_index g \<ge> of_nat (length (po_principals self))
       then Inl (Invalid ''grant references an absent principal'')
       else if \<exists>g \<in> set (po_grants self). card (set (gr_capabilities g)) \<noteq> length (gr_capabilities g)
       then Inl (Invalid ''grant capabilities contain duplicates'')
       else if card (set (po_declassification_requirements self)) \<noteq>
         length (po_declassification_requirements self)
       then Inl (Invalid ''declassification requirements must be duplicate-free'')
       else Inr ())"

definition principal_value :: "principal \<Rightarrow> cvalue" where
  "principal_value p = Map [(0, Unsigned (principal_kind_code (pn_kind p))), (1, Bytes (pn_identifier p))]"

definition grant_value :: "grant \<Rightarrow> cvalue" where
  "grant_value g =
     (let capabilities = sort (map capability_code (gr_capabilities g))
      in Map [(0, Unsigned (gr_principal_index g)), (1, Array (map Unsigned capabilities))])"

definition policy_unsigned_map :: "policy \<Rightarrow> (u64 \<times> cvalue) list" where
  "policy_unsigned_map self =
     (let m = optional_header PolicyKind (po_policy_ref self) @
            [(3, stable_id_value (po_policy_id self)), (4, Unsigned (po_version_sequence self)),
             (6, Array (map principal_value (po_principals self))),
             (7, Array (map grant_value (po_grants self))),
             (8, Unsigned (redaction_mode_code (po_redaction_mode self))),
             (9, Unsigned (derivation_rule_code (po_derivation_rule self))),
             (10, oid_array (po_declassification_requirements self)),
             (11, Unsigned (po_key_epoch self)), (12, oid (po_key_envelope_set self)),
             (13, Array (map stable_id_value (po_administrators self))),
             (14, Bytes (po_activation_constraints self))]
      in optional m 5 (map_option oid (po_previous_version self)))"

definition policy_value :: "policy \<Rightarrow> (cvalue, object_error) result" where
  "policy_value self =
     Inr (Map (policy_unsigned_map self @ [(15, Array (map signature_value (po_signatures self)))]))"

definition policy_object :: "policy \<Rightarrow> signed_object" where
  "policy_object self = \<lparr>co_kind = PolicyKind, co_schema = 0, co_value = policy_value self,
     co_validate = policy_validate self,
     so_unsigned = Inr (Map (policy_unsigned_map self)), so_signatures = po_signatures self\<rparr>"

section \<open>Chunked blobs\<close>

text \<open>\<open>Blob::from_bytes_fastcdc_v0\<close> of \<open>fastcdc.rs\<close>.\<close>

record chunked_blob =
  cb_blob :: blob
  cb_chunks :: "chunk list"

definition blob_from_bytes ::
  "externals \<Rightarrow> policy_ref \<Rightarrow> bytes \<Rightarrow> hash_algorithm \<Rightarrow> (chunked_blob, object_error) result" where
  "blob_from_bytes X p bs alg =
     (if length bs \<le> MAX_INLINE_BLOB_BYTES then
        Inr \<lparr>cb_blob = \<lparr>bl_policy_ref = p, bl_byte_length = of_nat (length bs), bl_content = Inline bs,
                        bl_chunk_profile = None, bl_content_hint = None\<rparr>,
             cb_chunks = []\<rparr>
      else
        let chunks = map (\<lambda>c. \<lparr>ck_policy_ref = p, ck_bytes = c\<rparr>) (fastcdc_v0_chunks bs) in
        and_then (collect_results (map (\<lambda>c. and_then (object_identity X (chunk_object c) alg) (\<lambda>i.
            Inr \<lparr>cr_id = i, cr_plaintext_length = of_nat (length (ck_bytes c))\<rparr>)) chunks)) (\<lambda>refs.
          Inr \<lparr>cb_blob = \<lparr>bl_policy_ref = p, bl_byte_length = of_nat (length bs), bl_content = Chunks refs,
                          bl_chunk_profile = Some fastcdc_v0_profile, bl_content_hint = None\<rparr>,
               cb_chunks = chunks\<rparr>))"

end
