(* ===== verification/Decoding.thy ===== *)
theory Decoding
  imports Objects
begin

text \<open>
  Typed admission of canonical bytes, \<open>crates/rgit-objects/src/decode.rs\<close>: the accessors on
  decoded maps, the field tables and the per-kind shape checks of \<open>validate_fields\<close> and
  \<open>validate_shapes\<close> (one definition per match arm), and \<open>AnyObject::decode\<close>, \<open>id\<close> and
  \<open>decode_verified\<close>. Sets kept by a loop are sets; \<open>find\<close> on an entry list is \<open>map_of\<close>.
\<close>

section \<open>Objects and errors\<close>

record decoded_object =
  do_kind :: object_kind
  do_schema_version :: u64
  do_value :: cvalue

datatype any_object =
    AnyChunk (decoded: decoded_object)
  | AnyBlob (decoded: decoded_object)
  | AnySecretRef (decoded: decoded_object)
  | AnyManifest (decoded: decoded_object)
  | AnySubproject (decoded: decoded_object)
  | AnySnapshot (decoded: decoded_object)
  | AnyChangeRevision (decoded: decoded_object)
  | AnyLineState (decoded: decoded_object)
  | AnyConflict (decoded: decoded_object)
  | AnyOperation (decoded: decoded_object)
  | AnyMarker (decoded: decoded_object)
  | AnyRelease (decoded: decoded_object)
  | AnyPolicy (decoded: decoded_object)
  | AnyRepositoryRoot (decoded: decoded_object)
  | AnyIdentity (decoded: decoded_object)
  | AnyGroupMembership (decoded: decoded_object)
  | AnyKeyEnvelopeSet (decoded: decoded_object)
  | AnyChangeRelation (decoded: decoded_object)
  | AnyConflictResolution (decoded: decoded_object)
  | AnyReviewEvidence (decoded: decoded_object)
  | AnyApprovalEvidence (decoded: decoded_object)
  | AnyCiEvidence (decoded: decoded_object)
  | AnyPolicyDecisionEvidence (decoded: decoded_object)
  | AnyProjectionRules (decoded: decoded_object)
  | AnyProjectionProof (decoded: decoded_object)
  | AnyBuildProvenance (decoded: decoded_object)
  | AnyArtifact (decoded: decoded_object)
  | AnyOperationPayload (decoded: decoded_object)
  | AnyView (decoded: decoded_object)
  | AnyMigration (decoded: decoded_object)
  | AnyRuleset (decoded: decoded_object)

datatype decode_object_error =
    DecodeCanonical canonical_error
  | NotMap
  | Field u64
  | UnknownKind u64
  | UnsupportedSchema u64
  | UnknownField u64
  | ObjectIdField u64
  | Digest

text \<open>The dispatch of \<open>AnyObject::decode\<close> on the kind.\<close>

primrec any_object_of :: "object_kind \<Rightarrow> decoded_object \<Rightarrow> any_object" where
  "any_object_of ChunkKind d = AnyChunk d"
| "any_object_of BlobKind d = AnyBlob d"
| "any_object_of SecretRefKind d = AnySecretRef d"
| "any_object_of ManifestKind d = AnyManifest d"
| "any_object_of SubprojectKind d = AnySubproject d"
| "any_object_of SnapshotKind d = AnySnapshot d"
| "any_object_of ChangeRevisionKind d = AnyChangeRevision d"
| "any_object_of LineStateKind d = AnyLineState d"
| "any_object_of ConflictKind d = AnyConflict d"
| "any_object_of OperationKind d = AnyOperation d"
| "any_object_of MarkerKind d = AnyMarker d"
| "any_object_of ReleaseKind d = AnyRelease d"
| "any_object_of PolicyKind d = AnyPolicy d"
| "any_object_of RepositoryRootKind d = AnyRepositoryRoot d"
| "any_object_of IdentityKind d = AnyIdentity d"
| "any_object_of GroupMembershipKind d = AnyGroupMembership d"
| "any_object_of KeyEnvelopeSetKind d = AnyKeyEnvelopeSet d"
| "any_object_of ChangeRelationKind d = AnyChangeRelation d"
| "any_object_of ConflictResolutionKind d = AnyConflictResolution d"
| "any_object_of ReviewEvidenceKind d = AnyReviewEvidence d"
| "any_object_of ApprovalEvidenceKind d = AnyApprovalEvidence d"
| "any_object_of CiEvidenceKind d = AnyCiEvidence d"
| "any_object_of PolicyDecisionEvidenceKind d = AnyPolicyDecisionEvidence d"
| "any_object_of ProjectionRulesKind d = AnyProjectionRules d"
| "any_object_of ProjectionProofKind d = AnyProjectionProof d"
| "any_object_of BuildProvenanceKind d = AnyBuildProvenance d"
| "any_object_of ArtifactKind d = AnyArtifact d"
| "any_object_of OperationPayloadKind d = AnyOperationPayload d"
| "any_object_of ViewKind d = AnyView d"
| "any_object_of MigrationKind d = AnyMigration d"
| "any_object_of RulesetKind d = AnyRuleset d"

lemma decoded_any_object_of [simp]: "decoded (any_object_of k d) = d"
  by (cases k) simp_all

section \<open>Accessors\<close>

type_synonym fields = "(u64 \<times> cvalue) list"
type_synonym check = "(unit, decode_object_error) result"

definition as_map :: "cvalue \<Rightarrow> (fields, decode_object_error) result" where
  "as_map v = (case v of Map m \<Rightarrow> Inr m | _ \<Rightarrow> Inl NotMap)"

definition field :: "fields \<Rightarrow> u64 \<Rightarrow> (cvalue, decode_object_error) result" where
  "field m k = ok_or (map_of m k) (Field k)"

definition optional_field :: "fields \<Rightarrow> u64 \<Rightarrow> cvalue option" where
  "optional_field m k = map_of m k"

definition as_unsigned :: "cvalue \<Rightarrow> u64 \<Rightarrow> (u64, decode_object_error) result" where
  "as_unsigned v k = (case v of Unsigned n \<Rightarrow> Inr n | _ \<Rightarrow> Inl (Field k))"

definition as_bytes :: "cvalue \<Rightarrow> u64 \<Rightarrow> (bytes, decode_object_error) result" where
  "as_bytes v k = (case v of Bytes b \<Rightarrow> Inr b | _ \<Rightarrow> Inl (Field k))"

definition as_text :: "cvalue \<Rightarrow> u64 \<Rightarrow> (bytes, decode_object_error) result" where
  "as_text v k = (case v of Text t \<Rightarrow> Inr t | _ \<Rightarrow> Inl (Field k))"

definition as_array :: "cvalue \<Rightarrow> u64 \<Rightarrow> (cvalue list, decode_object_error) result" where
  "as_array v k = (case v of Array a \<Rightarrow> Inr a | _ \<Rightarrow> Inl (Field k))"

definition as_bool :: "cvalue \<Rightarrow> u64 \<Rightarrow> (bool, decode_object_error) result" where
  "as_bool v k = (case v of Bool b \<Rightarrow> Inr b | _ \<Rightarrow> Inl (Field k))"

text \<open>\<open>f(field(map, k)?)\<close>, and the same under \<open>if let Some(..)\<close>.\<close>

definition at_field :: "fields \<Rightarrow> u64 \<Rightarrow> (cvalue \<Rightarrow> ('a, decode_object_error) result) \<Rightarrow> ('a, decode_object_error) result" where
  "at_field m k f = and_then (field m k) f"

definition opt_field :: "fields \<Rightarrow> u64 \<Rightarrow> (cvalue \<Rightarrow> ('a, decode_object_error) result) \<Rightarrow> check" where
  "opt_field m k f = (case optional_field m k of None \<Rightarrow> Inr () | Some v \<Rightarrow> discard (f v))"

definition fixed_bytes :: "nat \<Rightarrow> cvalue \<Rightarrow> u64 \<Rightarrow> check" where
  "fixed_bytes n v k = and_then (as_bytes v k) (\<lambda>b. ensure (length b = n) (Field k))"

definition fixed_nonzero_bytes :: "nat \<Rightarrow> cvalue \<Rightarrow> u64 \<Rightarrow> check" where
  "fixed_nonzero_bytes n v k =
     and_then (fixed_bytes n v k) (\<lambda>_.
     and_then (as_bytes v k) (\<lambda>b. ensure (\<not> (\<forall>x \<in> set b. x = 0)) (Field k)))"

definition as_oid :: "cvalue \<Rightarrow> u64 \<Rightarrow> (object_id, decode_object_error) result" where
  "as_oid v k = and_then (as_bytes v k) (\<lambda>b. map_err (\<lambda>_. ObjectIdField k) (from_bytes b))"

definition oid_values :: "cvalue \<Rightarrow> u64 \<Rightarrow> (object_id list, decode_object_error) result" where
  "oid_values v k = and_then (as_array v k) (\<lambda>a. collect_results (map (\<lambda>x. as_oid x k) a))"

definition oid_array_check :: "cvalue \<Rightarrow> u64 \<Rightarrow> check" where
  "oid_array_check v k = and_then (as_array v k) (\<lambda>a. all_ok (map (\<lambda>x. discard (as_oid x k)) a))"

definition exact_map :: "cvalue \<Rightarrow> u64 list \<Rightarrow> u64 list \<Rightarrow> u64 \<Rightarrow> (fields, decode_object_error) result" where
  "exact_map v required optional_keys k =
     and_then (as_map v) (\<lambda>m.
       if (\<exists>r \<in> set required. r \<notin> fst ` set m) \<or>
          (\<exists>a \<in> fst ` set m. a \<notin> set required \<and> a \<notin> set optional_keys)
       then Inl (Field k) else Inr m)"

definition policy_ref_check :: "cvalue \<Rightarrow> u64 \<Rightarrow> check" where
  "policy_ref_check v k =
     and_then (exact_map v [0, 1] [] k) (\<lambda>m.
     and_then (at_field m 0 (\<lambda>x. fixed_bytes 16 x k)) (\<lambda>_.
       discard (at_field m 1 (\<lambda>x. as_oid x k))))"

definition typed_ref_kind :: "cvalue \<Rightarrow> u64 \<Rightarrow> (object_kind, decode_object_error) result" where
  "typed_ref_kind v k =
     and_then (exact_map v [0, 1] [] k) (\<lambda>m.
     and_then (at_field m 0 (\<lambda>x. as_unsigned x k)) (\<lambda>n.
     and_then (map_err UnknownKind (object_kind_of n)) (\<lambda>kind.
     and_then (at_field m 1 (\<lambda>x. as_oid x k)) (\<lambda>_. Inr kind))))"

definition typed_ref_check :: "cvalue \<Rightarrow> u64 \<Rightarrow> check" where
  "typed_ref_check v k = discard (typed_ref_kind v k)"

definition typed_ref_value :: "cvalue \<Rightarrow> u64 \<Rightarrow> (typed_object_ref, decode_object_error) result" where
  "typed_ref_value v k =
     and_then (exact_map v [0, 1] [] k) (\<lambda>m.
     and_then (at_field m 0 (\<lambda>x. as_unsigned x k)) (\<lambda>n.
     and_then (map_err UnknownKind (object_kind_of n)) (\<lambda>kind.
     and_then (at_field m 1 (\<lambda>x. as_oid x k)) (\<lambda>i. Inr \<lparr>tr_kind = kind, tr_id = i\<rparr>))))"

definition decode_reference_key :: "cvalue \<Rightarrow> u64 \<Rightarrow> (reference_key, decode_object_error) result" where
  "decode_reference_key v key =
     and_then (as_map v) (\<lambda>m.
     and_then (at_field m 0 (\<lambda>x. as_unsigned x key)) (\<lambda>kind.
       if kind = 3 then and_then (exact_map v [0] [] key) (\<lambda>_. Inr KeyOperationHead)
       else and_then (exact_map v [0, 1] [] key) (\<lambda>m.
         and_then (at_field m 1 (\<lambda>x. as_bytes x key)) (\<lambda>stable.
           if length stable \<noteq> 16 then Inl (Field key)
           else if kind = 1 then Inr (KeyLine stable)
           else if kind = 2 then Inr (KeyChange stable)
           else if kind = 4 then Inr (KeyRelease stable)
           else if kind = 5 then Inr (KeyMarker stable)
           else Inl (Field key)))))"

fun ensure_unique_ids_from :: "object_id list \<Rightarrow> object_id list \<Rightarrow> u64 \<Rightarrow> check" where
  "ensure_unique_ids_from before [] key = Inr ()"
| "ensure_unique_ids_from before (i # rest) key =
     (if i \<in> set before then Inl (Field key) else ensure_unique_ids_from (before @ [i]) rest key)"

definition ensure_unique_ids :: "object_id list \<Rightarrow> u64 \<Rightarrow> check" where
  "ensure_unique_ids ids key = ensure_unique_ids_from [] ids key"

definition ensure_sorted_unique_ids :: "object_id list \<Rightarrow> u64 \<Rightarrow> check" where
  "ensure_sorted_unique_ids ids key = ensure (\<not> windows2_any (\<lambda>a b. a \<ge> b) ids) (Field key)"

definition ensure_sorted_unique_values :: "externals \<Rightarrow> cvalue list \<Rightarrow> u64 \<Rightarrow> check" where
  "ensure_sorted_unique_values X values key =
     and_then (map_err DecodeCanonical (collect_results (map (encode X) values))) (\<lambda>encoded.
       ensure (\<not> windows2_any (\<lambda>a b. a \<ge> b) encoded) (Field key))"

definition principal_check :: "cvalue \<Rightarrow> u64 \<Rightarrow> check" where
  "principal_check v key =
     and_then (exact_map v [0, 1] [] key) (\<lambda>m.
     and_then (at_field m 0 (\<lambda>x. as_unsigned x key)) (\<lambda>n.
       if n > 3 then Inl (Field key)
       else and_then (at_field m 1 (\<lambda>x. as_bytes x key)) (\<lambda>b. ensure (b \<noteq> []) (Field key))))"

definition public_key :: "cvalue \<Rightarrow> u64 \<Rightarrow> (u64 \<times> bytes, decode_object_error) result" where
  "public_key v key =
     and_then (exact_map v [0, 1, 2] [3, 4] key) (\<lambda>m.
     and_then (at_field m 0 (\<lambda>x. as_unsigned x key)) (\<lambda>alg.
       if alg > 1 then Inl (Field key)
       else and_then (at_field m 1 (\<lambda>x. fixed_nonzero_bytes 32 x key)) (\<lambda>_.
         and_then (at_field m 2 (\<lambda>x. as_bytes x key)) (\<lambda>b.
           if length b \<noteq> 32 then Inl (Field key)
           else and_then (opt_field m 3 (\<lambda>x. as_oid x key)) (\<lambda>_.
             and_then (opt_field m 4 (\<lambda>x. as_oid x key)) (\<lambda>_.
             and_then (at_field m 1 (\<lambda>x. as_bytes x key)) (\<lambda>key_id. Inr (alg, key_id))))))))"

definition canonical_map_bytes :: "externals \<Rightarrow> cvalue \<Rightarrow> u64 \<Rightarrow> check" where
  "canonical_map_bytes X v key =
     and_then (as_bytes v key) (\<lambda>encoded.
       case decode_canonical X encoded metadata of Inr (Map _) \<Rightarrow> Inr () | _ \<Rightarrow> Inl (Field key))"

definition wall_time_check :: "cvalue \<Rightarrow> u64 \<Rightarrow> check" where
  "wall_time_check v key =
     and_then (exact_map v [0, 1] [] key) (\<lambda>m.
       all_ok (map (\<lambda>k. at_field m k (\<lambda>x.
         case x of Signed _ \<Rightarrow> Inr () | Unsigned _ \<Rightarrow> Inr () | _ \<Rightarrow> Inl (Field key))) [0, 1]))"

definition signature_check :: "signature_purpose \<Rightarrow> cvalue \<Rightarrow> u64 \<Rightarrow> check" where
  "signature_check expected v key =
     and_then (exact_map v [0, 1, 2, 3, 4] [] key) (\<lambda>m.
     and_then (at_field m 0 (\<lambda>x. as_unsigned x key)) (\<lambda>a.
     and_then (map_err (\<lambda>_. Field key) (signature_algorithm_of a)) (\<lambda>_.
     and_then (at_field m 1 (\<lambda>x. fixed_bytes 16 x key)) (\<lambda>_.
     and_then (at_field m 2 (\<lambda>x. fixed_bytes 32 x key)) (\<lambda>_.
     and_then (at_field m 3 (\<lambda>x. fixed_bytes 64 x key)) (\<lambda>_.
     and_then (at_field m 2 (\<lambda>x. as_bytes x key)) (\<lambda>key_id.
       if \<forall>b \<in> set key_id. b = 0 then Inl (Field key)
       else and_then (at_field m 3 (\<lambda>x. as_bytes x key)) (\<lambda>sb.
         if \<forall>b \<in> set sb. b = 0 then Inl (Field key)
         else and_then (at_field m 4 (\<lambda>x. as_unsigned x key)) (\<lambda>p.
           and_then (map_err (\<lambda>_. Field key) (purpose_of p)) (\<lambda>purpose.
             if purpose \<noteq> expected then Inl (Field key) else Inr ()))))))))))"

definition signature_set_check :: "externals \<Rightarrow> signature_purpose \<Rightarrow> cvalue \<Rightarrow> u64 \<Rightarrow> check" where
  "signature_set_check X purpose v key =
     and_then (as_array v key) (\<lambda>values.
       if values = [] then Inl (Field key)
       else and_then (all_ok (map (\<lambda>x. signature_check purpose x key) values)) (\<lambda>_.
         ensure_sorted_unique_values X values key))"

text \<open>\<open>line_advance\<close> returns the line of the declaration.\<close>

definition line_advance_check :: "cvalue \<Rightarrow> u64 \<Rightarrow> (line_id, decode_object_error) result" where
  "line_advance_check v key =
     and_then (exact_map v [0, 1, 2, 3, 4, 6, 7, 8, 9] [5] key) (\<lambda>m.
     and_then (at_field m 0 (\<lambda>x. policy_ref_check x key)) (\<lambda>_.
     and_then (at_field m 1 (\<lambda>x. as_bytes x key)) (\<lambda>line.
       if length line \<noteq> 16 then Inl (Field key)
       else and_then (at_field m 2 (\<lambda>x. as_text x key)) (\<lambda>_.
         and_then (at_field m 3 (\<lambda>x. as_oid x key)) (\<lambda>_.
         and_then (at_field m 4 (\<lambda>x. as_unsigned x key)) (\<lambda>generation.
           if (generation = 0) = (optional_field m 5 \<noteq> None) then Inl (Field key)
           else and_then (opt_field m 5 (\<lambda>x. as_oid x key)) (\<lambda>_.
             and_then (all_ok (map (\<lambda>p. at_field m p (\<lambda>x. policy_ref_check x key)) [6, 7, 8, 9]))
               (\<lambda>_. Inr line))))))))"


section \<open>Shapes of the core kinds\<close>

definition shape_chunk :: "fields \<Rightarrow> check" where
  "shape_chunk m =
     and_then (at_field m 3 (\<lambda>v. as_bytes v 3)) (\<lambda>b. ensure (length b \<le> MAX_CHUNK_BYTES) (Field 3))"

definition shape_blob_inline :: "fields \<Rightarrow> u64 \<Rightarrow> cvalue \<Rightarrow> check" where
  "shape_blob_inline m byte_length inline =
     and_then (as_bytes inline 4) (\<lambda>b.
       ensure (\<not> (length b > MAX_INLINE_BLOB_BYTES \<or> of_nat (length b) \<noteq> byte_length \<or>
                  optional_field m 7 \<noteq> None)) (Field 4))"

definition blob_chunk_step :: "u64 \<Rightarrow> cvalue \<Rightarrow> (u64, decode_object_error) result" where
  "blob_chunk_step acc v =
     and_then (exact_map v [0, 1] [] 5) (\<lambda>c.
     and_then (at_field c 0 (\<lambda>x. as_oid x 5)) (\<lambda>_.
     and_then (at_field c 1 (\<lambda>x. as_unsigned x 5)) (\<lambda>len.
       if len = 0 \<or> len > of_nat FASTCDC_V0_MAX_SIZE then Inl (Field 5)
       else ok_or (checked_add acc len) (Field 5))))"

definition chunk_profile_check :: "cvalue \<Rightarrow> check" where
  "chunk_profile_check v =
     and_then (exact_map v [0, 1, 2, 3, 4] [] 7) (\<lambda>p.
     and_then (at_field p 0 (\<lambda>x. as_unsigned x 7)) (\<lambda>a.
       if a \<noteq> 0 then Inl (Field 7)
       else and_then (at_field p 1 (\<lambda>x. as_unsigned x 7)) (\<lambda>version.
         if version \<noteq> 0 then Inl (Field 7)
         else and_then (at_field p 2 (\<lambda>x. as_unsigned x 7)) (\<lambda>lo.
           and_then (at_field p 3 (\<lambda>x. as_unsigned x 7)) (\<lambda>target.
           and_then (at_field p 4 (\<lambda>x. as_unsigned x 7)) (\<lambda>hi.
             ensure (\<not> (lo \<noteq> of_nat FASTCDC_V0_MIN_SIZE \<or> target \<noteq> of_nat FASTCDC_V0_TARGET_SIZE \<or>
                        hi \<noteq> of_nat FASTCDC_V0_MAX_SIZE)) (Field 7)))))))"

definition shape_blob_chunks :: "fields \<Rightarrow> u64 \<Rightarrow> check" where
  "shape_blob_chunks m byte_length =
     (if byte_length \<le> of_nat MAX_INLINE_BLOB_BYTES then Inl (Field 5)
      else and_then (at_field m 5 (\<lambda>v. as_array v 5)) (\<lambda>chunks.
        if chunks = [] then Inl (Field 5)
        else and_then (try_fold blob_chunk_step 0 chunks) (\<lambda>acc.
          if acc \<noteq> byte_length then Inl (Field 5) else at_field m 7 chunk_profile_check)))"

definition shape_blob :: "fields \<Rightarrow> check" where
  "shape_blob m =
     and_then (at_field m 3 (\<lambda>v. as_unsigned v 3)) (\<lambda>byte_length.
       if length (filter (\<lambda>e. fst e = 4 \<or> fst e = 5) m) \<noteq> 1 then Inl (Field 4)
       else and_then (case optional_field m 4 of
           Some inline \<Rightarrow> shape_blob_inline m byte_length inline
         | None \<Rightarrow> shape_blob_chunks m byte_length) (\<lambda>_.
         opt_field m 6 (\<lambda>v. as_text v 6)))"

definition manifest_shape_step ::
  "externals \<Rightarrow> bytes option \<times> bytes set \<Rightarrow> cvalue \<Rightarrow> (bytes option \<times> bytes set, decode_object_error) result" where
  "manifest_shape_step X st v =
     (let (previous, folded) = st in
      and_then (exact_map v [0, 1, 2, 4] [3] 3) (\<lambda>e.
      and_then (at_field e 0 (\<lambda>x. as_text x 3)) (\<lambda>name.
      and_then (map_err (\<lambda>_. Field 3) (segment_new_portable X name)) (\<lambda>segment.
        if segment_case_fold X segment \<in> folded then Inl (Field 3)
        else and_then (map_err DecodeCanonical (encode X (Text name))) (\<lambda>encoded.
          if (case previous of None \<Rightarrow> False | Some old \<Rightarrow> old \<ge> encoded) then Inl (Field 3)
          else and_then (at_field e 1 (\<lambda>x. as_unsigned x 3)) (\<lambda>kind.
            if kind > 4 \<or> (kind = 0) \<noteq> (optional_field e 3 \<noteq> None) then Inl (Field 3)
            else and_then (if kind = 0
                then and_then (at_field e 3 (\<lambda>x. as_unsigned x 3)) (\<lambda>mode. ensure (mode \<le> 1) (Field 3))
                else Inr ()) (\<lambda>_.
              and_then (at_field e 2 (\<lambda>x. as_oid x 3)) (\<lambda>_.
              and_then (at_field e 4 (\<lambda>x. policy_ref_check x 3)) (\<lambda>_.
                Inr (Some encoded, insert (segment_case_fold X segment) folded))))))))))"

definition shape_manifest :: "externals \<Rightarrow> fields \<Rightarrow> check" where
  "shape_manifest X m =
     and_then (at_field m 3 (\<lambda>v. as_array v 3)) (\<lambda>entries.
       discard (try_fold (manifest_shape_step X) (None, {}) entries))"

definition shape_snapshot :: "fields \<Rightarrow> check" where
  "shape_snapshot m = all_ok
     [discard (at_field m 3 (\<lambda>v. as_oid v 3)),
      and_then (at_field m 4 (\<lambda>v. oid_values v 4)) (\<lambda>parents. ensure_unique_ids parents 4),
      at_field m 5 (\<lambda>v. fixed_bytes 16 v 5),
      at_field m 6 (\<lambda>v. fixed_bytes 16 v 6),
      at_field m 7 (\<lambda>v. fixed_bytes 16 v 7),
      discard (at_field m 8 (\<lambda>v. as_unsigned v 8)),
      at_field m 9 (\<lambda>v. wall_time_check v 9),
      opt_field m 10 (\<lambda>v. as_oid v 10)]"

definition shape_change_revision :: "fields \<Rightarrow> check" where
  "shape_change_revision m = all_ok
     ([at_field m 3 (\<lambda>v. fixed_bytes 16 v 3), opt_field m 4 (\<lambda>v. as_oid v 4)] @
      map (\<lambda>k. discard (at_field m k (\<lambda>v. as_oid v k))) [5, 6, 7, 8] @
      [at_field m 9 (\<lambda>v. fixed_bytes 16 v 9),
       discard (at_field m 10 (\<lambda>v. as_unsigned v 10)),
       at_field m 11 (\<lambda>v. fixed_bytes 16 v 11),
       at_field m 12 (\<lambda>v. fixed_bytes 16 v 12),
       and_then (at_field m 13 (\<lambda>v. as_unsigned v 13)) (\<lambda>n. ensure (\<not> n > 3) (Field 13)),
       at_field m 14 (\<lambda>v. policy_ref_check v 14),
       at_field m 15 (\<lambda>v. policy_ref_check v 15)])"

definition shape_line_state :: "fields \<Rightarrow> check" where
  "shape_line_state m = all_ok
     ([at_field m 3 (\<lambda>v. fixed_bytes 16 v 3),
       discard (at_field m 4 (\<lambda>v. as_text v 4)),
       discard (at_field m 5 (\<lambda>v. as_oid v 5)),
       and_then (at_field m 6 (\<lambda>v. as_unsigned v 6)) (\<lambda>generation.
         ensure (\<not> ((generation = 0) = (optional_field m 7 \<noteq> None))) (Field 7)),
       opt_field m 7 (\<lambda>v. as_oid v 7),
       discard (at_field m 12 (\<lambda>v. as_oid v 12))] @
      map (\<lambda>k. at_field m k (\<lambda>v. policy_ref_check v k)) [8, 9, 10, 11] @
      [at_field m 13 (\<lambda>v. signature_check ForLineState v 13)])"

definition region_shape_step :: "u64 option \<Rightarrow> cvalue \<Rightarrow> (u64 option, decode_object_error) result" where
  "region_shape_step previous_end v =
     and_then (exact_map v [0, 1] [] 10) (\<lambda>r.
     and_then (at_field r 0 (\<lambda>x. as_unsigned x 10)) (\<lambda>start.
     and_then (at_field r 1 (\<lambda>x. as_unsigned x 10)) (\<lambda>end.
       if start \<ge> end \<or> (case previous_end of None \<Rightarrow> False | Some p \<Rightarrow> start < p) then Inl (Field 10)
       else Inr (Some end))))"

definition shape_conflict :: "externals \<Rightarrow> fields \<Rightarrow> check" where
  "shape_conflict X m = all_ok
     [at_field m 3 (\<lambda>v. typed_ref_check v 3),
      at_field m 4 (\<lambda>v. typed_ref_check v 4),
      at_field m 5 (\<lambda>v. typed_ref_check v 5),
      and_then (at_field m 6 (\<lambda>v. as_array v 6)) (\<lambda>values.
      and_then (collect_results (map (\<lambda>x. and_then (as_text x 6) (\<lambda>t.
          map_err (\<lambda>_. Field 6) (segment_new_portable X t))) values)) (\<lambda>segs.
        discard (map_err (\<lambda>_. Field 6) (portable_path_new X segs)))),
      and_then (at_field m 7 (\<lambda>v. as_unsigned v 7)) (\<lambda>n. ensure (\<not> n > 3) (Field 7)),
      discard (at_field m 8 (\<lambda>v. as_text v 8)),
      discard (at_field m 9 (\<lambda>v. as_text v 9)),
      and_then (at_field m 10 (\<lambda>v. as_array v 10)) (\<lambda>regions.
        discard (try_fold region_shape_step None regions))]"

text \<open>The three accepted action forms of an operation, by schema and action number.\<close>

definition action_transition_shape :: "cvalue \<Rightarrow> check" where
  "action_transition_shape v =
     and_then (exact_map v [0] [1, 2] 8) (\<lambda>a.
       if optional_field a 1 = None \<and> optional_field a 2 = None then Inl (Field 8)
       else and_then (opt_field a 1 (\<lambda>x. typed_ref_check x 8)) (\<lambda>_.
         opt_field a 2 (\<lambda>x. and_then (typed_ref_kind x 8) (\<lambda>kind.
           if kind = LineStateKind then Inl (Field 8) else Inr ()))))"

definition action_line_advance_shape ::
  "u64 \<Rightarrow> reference_key set \<Rightarrow> cvalue \<Rightarrow> (reference_key set, decode_object_error) result" where
  "action_line_advance_shape schema keys v =
     and_then (exact_map v [0, 3] [] 8) (\<lambda>a.
     and_then (at_field a 3 (\<lambda>x. line_advance_check x 8)) (\<lambda>line.
       if schema = 1 then (if KeyLine line \<in> keys then Inl (Field 8) else Inr (insert (KeyLine line) keys))
       else Inr keys))"

definition action_bound_shape ::
  "reference_key set \<Rightarrow> cvalue \<Rightarrow> (reference_key set, decode_object_error) result" where
  "action_bound_shape keys v =
     and_then (exact_map v [0, 1, 3] [2] 8) (\<lambda>a.
     and_then (at_field a 1 (\<lambda>x. decode_reference_key x 8)) (\<lambda>key.
       if (case key of KeyLine _ \<Rightarrow> True | KeyOperationHead \<Rightarrow> True | _ \<Rightarrow> False) \<or> key \<in> keys
       then Inl (Field 8)
       else and_then (opt_field a 2 (\<lambda>x. and_then (typed_ref_kind x 8) (\<lambda>k.
           ensure (\<not> k \<noteq> expected_kind key) (Field 8)))) (\<lambda>_.
         and_then (at_field a 3 (\<lambda>x. typed_ref_kind x 8)) (\<lambda>k.
           if k \<noteq> expected_kind key then Inl (Field 8) else Inr (insert key keys)))))"

definition action_shape_step ::
  "u64 \<Rightarrow> reference_key set \<Rightarrow> cvalue \<Rightarrow> (reference_key set, decode_object_error) result" where
  "action_shape_step schema keys v =
     and_then (as_map v) (\<lambda>a.
     and_then (at_field a 0 (\<lambda>x. as_unsigned x 8)) (\<lambda>n.
       if schema = 0 \<and> n = 0 then and_then (action_transition_shape v) (\<lambda>_. Inr keys)
       else if (schema = 0 \<or> schema = 1) \<and> n = 1 then action_line_advance_shape schema keys v
       else if schema = 1 \<and> n = 2 then action_bound_shape keys v
       else Inl (Field 8)))"

definition shape_operation :: "u64 \<Rightarrow> fields \<Rightarrow> check" where
  "shape_operation schema m = all_ok
     [and_then (at_field m 3 (\<lambda>v. oid_values v 3)) (\<lambda>parents. ensure_unique_ids parents 3),
      at_field m 4 (\<lambda>v. fixed_bytes 16 v 4),
      at_field m 5 (\<lambda>v. fixed_bytes 16 v 5),
      discard (at_field m 6 (\<lambda>v. as_unsigned v 6)),
      at_field m 7 (\<lambda>v. wall_time_check v 7),
      and_then (at_field m 8 (\<lambda>v. as_array v 8)) (\<lambda>actions.
        discard (try_fold (action_shape_step schema) {} actions)),
      at_field m 9 (\<lambda>v. oid_array_check v 9),
      opt_field m 10 (\<lambda>v. as_oid v 10),
      opt_field m 11 (\<lambda>v. as_oid v 11),
      at_field m 12 (\<lambda>v. signature_check ForOperation v 12),
      discard (at_field m 13 (\<lambda>v. as_text v 13))]"

definition shape_marker :: "fields \<Rightarrow> check" where
  "shape_marker m = all_ok
     [and_then (at_field m 3 (\<lambda>v. as_unsigned v 3)) (\<lambda>n. ensure (\<not> n > 4) (Field 3)),
      at_field m 4 (\<lambda>v. typed_ref_check v 4),
      at_field m 5 (\<lambda>v. fixed_bytes 16 v 5),
      at_field m 6 (\<lambda>v. wall_time_check v 6),
      discard (at_field m 7 (\<lambda>v. as_bytes v 7)),
      at_field m 8 (\<lambda>v. signature_check ForMarker v 8)]"

definition shape_release :: "externals \<Rightarrow> fields \<Rightarrow> check" where
  "shape_release X m = all_ok
     ([at_field m 3 (\<lambda>v. fixed_bytes 16 v 3), discard (at_field m 4 (\<lambda>v. as_unsigned v 4))] @
      map (\<lambda>k. discard (at_field m k (\<lambda>v. as_oid v k))) [5, 7, 8] @
      [discard (at_field m 10 (\<lambda>v. as_text v 10)),
       at_field m 6 (\<lambda>v. policy_ref_check v 6),
       discard (at_field m 9 (\<lambda>v. as_oid v 9))] @
      map (\<lambda>k. at_field m k (\<lambda>v. oid_array_check v k)) [12, 13, 14] @
      [at_field m 15 (\<lambda>v. wall_time_check v 15),
       at_field m 16 (\<lambda>v. signature_set_check X ForRelease v 16)])"

definition capability_step :: "u64 option \<Rightarrow> cvalue \<Rightarrow> (u64 option, decode_object_error) result" where
  "capability_step previous v =
     and_then (as_unsigned v 7) (\<lambda>c.
       if c > 8 \<or> (case previous of None \<Rightarrow> False | Some p \<Rightarrow> p \<ge> c) then Inl (Field 7)
       else Inr (Some c))"

definition grant_shape :: "nat \<Rightarrow> cvalue \<Rightarrow> check" where
  "grant_shape n_principals v =
     and_then (exact_map v [0, 1] [] 7) (\<lambda>g.
     and_then (at_field g 0 (\<lambda>x. as_unsigned x 7)) (\<lambda>i.
       if i \<ge> of_nat n_principals then Inl (Field 7)
       else and_then (at_field g 1 (\<lambda>x. as_array x 7)) (\<lambda>capabilities.
         discard (try_fold capability_step None capabilities))))"

definition shape_policy :: "externals \<Rightarrow> fields \<Rightarrow> check" where
  "shape_policy X m = all_ok
     [at_field m 3 (\<lambda>v. fixed_bytes 16 v 3),
      and_then (at_field m 4 (\<lambda>v. as_unsigned v 4)) (\<lambda>version.
        ensure (\<not> ((version = 0) = (optional_field m 5 \<noteq> None))) (Field 5)),
      opt_field m 5 (\<lambda>v. as_oid v 5),
      and_then (at_field m 6 (\<lambda>v. as_array v 6)) (\<lambda>principals.
      and_then (all_ok (map (\<lambda>p. principal_check p 6) principals)) (\<lambda>_.
      and_then (at_field m 7 (\<lambda>v. as_array v 7)) (\<lambda>grants.
        all_ok (map (grant_shape (length principals)) grants)))),
      discard (at_field m 12 (\<lambda>v. as_oid v 12)),
      and_then (at_field m 8 (\<lambda>v. as_unsigned v 8)) (\<lambda>mode. ensure (\<not> mode > 2) (Field 8)),
      and_then (at_field m 9 (\<lambda>v. as_unsigned v 9)) (\<lambda>n. ensure (\<not> n > 2) (Field 9)),
      and_then (at_field m 10 (\<lambda>v. oid_values v 10)) (\<lambda>requirements. ensure_unique_ids requirements 10),
      discard (at_field m 11 (\<lambda>v. as_unsigned v 11)),
      and_then (at_field m 13 (\<lambda>v. as_array v 13)) (\<lambda>admins.
        all_ok (map (\<lambda>a. fixed_bytes 16 a 13) admins)),
      discard (at_field m 14 (\<lambda>v. as_bytes v 14)),
      at_field m 15 (\<lambda>v. signature_set_check X ForPolicy v 15)]"

definition shape_secret_ref :: "fields \<Rightarrow> check" where
  "shape_secret_ref m = all_ok
     (map (\<lambda>k. discard (at_field m k (\<lambda>v. as_text v k))) [3, 4, 7, 8] @
      [discard (at_field m 6 (\<lambda>v. as_bytes v 6)),
       opt_field m 5 (\<lambda>v. as_text v 5),
       opt_field m 9 (\<lambda>v. as_oid v 9)])"

definition shape_subproject :: "fields \<Rightarrow> check" where
  "shape_subproject m = all_ok
     [discard (at_field m 3 (\<lambda>v. as_text v 3)),
      discard (at_field m 4 (\<lambda>v. as_bytes v 4)),
      discard (at_field m 5 (\<lambda>v. as_bytes v 5)),
      opt_field m 6 (\<lambda>v. as_oid v 6)]"


section \<open>Shapes of the remaining kinds\<close>

text \<open>\<open>oid_values\<close> followed by the order check, and the non-empty variant.\<close>

definition sorted_ids_check :: "fields \<Rightarrow> u64 \<Rightarrow> bool \<Rightarrow> check" where
  "sorted_ids_check m k nonempty =
     and_then (at_field m k (\<lambda>v. oid_values v k)) (\<lambda>ids.
     and_then (ensure_sorted_unique_ids ids k) (\<lambda>_. ensure (\<not> (nonempty \<and> ids = [])) (Field k)))"

definition typed_refs_check :: "externals \<Rightarrow> fields \<Rightarrow> u64 \<Rightarrow> check" where
  "typed_refs_check X m k =
     and_then (at_field m k (\<lambda>v. as_array v k)) (\<lambda>refs.
     and_then (all_ok (map (\<lambda>r. typed_ref_check r k) refs)) (\<lambda>_.
       ensure_sorted_unique_values X refs k))"

definition at_most :: "fields \<Rightarrow> u64 \<Rightarrow> u64 \<Rightarrow> check" where
  "at_most m k n = and_then (at_field m k (\<lambda>v. as_unsigned v k)) (\<lambda>x. ensure (\<not> x > n) (Field k))"

text \<open>Version zero and only version zero omits the previous object.\<close>

definition version_chain_check :: "fields \<Rightarrow> u64 \<Rightarrow> u64 \<Rightarrow> check" where
  "version_chain_check m version_key previous_key =
     and_then (at_field m version_key (\<lambda>v. as_unsigned v version_key)) (\<lambda>version.
     and_then (ensure (\<not> ((version = 0) = (optional_field m previous_key \<noteq> None))) (Field previous_key)) (\<lambda>_.
       opt_field m previous_key (\<lambda>v. as_oid v previous_key)))"

definition shape_repository_root :: "externals \<Rightarrow> fields \<Rightarrow> check" where
  "shape_repository_root X m = all_ok
     [at_field m 3 (\<lambda>v. fixed_bytes 16 v 3),
      discard (at_field m 4 (\<lambda>v. as_oid v 4)),
      sorted_ids_check m 5 True,
      discard (at_field m 6 (\<lambda>v. as_oid v 6)),
      discard (at_field m 7 (\<lambda>v. as_oid v 7)),
      sorted_ids_check m 8 True,
      at_most m 9 1,
      at_field m 10 (\<lambda>v. signature_set_check X ForRepositoryRoot v 10)]"

definition key_step :: "u64 \<Rightarrow> u64 \<Rightarrow> bytes set \<Rightarrow> cvalue \<Rightarrow> (bytes set, decode_object_error) result" where
  "key_step expected k key_ids v =
     and_then (public_key v k) (\<lambda>(alg, key_id).
       if alg \<noteq> expected \<or> key_id \<in> key_ids then Inl (Field k) else Inr (insert key_id key_ids))"

definition identity_version_check :: "fields \<Rightarrow> check" where
  "identity_version_check m =
     (let previous = optional_field m 6; activation = optional_field m 11;
          has_policy = optional_field m 2 \<noteq> None in
      and_then (at_field m 5 (\<lambda>v. as_unsigned v 5)) (\<lambda>version.
        if (version = 0) \<noteq> (previous = None \<and> activation = None \<and> \<not> has_policy) then Inl (Field 5)
        else if version > 0 \<and> (previous = None \<or> activation = None \<or> \<not> has_policy) then Inl (Field 5)
        else Inr ()))"

definition identity_keys_check :: "externals \<Rightarrow> fields \<Rightarrow> check" where
  "identity_keys_check X m =
     and_then (at_field m 7 (\<lambda>v. as_array v 7)) (\<lambda>signing.
       if signing = [] then Inl (Field 7)
       else and_then (at_field m 8 (\<lambda>v. as_array v 8)) (\<lambda>encryption.
         and_then (try_fold (key_step 0 7) {} signing) (\<lambda>key_ids.
         and_then (try_fold (key_step 1 8) key_ids encryption) (\<lambda>_.
         and_then (ensure_sorted_unique_values X signing 7) (\<lambda>_.
           ensure_sorted_unique_values X encryption 8)))))"

definition shape_identity :: "externals \<Rightarrow> fields \<Rightarrow> check" where
  "shape_identity X m = all_ok
     [at_most m 3 1,
      at_field m 4 (\<lambda>v. fixed_bytes 16 v 4),
      identity_version_check m,
      opt_field m 6 (\<lambda>v. as_oid v 6),
      identity_keys_check X m,
      at_field m 9 (\<lambda>v. fixed_bytes 16 v 9),
      at_most m 10 2,
      opt_field m 11 (\<lambda>v. as_oid v 11),
      opt_field m 12 (\<lambda>v. as_oid v 12),
      at_field m 13 (\<lambda>v. signature_set_check X ForIdentity v 13)]"

definition shape_group_membership :: "externals \<Rightarrow> fields \<Rightarrow> check" where
  "shape_group_membership X m = all_ok
     [at_field m 3 (\<lambda>v. fixed_bytes 16 v 3),
      at_field m 4 (\<lambda>v. fixed_bytes 16 v 4),
      version_chain_check m 5 6,
      at_field m 7 (\<lambda>v. principal_check v 7),
      at_most m 8 1,
      at_field m 9 (\<lambda>v. fixed_bytes 16 v 9),
      discard (at_field m 10 (\<lambda>v. as_oid v 10)),
      opt_field m 11 (\<lambda>v. as_oid v 11),
      at_field m 12 (\<lambda>v. signature_set_check X ForGroupMembership v 12)]"

definition recipient_shape :: "cvalue \<Rightarrow> check" where
  "recipient_shape v =
     and_then (exact_map v [0, 1, 2] [] 5) (\<lambda>r. all_ok
       [at_field r 0 (\<lambda>x. principal_check x 5),
        at_field r 1 (\<lambda>x. fixed_nonzero_bytes 32 x 5),
        and_then (at_field r 2 (\<lambda>x. as_bytes x 5)) (\<lambda>b. ensure (b \<noteq> []) (Field 5))])"

definition shape_key_envelope_set :: "externals \<Rightarrow> fields \<Rightarrow> check" where
  "shape_key_envelope_set X m = all_ok
     [and_then (at_field m 3 (\<lambda>v. as_unsigned v 3)) (\<lambda>epoch.
        ensure (\<not> ((epoch = 0) \<noteq> (optional_field m 2 = None))) (Field 3)),
      and_then (at_field m 4 (\<lambda>v. as_unsigned v 4)) (\<lambda>n. ensure (n = 0) (Field 4)),
      and_then (at_field m 5 (\<lambda>v. as_array v 5)) (\<lambda>recipients.
        if recipients = [] then Inl (Field 5)
        else and_then (all_ok (map recipient_shape recipients)) (\<lambda>_.
          ensure_sorted_unique_values X recipients 5))]"

definition shape_change_relation :: "fields \<Rightarrow> check" where
  "shape_change_relation m = all_ok
     [at_most m 3 2, sorted_ids_check m 4 True, sorted_ids_check m 5 True, sorted_ids_check m 6 False,
      discard (at_field m 7 (\<lambda>v. as_oid v 7))]"

definition shape_conflict_resolution :: "externals \<Rightarrow> fields \<Rightarrow> check" where
  "shape_conflict_resolution X m = all_ok
     [discard (at_field m 3 (\<lambda>v. as_oid v 3)),
      at_field m 4 (\<lambda>v. typed_ref_check v 4),
      at_field m 5 (\<lambda>v. fixed_bytes 16 v 5),
      at_field m 6 (\<lambda>v. fixed_bytes 16 v 6),
      at_most m 7 4,
      typed_refs_check X m 8,
      at_field m 9 (\<lambda>v. wall_time_check v 9),
      at_field m 10 (\<lambda>v. signature_set_check X ForConflictResolution v 10)]"

definition evidence_purpose :: "object_kind \<Rightarrow> signature_purpose" where
  "evidence_purpose kind =
     (if kind = ReviewEvidenceKind then ForReviewEvidence
      else if kind = ApprovalEvidenceKind then ForApprovalEvidence
      else if kind = CiEvidenceKind then ForCiEvidence
      else ForPolicyDecisionEvidence)"

definition shape_evidence :: "externals \<Rightarrow> object_kind \<Rightarrow> fields \<Rightarrow> check" where
  "shape_evidence X kind m = all_ok
     ([at_field m 3 (\<lambda>v. typed_ref_check v 3),
       discard (at_field m 4 (\<lambda>v. as_oid v 4)),
       discard (at_field m 5 (\<lambda>v. as_oid v 5)),
       at_field m 6 (\<lambda>v. fixed_bytes 16 v 6),
       at_field m 7 (\<lambda>v. fixed_bytes 16 v 7),
       at_most m 8 3,
       at_field m 9 (\<lambda>v. canonical_map_bytes X v 9),
       typed_refs_check X m 10,
       at_field m 11 (\<lambda>v. wall_time_check v 11),
       at_field m 12 (\<lambda>v. signature_set_check X (evidence_purpose kind) v 12)] @
      (if kind = CiEvidenceKind then
         [and_then (at_field m 13 (\<lambda>v. as_text v 13)) (\<lambda>t. ensure (t \<noteq> []) (Field 13)),
          discard (at_field m 14 (\<lambda>v. as_oid v 14)),
          opt_field m 15 (\<lambda>v. as_oid v 15)]
       else []))"

definition rule_shape :: "externals \<Rightarrow> cvalue \<Rightarrow> check" where
  "rule_shape X v =
     and_then (exact_map v [0, 1] [] 5) (\<lambda>r.
     and_then (at_field r 0 (\<lambda>x. as_unsigned x 5)) (\<lambda>n.
       if n > 2 then Inl (Field 5) else at_field r 1 (\<lambda>x. canonical_map_bytes X x 5)))"

definition shape_projection_rules :: "externals \<Rightarrow> fields \<Rightarrow> check" where
  "shape_projection_rules X m = all_ok
     [version_chain_check m 3 4,
      and_then (at_field m 5 (\<lambda>v. as_array v 5)) (\<lambda>rules. all_ok (map (rule_shape X) rules)),
      and_then (at_field m 6 (\<lambda>v. as_bool v 6)) (\<lambda>b. ensure b (Field 6))]"

definition shape_projection_proof :: "fields \<Rightarrow> check" where
  "shape_projection_proof m = all_ok
     ([and_then (at_field m 3 (\<lambda>v. as_unsigned v 3)) (\<lambda>n. ensure (n = 0) (Field 3))] @
      map (\<lambda>k. discard (at_field m k (\<lambda>v. as_oid v k))) [4, 5, 6, 7] @
      [and_then (at_field m 8 (\<lambda>v. as_bytes v 8)) (\<lambda>b. ensure (b \<noteq> []) (Field 8))])"

definition shape_build_provenance :: "externals \<Rightarrow> fields \<Rightarrow> check" where
  "shape_build_provenance X m = all_ok
     (map (\<lambda>k. discard (at_field m k (\<lambda>v. as_oid v k))) [3, 4, 5] @
      [typed_refs_check X m 6,
       sorted_ids_check m 7 False,
       at_field m 8 (\<lambda>v. canonical_map_bytes X v 8),
       at_field m 9 (\<lambda>v. wall_time_check v 9),
       at_field m 10 (\<lambda>v. signature_set_check X ForBuildProvenance v 10)])"

definition shape_artifact :: "fields \<Rightarrow> check" where
  "shape_artifact m = all_ok
     [at_most m 3 3,
      at_most m 4 1,
      and_then (at_field m 5 (\<lambda>v. as_bytes v 5)) (\<lambda>b. ensure (length b = 32) (Field 5)),
      discard (at_field m 6 (\<lambda>v. as_unsigned v 6)),
      ensure (\<not> (optional_field m 7 = None \<and> optional_field m 8 = None)) (Field 7),
      opt_field m 7 (\<lambda>v. as_text v 7),
      opt_field m 8 (\<lambda>v. as_oid v 8)]"

definition shape_operation_payload :: "externals \<Rightarrow> fields \<Rightarrow> check" where
  "shape_operation_payload X m = all_ok
     [at_most m 3 3,
      typed_refs_check X m 4,
      and_then (at_field m 5 (\<lambda>v. as_unsigned v 5)) (\<lambda>n. ensure (n = 0) (Field 5)),
      at_field m 6 (\<lambda>v. canonical_map_bytes X v 6)]"

definition view_line_step :: "bytes set \<Rightarrow> cvalue \<Rightarrow> (bytes set, decode_object_error) result" where
  "view_line_step line_ids v =
     and_then (exact_map v [0, 1, 2] [] 6) (\<lambda>line.
     and_then (at_field line 0 (\<lambda>x. fixed_bytes 16 x 6)) (\<lambda>_.
     and_then (at_field line 0 (\<lambda>x. as_bytes x 6)) (\<lambda>b.
       if b \<in> line_ids then Inl (Field 6)
       else and_then (at_field line 1 (\<lambda>x. as_unsigned x 6)) (\<lambda>_.
         and_then (at_field line 2 (\<lambda>x. as_oid x 6)) (\<lambda>_. Inr (insert b line_ids))))))"

definition shape_view :: "externals \<Rightarrow> fields \<Rightarrow> check" where
  "shape_view X m = all_ok
     [at_field m 3 (\<lambda>v. fixed_bytes 16 v 3),
      at_field m 4 (\<lambda>v. fixed_bytes 16 v 4),
      sorted_ids_check m 5 False,
      and_then (at_field m 6 (\<lambda>v. as_array v 6)) (\<lambda>lines.
      and_then (try_fold view_line_step {} lines) (\<lambda>_. ensure_sorted_unique_values X lines 6)),
      discard (at_field m 7 (\<lambda>v. as_oid v 7)),
      at_field m 8 (\<lambda>v. canonical_map_bytes X v 8),
      at_field m 9 (\<lambda>v. signature_set_check X ForView v 9)]"

definition migration_step ::
  "object_id set \<times> object_id set \<Rightarrow> cvalue \<Rightarrow> (object_id set \<times> object_id set, decode_object_error) result" where
  "migration_step st v =
     (let (old, new) = st in
      and_then (exact_map v [0, 1] [] 5) (\<lambda>m.
      and_then (at_field m 0 (\<lambda>x. as_oid x 5)) (\<lambda>a.
      and_then (at_field m 1 (\<lambda>x. as_oid x 5)) (\<lambda>b.
        if a \<in> old \<or> b \<in> new then Inl (Field 5) else Inr (insert a old, insert b new)))))"

definition shape_migration :: "externals \<Rightarrow> fields \<Rightarrow> check" where
  "shape_migration X m = all_ok
     [and_then (at_field m 3 (\<lambda>v. as_unsigned v 3)) (\<lambda>source.
      and_then (at_field m 4 (\<lambda>v. as_unsigned v 4)) (\<lambda>target.
        ensure (\<not> (source > 1 \<or> target > 1 \<or> source = target)) (Field 4))),
      and_then (at_field m 5 (\<lambda>v. as_array v 5)) (\<lambda>mappings.
        if mappings = [] then Inl (Field 5)
        else and_then (try_fold migration_step ({}, {}) mappings) (\<lambda>_.
          ensure_sorted_unique_values X mappings 5)),
      discard (at_field m 6 (\<lambda>v. as_oid v 6)),
      at_field m 7 (\<lambda>v. wall_time_check v 7),
      at_field m 8 (\<lambda>v. signature_set_check X ForMigration v 8)]"

definition ruleset_kind_step :: "u64 option \<Rightarrow> cvalue \<Rightarrow> (u64 option, decode_object_error) result" where
  "ruleset_kind_step prior v =
     and_then (as_unsigned v 7) (\<lambda>n.
       if \<not> (20 \<le> n \<and> n \<le> 23) \<or> (case prior of None \<Rightarrow> False | Some p \<Rightarrow> p \<ge> n) then Inl (Field 7)
       else Inr (Some n))"

definition shape_ruleset :: "externals \<Rightarrow> fields \<Rightarrow> check" where
  "shape_ruleset X m = all_ok
     [at_most m 3 4,
      version_chain_check m 4 5,
      at_field m 6 (\<lambda>v. canonical_map_bytes X v 6),
      and_then (at_field m 7 (\<lambda>v. as_array v 7)) (\<lambda>values.
        discard (try_fold ruleset_kind_step None values))]"


section \<open>Fields of a kind\<close>

primrec field_table :: "object_kind \<Rightarrow> u64 list \<times> u64 list" where
  "field_table ChunkKind = ([0, 1, 2, 3], [])"
| "field_table BlobKind = ([0, 1, 2, 3], [4, 5, 6, 7])"
| "field_table SecretRefKind = ([0, 1, 2, 3, 4, 6, 7, 8], [5, 9])"
| "field_table ManifestKind = ([0, 1, 2, 3], [])"
| "field_table SubprojectKind = ([0, 1, 2, 3, 4, 5], [6])"
| "field_table SnapshotKind = ([0, 1, 2, 3, 4, 5, 6, 7, 8, 9], [10])"
| "field_table ChangeRevisionKind = ([0, 1, 2, 3, 5, 6, 7, 8, 9, 10, 11, 12, 13, 14, 15], [4])"
| "field_table LineStateKind = ([0, 1, 2, 3, 4, 5, 6, 8, 9, 10, 11, 12, 13], [7])"
| "field_table ConflictKind = ([0, 1, 2, 3, 4, 5, 6, 7, 8, 9, 10], [])"
| "field_table OperationKind = ([0, 1, 2, 3, 4, 5, 6, 7, 8, 9, 12, 13], [10, 11])"
| "field_table MarkerKind = ([0, 1, 2, 3, 4, 5, 6, 7, 8], [])"
| "field_table ReleaseKind = ([0, 1, 2, 3, 4, 5, 6, 7, 8, 9, 10, 12, 13, 14, 15, 16], [11])"
| "field_table PolicyKind = ([0, 1, 3, 4, 6, 7, 8, 9, 10, 11, 12, 13, 14, 15], [2, 5])"
| "field_table RepositoryRootKind = ([0, 1, 3, 4, 5, 6, 7, 8, 9, 10], [])"
| "field_table IdentityKind = ([0, 1, 3, 4, 5, 7, 8, 9, 10, 13], [2, 6, 11, 12])"
| "field_table GroupMembershipKind = ([0, 1, 2, 3, 4, 5, 7, 8, 9, 10, 12], [6, 11])"
| "field_table KeyEnvelopeSetKind = ([0, 1, 3, 4, 5], [2])"
| "field_table ChangeRelationKind = ([0, 1, 2, 3, 4, 5, 6, 7], [])"
| "field_table ConflictResolutionKind = ([0, 1, 2, 3, 4, 5, 6, 7, 8, 9, 10], [])"
| "field_table ReviewEvidenceKind = ([0, 1, 2, 3, 4, 5, 6, 7, 8, 9, 10, 11, 12], [])"
| "field_table ApprovalEvidenceKind = ([0, 1, 2, 3, 4, 5, 6, 7, 8, 9, 10, 11, 12], [])"
| "field_table PolicyDecisionEvidenceKind = ([0, 1, 2, 3, 4, 5, 6, 7, 8, 9, 10, 11, 12], [])"
| "field_table CiEvidenceKind = ([0, 1, 2, 3, 4, 5, 6, 7, 8, 9, 10, 11, 12, 13, 14], [15])"
| "field_table ProjectionRulesKind = ([0, 1, 2, 3, 5, 6], [4])"
| "field_table ProjectionProofKind = ([0, 1, 2, 3, 4, 5, 6, 7, 8], [])"
| "field_table BuildProvenanceKind = ([0, 1, 2, 3, 4, 5, 6, 7, 8, 9, 10], [])"
| "field_table ArtifactKind = ([0, 1, 2, 3, 4, 5, 6], [7, 8])"
| "field_table OperationPayloadKind = ([0, 1, 2, 3, 4, 5, 6], [])"
| "field_table ViewKind = ([0, 1, 2, 3, 4, 5, 6, 7, 8, 9], [])"
| "field_table MigrationKind = ([0, 1, 2, 3, 4, 5, 6, 7, 8], [])"
| "field_table RulesetKind = ([0, 1, 2, 3, 4, 6, 7], [5])"

definition validate_shapes :: "externals \<Rightarrow> object_kind \<Rightarrow> u64 \<Rightarrow> fields \<Rightarrow> check" where
  "validate_shapes X kind schema m =
     (case kind of
        ChunkKind \<Rightarrow> shape_chunk m
      | BlobKind \<Rightarrow> shape_blob m
      | SecretRefKind \<Rightarrow> shape_secret_ref m
      | ManifestKind \<Rightarrow> shape_manifest X m
      | SubprojectKind \<Rightarrow> shape_subproject m
      | SnapshotKind \<Rightarrow> shape_snapshot m
      | ChangeRevisionKind \<Rightarrow> shape_change_revision m
      | LineStateKind \<Rightarrow> shape_line_state m
      | ConflictKind \<Rightarrow> shape_conflict X m
      | OperationKind \<Rightarrow> shape_operation schema m
      | MarkerKind \<Rightarrow> shape_marker m
      | ReleaseKind \<Rightarrow> shape_release X m
      | PolicyKind \<Rightarrow> shape_policy X m
      | RepositoryRootKind \<Rightarrow> shape_repository_root X m
      | IdentityKind \<Rightarrow> shape_identity X m
      | GroupMembershipKind \<Rightarrow> shape_group_membership X m
      | KeyEnvelopeSetKind \<Rightarrow> shape_key_envelope_set X m
      | ChangeRelationKind \<Rightarrow> shape_change_relation m
      | ConflictResolutionKind \<Rightarrow> shape_conflict_resolution X m
      | ReviewEvidenceKind \<Rightarrow> shape_evidence X kind m
      | ApprovalEvidenceKind \<Rightarrow> shape_evidence X kind m
      | CiEvidenceKind \<Rightarrow> shape_evidence X kind m
      | PolicyDecisionEvidenceKind \<Rightarrow> shape_evidence X kind m
      | ProjectionRulesKind \<Rightarrow> shape_projection_rules X m
      | ProjectionProofKind \<Rightarrow> shape_projection_proof m
      | BuildProvenanceKind \<Rightarrow> shape_build_provenance X m
      | ArtifactKind \<Rightarrow> shape_artifact m
      | OperationPayloadKind \<Rightarrow> shape_operation_payload X m
      | ViewKind \<Rightarrow> shape_view X m
      | MigrationKind \<Rightarrow> shape_migration X m
      | RulesetKind \<Rightarrow> shape_ruleset X m)"

definition unknown_field_check :: "u64 list \<Rightarrow> u64 list \<Rightarrow> u64 \<times> cvalue \<Rightarrow> check" where
  "unknown_field_check required optional_keys e =
     ensure (fst e \<in> set required \<or> fst e \<in> set optional_keys) (UnknownField (fst e))"

definition validate_fields :: "externals \<Rightarrow> object_kind \<Rightarrow> u64 \<Rightarrow> fields \<Rightarrow> check" where
  "validate_fields X kind schema m =
     (let (required, optional_keys) = field_table kind in all_ok
       [all_ok (map (\<lambda>k. discard (field m k)) required),
        all_ok (map (unknown_field_check required optional_keys) m),
        (if kind \<notin> {PolicyKind, RepositoryRootKind, IdentityKind, KeyEnvelopeSetKind} \<or>
            optional_field m 2 \<noteq> None
         then at_field m 2 (\<lambda>v. policy_ref_check v 2) else Inr ()),
        validate_shapes X kind schema m])"

section \<open>Decoding, identity, verification\<close>

definition any_decode ::
  "externals \<Rightarrow> bytes \<Rightarrow> canonical_limits \<Rightarrow> (any_object, decode_object_error) result" where
  "any_decode X bs limits =
     (let admission_limits = restricted_by limits bulk in
      and_then (map_err DecodeCanonical (decode_canonical X bs admission_limits)) (\<lambda>value.
      and_then (as_map value) (\<lambda>m.
      and_then (at_field m 0 (\<lambda>v. as_unsigned v 0)) (\<lambda>kind_number.
      and_then (map_err UnknownKind (object_kind_of kind_number)) (\<lambda>kind.
      and_then (at_field m 1 (\<lambda>v. as_unsigned v 1)) (\<lambda>schema.
        if \<not> supports_schema kind schema then Inl (UnsupportedSchema schema)
        else
          let kind_limits = (if kind = ChunkKind \<or> kind = BlobKind then bulk else metadata) in
          and_then (map_err DecodeCanonical
            (encode_with_limits X value (restricted_by limits kind_limits))) (\<lambda>_.
          and_then (validate_fields X kind schema m) (\<lambda>_.
            Inr (any_object_of kind
              \<lparr>do_kind = kind, do_schema_version = schema, do_value = value\<rparr>)))))))))"

definition any_id ::
  "externals \<Rightarrow> any_object \<Rightarrow> hash_algorithm \<Rightarrow> (object_id, decode_object_error) result" where
  "any_id X self alg =
     (let d = decoded self;
          limits = (if do_kind d = ChunkKind \<or> do_kind d = BlobKind then bulk else metadata) in
      and_then (map_err DecodeCanonical (encode_with_limits X (do_value d) limits)) (\<lambda>bs.
        Inr (from_payload X (kind_code (do_kind d)) (do_schema_version d) bs alg)))"

definition any_decode_verified ::
  "externals \<Rightarrow> bytes \<Rightarrow> object_id \<Rightarrow> canonical_limits \<Rightarrow> (any_object, decode_object_error) result" where
  "any_decode_verified X bs expected limits =
     and_then (any_decode X bs limits) (\<lambda>obj.
     and_then (any_id X obj (algorithm expected)) (\<lambda>i.
       if i \<noteq> expected then Inl Digest else Inr obj))"

section \<open>Identity of a decoded object\<close>

lemma object_limits_alt: "(if k = ChunkKind \<or> k = BlobKind then bulk else metadata) = object_limits k"
  by (simp add: object_limits_def)

lemma fits_mono:
  assumes "max_byte_string_bytes K \<le> max_byte_string_bytes L" "max_string_bytes K \<le> max_string_bytes L"
    "max_depth K \<le> max_depth L" "max_collection_items K \<le> max_collection_items L"
  shows "fits X K d v \<Longrightarrow> fits X L d v"
  using assms
proof (induction X K d v rule: fits.induct)
  case (1 X K d v)
  then show ?case
    by (cases v) (auto simp: fits.simps [of X _ d])
qed

text \<open>Every kind's profile lies below the bulk profile that the first parse uses.\<close>

lemma fits_kind_bulk: "fits X (restricted_by L (object_limits k)) d v \<Longrightarrow> fits X (restricted_by L bulk) d v"
  unfolding fits_restricted object_limits_def
  using fits_mono [of metadata bulk X d v] by (auto split: if_splits)

lemma max_bytes_kind: "max_bytes (restricted_by L (object_limits k)) \<le> max_bytes (restricted_by L bulk)"
  by (simp add: restricted_by_def min_usize_def object_limits_def)

lemma limits_wf_object_limits [simp]: "limits_wf (object_limits k)"
  by (simp add: object_limits_def)

lemma limits_wf_kind [simp]: "limits_wf (restricted_by L (object_limits k))"
  by (auto simp: limits_wf_def restricted_by_def min_usize_def object_limits_def usize_max_def)

definition admitted :: "externals \<Rightarrow> canonical_limits \<Rightarrow> object_kind \<Rightarrow> u64 \<Rightarrow> fields \<Rightarrow> bool" where
  "admitted X L kind schema m \<longleftrightarrow>
     norm (Map m) = Map m \<and> text_wf (Map m) \<and>
     fits X (restricted_by L (object_limits kind)) 0 (Map m) \<and>
     length (enc (Map m)) \<le> max_bytes (restricted_by L (object_limits kind)) \<and>
     map_of m 0 = Some (Unsigned (kind_code kind)) \<and> map_of m 1 = Some (Unsigned schema) \<and>
     supports_schema kind schema \<and> validate_fields X kind schema m = Inr ()"

lemma as_map_Inr [simp]: "as_map v = Inr m \<longleftrightarrow> v = Map m"
  by (cases v) (auto simp: as_map_def)

lemma field_Inr [simp]: "field m k = Inr v \<longleftrightarrow> map_of m k = Some v"
  by (simp add: field_def)

lemma at_field_Inr [simp]: "at_field m k f = Inr y \<longleftrightarrow> (\<exists>v. map_of m k = Some v \<and> f v = Inr y)"
  by (simp add: at_field_def)

lemma as_unsigned_Inr [simp]: "as_unsigned v k = Inr n \<longleftrightarrow> v = Unsigned n"
  by (cases v) (auto simp: as_unsigned_def)

lemma as_bytes_Inr [simp]: "as_bytes v k = Inr b \<longleftrightarrow> v = Bytes b"
  by (cases v) (auto simp: as_bytes_def)

lemma as_text_Inr [simp]: "as_text v k = Inr t \<longleftrightarrow> v = Text t"
  by (cases v) (auto simp: as_text_def)

lemma as_array_Inr [simp]: "as_array v k = Inr a \<longleftrightarrow> v = Array a"
  by (cases v) (auto simp: as_array_def)

lemma as_bool_Inr [simp]: "as_bool v k = Inr b \<longleftrightarrow> v = Bool b"
  by (cases v) (auto simp: as_bool_def)

lemma as_oid_Inr: "as_oid v k = Inr i \<longleftrightarrow> oid_wf i \<and> v = oid i"
  using object_id_bytes.decode_iff by (auto simp: as_oid_def oid_def)

lemmas any_decode_unfold = any_decode_def [unfolded object_limits_alt Let_def]

lemma any_decode_iff:
  "any_decode X bs L = Inr obj \<longleftrightarrow>
    (\<exists>kind schema m. admitted X L kind schema m \<and> bs = enc (Map m) \<and>
      obj = any_object_of kind \<lparr>do_kind = kind, do_schema_version = schema, do_value = Map m\<rparr>)"
  (is "_ \<longleftrightarrow> ?R")
proof
  assume "any_decode X bs L = Inr obj"
  then obtain m kind schema where
      d: "decode_canonical X bs (restricted_by L bulk) = Inr (Map m)"
      "map_of m 0 = Some (Unsigned (kind_code kind))" "map_of m 1 = Some (Unsigned schema)"
      "supports_schema kind schema" "validate_fields X kind schema m = Inr ()"
      "obj = any_object_of kind \<lparr>do_kind = kind, do_schema_version = schema, do_value = Map m\<rparr>"
      "\<exists>b. encode_with_limits X (Map m) (restricted_by L (object_limits kind)) = Inr b"
    by (auto simp: any_decode_unfold object_kind_of_Inr split: if_splits)
  then show ?R
    by (intro exI [of _ kind] exI [of _ schema] exI [of _ m])
      (auto simp: admitted_def encode_with_limits_iff decode_canonical_iff canonical_at_def)
next
  assume ?R
  then obtain kind schema m where a: "admitted X L kind schema m" "bs = enc (Map m)"
      "obj = any_object_of kind \<lparr>do_kind = kind, do_schema_version = schema, do_value = Map m\<rparr>"
    by blast
  then have "decode_canonical X bs (restricted_by L bulk) = Inr (Map m)"
    using fits_kind_bulk max_bytes_kind [of L kind]
    by (auto simp: admitted_def decode_canonical_iff canonical_at_def)
  moreover have "encode_with_limits X (Map m) (restricted_by L (object_limits kind)) = Inr bs"
    using a by (simp add: admitted_def encode_with_limits_iff)
  ultimately show "any_decode X bs L = Inr obj"
    using a by (simp add: any_decode_unfold admitted_def at_field_def field_def as_map_def
        as_unsigned_def)
qed

text \<open>The identifier of an admitted object is the digest of the bytes it was decoded from.\<close>

lemma any_id_decoded:
  assumes "any_decode X bs L = Inr obj"
  shows "any_id X obj alg =
    Inr (from_payload X (kind_code (do_kind (decoded obj))) (do_schema_version (decoded obj)) bs alg)"
proof -
  from assms obtain kind schema m where a: "admitted X L kind schema m" "bs = enc (Map m)"
      "decoded obj = \<lparr>do_kind = kind, do_schema_version = schema, do_value = Map m\<rparr>"
    by (auto simp: any_decode_iff)
  then have "encode_with_limits X (Map m) (object_limits kind) = Inr bs"
    by (auto simp: admitted_def encode_with_limits_iff fits_restricted)
      (auto simp: restricted_by_def min_usize_def split: if_splits)
  with a show ?thesis unfolding any_id_def [unfolded object_limits_alt Let_def] by simp
qed

end
