(* ===== verification/Object_Schemas.thy ===== *)
theory Object_Schemas
  imports Decoding
begin

text \<open>
  Encoders against the admission checks. The locale \<open>object_schema\<close> states what a
  \<open>CanonicalObject\<close> instance owes the decoder: its canonical value is a map that carries the kind
  and schema and passes the field and shape checks in normal form. Inside the locale, decoding
  what was encoded is proved once; each object of \<open>object.rs\<close> is an interpretation.
\<close>

section \<open>Normal form of maps\<close>

definition normed :: "fields \<Rightarrow> fields" where
  "normed m = map (\<lambda>(k, v). (k, norm v)) (sort_key fst m)"

lemma norm_Map_normed: "norm (Map m) = Map (normed m)"
  by (simp add: normed_def)

lemma fst_set_normed [simp]: "fst ` set (normed m) = fst ` set m"
  by (force simp: normed_def)

lemma map_of_sort_key:
  assumes "distinct (map fst m)"
  shows "map_of (sort_key fst m) k = map_of m k"
proof -
  have "map_of (sort_key fst m) k = Some v \<longleftrightarrow> map_of m k = Some v" for v
    using assms by (simp add: map_of_eq_Some_iff)
  then show ?thesis by (metis not_Some_eq)
qed

lemma map_of_normed: "distinct (map fst m) \<Longrightarrow> map_of (normed m) k = map_option norm (map_of m k)"
  by (simp add: normed_def map_of_map map_of_sort_key)

lemma normed_id: "sorted (map fst m) \<Longrightarrow> (\<forall>e \<in> set m. norm (snd e) = snd e) \<Longrightarrow> normed m = m"
  by (simp add: normed_def sort_key_id_if_sorted) (rule map_idI, auto)

section \<open>Embedded values\<close>

definition policy_ref_wf :: "policy_ref \<Rightarrow> bool" where
  "policy_ref_wf p \<longleftrightarrow> length (pr_policy_id p) = 16 \<and> oid_wf (pr_version p)"

definition typed_ref_wf :: "typed_object_ref \<Rightarrow> bool" where
  "typed_ref_wf r \<longleftrightarrow> oid_wf (tr_id r)"

named_theorems embedded \<open>embedded values are normal, textual-safe and pass their own checks\<close>

lemmas embedded_defs = stable_id_value_def policy_ref_value_def typed_object_ref_value_def
  wall_time_value_def signature_value_def oid_array_def text_value_def exact_map_def at_field_def
  field_def as_map_def as_bytes_def as_unsigned_def as_text_def as_array_def fixed_bytes_def

lemma norm_oid [simp]: "norm (oid i) = oid i"
  and text_wf_oid [simp]: "text_wf (oid i)"
  by (simp_all add: oid_def)

lemma as_oid_oid [embedded]: "oid_wf i \<Longrightarrow> as_oid (oid i) k = Inr i"
  by (simp add: as_oid_Inr)

lemma norm_stable_id [simp]: "norm (stable_id_value i) = stable_id_value i"
  and text_wf_stable_id [simp]: "text_wf (stable_id_value i)"
  and fixed_bytes_stable_id [embedded]: "length i = n \<Longrightarrow> fixed_bytes n (stable_id_value i) k = Inr ()"
  by (simp_all add: embedded_defs)

lemma norm_oid_array [simp]: "norm (oid_array ids) = oid_array ids"
  and text_wf_oid_array [simp]: "text_wf (oid_array ids)"
  by (simp_all add: oid_array_def)

lemma oid_values_array [embedded]: "\<forall>i \<in> set ids. oid_wf i \<Longrightarrow> oid_values (oid_array ids) k = Inr ids"
  by (simp add: oid_values_def oid_array_def as_array_def collect_results_Inr as_oid_oid)

lemma oid_array_check_array [embedded]:
  "\<forall>i \<in> set ids. oid_wf i \<Longrightarrow> oid_array_check (oid_array ids) k = Inr ()"
  by (simp add: oid_array_check_def oid_array_def as_array_def all_ok_Inr as_oid_oid)

lemma norm_policy_ref [simp]: "norm (policy_ref_value p) = policy_ref_value p"
  and text_wf_policy_ref [simp]: "text_wf (policy_ref_value p)"
  by (simp_all add: policy_ref_value_def)

lemma policy_ref_check_value [embedded]:
  "policy_ref_wf p \<Longrightarrow> policy_ref_check (policy_ref_value p) k = Inr ()"
  by (simp add: policy_ref_check_def policy_ref_wf_def embedded_defs as_oid_oid)

lemma norm_typed_ref [simp]: "norm (typed_object_ref_value r) = typed_object_ref_value r"
  and text_wf_typed_ref [simp]: "text_wf (typed_object_ref_value r)"
  by (simp_all add: typed_object_ref_value_def)

lemma typed_ref_kind_value [embedded]:
  "typed_ref_wf r \<Longrightarrow> typed_ref_kind (typed_object_ref_value r) k = Inr (tr_kind r)"
  by (simp add: typed_ref_kind_def typed_ref_wf_def embedded_defs as_oid_oid)

lemma typed_ref_check_value [embedded]:
  "typed_ref_wf r \<Longrightarrow> typed_ref_check (typed_object_ref_value r) k = Inr ()"
  by (simp add: typed_ref_check_def typed_ref_kind_value)

lemma text_wf_wall_time [simp]: "text_wf (wall_time_value w)"
  by (simp add: wall_time_value_def)

lemma wall_time_check_norm [embedded]: "wall_time_check (norm (wall_time_value w)) k = Inr ()"
  by (simp add: wall_time_check_def embedded_defs)

lemma norm_signature [simp]: "norm (signature_value s) = signature_value s"
  and text_wf_signature [simp]: "text_wf (signature_value s)"
  by (simp_all add: signature_value_def stable_id_value_def word_le_nat_alt)

lemma all_zero_replicate: "(\<forall>b \<in> set bs. b = (0 :: u8)) \<longleftrightarrow> bs = replicate (length bs) 0"
  by (metis in_set_replicate replicate_length_same)

lemma signature_check_value [embedded]:
  "signature_wf s \<Longrightarrow> sig_purpose s = p \<Longrightarrow> signature_check p (signature_value s) k = Inr ()"
  by (cases "sig_algorithm s")
    (auto simp: signature_check_def signature_wf_def embedded_defs all_zero_replicate
      signature_algorithm_of_def)


section \<open>The derived order of signatures is the order of their encodings\<close>

lemma less_append_block:
  "length a = length a' \<Longrightarrow> a @ b < a' @ b' \<longleftrightarrow> a < a' \<or> a = a' \<and> b < (b' :: 'a::linorder list)"
  by (induction a a' rule: list_induct2) auto

lemma enc_signature:
  assumes "signature_wf s"
  shows "enc (signature_value s) =
    [0xa5, 0x00, 0x00, 0x01, 0x50] @ sig_signer s @ [0x02, 0x58, 0x20] @ signing_key_id s @
    [0x03, 0x58, 0x40] @ sig_bytes s @ [0x04, ucast (purpose_code (sig_purpose s))]"
  using assms
  by (cases "sig_algorithm s"; cases "sig_purpose s")
    (simp_all add: signature_wf_def signature_value_def stable_id_value_def enc_Map head_def word_le_nat_alt)


lemma purpose_code_less:
  "(ucast (purpose_code p) :: u8) < ucast (purpose_code q) \<longleftrightarrow> purpose_code p < purpose_code q"
proof -
  have small: "purpose_code r \<le> 0xff" for r by (cases r) simp_all
  have "unat (ucast (purpose_code r) :: u8) = unat (purpose_code r)" for r
    using small [of r] by (simp add: unsigned_ucast_eq word_le_nat_alt take_bit_nat_eq_self)
  then show ?thesis by (simp add: word_less_nat_alt)
qed

lemma enc_signature_less:
  "signature_wf s \<Longrightarrow> signature_wf t \<Longrightarrow> enc (signature_value s) < enc (signature_value t) \<longleftrightarrow> s < t"
  by (auto simp: enc_signature less_append_block signature_wf_def less_signature_def signature_key_def
      purpose_code_less)

lemma encode_signature: "signature_wf s \<Longrightarrow> encode X (signature_value s) = Inr (enc (signature_value s))"
  by (cases "sig_algorithm s")
    (simp add: encode_iff enc_signature signature_wf_def,
     simp add: signature_value_def stable_id_value_def fits.simps)

lemma windows2_any_map_set:
  "(\<And>x y. x \<in> set xs \<Longrightarrow> y \<in> set xs \<Longrightarrow> p (f x) (f y) = q x y) \<Longrightarrow>
    windows2_any p (map f xs) = windows2_any q xs"
  by (induction q xs rule: windows2_any.induct) auto

lemma signature_set_check_values [embedded]:
  assumes "\<forall>s \<in> set sigs. signature_wf s" "ensure_signature_set sigs p = Inr ()"
  shows "signature_set_check X p (Array (map signature_value sigs)) k = Inr ()"
proof -
  have sorted: "\<not> windows2_any (\<lambda>a b. a \<ge> b) sigs" and purpose: "\<forall>s \<in> set sigs. sig_purpose s = p"
    and ne: "sigs \<noteq> []"
    using assms(2) by (auto simp: ensure_signature_set_def all_ok_Inr ensure_signature_purpose_def
        split: if_splits)
  have enc: "map (encode X) (map signature_value sigs) = map Inr (map (\<lambda>s. enc (signature_value s)) sigs)"
    using assms(1) by (simp add: encode_signature)
  have "windows2_any (\<lambda>a b. a \<ge> b) (map (\<lambda>s. enc (signature_value s)) sigs) =
      windows2_any (\<lambda>a b. a \<ge> b) sigs"
    using assms(1) enc_signature_less by (intro windows2_any_map_set) (metis not_le)
  then have "ensure_sorted_unique_values X (map signature_value sigs) k = Inr ()"
    unfolding ensure_sorted_unique_values_def enc collect_results_Inr [THEN iffD2, OF refl]
    using sorted by simp
  moreover have "all_ok (map (\<lambda>x. signature_check p x k) (map signature_value sigs)) = Inr ()"
    using assms(1) purpose by (simp add: all_ok_Inr signature_check_value)
  ultimately show ?thesis
    using ne by (simp add: signature_set_check_def as_array_def)
qed

section \<open>The contract of a schema\<close>

lemma restricted_by_self [simp]: "restricted_by L L = L"
  by (cases L) (simp add: restricted_by_def min_usize_def)

text \<open>What decoding returns for an object with a given canonical value.\<close>

definition admitted_as :: "canonical_object \<Rightarrow> any_object \<Rightarrow> bool" where
  "admitted_as x a \<longleftrightarrow> (\<exists>v. co_value x = Inr v \<and>
     a = any_object_of (co_kind x) \<lparr>do_kind = co_kind x, do_schema_version = co_schema x, do_value = norm v\<rparr>)"

locale object_schema =
  fixes X :: externals
    and kind :: object_kind
    and schema :: u64
    and object :: "'o \<Rightarrow> canonical_object"
    and wf :: "'o \<Rightarrow> bool"
  assumes object_kind: "co_kind (object x) = kind"
    and object_schema: "co_schema (object x) = schema"
    and supported: "supports_schema kind schema"
    and schema_value: "wf x \<Longrightarrow> co_validate (object x) = Inr () \<Longrightarrow>
      \<exists>m. co_value (object x) = Inr (Map m) \<and> distinct (map fst m) \<and> text_wf (Map m) \<and>
        map_of m 0 = Some (Unsigned (kind_code kind)) \<and> map_of m 1 = Some (Unsigned schema) \<and>
        validate_fields X kind schema (normed m) = Inr ()"
begin

lemma encoded_admitted:
  assumes "wf x" "object_encode_with_limits X (object x) (restricted_by L (object_limits kind)) = Inr bs"
  shows "\<exists>m. co_value (object x) = Inr (Map m) \<and> admitted X L kind schema (normed m) \<and>
    bs = enc (Map (normed m))"
proof -
  let ?L = "restricted_by L (object_limits kind)"
  from assms(2) have v: "co_validate (object x) = Inr ()"
    by (auto simp: object_encode_with_limits_def)
  from schema_value [OF assms(1) v] obtain m where m: "co_value (object x) = Inr (Map m)"
      "distinct (map fst m)" "text_wf (Map m)" "map_of m 0 = Some (Unsigned (kind_code kind))"
      "map_of m 1 = Some (Unsigned schema)" "validate_fields X kind schema (normed m) = Inr ()"
    by blast
  from assms(2) m(1) v have e: "fits X ?L 0 (Map m)" "bs = enc (Map m)" "length bs \<le> max_bytes ?L"
    by (auto simp: object_encode_with_limits_def encode_with_limits_iff)
  from canonical_at_norm [OF limits_wf_kind e(1) m(3)] e(2,3)
  have c: "canonical_at X ?L 0 (Map (normed m))" "enc (Map (normed m)) = bs"
    by (simp_all add: norm_Map_normed [symmetric] del: norm.simps)
  have "admitted X L kind schema (normed m)"
    using c e(3) m supported by (simp add: admitted_def canonical_at_def map_of_normed del: norm.simps(3) enc.simps text_wf.simps)
  with m(1) c(2) show ?thesis by blast
qed

text \<open>What an object encodes to, the decoder admits as that kind, with the same identifier.\<close>

lemma decode_encoded:
  assumes "wf x"
    "object_encode_with_limits X (object x) (restricted_by L (object_limits (co_kind (object x)))) = Inr bs"
  shows "\<exists>a. any_decode X bs L = Inr a \<and> admitted_as (object x) a"
  using encoded_admitted [OF assms(1) assms(2) [unfolded object_kind]]
  unfolding any_decode_iff admitted_as_def object_kind object_schema
  by (metis norm_Map_normed)

lemma decode_identified:
  assumes "wf x" "object_identity X (object x) alg = Inr i"
  shows "\<exists>bs a. object_encode X (object x) = Inr bs \<and>
    any_decode_verified X bs i (object_limits (co_kind (object x))) = Inr a \<and> admitted_as (object x) a"
proof -
  let ?L = "object_limits (co_kind (object x))"
  from assms(2) obtain bs where bs: "object_encode X (object x) = Inr bs"
      "i = from_payload X (kind_code (co_kind (object x))) (co_schema (object x)) bs alg"
    by (auto simp: object_identity_def)
  then have e: "object_encode_with_limits X (object x) (restricted_by ?L ?L) = Inr bs"
    by (simp add: object_encode_def)
  from decode_encoded [OF assms(1) e] obtain a where a: "any_decode X bs ?L = Inr a" "admitted_as (object x) a"
    by blast
  have "algorithm i = alg" by (simp add: bs(2) from_payload_def Let_def)
  moreover have "any_id X a alg = Inr i"
    using any_id_decoded [OF a(1), of alg] a(2) bs(2) by (auto simp: admitted_as_def)
  ultimately show ?thesis using a bs(1) by (auto simp: any_decode_verified_def)
qed

end

section \<open>Discharging the contract\<close>

text \<open>
  The checks look only at the keys and at the value stored under a key, so they are evaluated on any
  entry list \<open>n\<close> that agrees with the normal form in those two respects.
\<close>

lemma validate_fields_Inr:
  "validate_fields X kind schema m = Inr () \<longleftrightarrow>
    (\<forall>k \<in> set (fst (field_table kind)). map_of m k \<noteq> None) \<and>
    fst ` set m \<subseteq> set (fst (field_table kind)) \<union> set (snd (field_table kind)) \<and>
    (kind \<notin> {PolicyKind, RepositoryRootKind, IdentityKind, KeyEnvelopeSetKind} \<or> map_of m 2 \<noteq> None \<longrightarrow>
      at_field m 2 (\<lambda>v. policy_ref_check v 2) = Inr ()) \<and>
    validate_shapes X kind schema m = Inr ()"
proof -
  have "all_ok (map (\<lambda>k. discard (field m k)) ks) = Inr () \<longleftrightarrow> (\<forall>k \<in> set ks. map_of m k \<noteq> None)" for ks
    by (auto simp: all_ok_Inr)
  moreover have "all_ok (map (unknown_field_check r opt) m) = Inr () \<longleftrightarrow> fst ` set m \<subseteq> set r \<union> set opt" for r opt
    by (auto simp: all_ok_Inr unknown_field_check_def)
  ultimately show ?thesis
    unfolding validate_fields_def Let_def split_beta
    by (simp only: all_ok.simps and_then_Inr optional_field_def) auto
qed

lemma schema_valueI:
  assumes "value = Inr (Map m)" "distinct (map fst m)" "text_wf (Map m)"
    and "map_of m 0 = Some (Unsigned (kind_code kind))" "map_of m 1 = Some (Unsigned schema)"
    and "set (fst (field_table kind)) \<subseteq> fst ` set m"
    and "fst ` set m \<subseteq> set (fst (field_table kind)) \<union> set (snd (field_table kind))"
    and "\<And>n. (\<And>k. map_of n k = map_option norm (map_of m k)) \<Longrightarrow> distinct (map fst n) \<Longrightarrow>
      fst ` set n = fst ` set m \<Longrightarrow>
      (kind \<notin> {PolicyKind, RepositoryRootKind, IdentityKind, KeyEnvelopeSetKind} \<or> map_of m 2 \<noteq> None \<longrightarrow>
        at_field n 2 (\<lambda>v. policy_ref_check v 2) = Inr ()) \<and> validate_shapes X kind schema n = Inr ()"
  shows "\<exists>m. value = Inr (Map m) \<and> distinct (map fst m) \<and> text_wf (Map m) \<and>
        map_of m 0 = Some (Unsigned (kind_code kind)) \<and> map_of m 1 = Some (Unsigned schema) \<and>
        validate_fields X kind schema (normed m) = Inr ()"
proof -
  have keys: "map fst (normed m) = map fst (sort_key fst m)"
    by (simp add: normed_def case_prod_beta o_def)
  have d: "distinct (map fst (normed m))" unfolding keys using assms(2) by simp
  have "map_of (normed m) k \<noteq> None" if "k \<in> set (fst (field_table kind))" for k
    using that assms(2,6) by (auto simp: map_of_normed map_of_eq_None_iff)
  then have "validate_fields X kind schema (normed m) = Inr ()"
    using assms(7) assms(8) [of "normed m"] d map_of_normed [OF assms(2)]
    unfolding validate_fields_Inr by simp
  with assms(1-5) show ?thesis by blast
qed

lemmas lookup_defs = at_field_def field_def opt_field_def optional_field_def as_unsigned_def
  as_bytes_def as_text_def as_array_def text_value_def header_def header_version_def optional_def

lemma ensure_unique_ids_from_Inr:
  "ensure_unique_ids_from before ids k = Inr () \<longleftrightarrow> distinct ids \<and> set before \<inter> set ids = {}"
  by (induction before ids k rule: ensure_unique_ids_from.induct) auto

lemma ensure_unique_ids_Inr: "ensure_unique_ids ids k = Inr () \<longleftrightarrow> distinct ids"
  by (simp add: ensure_unique_ids_def ensure_unique_ids_from_Inr)

text \<open>The \<open>CanonicalObject\<close> part of a signed object.\<close>

definition signed_base :: "signed_object \<Rightarrow> canonical_object" where
  "signed_base x = canonical_object.truncate x"

lemma signed_base_sel [simp]:
  "co_kind (signed_base x) = co_kind x" "co_schema (signed_base x) = co_schema x"
  "co_value (signed_base x) = co_value x" "co_validate (signed_base x) = co_validate x"
  by (simp_all add: signed_base_def canonical_object.defs)

lemma norm_signatures [simp]: "map (norm \<circ> signature_value) sigs = map signature_value sigs"
  by simp

end
