(* ===== verification/Metadata_Schemas.thy ===== *)
theory Metadata_Schemas
  imports Object_Schemas
begin

text \<open>
  The schema contract for snapshots, subprojects, secret references, change revisions, line states,
  markers and releases.
\<close>

definition snapshot_wf :: "snapshot \<Rightarrow> bool" where
  "snapshot_wf x \<longleftrightarrow> policy_ref_wf (sn_policy_ref x) \<and> oid_wf (sn_root_manifest x) \<and>
     (\<forall>i \<in> set (sn_parents x). oid_wf i) \<and> length (sn_change_id x) = 16 \<and> length (sn_author x) = 16 \<and>
     length (sn_device x) = 16 \<and> (\<forall>i \<in> set_option (sn_message_blob x). oid_wf i)"

lemmas snapshot_defs = snapshot_object_def snapshot_validate_def snapshot_value_def snapshot_map_def Let_def

interpretation snapshot_schema: object_schema X SnapshotKind 0 snapshot_object snapshot_wf for X
proof (unfold_locales, goal_cases)
  case (4 x)
  show ?case
  proof (rule schema_valueI [of _ "snapshot_map x"], goal_cases)
    case (8 n)
    with 4 show ?case
      by (auto simp: snapshot_defs optional_def snapshot_wf_def lookup_defs validate_shapes_def
          shape_snapshot_def embedded ensure_unique_ids_Inr card_distinct split: option.splits)
  qed (auto simp: snapshot_defs lookup_defs split: option.splits)
qed (simp_all add: snapshot_defs supports_schema_def)


definition subproject_wf :: "subproject \<Rightarrow> bool" where
  "subproject_wf x \<longleftrightarrow> policy_ref_wf (sp_policy_ref x) \<and> utf8_valid (sp_system_kind x) \<and>
     (\<forall>i \<in> set_option (sp_native_projection x). oid_wf i)"

lemmas subproject_defs =
  subproject_object_def subproject_validate_def subproject_value_def subproject_map_def Let_def

interpretation subproject_schema: object_schema X SubprojectKind 0 "subproject_object X" subproject_wf for X
proof (unfold_locales, goal_cases)
  case (4 x)
  show ?case
  proof (rule schema_valueI [of _ "subproject_map x"], goal_cases)
    case 3
    with 4 show ?case by (auto simp: subproject_defs subproject_wf_def lookup_defs split: option.splits)
  next
    case (8 n)
    with 4 show ?case
      by (auto simp: subproject_defs subproject_wf_def lookup_defs validate_shapes_def shape_subproject_def
          embedded split: option.splits)
  qed (auto simp: subproject_defs lookup_defs split: option.splits)
qed (simp_all add: subproject_defs supports_schema_def)

definition secret_ref_wf :: "secret_ref \<Rightarrow> bool" where
  "secret_ref_wf x \<longleftrightarrow> policy_ref_wf (sr_policy_ref x) \<and> utf8_valid (sr_provider_kind x) \<and>
     utf8_valid (sr_locator x) \<and> (\<forall>t \<in> set_option (sr_exact_version x). utf8_valid t) \<and>
     utf8_valid (sr_materialization_target x) \<and> utf8_valid (sr_required_capability x) \<and>
     (\<forall>i \<in> set_option (sr_encrypted_development_value x). oid_wf i)"

lemmas secret_ref_defs =
  secret_ref_object_def secret_ref_validate_def secret_ref_value_def secret_ref_map_def Let_def

interpretation secret_ref_schema: object_schema X SecretRefKind 0 "secret_ref_object X" secret_ref_wf for X
proof (unfold_locales, goal_cases)
  case (4 x)
  show ?case
  proof (rule schema_valueI [of _ "secret_ref_map x"], goal_cases)
    case 3
    with 4 show ?case by (auto simp: secret_ref_defs secret_ref_wf_def lookup_defs split: option.splits)
  next
    case (8 n)
    with 4 show ?case
      by (auto simp: secret_ref_defs secret_ref_wf_def lookup_defs validate_shapes_def shape_secret_ref_def
          embedded split: option.splits)
  qed (auto simp: secret_ref_defs lookup_defs split: option.splits)
qed (simp_all add: secret_ref_defs supports_schema_def)

definition change_revision_wf :: "change_revision \<Rightarrow> bool" where
  "change_revision_wf x \<longleftrightarrow> policy_ref_wf (cv_policy_ref x) \<and> length (cv_change_id x) = 16 \<and>
     (\<forall>i \<in> set_option (cv_previous_revision x). oid_wf i) \<and> oid_wf (cv_title_blob x) \<and>
     oid_wf (cv_description_blob x) \<and> oid_wf (cv_base_snapshot x) \<and> oid_wf (cv_current_snapshot x) \<and>
     length (cv_target_line x) = 16 \<and> length (cv_owner x) = 16 \<and> length (cv_author x) = 16 \<and>
     policy_ref_wf (cv_review_policy x) \<and> policy_ref_wf (cv_landing_policy x)"

lemmas change_revision_defs = change_revision_object_def change_revision_value_def change_revision_map_def Let_def

lemma change_state_code_le: "change_state_code c \<le> 3"
  by (cases c) simp_all

interpretation change_revision_schema:
  object_schema X ChangeRevisionKind 0 change_revision_object change_revision_wf for X
proof (unfold_locales, goal_cases)
  case (4 x)
  show ?case
  proof (rule schema_valueI [of _ "change_revision_map x"], goal_cases)
    case (8 n)
    show ?case
      using 4 change_state_code_le [of "cv_state x"]
      by (cases "cv_previous_revision x")
        (simp_all add: 8(1) change_revision_defs change_revision_wf_def lookup_defs validate_shapes_def
          shape_change_revision_def embedded not_less)
  qed (auto simp: change_revision_defs lookup_defs split: option.splits)
qed (simp_all add: change_revision_defs supports_schema_def)

definition line_state_wf :: "line_state \<Rightarrow> bool" where
  "line_state_wf x \<longleftrightarrow> policy_ref_wf (ls_policy_ref x) \<and> length (ls_line_id x) = 16 \<and>
     utf8_valid (ls_display_name x) \<and> oid_wf (ls_head_snapshot x) \<and>
     (\<forall>i \<in> set_option (ls_previous_state x). oid_wf i) \<and> policy_ref_wf (ls_integration_policy x) \<and>
     policy_ref_wf (ls_approval_policy x) \<and> policy_ref_wf (ls_release_policy x) \<and>
     policy_ref_wf (ls_visibility_policy x) \<and> oid_wf (ls_transaction_operation x) \<and>
     signature_wf (ls_signature x)"

lemmas line_state_defs = line_state_object_def line_state_validate_def line_state_value_def
  line_state_unsigned_map_def Let_def canonical_object.defs

interpretation line_state_schema:
  object_schema X LineStateKind 0 "\<lambda>x. signed_base (line_state_object X x)" line_state_wf for X
proof (unfold_locales, goal_cases)
  case (4 x)
  show ?case
  proof (rule schema_valueI [of _ "line_state_unsigned_map x @ [(13, signature_value (ls_signature x))]"], goal_cases)
    case 3
    with 4 show ?case by (auto simp: line_state_defs line_state_wf_def lookup_defs split: option.splits)
  next
    case (8 n)
    show ?case
      using 4
      by (cases "ls_previous_state x")
        (simp_all add: 8(1) line_state_defs line_state_wf_def lookup_defs validate_shapes_def
          shape_line_state_def embedded ensure_signature_purpose_def split: if_splits)
  qed (auto simp: line_state_defs lookup_defs split: option.splits)
qed (simp_all add: line_state_defs supports_schema_def)

definition marker_wf :: "marker \<Rightarrow> bool" where
  "marker_wf x \<longleftrightarrow> policy_ref_wf (mk_policy_ref x) \<and> typed_ref_wf (mk_target x) \<and>
     length (mk_issuer x) = 16 \<and> signature_wf (mk_signature x)"

lemmas marker_defs = marker_object_def marker_validate_def marker_value_def marker_unsigned_map_def Let_def

lemma marker_kind_code_le: "marker_kind_code c \<le> 4"
  by (cases c) simp_all

interpretation marker_schema:
  object_schema X MarkerKind 0 "\<lambda>x. signed_base (marker_object x)" marker_wf for X
proof (unfold_locales, goal_cases)
  case (4 x)
  show ?case
  proof (rule schema_valueI [of _ "marker_unsigned_map x @ [(8, signature_value (mk_signature x))]"], goal_cases)
    case (8 n)
    with 4 marker_kind_code_le [of "mk_marker_kind x"] show ?case
      by (auto simp: marker_defs marker_wf_def lookup_defs validate_shapes_def shape_marker_def
          embedded ensure_signature_purpose_def not_less)
  qed (auto simp: marker_defs lookup_defs)
qed (simp_all add: marker_defs supports_schema_def)

definition release_wf :: "release \<Rightarrow> bool" where
  "release_wf x \<longleftrightarrow> policy_ref_wf (rl_policy_ref x) \<and> length (rl_source_line x) = 16 \<and>
     oid_wf (rl_source_snapshot x) \<and> policy_ref_wf (rl_audience_policy x) \<and>
     oid_wf (rl_projection_rules x) \<and> oid_wf (rl_projected_root x) \<and> oid_wf (rl_projection_proof x) \<and>
     utf8_valid (rl_version_identifier x) \<and> (\<forall>i \<in> set_option (rl_release_notes_blob x). oid_wf i) \<and>
     (\<forall>i \<in> set (rl_build_provenance x) \<union> set (rl_artifacts x) \<union> set (rl_policy_decision_evidence x). oid_wf i) \<and>
     (\<forall>s \<in> set (rl_signatures x). signature_wf s)"

lemmas release_defs = release_object_def release_validate_def release_value_def release_unsigned_map_def Let_def

interpretation release_schema:
  object_schema X ReleaseKind 0 "\<lambda>x. signed_base (release_object X x)" release_wf for X
proof (unfold_locales, goal_cases)
  case (4 x)
  show ?case
  proof (rule schema_valueI [of _ "release_unsigned_map x @ [(16, Array (map signature_value (rl_signatures x)))]"], goal_cases)
    case 3
    with 4 show ?case by (auto simp: release_defs release_wf_def lookup_defs split: option.splits)
  next
    case (8 n)
    show ?case
      using 4
      by (cases "rl_release_notes_blob x")
        (simp_all add: 8(1) release_defs release_wf_def lookup_defs validate_shapes_def shape_release_def
          embedded)
  qed (auto simp: release_defs lookup_defs split: option.splits)
qed (simp_all add: release_defs supports_schema_def)

end
