(* ===== verification/Operation_Schemas.thy ===== *)
theory Operation_Schemas
  imports Object_Schemas
begin

text \<open>
  The schema contract for conflicts, both operation schemas and policies: the objects whose checks
  keep state while they walk a list (region ends, bound keys, capabilities).
\<close>

section \<open>Conflicts\<close>

definition conflict_wf :: "externals \<Rightarrow> conflict \<Rightarrow> bool" where
  "conflict_wf X x \<longleftrightarrow> policy_ref_wf (cf_policy_ref x) \<and> typed_ref_wf (cf_base x) \<and>
     typed_ref_wf (cf_left x) \<and> typed_ref_wf (cf_right x) \<and>
     portable_path_new X (segments (cf_path x)) = Inr (cf_path x) \<and>
     (\<forall>s \<in> set (segments (cf_path x)). utf8_valid (as_str s)) \<and>
     utf8_valid (cf_merge_driver x) \<and> utf8_valid (cf_merge_driver_version x)"

lemmas conflict_defs = conflict_object_def conflict_validate_def conflict_value_def conflict_map_def Let_def

lemma norm_region [simp]: "norm (region_value r) = region_value r"
  and text_wf_region [simp]: "text_wf (region_value r)"
  by (simp_all add: region_value_def)

lemma region_check_Inr:
  "region_check p r = Inr st \<longleftrightarrow>
    \<not> rg_end r \<le> rg_start r \<and> (case p of None \<Rightarrow> True | Some e \<Rightarrow> \<not> rg_start r < e) \<and> st = Some (rg_end r)"
  by (auto simp: region_check_def split: option.splits)

lemma region_steps_agree:
  "try_fold region_check p rs = Inr st \<Longrightarrow> try_fold region_shape_step p (map region_value rs) = Inr st"
proof (induction rs arbitrary: p)
  case (Cons r rs)
  then have ok: "region_check p r = Inr (Some (rg_end r))" and rest: "try_fold region_check (Some (rg_end r)) rs = Inr st"
    by (auto simp: region_check_Inr)
  have "region_shape_step p (region_value r) = Inr (Some (rg_end r))"
    using ok by (auto simp: region_shape_step_def region_check_Inr region_value_def embedded_defs split: option.splits)
  with Cons.IH [OF rest] show ?case by simp
qed simp

lemma norm_segment [simp]: "norm (segment_value s) = segment_value s"
  by (simp add: segment_value_def)

lemma collect_segments:
  assumes "\<forall>s \<in> set ss. portable_text X (as_str s)"
  shows "collect_results (map (\<lambda>x. and_then (as_text x k) (\<lambda>t. map_err f (segment_new_portable X t)))
    (map segment_value ss)) = Inr ss"
  using assms by (simp add: collect_results_Inr segment_value_def as_text_def segment_new_portable_def
      segment_validate_portable)

lemma conflict_kind_code_le: "conflict_kind_code c \<le> 3"
  by (cases c) simp_all

interpretation conflict_schema: object_schema X ConflictKind 0 "conflict_object X" "conflict_wf X" for X
proof (unfold_locales, goal_cases)
  case (4 x)
  then obtain st where "try_fold region_check None (cf_regions x) = Inr st"
    by (auto simp: conflict_defs)
  note regions = region_steps_agree [OF this]
  from 4(1) have path: "\<forall>s \<in> set (segments (cf_path x)). portable_text X (as_str s)"
    by (auto simp: conflict_wf_def portable_path_new_iff)
  show ?case
  proof (rule schema_valueI [of _ "conflict_map x"], goal_cases)
    case 3
    with 4 show ?case
      by (auto simp: conflict_defs conflict_wf_def lookup_defs portable_path_value_def segment_value_def)
  next
    case (8 n)
    show ?case
      using 4 regions collect_segments [OF path] conflict_kind_code_le [of "cf_conflict_kind x"]
      by (simp add: 8(1) conflict_defs conflict_wf_def lookup_defs validate_shapes_def shape_conflict_def
          portable_path_value_def embedded not_less o_def)
  qed (auto simp: conflict_defs lookup_defs)
qed (simp_all add: conflict_defs supports_schema_def)

section \<open>Line advances\<close>

definition line_advance_wf :: "line_advance_declaration \<Rightarrow> bool" where
  "line_advance_wf d \<longleftrightarrow> policy_ref_wf (la_policy_ref d) \<and> length (la_line_id d) = 16 \<and>
     utf8_valid (la_display_name d) \<and> oid_wf (la_head_snapshot d) \<and>
     (\<forall>i \<in> set_option (la_previous_state d). oid_wf i) \<and> policy_ref_wf (la_integration_policy d) \<and>
     policy_ref_wf (la_approval_policy d) \<and> policy_ref_wf (la_release_policy d) \<and>
     policy_ref_wf (la_visibility_policy d)"

lemma text_wf_line_advance: "line_advance_wf d \<Longrightarrow> text_wf (line_advance_value d)"
  by (cases "la_previous_state d")
    (simp_all add: line_advance_value_def line_advance_wf_def optional_def text_value_def)

lemma line_advance_check_norm:
  "line_advance_wf d \<Longrightarrow> line_advance_validate X d = Inr () \<Longrightarrow>
    line_advance_check (norm (line_advance_value d)) k = Inr (la_line_id d)"
  by (cases "la_previous_state d")
    (simp_all add: line_advance_check_def line_advance_value_def line_advance_wf_def line_advance_validate_def
      lookup_defs exact_map_def as_map_def stable_id_value_def word_le_nat_alt embedded split: if_splits)

section \<open>Schema-0 operations\<close>

primrec operation_action_wf :: "operation_action \<Rightarrow> bool" where
  "operation_action_wf (Transition before after) \<longleftrightarrow>
     (\<forall>r \<in> set_option before. typed_ref_wf r) \<and> (\<forall>r \<in> set_option after. typed_ref_wf r)"
| "operation_action_wf (LineAdvance d) \<longleftrightarrow> line_advance_wf d"

lemma text_wf_action: "operation_action_wf a \<Longrightarrow> text_wf (operation_action_value a)"
  by (cases a) (auto simp: optional_def Let_def text_wf_line_advance split: option.splits)

lemma action_shape_transition:
  assumes "operation_action_wf (Transition before after)" "operation_action_validate X (Transition before after) = Inr ()"
  shows "action_shape_step 0 keys (norm (operation_action_value (Transition before after))) = Inr keys"
  using assms
  by (cases before; cases after)
    (simp_all add: action_shape_step_def action_transition_shape_def optional_def lookup_defs exact_map_def
      as_map_def embedded split: if_splits)

lemma action_shape_advance:
  assumes "line_advance_wf d" "line_advance_validate X d = Inr ()"
  shows "action_shape_step 0 keys (norm (operation_action_value (LineAdvance d))) = Inr keys"
  using line_advance_check_norm [OF assms]
  by (simp add: action_shape_step_def action_line_advance_shape_def lookup_defs exact_map_def as_map_def)


lemma action_shape_v0:
  "operation_action_wf a \<Longrightarrow> operation_action_validate X a = Inr () \<Longrightarrow>
    action_shape_step 0 keys (norm (operation_action_value a)) = Inr keys"
  using action_shape_transition action_shape_advance by (cases a) auto

lemma actions_shape_v0:
  "\<forall>a \<in> set as. operation_action_wf a \<and> operation_action_validate X a = Inr () \<Longrightarrow>
    try_fold (action_shape_step 0) keys (map (\<lambda>a. norm (operation_action_value a)) as) = Inr keys"
  by (induction as) (simp_all add: action_shape_v0 [of _ X])

definition operation_wf :: "operation \<Rightarrow> bool" where
  "operation_wf x \<longleftrightarrow> policy_ref_wf (op_policy_ref x) \<and> (\<forall>i \<in> set (op_parents x). oid_wf i) \<and>
     length (op_actor x) = 16 \<and> length (op_device x) = 16 \<and> (\<forall>a \<in> set (op_actions x). operation_action_wf a) \<and>
     (\<forall>i \<in> set (op_inverse_payloads x). oid_wf i) \<and> (\<forall>i \<in> set_option (op_public_envelope x). oid_wf i) \<and>
     (\<forall>i \<in> set_option (op_private_payload x). oid_wf i) \<and> signature_wf (op_signature x) \<and>
     utf8_valid (op_client_implementation x)"

lemmas operation_defs = operation_object_def operation_validate_def operation_value_def
  operation_unsigned_map_def Let_def

interpretation operation_schema:
  object_schema X OperationKind 0 "\<lambda>x. signed_base (operation_object X x)" operation_wf for X
proof (unfold_locales, goal_cases)
  case (4 x)
  then have "try_fold (action_shape_step 0) {} (map (\<lambda>a. norm (operation_action_value a)) (op_actions x)) = Inr {}"
    by (intro actions_shape_v0 [of _ X]) (auto simp: operation_defs operation_wf_def all_ok_Inr)
  note acts = this
  show ?case
  proof (rule schema_valueI [of _ "operation_unsigned_map x @ [(12, signature_value (op_signature x))]"], goal_cases)
    case 3
    with 4 show ?case
      by (auto simp: operation_defs operation_wf_def lookup_defs text_wf_action split: option.splits)
  next
    case (8 n)
    show ?case
      using 4 acts
      by (cases "op_public_envelope x"; cases "op_private_payload x")
        (simp_all add: 8(1) operation_defs operation_wf_def lookup_defs validate_shapes_def shape_operation_def
          embedded ensure_signature_purpose_def ensure_unique_ids_Inr card_distinct o_def)
  qed (auto simp: operation_defs lookup_defs split: option.splits)
qed (simp_all add: operation_defs supports_schema_def)

section \<open>Schema-1 operations\<close>

definition reference_key_wf :: "reference_key \<Rightarrow> bool" where
  "reference_key_wf k \<longleftrightarrow> (\<forall>i \<in> set_option (stable_id k). length i = 16)"

primrec operation_action_v1_wf :: "operation_action_v1 \<Rightarrow> bool" where
  "operation_action_v1_wf (BoundTransition key before after) \<longleftrightarrow>
     reference_key_wf key \<and> (\<forall>r \<in> set_option before. typed_ref_wf r) \<and> typed_ref_wf after"
| "operation_action_v1_wf (LineAdvanceV1 d) \<longleftrightarrow> line_advance_wf d"

lemma norm_reference_key [simp]: "norm (reference_key_value k) = reference_key_value k"
  and text_wf_reference_key [simp]: "text_wf (reference_key_value k)"
  by (cases k; simp add: reference_key_value_def)+

lemma decode_reference_key_value [embedded]:
  "reference_key_wf k \<Longrightarrow> decode_reference_key (reference_key_value k) f = Inr k"
  by (cases k) (simp_all add: decode_reference_key_def reference_key_value_def reference_key_wf_def embedded_defs)

lemma text_wf_action_v1: "operation_action_v1_wf a \<Longrightarrow> text_wf (operation_action_v1_value a)"
  by (cases a) (auto simp: optional_def text_wf_line_advance split: option.splits)

lemma bound_shape:
  assumes "operation_action_v1_wf (BoundTransition key before after)"
    "action_v1_key X (BoundTransition key before after) = Inr key" "key \<notin> keys"
  shows "action_shape_step 1 keys (norm (operation_action_v1_value (BoundTransition key before after))) =
    Inr (insert key keys)"
  using assms
  by (cases before)
    (simp_all add: action_shape_step_def action_bound_shape_def optional_def lookup_defs exact_map_def
      as_map_def embedded word_le_nat_alt split: if_splits)

lemma advance_v1_shape:
  assumes "line_advance_wf d" "line_advance_validate X d = Inr ()" "KeyLine (la_line_id d) \<notin> keys"
  shows "action_shape_step 1 keys (norm (operation_action_v1_value (LineAdvanceV1 d))) =
    Inr (insert (KeyLine (la_line_id d)) keys)"
  using line_advance_check_norm [OF assms(1,2)] assms(3)
  by (simp add: action_shape_step_def action_line_advance_shape_def lookup_defs exact_map_def as_map_def)

lemma action_v1_key_bound: "action_v1_key X (BoundTransition key before after) = Inr k \<Longrightarrow> k = key"
  by (simp split: if_splits)

lemma action_shape_v1:
  "operation_action_v1_wf a \<Longrightarrow> action_v1_check X keys a = Inr keys' \<Longrightarrow>
    action_shape_step 1 keys (norm (operation_action_v1_value a)) = Inr keys'"
proof (cases a)
  case (BoundTransition key before after)
  assume "operation_action_v1_wf a" "action_v1_check X keys a = Inr keys'"
  with BoundTransition action_v1_key_bound [of X key before after]
  show ?thesis using bound_shape [of key before after X keys]
    by (auto simp: action_v1_check_def simp del: action_v1_key.simps split: if_splits)
next
  case (LineAdvanceV1 d)
  assume "operation_action_v1_wf a" "action_v1_check X keys a = Inr keys'"
  with LineAdvanceV1 show ?thesis using advance_v1_shape [of d X keys]
    by (auto simp: action_v1_check_def split: if_splits)
qed

lemma actions_shape_v1:
  "\<forall>a \<in> set as. operation_action_v1_wf a \<Longrightarrow> try_fold (action_v1_check X) keys as = Inr keys' \<Longrightarrow>
    try_fold (action_shape_step 1) keys (map (\<lambda>a. norm (operation_action_v1_value a)) as) = Inr keys'"
  by (induction as arbitrary: keys) (auto simp: action_shape_v1)

definition operation_v1_wf :: "operation_v1 \<Rightarrow> bool" where
  "operation_v1_wf x \<longleftrightarrow> policy_ref_wf (o1_policy_ref x) \<and> (\<forall>i \<in> set (o1_parents x). oid_wf i) \<and>
     length (o1_actor x) = 16 \<and> length (o1_device x) = 16 \<and> (\<forall>a \<in> set (o1_actions x). operation_action_v1_wf a) \<and>
     (\<forall>i \<in> set (o1_inverse_payloads x). oid_wf i) \<and> (\<forall>i \<in> set_option (o1_public_envelope x). oid_wf i) \<and>
     (\<forall>i \<in> set_option (o1_private_payload x). oid_wf i) \<and> signature_wf (o1_signature x) \<and>
     utf8_valid (o1_client_implementation x)"

lemmas operation_v1_defs = operation_v1_object_def operation_v1_validate_def operation_v1_value_def
  operation_v1_unsigned_map_def Let_def

interpretation operation_v1_schema:
  object_schema X OperationKind 1 "\<lambda>x. signed_base (operation_v1_object X x)" operation_v1_wf for X
proof (unfold_locales, goal_cases)
  case (4 x)
  then obtain keys where "try_fold (action_v1_check X) {} (o1_actions x) = Inr keys"
    by (auto simp: operation_v1_defs)
  with 4(1) have acts: "try_fold (action_shape_step 1) {} (map (\<lambda>a. norm (operation_action_v1_value a)) (o1_actions x)) = Inr keys"
    by (intro actions_shape_v1) (auto simp: operation_v1_wf_def)
  show ?case
  proof (rule schema_valueI [of _ "operation_v1_unsigned_map x @ [(12, signature_value (o1_signature x))]"], goal_cases)
    case 3
    with 4 show ?case
      by (auto simp: operation_v1_defs operation_v1_wf_def lookup_defs text_wf_action_v1 split: option.splits)
  next
    case (8 n)
    show ?case
      using 4 acts
      by (cases "o1_public_envelope x"; cases "o1_private_payload x")
        (simp_all add: 8(1) operation_v1_defs operation_v1_wf_def lookup_defs validate_shapes_def shape_operation_def
          embedded ensure_signature_purpose_def ensure_unique_ids_Inr card_distinct o_def)
  qed (auto simp: operation_v1_defs lookup_defs split: option.splits)
qed (simp_all add: operation_v1_defs supports_schema_def)


section \<open>Policies\<close>

lemma norm_principal [simp]: "norm (principal_value p) = principal_value p"
  and text_wf_principal [simp]: "text_wf (principal_value p)"
  by (simp_all add: principal_value_def)

lemma principal_check_value [embedded]: "pn_identifier p \<noteq> [] \<Longrightarrow> principal_check (principal_value p) k = Inr ()"
  by (cases "pn_kind p") (simp_all add: principal_check_def principal_value_def embedded_defs)

lemma capability_code_le: "capability_code c \<le> 8"
  by (cases c) simp_all

lemma capability_code_inj: "inj capability_code"
proof (rule injI)
  show "c = d" if "capability_code c = capability_code d" for c d
    using that by (cases c; cases d) simp_all
qed

lemma capability_fold:
  "sorted_wrt (<) cs \<Longrightarrow> \<forall>c \<in> set cs. c \<le> 8 \<Longrightarrow> case p of None \<Rightarrow> True | Some q \<Rightarrow> \<forall>c \<in> set cs. q < c \<Longrightarrow>
    \<exists>st. try_fold capability_step p (map Unsigned cs) = Inr st"
proof (induction cs arbitrary: p)
  case (Cons c cs)
  have "capability_step p (Unsigned c) = Inr (Some c)"
    using Cons.prems by (auto simp: capability_step_def as_unsigned_def not_less not_le split: option.splits)
  moreover have "\<exists>st. try_fold capability_step (Some c) (map Unsigned cs) = Inr st"
    using Cons.prems by (intro Cons.IH) auto
  ultimately show ?case by simp
qed simp

lemma norm_grant [simp]: "norm (grant_value g) = grant_value g"
  and text_wf_grant [simp]: "text_wf (grant_value g)"
  by (simp_all add: grant_value_def Let_def)

lemma grant_shape_value:
  assumes "\<not> gr_principal_index g \<ge> of_nat n" "card (set (gr_capabilities g)) = length (gr_capabilities g)"
  shows "grant_shape n (grant_value g) = Inr ()"
proof -
  let ?cs = "sort (map capability_code (gr_capabilities g))"
  have "distinct (map capability_code (gr_capabilities g))"
    using assms(2) capability_code_inj by (auto simp: distinct_map card_distinct intro: inj_on_subset)
  then have "\<exists>st. try_fold capability_step None (map Unsigned ?cs) = Inr st"
    by (intro capability_fold) (auto simp: strict_sorted_iff capability_code_le)
  with assms(1) show ?thesis
    by (auto simp: grant_shape_def grant_value_def embedded_defs)
qed

definition policy_wf :: "policy \<Rightarrow> bool" where
  "policy_wf x \<longleftrightarrow> (\<forall>p \<in> set_option (po_policy_ref x). policy_ref_wf p) \<and> length (po_policy_id x) = 16 \<and>
     (\<forall>i \<in> set_option (po_previous_version x). oid_wf i) \<and>
     (\<forall>i \<in> set (po_declassification_requirements x). oid_wf i) \<and> oid_wf (po_key_envelope_set x) \<and>
     (\<forall>a \<in> set (po_administrators x). length a = 16) \<and> (\<forall>s \<in> set (po_signatures x). signature_wf s)"

lemmas policy_defs = policy_object_def policy_value_def policy_unsigned_map_def optional_header_def Let_def

lemma redaction_mode_code_le: "redaction_mode_code r \<le> 2" by (cases r) simp_all
lemma derivation_rule_code_le: "derivation_rule_code r \<le> 2" by (cases r) simp_all

interpretation policy_schema:
  object_schema X PolicyKind 0 "\<lambda>x. signed_base (policy_object x)" policy_wf for X
proof (unfold_locales, goal_cases)
  case (4 x)
  then have v: "ensure_signature_set (po_signatures x) ForPolicy = Inr ()"
      "(po_version_sequence x = 0) \<noteq> (po_previous_version x \<noteq> None)"
      "\<forall>p \<in> set (po_principals x). pn_identifier p \<noteq> []"
      "\<forall>g \<in> set (po_grants x). \<not> gr_principal_index g \<ge> of_nat (length (po_principals x))"
      "\<forall>g \<in> set (po_grants x). card (set (gr_capabilities g)) = length (gr_capabilities g)"
      "distinct (po_declassification_requirements x)"
    by (auto simp: policy_object_def policy_validate_def card_distinct split: if_splits)
  have lists: "all_ok (map (\<lambda>p. principal_check p 6) (map principal_value (po_principals x))) = Inr ()"
      "all_ok (map (grant_shape (length (po_principals x))) (map grant_value (po_grants x))) = Inr ()"
      "all_ok (map (\<lambda>a. fixed_bytes 16 a 13) (map stable_id_value (po_administrators x))) = Inr ()"
    using v(3-5) 4(1) by (auto simp: all_ok_Inr principal_check_value grant_shape_value policy_wf_def
        fixed_bytes_stable_id)
  show ?case
  proof (rule schema_valueI [of _ "policy_unsigned_map x @ [(15, Array (map signature_value (po_signatures x)))]"], goal_cases)
    case 3
    with 4 show ?case
      by (auto simp: policy_defs lookup_defs split: option.splits)
  next
    case (8 n)
    show ?case
      using 4(1) v lists redaction_mode_code_le [of "po_redaction_mode x"] derivation_rule_code_le [of "po_derivation_rule x"]
      by (cases "po_previous_version x"; cases "po_policy_ref x")
        (simp_all add: 8(1) policy_defs policy_wf_def lookup_defs validate_shapes_def shape_policy_def
          embedded ensure_unique_ids_Inr o_def not_less)
  qed (auto simp: policy_defs lookup_defs split: option.splits)
qed (simp_all add: policy_defs supports_schema_def)

end
