(* ===== verification/Content_Schemas.thy ===== *)
theory Content_Schemas
  imports Object_Schemas
begin

text \<open>
  The schema contract for chunks, blobs and manifests, and the chunked construction of a blob from
  its bytes.
\<close>

section \<open>Chunks\<close>

definition chunk_wf :: "chunk \<Rightarrow> bool" where
  "chunk_wf x \<longleftrightarrow> policy_ref_wf (ck_policy_ref x)"

lemmas chunk_defs = chunk_object_def chunk_validate_def chunk_value_def chunk_map_def Let_def

interpretation chunk_schema: object_schema X ChunkKind 0 chunk_object chunk_wf for X
proof (unfold_locales, goal_cases)
  case (4 x)
  show ?case
  proof (rule schema_valueI [of _ "chunk_map x"], goal_cases)
    case (8 n)
    with 4 show ?case
      by (auto simp: chunk_defs chunk_wf_def lookup_defs validate_shapes_def shape_chunk_def embedded
          split: if_splits)
  qed (auto simp: chunk_defs lookup_defs)
qed (simp_all add: chunk_defs supports_schema_def)

section \<open>Blobs\<close>

definition blob_wf :: "blob \<Rightarrow> bool" where
  "blob_wf x \<longleftrightarrow> policy_ref_wf (bl_policy_ref x) \<and>
     (case bl_content x of Inline bs \<Rightarrow> True | Chunks cs \<Rightarrow> \<forall>c \<in> set cs. oid_wf (cr_id c)) \<and>
     (\<forall>t \<in> set_option (bl_content_hint x). utf8_valid t)"

lemmas blob_defs = blob_object_def blob_validate_def blob_content_validate_def blob_value_def blob_map_def Let_def

lemma norm_chunk_ref [simp]: "norm (chunk_ref_value c) = chunk_ref_value c"
  and text_wf_chunk_ref [simp]: "text_wf (chunk_ref_value c)"
  by (simp_all add: chunk_ref_value_def)

lemma norm_chunk_profile [simp]: "norm (chunk_profile_value p) = chunk_profile_value p"
  and text_wf_chunk_profile [simp]: "text_wf (chunk_profile_value p)"
  by (simp_all add: chunk_profile_value_def word_le_nat_alt)

lemma chunk_profile_check_v0: "chunk_profile_check (chunk_profile_value fastcdc_v0_profile) = Inr ()"
  by (simp add: chunk_profile_check_def chunk_profile_value_def fastcdc_v0_profile_def embedded_defs)

lemma fastcdc_v0_profile_max [simp]: "cp_max_size fastcdc_v0_profile = of_nat FASTCDC_V0_MAX_SIZE"
  by (simp add: fastcdc_v0_profile_def)

lemma foldl_None: "foldl (\<lambda>sum c. Option.bind sum (f c)) None cs = None"
  by (induction cs) auto

lemma blob_chunk_fold:
  assumes "\<forall>c \<in> set cs. oid_wf (cr_id c) \<and> cr_plaintext_length c \<noteq> 0 \<and>
      cr_plaintext_length c \<le> of_nat FASTCDC_V0_MAX_SIZE"
    and "foldl (\<lambda>sum c. Option.bind sum (\<lambda>s. checked_add s (cr_plaintext_length c))) (Some acc) cs = Some n"
  shows "try_fold blob_chunk_step acc (map chunk_ref_value cs) = Inr n"
  using assms
proof (induction cs arbitrary: acc)
  case (Cons c cs)
  then obtain s where s: "checked_add acc (cr_plaintext_length c) = Some s"
    by (cases "checked_add acc (cr_plaintext_length c)") (simp_all add: foldl_None)
  have "blob_chunk_step acc (chunk_ref_value c) = Inr s"
    using Cons.prems s by (simp add: blob_chunk_step_def chunk_ref_value_def embedded_defs as_oid_oid not_less)
  with Cons s show ?case by simp
qed simp

lemma filter_content_keys:
  assumes "distinct (map fst (n :: fields))"
  shows "length (filter (\<lambda>e. fst e = 4 \<or> fst e = 5) n) = card ({4, 5} \<inter> fst ` set n)"
proof -
  have "length (filter (\<lambda>e. fst e = 4 \<or> fst e = 5) n) = length (filter (\<lambda>k. k = 4 \<or> k = 5) (map fst n))"
    by (simp add: filter_map o_def)
  also have "\<dots> = card (set (filter (\<lambda>k. k = 4 \<or> k = 5) (map fst n)))"
    using assms by (intro distinct_card [symmetric]) simp
  also have "set (filter (\<lambda>k. k = 4 \<or> k = 5) (map fst n)) = {4, 5} \<inter> fst ` set n"
    by auto
  finally show ?thesis .
qed

lemma map_of_keys_card:
  assumes "distinct (map fst (n :: fields))"
  shows "length (filter (\<lambda>e. fst e = 4 \<or> fst e = 5) n) =
    (if map_of n 4 = None then 0 else 1) + (if map_of n 5 = None then 0 else 1)"
  unfolding filter_content_keys [OF assms] map_of_eq_None_iff
  by (cases "4 \<in> fst ` set n"; cases "5 \<in> fst ` set n") (simp_all add: Int_insert_left)

interpretation blob_schema: object_schema X BlobKind 0 "blob_object X" blob_wf for X
proof (unfold_locales, goal_cases)
  case (4 x)
  show ?case
  proof (rule schema_valueI [of _ "blob_map x"], goal_cases)
    case 3
    with 4 show ?case
      by (auto simp: blob_defs blob_wf_def lookup_defs split: option.splits blob_content.splits)
  next
    case (8 n)
    show ?case
    proof (cases "bl_content x")
      case (Inline bs)
      then show ?thesis
        using 4
        by (cases "bl_content_hint x"; cases "bl_chunk_profile x")
          (simp_all add: 8(1) map_of_keys_card [OF 8(2)] blob_defs blob_wf_def lookup_defs validate_shapes_def
            shape_blob_def shape_blob_inline_def embedded not_less split: if_splits)
    next
      case (Chunks cs)
      then show ?thesis
        using 4 blob_chunk_fold [of cs 0 "bl_byte_length x"]
        by (cases "bl_content_hint x"; cases "bl_chunk_profile x")
          (simp_all add: 8(1) map_of_keys_card [OF 8(2)] blob_defs blob_wf_def lookup_defs validate_shapes_def
            shape_blob_def shape_blob_chunks_def embedded not_less chunk_profile_validate_def
            chunk_profile_check_v0 chunk_length_sum_def o_def split: if_splits)
    qed
  qed (auto simp: blob_defs lookup_defs split: option.splits blob_content.splits)
qed (simp_all add: blob_defs supports_schema_def)


section \<open>Manifests\<close>

definition manifest_target_id :: "manifest_target \<Rightarrow> object_id" where
  "manifest_target_id t = (case t of TFile b m \<Rightarrow> b | TDirectory i \<Rightarrow> i | TSymlink i \<Rightarrow> i
     | TSubproject i \<Rightarrow> i | TSecretRef i \<Rightarrow> i)"

definition manifest_wf :: "manifest \<Rightarrow> bool" where
  "manifest_wf x \<longleftrightarrow> policy_ref_wf (mf_policy_ref x) \<and>
     (\<forall>e \<in> set (mf_entries x). utf8_valid (as_str (me_name e)) \<and> policy_ref_wf (me_policy_ref e) \<and>
       oid_wf (manifest_target_id (me_target e)))"

lemma manifest_entry_check_Inr:
  "manifest_entry_check X (N, F) e = Inr st \<longleftrightarrow>
    portable_text X (as_str (me_name e)) \<and> as_str (me_name e) \<notin> N \<and> segment_case_fold X (me_name e) \<notin> F \<and>
    st = (insert (as_str (me_name e)) N, insert (segment_case_fold X (me_name e)) F)"
  by (auto simp: manifest_entry_check_def ensure_portable_iff)

lemma manifest_check_fold:
  "try_fold (manifest_entry_check X) (N, F) es = Inr st \<Longrightarrow>
    (\<forall>e \<in> set es. portable_text X (as_str (me_name e))) \<and>
    distinct (map (\<lambda>e. as_str (me_name e)) es) \<and> distinct (map (\<lambda>e. segment_case_fold X (me_name e)) es) \<and>
    N \<inter> (\<lambda>e. as_str (me_name e)) ` set es = {} \<and> F \<inter> (\<lambda>e. segment_case_fold X (me_name e)) ` set es = {}"
proof (induction es arbitrary: N F)
  case (Cons e es)
  then have "portable_text X (as_str (me_name e))" "as_str (me_name e) \<notin> N"
      "segment_case_fold X (me_name e) \<notin> F"
      "try_fold (manifest_entry_check X)
        (insert (as_str (me_name e)) N, insert (segment_case_fold X (me_name e)) F) es = Inr st"
    by (auto simp: manifest_entry_check_Inr)
  with Cons.IH [OF this(4)] show ?case by auto
qed simp

text \<open>The sort key of an entry.\<close>

definition name_bytes :: "path_segment \<Rightarrow> bytes" where
  "name_bytes p = enc (Text (as_str p))"

text \<open>An entry in normal form: the optional mode moves in front of the policy.\<close>

lemma manifest_entry_shape:
  assumes "portable_text X (as_str (me_name e))" "policy_ref_wf (me_policy_ref e)"
    "oid_wf (manifest_target_id (me_target e))" "segment_case_fold X (me_name e) \<notin> F"
    "case previous of None \<Rightarrow> True | Some old \<Rightarrow> old < name_bytes (me_name e)"
  shows "manifest_shape_step X (previous, F) (norm (manifest_entry_value e)) =
    Inr (Some (name_bytes (me_name e)), insert (segment_case_fold X (me_name e)) F)"
proof -
  have seg: "segment_new_portable X (as_str (me_name e)) = Inr (me_name e)"
    using assms(1) by (simp add: segment_new_portable_def segment_validate_portable)
  have en: "encode X (Text (as_str (me_name e))) = Inr (name_bytes (me_name e))"
    unfolding name_bytes_def using assms(1) by (intro encode_short_text) (simp_all add: portable_text_def)
  have prev: "\<not> (case previous of None \<Rightarrow> False | Some old \<Rightarrow> name_bytes (me_name e) \<le> old)"
    using assms(5) by (auto split: option.splits)
  show ?thesis
  proof (cases "me_target e")
    case (TFile b mode)
    then show ?thesis using assms seg en prev
      by (cases mode)
        (simp_all add: manifest_shape_step_def manifest_entry_value_def segment_value_def optional_def
          exact_map_def at_field_def field_def as_map_def as_text_def as_unsigned_def optional_field_def
          word_le_nat_alt embedded manifest_target_id_def)
  qed (use assms seg en prev in
      \<open>simp_all add: manifest_shape_step_def manifest_entry_value_def segment_value_def optional_def
          exact_map_def at_field_def field_def as_map_def as_text_def as_unsigned_def optional_field_def
          word_le_nat_alt embedded manifest_target_id_def\<close>)
qed

lemma manifest_shape_fold:
  assumes "\<forall>e \<in> set es. portable_text X (as_str (me_name e)) \<and> policy_ref_wf (me_policy_ref e) \<and>
      oid_wf (manifest_target_id (me_target e))"
    and "distinct (map (\<lambda>e. segment_case_fold X (me_name e)) es)"
    and "F \<inter> (\<lambda>e. segment_case_fold X (me_name e)) ` set es = {}"
    and "sorted_wrt (<) (map (\<lambda>e. name_bytes (me_name e)) es)"
    and "case previous of None \<Rightarrow> True | Some old \<Rightarrow> \<forall>e \<in> set es. old < name_bytes (me_name e)"
  shows "\<exists>st. try_fold (manifest_shape_step X) (previous, F) (map (norm \<circ> manifest_entry_value) es) = Inr st"
  using assms
proof (induction es arbitrary: previous F)
  case (Cons e es)
  have "manifest_shape_step X (previous, F) (norm (manifest_entry_value e)) =
      Inr (Some (name_bytes (me_name e)), insert (segment_case_fold X (me_name e)) F)"
    using Cons.prems by (intro manifest_entry_shape) (auto split: option.splits)
  moreover have "\<exists>st. try_fold (manifest_shape_step X)
      (Some (name_bytes (me_name e)), insert (segment_case_fold X (me_name e)) F)
      (map (norm \<circ> manifest_entry_value) es) = Inr st"
    using Cons.prems by (intro Cons.IH) auto
  ultimately show ?case by (simp add: o_def)
qed simp


lemma name_bytes_inj:
  assumes "portable_text X (as_str p)" "utf8_valid (as_str p)" "portable_text X (as_str q)" "utf8_valid (as_str q)"
    and "name_bytes p = name_bytes q"
  shows "p = q"
proof -
  have "decode_canonical X (enc (Text t)) metadata = Inr (Text t)" if "portable_text X t" "utf8_valid t" for t
    using that encode_short_text [of X t]
    by (simp add: portable_text_def decode_canonical_iff encode_iff canonical_at_def del: enc.simps)
  from this [OF assms(1,2)] this [OF assms(3,4)] have "as_str p = as_str q"
    using assms(5) unfolding name_bytes_def by (metis sum.inject(2) cvalue.inject(4))
  then show ?thesis by (rule path_segment.expand)
qed

lemma portable_canonical_bytes:
  "portable_text X (as_str p) \<Longrightarrow> segment_canonical_bytes X p = Some (name_bytes p)"
  using encode_short_text [of X "as_str p"]
  by (simp add: portable_text_def segment_canonical_bytes_def name_bytes_def del: enc.simps)

lemma sort_key_cong_on: "\<forall>x \<in> set xs. f x = g x \<Longrightarrow> sort_key f xs = sort_key g xs"
proof (induction xs)
  case (Cons x xs)
  have "insort_key f x ys = insort_key g x ys" if "\<forall>y \<in> set ys. f y = g y" "f x = g x" for ys
    using that by (induction ys) auto
  with Cons show ?case by (simp add: sort_key_simps)
qed simp

lemma strict_sorted_sort_key:
  "inj_on f (set xs) \<Longrightarrow> distinct xs \<Longrightarrow> sorted_wrt (<) (map f (sort_key f xs))"
  by (simp add: strict_sorted_iff distinct_map)

lemmas manifest_defs = manifest_object_def manifest_validate_def manifest_value_def manifest_map_def Let_def

lemma manifest_sorted_fold:
  assumes "manifest_wf x" "manifest_validate X x = Inr ()"
  defines "es \<equiv> sort_key (\<lambda>e. the (segment_canonical_bytes X (me_name e))) (mf_entries x)"
  shows "(\<forall>e \<in> set (mf_entries x). segment_canonical_bytes X (me_name e) \<noteq> None) \<and>
    (\<exists>st. try_fold (manifest_shape_step X) (None, {}) (map (norm \<circ> manifest_entry_value) es) = Inr st)"
proof -
  obtain st where "try_fold (manifest_entry_check X) ({}, {}) (mf_entries x) = Inr st"
    using assms(2) by (auto simp: manifest_validate_def)
  from manifest_check_fold [OF this] have v:
      "\<forall>e \<in> set (mf_entries x). portable_text X (as_str (me_name e))"
      "distinct (map (\<lambda>e. as_str (me_name e)) (mf_entries x))"
      "distinct (map (\<lambda>e. segment_case_fold X (me_name e)) (mf_entries x))"
    by auto
  define f where "f = (\<lambda>e :: manifest_entry. name_bytes (me_name e))"
  have es: "es = sort_key f (mf_entries x)"
    unfolding es_def f_def using v(1) by (intro sort_key_cong_on) (simp add: portable_canonical_bytes)
  have inj: "inj_on f (set (mf_entries x))"
  proof (rule inj_onI)
    fix a b assume ab: "a \<in> set (mf_entries x)" "b \<in> set (mf_entries x)" "f a = f b"
    then have "me_name a = me_name b"
      using v(1) assms(1) by (intro name_bytes_inj [of X]) (simp_all add: f_def manifest_wf_def)
    with v(2) ab show "a = b" by (auto simp: distinct_map inj_on_def)
  qed
  have "distinct (mf_entries x)" using v(2) by (simp add: distinct_map)
  with inj have sorted: "sorted_wrt (<) (map f es)" unfolding es by (rule strict_sorted_sort_key)
  have "distinct (map (\<lambda>e. segment_case_fold X (me_name e)) es)"
    unfolding es using v(3) by (simp add: distinct_map)
  then have "\<exists>st. try_fold (manifest_shape_step X) (None, {}) (map (norm \<circ> manifest_entry_value) es) = Inr st"
    using v(1) assms(1) sorted
    by (intro manifest_shape_fold) (simp_all add: es manifest_wf_def f_def)
  with v(1) show ?thesis by (simp add: portable_canonical_bytes)
qed

lemma text_wf_manifest_entry: "utf8_valid (as_str (me_name e)) \<Longrightarrow> text_wf (manifest_entry_value e)"
  by (cases "me_target e") (simp_all add: manifest_entry_value_def segment_value_def optional_def)

interpretation manifest_schema: object_schema X ManifestKind 0 "manifest_object X" manifest_wf for X
proof (unfold_locales, goal_cases)
  case (4 x)
  then have fold: "\<forall>e \<in> set (mf_entries x). segment_canonical_bytes X (me_name e) \<noteq> None"
      "\<exists>st. try_fold (manifest_shape_step X) (None, {}) (map (norm \<circ> manifest_entry_value)
        (sort_key (\<lambda>e. the (segment_canonical_bytes X (me_name e))) (mf_entries x))) = Inr st"
    using manifest_sorted_fold [of x X] by (simp_all add: manifest_object_def)
  show ?case
  proof (rule schema_valueI [of _ "manifest_map X x"], goal_cases)
    case 1
    with fold(1) show ?case by (auto simp: manifest_object_def manifest_value_def)
  next
    case 3
    with 4 show ?case by (auto simp: manifest_defs manifest_wf_def lookup_defs text_wf_manifest_entry)
  next
    case (8 n)
    show ?case
      using 4 fold(2)
      by (auto simp: 8(1) manifest_map_def Let_def manifest_wf_def lookup_defs validate_shapes_def
          shape_manifest_def embedded)
  qed (auto simp: manifest_map_def Let_def lookup_defs)
qed (simp_all add: manifest_object_def supports_schema_def)


section \<open>Chunked construction\<close>

text \<open>The digests of both algorithms have 32 bytes.\<close>

definition digest_lengths :: "externals \<Rightarrow> bool" where
  "digest_lengths X \<longleftrightarrow> (\<forall>b. length (sha256 X b) = 32 \<and> length (blake3 X b) = 32)"

lemma digest_lengths_sample: "digest_lengths sample_externals"
  by (simp add: digest_lengths_def pad32_def min_def)

lemma oid_wf_from_payload: "digest_lengths X \<Longrightarrow> oid_wf (from_payload X k s p alg)"
  by (cases alg) (simp_all add: from_payload_def Let_def oid_wf_def digest_lengths_def)

lemma length_to_bytes: "oid_wf i \<Longrightarrow> length (to_bytes i) = 35"
  by (simp add: to_bytes_wf oid_wf_def)

lemma chunk_encode_eq:
  assumes "chunk_wf c" "chunk_validate c = Inr ()"
  shows "object_encode X (chunk_object c) = Inr (enc (Map (chunk_map c)))"
proof -
  have b: "length (ck_bytes c) \<le> 4194304"
    using assms(2) by (simp add: chunk_validate_def MAX_CHUNK_BYTES_def BULK_MAX_BYTE_STRING_BYTES_def split: if_splits)
  have o: "length (to_bytes (pr_version (ck_policy_ref c))) = 35" "length (pr_policy_id (ck_policy_ref c)) = 16"
    using assms(1) by (simp_all add: chunk_wf_def policy_ref_wf_def length_to_bytes)
  have fits: "fits X bulk 0 (Map (chunk_map c))"
    using b o by (simp add: chunk_map_def header_def header_version_def policy_ref_value_def stable_id_value_def
        oid_def fits.simps)
  have "length (enc (Map (chunk_map c))) \<le> 16777216"
    using b o length_head [of 2 "of_nat (length (ck_bytes c))"]
    by (simp add: chunk_map_def header_def header_version_def policy_ref_value_def stable_id_value_def
        oid_def head_def [of 5] head_def [of 0] head_def [of 2 35] head_def [of 2 16] word_le_nat_alt)
  with fits assms(2) show ?thesis
    by (simp add: object_encode_def object_encode_with_limits_def chunk_object_def chunk_value_def
        object_limits_def encode_with_limits_iff del: enc.simps)
qed

lemma chunk_encodes:
  assumes "chunk_wf c" "chunk_validate c = Inr ()"
  shows "\<exists>i. object_identity X (chunk_object c) alg = Inr i \<and> (digest_lengths X \<longrightarrow> oid_wf i)"
  using chunk_encode_eq [OF assms, of X] by (auto simp: object_identity_def intro: oid_wf_from_payload)

lemma chunk_sum:
  assumes "acc + sum_list (map (\<lambda>c. length (ck_bytes c)) cs) < 2 ^ 64"
    and "map cr_plaintext_length rs = map (\<lambda>c. of_nat (length (ck_bytes c))) cs"
  shows "foldl (\<lambda>sum c. Option.bind sum (\<lambda>s. checked_add s (cr_plaintext_length c))) (Some (of_nat acc)) rs
    = Some (of_nat (acc + sum_list (map (\<lambda>c. length (ck_bytes c)) cs)))"
  using assms
proof (induction cs arbitrary: rs acc)
  case (Cons c cs)
  then obtain r rs' where r: "rs = r # rs'" "cr_plaintext_length r = of_nat (length (ck_bytes c))"
      "map cr_plaintext_length rs' = map (\<lambda>c. of_nat (length (ck_bytes c))) cs"
    by auto
  have "unat (of_nat acc :: u64) = acc" "unat (of_nat (length (ck_bytes c)) :: u64) = length (ck_bytes c)"
    using Cons.prems(1) by (simp_all add: unat_of_nat take_bit_nat_eq_self)
  then have "checked_add (of_nat acc) (of_nat (length (ck_bytes c))) = Some (of_nat (acc + length (ck_bytes c)))"
    using Cons.prems(1) by (simp add: checked_add_def)
  then show ?case using r Cons.prems(1) Cons.IH [OF _ r(3), of "acc + length (ck_bytes c)"]
    by (simp add: add.assoc)
qed simp


text \<open>The references \<open>blob_from_bytes\<close> computes for its chunks.\<close>

definition chunk_refs :: "externals \<Rightarrow> hash_algorithm \<Rightarrow> chunk list \<Rightarrow> chunk_ref list \<Rightarrow> bool" where
  "chunk_refs X alg cs rs \<longleftrightarrow> list_all2 (\<lambda>c r. object_identity X (chunk_object c) alg = Inr (cr_id r) \<and>
     cr_plaintext_length r = of_nat (length (ck_bytes c))) cs rs"

lemma collect_chunk_refs:
  assumes "\<forall>c \<in> set cs. chunk_wf c \<and> chunk_validate c = Inr ()"
  shows "\<exists>rs. collect_results (map (\<lambda>c. and_then (object_identity X (chunk_object c) alg) (\<lambda>i.
      Inr \<lparr>cr_id = i, cr_plaintext_length = of_nat (length (ck_bytes c))\<rparr>)) cs) = Inr rs \<and>
    chunk_refs X alg cs rs \<and> (digest_lengths X \<longrightarrow> (\<forall>r \<in> set rs. oid_wf (cr_id r)))"
  using assms
proof (induction cs)
  case (Cons c cs)
  obtain i where "object_identity X (chunk_object c) alg = Inr i" "digest_lengths X \<longrightarrow> oid_wf i"
    using chunk_encodes [of c X alg] Cons.prems by auto
  with Cons show ?case by (auto simp: chunk_refs_def)
qed (simp add: chunk_refs_def)

lemma chunk_refs_lengths:
  "chunk_refs X alg cs rs \<Longrightarrow> map cr_plaintext_length rs = map (\<lambda>c. of_nat (length (ck_bytes c))) cs"
  unfolding chunk_refs_def by (induction rule: list_all2_induct) auto

text \<open>What the chunked blob stands for.\<close>

definition blob_contents :: "chunked_blob \<Rightarrow> bytes" where
  "blob_contents cb = (case bl_content (cb_blob cb) of
     Inline bs \<Rightarrow> bs | Chunks refs \<Rightarrow> concat (map ck_bytes (cb_chunks cb)))"

lemma word_le_inline: "n < 2 ^ 64 \<Longrightarrow> (of_nat n :: u64) \<le> of_nat MAX_INLINE_BLOB_BYTES \<longleftrightarrow> n \<le> MAX_INLINE_BLOB_BYTES"
  by (simp add: word_le_nat_alt unat_of_nat take_bit_nat_eq_self MAX_INLINE_BLOB_BYTES_def)

lemma chunk_length_word:
  "c \<noteq> [] \<Longrightarrow> length c \<le> FASTCDC_V0_MAX_SIZE \<Longrightarrow>
    (of_nat (length c) :: u64) \<noteq> 0 \<and> (of_nat (length c) :: u64) \<le> of_nat FASTCDC_V0_MAX_SIZE"
proof -
  assume c: "c \<noteq> []" "length c \<le> FASTCDC_V0_MAX_SIZE"
  then have "unat (of_nat (length c) :: u64) = length c" "unat (of_nat FASTCDC_V0_MAX_SIZE :: u64) = FASTCDC_V0_MAX_SIZE"
    by (simp_all add: unat_of_nat take_bit_nat_eq_self FASTCDC_V0_MAX_SIZE_def)
  with c show ?thesis by (auto simp: word_le_nat_alt unsigned_eq_0_iff [symmetric] simp del: unsigned_of_nat)
qed

lemma chunked_blob_valid:
  fixes bs p
  defines "cs \<equiv> map (\<lambda>c. \<lparr>ck_policy_ref = p, ck_bytes = c\<rparr>) (fastcdc_v0_chunks bs)"
  assumes "MAX_INLINE_BLOB_BYTES < length bs" "length bs < 2 ^ 64" "chunk_refs X alg cs rs"
  shows "blob_validate X \<lparr>bl_policy_ref = p, bl_byte_length = of_nat (length bs), bl_content = Chunks rs,
      bl_chunk_profile = Some fastcdc_v0_profile, bl_content_hint = None\<rparr> = Inr ()"
proof -
  note lens = chunk_refs_lengths [OF assms(4)]
  have sizes: "c \<noteq> [] \<and> length c \<le> FASTCDC_V0_MAX_SIZE" if "c \<in> set (fastcdc_v0_chunks bs)" for c
    using cdc_split_sizes [of bs] that by (simp add: fastcdc_v0_chunks_eq)
  have total: "sum_list (map (\<lambda>c. length (ck_bytes c)) cs) = length bs"
    using concat_cdc_split [of bs] length_concat [of "cdc_split bs"] by (simp add: cs_def o_def fastcdc_v0_chunks_eq)
  have "fastcdc_v0_chunks bs \<noteq> []"
    using concat_cdc_split [of bs] assms(2) by (auto simp: fastcdc_v0_chunks_eq)
  then have ne: "rs \<noteq> []" using lens by (auto simp: cs_def)
  have each: "cr_plaintext_length r \<noteq> 0 \<and> cr_plaintext_length r \<le> of_nat FASTCDC_V0_MAX_SIZE" if "r \<in> set rs" for r
  proof -
    from that lens have "cr_plaintext_length r \<in> set (map (\<lambda>c. of_nat (length (ck_bytes c))) cs)"
      by (metis image_eqI list.set_map)
    then obtain c where "c \<in> set (fastcdc_v0_chunks bs)" "cr_plaintext_length r = of_nat (length c)"
      by (auto simp: cs_def)
    with sizes chunk_length_word show ?thesis by metis
  qed
  have "chunk_length_sum rs = Some (of_nat (length bs))"
    using chunk_sum [of 0 cs rs] lens total assms(3) by (simp add: chunk_length_sum_def)
  with each ne assms(2,3) word_le_inline [OF assms(3)] show ?thesis
    by (auto simp: blob_validate_def blob_content_validate_def chunk_profile_validate_def not_less)
qed

section \<open>Property\<close>

text \<open>
  C30: Building a blob from its bytes always succeeds and yields a valid object: the blob passes its
  own validation, every chunk passes its, the contents are the given bytes, and the references name
  the identifiers and lengths of the chunks in order. The digests are assumed to have 32 bytes.
\<close>

theorem blob_from_bytes_correct:
  assumes "policy_ref_wf p" "length bs < 2 ^ 64" "digest_lengths X"
  shows "\<exists>cb. blob_from_bytes X p bs alg = Inr cb \<and> blob_wf (cb_blob cb) \<and>
    blob_validate X (cb_blob cb) = Inr () \<and> (\<forall>c \<in> set (cb_chunks cb). chunk_validate c = Inr ()) \<and>
    blob_contents cb = bs \<and>
    (\<forall>rs. bl_content (cb_blob cb) = Chunks rs \<longrightarrow> chunk_refs X alg (cb_chunks cb) rs)"
proof (cases "length bs \<le> MAX_INLINE_BLOB_BYTES")
  case True
  with assms show ?thesis
    by (simp add: blob_from_bytes_def blob_wf_def blob_validate_def blob_content_validate_def
        blob_contents_def)
next
  case False
  define cs where "cs = map (\<lambda>c. \<lparr>ck_policy_ref = p, ck_bytes = c\<rparr>) (fastcdc_v0_chunks bs)"
  have valid: "\<forall>c \<in> set cs. chunk_wf c \<and> chunk_validate c = Inr ()"
    using cdc_split_sizes [of bs] assms(1)
    by (auto simp: cs_def chunk_wf_def chunk_validate_def MAX_CHUNK_BYTES_def fastcdc_v0_chunks_eq
        BULK_MAX_BYTE_STRING_BYTES_def FASTCDC_V0_MAX_SIZE_def)
  from collect_chunk_refs [OF this, of X alg] obtain rs where rs:
      "collect_results (map (\<lambda>c. and_then (object_identity X (chunk_object c) alg) (\<lambda>i.
        Inr \<lparr>cr_id = i, cr_plaintext_length = of_nat (length (ck_bytes c))\<rparr>)) cs) = Inr rs"
      "chunk_refs X alg cs rs" "\<forall>r \<in> set rs. oid_wf (cr_id r)"
    using assms(3) by blast
  let ?b = "\<lparr>bl_policy_ref = p, bl_byte_length = of_nat (length bs), bl_content = Chunks rs,
      bl_chunk_profile = Some fastcdc_v0_profile, bl_content_hint = None\<rparr>"
  have "blob_from_bytes X p bs alg = Inr \<lparr>cb_blob = ?b, cb_chunks = cs\<rparr>"
    using False rs(1) by (simp add: blob_from_bytes_def cs_def Let_def)
  moreover have "blob_validate X ?b = Inr ()"
    using False assms(2) rs(2) unfolding cs_def by (intro chunked_blob_valid) simp_all
  moreover have "concat (map ck_bytes cs) = bs"
    using concat_cdc_split [of bs] by (simp add: cs_def o_def fastcdc_v0_chunks_eq)
  ultimately show ?thesis
    using valid rs assms(1) by (simp add: blob_wf_def blob_contents_def)
qed

theorem blob_from_bytes_correct_witness:
  "\<exists>cb. blob_from_bytes sample_externals \<lparr>pr_policy_id = replicate 16 1, pr_version = ObjectId 0 Sha256 (replicate 32 2)\<rparr>
      [1, 2, 3] Sha256 = Inr cb \<and> blob_wf (cb_blob cb) \<and>
    blob_validate sample_externals (cb_blob cb) = Inr () \<and> (\<forall>c \<in> set (cb_chunks cb). chunk_validate c = Inr ()) \<and>
    blob_contents cb = [1, 2, 3] \<and>
    (\<forall>rs. bl_content (cb_blob cb) = Chunks rs \<longrightarrow> chunk_refs sample_externals Sha256 (cb_chunks cb) rs)"
  by (rule blob_from_bytes_correct [OF _ _ digest_lengths_sample])
    (simp_all add: policy_ref_wf_def oid_wf_def)

end
