(* ===== verification/Extended.thy ===== *)
theory Extended
  imports Objects
begin

text \<open>
  The registry objects of \<open>crates/rgit-objects/src/extended.rs\<close>, kinds 14 to 31: repository roots,
  identities, memberships, key envelopes, relations, resolutions, evidence, projections, provenance,
  artifacts, payloads, views, migrations and rulesets, and the validation of the material a
  repository is bootstrapped from.
\<close>

section \<open>Shared helpers\<close>

definition MAX_REGISTRY_ITEMS :: nat where "MAX_REGISTRY_ITEMS = 65536"

definition registry_header :: "object_kind \<Rightarrow> policy_ref option \<Rightarrow> (u64 \<times> cvalue) list" where
  "registry_header kind policy =
     optional [(0, Unsigned (kind_code kind)), (1, Unsigned 0)] 2 (map_option policy_ref_value policy)"

definition validate_canonical_map :: "externals \<Rightarrow> bytes \<Rightarrow> string \<Rightarrow> (unit, object_error) result" where
  "validate_canonical_map X bs message =
     (case decode_canonical X bs metadata of Inr (Map _) \<Rightarrow> Inr () | _ \<Rightarrow> Inl (Invalid message))"

definition sorted_unique_ids :: "object_id list \<Rightarrow> string \<Rightarrow> (unit, object_error) result" where
  "sorted_unique_ids ids what =
     (if length ids > MAX_REGISTRY_ITEMS then Inl (Invalid ''object reference set exceeds schema limit'')
      else if windows2_any (\<lambda>a b. a \<ge> b) ids then Inl (Invalid what) else Inr ())"

text \<open>The encodings of the values are collected before they are compared.\<close>

definition sorted_unique_values :: "externals \<Rightarrow> cvalue list \<Rightarrow> string \<Rightarrow> (unit, object_error) result" where
  "sorted_unique_values X values what =
     and_then (map_err CanonicalErr (collect_results (map (encode X) values))) (\<lambda>encoded.
       if windows2_any (\<lambda>a b. a \<ge> b) encoded then Inl (Invalid what) else Inr ())"

definition sorted_unique_refs :: "externals \<Rightarrow> typed_object_ref list \<Rightarrow> string \<Rightarrow> (unit, object_error) result" where
  "sorted_unique_refs X values what =
     (if length values > MAX_REGISTRY_ITEMS then Inl (Invalid ''typed reference set exceeds schema limit'')
      else sorted_unique_values X (map typed_object_ref_value values) what)"

definition registry_signatures :: "signature list \<Rightarrow> signature_purpose \<Rightarrow> (unit, object_error) result" where
  "registry_signatures values purpose =
     (if values = [] then Inl (Invalid ''signed object requires signatures'')
      else if \<exists>s \<in> set values. sig_purpose s \<noteq> purpose then Inl (Invalid ''signature purpose does not match object kind'')
      else if windows2_any (\<lambda>a b. a \<ge> b) values then Inl (Invalid ''signatures must be sorted and unique'')
      else Inr ())"

definition signatures_value :: "signature list \<Rightarrow> cvalue" where
  "signatures_value sigs = Array (map signature_value sigs)"

definition typed_refs_value :: "typed_object_ref list \<Rightarrow> cvalue" where
  "typed_refs_value refs = Array (map typed_object_ref_value refs)"

text \<open>A signed object appends its signatures to the unsigned map.\<close>

definition signed_registry_object ::
  "object_kind \<Rightarrow> (u64 \<times> cvalue) list \<Rightarrow> (u64 \<times> cvalue) list \<Rightarrow> signature list \<Rightarrow> (unit, object_error) result \<Rightarrow> signed_object" where
  "signed_registry_object kind body whole sigs valid =
     \<lparr>co_kind = kind, co_schema = 0, co_value = Inr (Map whole), co_validate = valid,
      so_unsigned = Inr (Map body), so_signatures = sigs\<rparr>"

definition registry_object ::
  "object_kind \<Rightarrow> (u64 \<times> cvalue) list \<Rightarrow> (unit, object_error) result \<Rightarrow> canonical_object" where
  "registry_object kind m valid = \<lparr>co_kind = kind, co_schema = 0, co_value = Inr (Map m), co_validate = valid\<rparr>"

section \<open>Repository roots\<close>

datatype filesystem_profile = PortableProfile | NativeProfile

primrec filesystem_profile_code :: "filesystem_profile \<Rightarrow> u64" where
  "filesystem_profile_code PortableProfile = 0"
| "filesystem_profile_code NativeProfile = 1"

record repository_root =
  rr_repository_id :: bytes
  rr_root_policy :: object_id
  rr_trusted_identities :: "object_id list"
  rr_bootstrap_key_envelope_set :: object_id
  rr_genesis_operation :: object_id
  rr_initial_line_states :: "object_id list"
  rr_filesystem_profile :: filesystem_profile
  rr_signatures :: "signature list"

definition repository_root_unsigned_map :: "repository_root \<Rightarrow> (u64 \<times> cvalue) list" where
  "repository_root_unsigned_map self =
     registry_header RepositoryRootKind None @
       [(3, stable_id_value (rr_repository_id self)), (4, oid (rr_root_policy self)),
        (5, oid_array (rr_trusted_identities self)), (6, oid (rr_bootstrap_key_envelope_set self)),
        (7, oid (rr_genesis_operation self)), (8, oid_array (rr_initial_line_states self)),
        (9, Unsigned (filesystem_profile_code (rr_filesystem_profile self)))]"

definition repository_root_validate :: "repository_root \<Rightarrow> (unit, object_error) result" where
  "repository_root_validate self =
     and_then (sorted_unique_ids (rr_trusted_identities self) ''trusted identities must be sorted and unique'') (\<lambda>_.
     and_then (sorted_unique_ids (rr_initial_line_states self) ''initial line states must be sorted and unique'') (\<lambda>_.
     if rr_trusted_identities self = [] \<or> rr_initial_line_states self = []
     then Inl (Invalid ''repository bootstrap sets must not be empty'')
     else registry_signatures (rr_signatures self) ForRepositoryRoot))"

definition repository_root_object :: "repository_root \<Rightarrow> signed_object" where
  "repository_root_object self =
     signed_registry_object RepositoryRootKind (repository_root_unsigned_map self)
       (repository_root_unsigned_map self @ [(10, signatures_value (rr_signatures self))])
       (rr_signatures self) (repository_root_validate self)"

section \<open>Identities\<close>

datatype identity_subject_kind = SubjectActor | SubjectDevice

primrec identity_subject_kind_code :: "identity_subject_kind \<Rightarrow> u64" where
  "identity_subject_kind_code SubjectActor = 0"
| "identity_subject_kind_code SubjectDevice = 1"

datatype identity_status = IdentityActive | IdentitySuspended | IdentityRevoked

primrec identity_status_code :: "identity_status \<Rightarrow> u64" where
  "identity_status_code IdentityActive = 0"
| "identity_status_code IdentitySuspended = 1"
| "identity_status_code IdentityRevoked = 2"

datatype public_key_algorithm = KeyEd25519 | KeyX25519

primrec public_key_algorithm_code :: "public_key_algorithm \<Rightarrow> u64" where
  "public_key_algorithm_code KeyEd25519 = 0"
| "public_key_algorithm_code KeyX25519 = 1"

record public_key_record =
  pk_algorithm :: public_key_algorithm
  pk_key_id :: bytes
  pk_public_key :: bytes
  pk_not_before :: "object_id option"
  pk_not_after :: "object_id option"

definition public_key_value :: "public_key_record \<Rightarrow> cvalue" where
  "public_key_value self =
     (let m = [(0, Unsigned (public_key_algorithm_code (pk_algorithm self))), (1, Bytes (pk_key_id self)),
               (2, Bytes (pk_public_key self))];
          m = optional m 3 (map_option oid (pk_not_before self));
          m = optional m 4 (map_option oid (pk_not_after self))
      in Map m)"

definition public_key_validate :: "public_key_record \<Rightarrow> (unit, object_error) result" where
  "public_key_validate self =
     (if pk_key_id self = replicate 32 0 \<or> length (pk_public_key self) \<noteq> 32
      then Inl (Invalid ''identity key record is empty or reserved'') else Inr ())"

record identity =
  idn_policy_ref :: "policy_ref option"
  idn_subject_kind :: identity_subject_kind
  idn_subject :: bytes
  idn_version :: u64
  idn_previous :: "object_id option"
  idn_signing_keys :: "public_key_record list"
  idn_encryption_keys :: "public_key_record list"
  idn_issuer :: actor_id
  idn_status :: identity_status
  idn_activation_operation :: "object_id option"
  idn_not_after_operation :: "object_id option"
  idn_signatures :: "signature list"

definition identity_unsigned_map :: "identity \<Rightarrow> (u64 \<times> cvalue) list" where
  "identity_unsigned_map self =
     (let m = registry_header IdentityKind (idn_policy_ref self) @
            [(3, Unsigned (identity_subject_kind_code (idn_subject_kind self))), (4, Bytes (idn_subject self)),
             (5, Unsigned (idn_version self)), (7, Array (map public_key_value (idn_signing_keys self))),
             (8, Array (map public_key_value (idn_encryption_keys self))), (9, stable_id_value (idn_issuer self)),
             (10, Unsigned (identity_status_code (idn_status self)))];
          m = optional m 6 (map_option oid (idn_previous self));
          m = optional m 11 (map_option oid (idn_activation_operation self))
      in optional m 12 (map_option oid (idn_not_after_operation self)))"

definition identity_validate :: "externals \<Rightarrow> identity \<Rightarrow> (unit, object_error) result" where
  "identity_validate X self =
     (let bootstrap = (idn_version self = 0); keys = idn_signing_keys self @ idn_encryption_keys self in
      if bootstrap \<noteq> (idn_previous self = None \<and> idn_activation_operation self = None \<and> idn_policy_ref self = None)
      then Inl (Invalid ''only a version-zero bootstrap identity may omit policy, previous identity, and activation operation'')
      else if \<not> bootstrap \<and> (idn_policy_ref self = None \<or> idn_previous self = None \<or> idn_activation_operation self = None)
      then Inl (Invalid ''nonbootstrap identity requires policy, previous identity, and activation operation'')
      else if idn_signing_keys self = [] then Inl (Invalid ''identity requires a signing key'')
      else and_then (all_ok (map public_key_validate keys)) (\<lambda>_.
        if (\<exists>k \<in> set (idn_signing_keys self). pk_algorithm k \<noteq> KeyEd25519) \<or>
           (\<exists>k \<in> set (idn_encryption_keys self). pk_algorithm k \<noteq> KeyX25519)
        then Inl (Invalid ''key algorithm does not match key use'')
        else and_then (all_ok (map (\<lambda>ks. sorted_unique_values X (map public_key_value ks)
            ''identity key records must be sorted and unique'') [idn_signing_keys self, idn_encryption_keys self])) (\<lambda>_.
          if \<not> distinct (map pk_key_id keys)
          then Inl (Invalid ''identity key IDs must be unique across signing and encryption keys'')
          else registry_signatures (idn_signatures self) ForIdentity)))"

definition identity_object :: "externals \<Rightarrow> identity \<Rightarrow> signed_object" where
  "identity_object X self =
     signed_registry_object IdentityKind (identity_unsigned_map self)
       (identity_unsigned_map self @ [(13, signatures_value (idn_signatures self))])
       (idn_signatures self) (identity_validate X self)"

section \<open>Memberships and key envelopes\<close>

datatype membership_state = MembershipActive | MembershipRemoved

primrec membership_state_code :: "membership_state \<Rightarrow> u64" where
  "membership_state_code MembershipActive = 0"
| "membership_state_code MembershipRemoved = 1"

record group_membership =
  gm_policy_ref :: policy_ref
  gm_membership_id :: bytes
  gm_group_id :: bytes
  gm_version :: u64
  gm_previous :: "object_id option"
  gm_principal :: principal
  gm_state :: membership_state
  gm_issuer :: actor_id
  gm_activation_operation :: object_id
  gm_not_after_operation :: "object_id option"
  gm_signatures :: "signature list"

definition group_membership_unsigned_map :: "group_membership \<Rightarrow> (u64 \<times> cvalue) list" where
  "group_membership_unsigned_map self =
     (let m = registry_header GroupMembershipKind (Some (gm_policy_ref self)) @
            [(3, stable_id_value (gm_membership_id self)), (4, stable_id_value (gm_group_id self)),
             (5, Unsigned (gm_version self)), (7, principal_value (gm_principal self)),
             (8, Unsigned (membership_state_code (gm_state self))), (9, stable_id_value (gm_issuer self)),
             (10, oid (gm_activation_operation self))];
          m = optional m 6 (map_option oid (gm_previous self))
      in optional m 11 (map_option oid (gm_not_after_operation self)))"

definition group_membership_validate :: "group_membership \<Rightarrow> (unit, object_error) result" where
  "group_membership_validate self =
     (if (gm_version self = 0) = (gm_previous self \<noteq> None)
      then Inl (Invalid ''only membership version zero may omit previous'')
      else if pn_identifier (gm_principal self) = [] then Inl (Invalid ''membership principal is empty'')
      else registry_signatures (gm_signatures self) ForGroupMembership)"

definition group_membership_object :: "group_membership \<Rightarrow> signed_object" where
  "group_membership_object self =
     signed_registry_object GroupMembershipKind (group_membership_unsigned_map self)
       (group_membership_unsigned_map self @ [(12, signatures_value (gm_signatures self))])
       (gm_signatures self) (group_membership_validate self)"

record recipient_envelope =
  re_recipient :: principal
  re_key_id :: bytes
  re_envelope :: bytes

definition recipient_envelope_value :: "recipient_envelope \<Rightarrow> cvalue" where
  "recipient_envelope_value self =
     Map [(0, principal_value (re_recipient self)), (1, Bytes (re_key_id self)), (2, Bytes (re_envelope self))]"

datatype key_envelope_suite = X25519HkdfSha256Aes256Gcm

primrec key_envelope_suite_code :: "key_envelope_suite \<Rightarrow> u64" where
  "key_envelope_suite_code X25519HkdfSha256Aes256Gcm = 0"

record key_envelope_set =
  ke_policy_ref :: "policy_ref option"
  ke_epoch :: u64
  ke_suite :: key_envelope_suite
  ke_recipients :: "recipient_envelope list"

definition key_envelope_set_map :: "key_envelope_set \<Rightarrow> (u64 \<times> cvalue) list" where
  "key_envelope_set_map self =
     registry_header KeyEnvelopeSetKind (ke_policy_ref self) @
       [(3, Unsigned (ke_epoch self)), (4, Unsigned (key_envelope_suite_code (ke_suite self))),
        (5, Array (map recipient_envelope_value (ke_recipients self)))]"

definition key_envelope_set_validate :: "externals \<Rightarrow> key_envelope_set \<Rightarrow> (unit, object_error) result" where
  "key_envelope_set_validate X self =
     (if (ke_epoch self = 0) \<noteq> (ke_policy_ref self = None)
      then Inl (Invalid ''only bootstrap key envelope epoch zero may omit policy'')
      else if ke_recipients self = [] then Inl (Invalid ''key envelope set has no recipients'')
      else if \<exists>r \<in> set (ke_recipients self).
          pn_identifier (re_recipient r) = [] \<or> re_key_id r = replicate 32 0 \<or> re_envelope r = []
      then Inl (Invalid ''invalid recipient envelope'')
      else sorted_unique_values X (map recipient_envelope_value (ke_recipients self))
        ''recipient envelopes must be sorted and unique'')"

definition key_envelope_set_object :: "externals \<Rightarrow> key_envelope_set \<Rightarrow> canonical_object" where
  "key_envelope_set_object X self =
     registry_object KeyEnvelopeSetKind (key_envelope_set_map self) (key_envelope_set_validate X self)"

section \<open>Relations and resolutions\<close>

datatype change_relation_kind = RelationSplit | RelationCombine | RelationSupersede

primrec change_relation_kind_code :: "change_relation_kind \<Rightarrow> u64" where
  "change_relation_kind_code RelationSplit = 0"
| "change_relation_kind_code RelationCombine = 1"
| "change_relation_kind_code RelationSupersede = 2"

record change_relation =
  crl_policy_ref :: policy_ref
  crl_relation_kind :: change_relation_kind
  crl_sources :: "object_id list"
  crl_results :: "object_id list"
  crl_provenance :: "object_id list"
  crl_creating_operation :: object_id

definition change_relation_map :: "change_relation \<Rightarrow> (u64 \<times> cvalue) list" where
  "change_relation_map self =
     registry_header ChangeRelationKind (Some (crl_policy_ref self)) @
       [(3, Unsigned (change_relation_kind_code (crl_relation_kind self))), (4, oid_array (crl_sources self)),
        (5, oid_array (crl_results self)), (6, oid_array (crl_provenance self)), (7, oid (crl_creating_operation self))]"

definition change_relation_validate :: "change_relation \<Rightarrow> (unit, object_error) result" where
  "change_relation_validate self =
     (if crl_sources self = [] \<or> crl_results self = [] then Inl (Invalid ''change relation endpoints must not be empty'')
      else and_then (sorted_unique_ids (crl_sources self) ''relation sources must be sorted and unique'') (\<lambda>_.
        and_then (sorted_unique_ids (crl_results self) ''relation results must be sorted and unique'') (\<lambda>_.
        sorted_unique_ids (crl_provenance self) ''relation provenance must be sorted and unique'')))"

definition change_relation_object :: "change_relation \<Rightarrow> canonical_object" where
  "change_relation_object self =
     registry_object ChangeRelationKind (change_relation_map self) (change_relation_validate self)"

datatype resolution_kind = ResolveLeft | ResolveRight | ResolveBase | ResolveManual | ResolveDriver

primrec resolution_kind_code :: "resolution_kind \<Rightarrow> u64" where
  "resolution_kind_code ResolveLeft = 0"
| "resolution_kind_code ResolveRight = 1"
| "resolution_kind_code ResolveBase = 2"
| "resolution_kind_code ResolveManual = 3"
| "resolution_kind_code ResolveDriver = 4"

record conflict_resolution =
  crs_policy_ref :: policy_ref
  crs_conflict :: object_id
  crs_resolved :: typed_object_ref
  crs_resolver :: actor_id
  crs_device :: device_id
  crs_resolution_kind :: resolution_kind
  crs_provenance :: "typed_object_ref list"
  crs_wall_time :: wall_time
  crs_signatures :: "signature list"

definition conflict_resolution_unsigned_map :: "conflict_resolution \<Rightarrow> (u64 \<times> cvalue) list" where
  "conflict_resolution_unsigned_map self =
     registry_header ConflictResolutionKind (Some (crs_policy_ref self)) @
       [(3, oid (crs_conflict self)), (4, typed_object_ref_value (crs_resolved self)),
        (5, stable_id_value (crs_resolver self)), (6, stable_id_value (crs_device self)),
        (7, Unsigned (resolution_kind_code (crs_resolution_kind self))), (8, typed_refs_value (crs_provenance self)),
        (9, wall_time_value (crs_wall_time self))]"

definition conflict_resolution_validate :: "externals \<Rightarrow> conflict_resolution \<Rightarrow> (unit, object_error) result" where
  "conflict_resolution_validate X self =
     and_then (sorted_unique_refs X (crs_provenance self) ''resolution provenance must be sorted and unique'') (\<lambda>_.
       registry_signatures (crs_signatures self) ForConflictResolution)"

definition conflict_resolution_object :: "externals \<Rightarrow> conflict_resolution \<Rightarrow> signed_object" where
  "conflict_resolution_object X self =
     signed_registry_object ConflictResolutionKind (conflict_resolution_unsigned_map self)
       (conflict_resolution_unsigned_map self @ [(10, signatures_value (crs_signatures self))])
       (crs_signatures self) (conflict_resolution_validate X self)"

section \<open>Evidence\<close>

datatype evidence_outcome = OutcomePass | OutcomeFail | OutcomeAbstain | OutcomeError

primrec evidence_outcome_code :: "evidence_outcome \<Rightarrow> u64" where
  "evidence_outcome_code OutcomePass = 0"
| "evidence_outcome_code OutcomeFail = 1"
| "evidence_outcome_code OutcomeAbstain = 2"
| "evidence_outcome_code OutcomeError = 3"

record evidence_fields =
  evd_policy_ref :: policy_ref
  evd_target :: typed_object_ref
  evd_snapshot :: object_id
  evd_ruleset :: object_id
  evd_issuer :: actor_id
  evd_device :: device_id
  evd_outcome :: evidence_outcome
  evd_constraints :: bytes
  evd_related :: "typed_object_ref list"
  evd_wall_time :: wall_time
  evd_signatures :: "signature list"

definition evidence_map :: "object_kind \<Rightarrow> evidence_fields \<Rightarrow> (u64 \<times> cvalue) list" where
  "evidence_map kind v =
     registry_header kind (Some (evd_policy_ref v)) @
       [(3, typed_object_ref_value (evd_target v)), (4, oid (evd_snapshot v)), (5, oid (evd_ruleset v)),
        (6, stable_id_value (evd_issuer v)), (7, stable_id_value (evd_device v)),
        (8, Unsigned (evidence_outcome_code (evd_outcome v))), (9, Bytes (evd_constraints v)),
        (10, typed_refs_value (evd_related v)), (11, wall_time_value (evd_wall_time v))]"

definition validate_evidence :: "externals \<Rightarrow> evidence_fields \<Rightarrow> signature_purpose \<Rightarrow> (unit, object_error) result" where
  "validate_evidence X v p =
     and_then (sorted_unique_refs X (evd_related v) ''related evidence references must be sorted and unique'') (\<lambda>_.
     and_then (validate_canonical_map X (evd_constraints v) ''evidence constraints must be a canonical CBOR map'') (\<lambda>_.
     registry_signatures (evd_signatures v) p))"

text \<open>The instances of the macro \<open>evidence_object!\<close>.\<close>

definition evidence_object :: "externals \<Rightarrow> object_kind \<Rightarrow> signature_purpose \<Rightarrow> evidence_fields \<Rightarrow> signed_object" where
  "evidence_object X kind purpose v =
     signed_registry_object kind (evidence_map kind v)
       (evidence_map kind v @ [(12, signatures_value (evd_signatures v))])
       (evd_signatures v) (validate_evidence X v purpose)"

definition review_evidence_object :: "externals \<Rightarrow> evidence_fields \<Rightarrow> signed_object" where
  "review_evidence_object X = evidence_object X ReviewEvidenceKind ForReviewEvidence"

definition approval_evidence_object :: "externals \<Rightarrow> evidence_fields \<Rightarrow> signed_object" where
  "approval_evidence_object X = evidence_object X ApprovalEvidenceKind ForApprovalEvidence"

definition policy_decision_evidence_object :: "externals \<Rightarrow> evidence_fields \<Rightarrow> signed_object" where
  "policy_decision_evidence_object X = evidence_object X PolicyDecisionEvidenceKind ForPolicyDecisionEvidence"

record ci_evidence =
  ci_fields :: evidence_fields
  ci_check_name :: bytes
  ci_runner_identity :: object_id
  ci_build_provenance :: "object_id option"

definition ci_evidence_unsigned_map :: "ci_evidence \<Rightarrow> (u64 \<times> cvalue) list" where
  "ci_evidence_unsigned_map self =
     (let m = evidence_map CiEvidenceKind (ci_fields self) @
            [(13, text_value (ci_check_name self)), (14, oid (ci_runner_identity self))]
      in optional m 15 (map_option oid (ci_build_provenance self)))"

definition ci_evidence_validate :: "externals \<Rightarrow> ci_evidence \<Rightarrow> (unit, object_error) result" where
  "ci_evidence_validate X self =
     and_then (ensure_nfc X [ci_check_name self]) (\<lambda>_.
     if ci_check_name self = [] then Inl (Invalid ''CI check name must not be empty'')
     else validate_evidence X (ci_fields self) ForCiEvidence)"

definition ci_evidence_object :: "externals \<Rightarrow> ci_evidence \<Rightarrow> signed_object" where
  "ci_evidence_object X self =
     signed_registry_object CiEvidenceKind (ci_evidence_unsigned_map self)
       (sort_key fst (ci_evidence_unsigned_map self @ [(12, signatures_value (evd_signatures (ci_fields self)))]))
       (evd_signatures (ci_fields self)) (ci_evidence_validate X self)"

section \<open>Projections\<close>

datatype projection_rule_kind = RuleInclude | RuleExclude | RuleRedact

primrec projection_rule_kind_code :: "projection_rule_kind \<Rightarrow> u64" where
  "projection_rule_kind_code RuleInclude = 0"
| "projection_rule_kind_code RuleExclude = 1"
| "projection_rule_kind_code RuleRedact = 2"

record projection_rule =
  prl_rule_kind :: projection_rule_kind
  prl_parameters :: bytes

definition projection_rule_value :: "projection_rule \<Rightarrow> cvalue" where
  "projection_rule_value self =
     Map [(0, Unsigned (projection_rule_kind_code (prl_rule_kind self))), (1, Bytes (prl_parameters self))]"

record projection_rules =
  prs_policy_ref :: policy_ref
  prs_version :: u64
  prs_previous :: "object_id option"
  prs_rules :: "projection_rule list"
  prs_default_fail :: bool

definition projection_rules_map :: "projection_rules \<Rightarrow> (u64 \<times> cvalue) list" where
  "projection_rules_map self =
     (let m = registry_header ProjectionRulesKind (Some (prs_policy_ref self)) @
            [(3, Unsigned (prs_version self)), (5, Array (map projection_rule_value (prs_rules self))),
             (6, Bool (prs_default_fail self))]
      in optional m 4 (map_option oid (prs_previous self)))"

definition projection_rules_validate :: "externals \<Rightarrow> projection_rules \<Rightarrow> (unit, object_error) result" where
  "projection_rules_validate X self =
     (if (prs_version self = 0) = (prs_previous self \<noteq> None)
      then Inl (Invalid ''only projection rules version zero may omit previous'')
      else if \<not> prs_default_fail self then Inl (Invalid ''schema-0 projection rules must fail closed'')
      else all_ok (map (\<lambda>rule. validate_canonical_map X (prl_parameters rule)
        ''projection rule parameters must be canonical CBOR maps'') (prs_rules self)))"

definition projection_rules_object :: "externals \<Rightarrow> projection_rules \<Rightarrow> canonical_object" where
  "projection_rules_object X self =
     registry_object ProjectionRulesKind (projection_rules_map self) (projection_rules_validate X self)"

datatype projection_proof_algorithm = MerkleV0

primrec projection_proof_algorithm_code :: "projection_proof_algorithm \<Rightarrow> u64" where
  "projection_proof_algorithm_code MerkleV0 = 0"

record projection_proof =
  ppf_policy_ref :: policy_ref
  ppf_algorithm :: projection_proof_algorithm
  ppf_source_snapshot :: object_id
  ppf_rules :: object_id
  ppf_audience_policy :: object_id
  ppf_projected_manifest :: object_id
  ppf_proof :: bytes

definition projection_proof_map :: "projection_proof \<Rightarrow> (u64 \<times> cvalue) list" where
  "projection_proof_map self =
     registry_header ProjectionProofKind (Some (ppf_policy_ref self)) @
       [(3, Unsigned (projection_proof_algorithm_code (ppf_algorithm self))), (4, oid (ppf_source_snapshot self)),
        (5, oid (ppf_rules self)), (6, oid (ppf_audience_policy self)), (7, oid (ppf_projected_manifest self)),
        (8, Bytes (ppf_proof self))]"

definition projection_proof_validate :: "projection_proof \<Rightarrow> (unit, object_error) result" where
  "projection_proof_validate self =
     (if ppf_proof self = [] then Inl (Invalid ''projection proof must not be empty'') else Inr ())"

definition projection_proof_object :: "projection_proof \<Rightarrow> canonical_object" where
  "projection_proof_object self =
     registry_object ProjectionProofKind (projection_proof_map self) (projection_proof_validate self)"

section \<open>Builds, artifacts and payloads\<close>

record build_provenance =
  bp_policy_ref :: policy_ref
  bp_snapshot :: object_id
  bp_ruleset :: object_id
  bp_builder_identity :: object_id
  bp_inputs :: "typed_object_ref list"
  bp_outputs :: "object_id list"
  bp_reproducibility :: bytes
  bp_wall_time :: wall_time
  bp_signatures :: "signature list"

definition build_provenance_unsigned_map :: "build_provenance \<Rightarrow> (u64 \<times> cvalue) list" where
  "build_provenance_unsigned_map self =
     registry_header BuildProvenanceKind (Some (bp_policy_ref self)) @
       [(3, oid (bp_snapshot self)), (4, oid (bp_ruleset self)), (5, oid (bp_builder_identity self)),
        (6, typed_refs_value (bp_inputs self)), (7, oid_array (bp_outputs self)), (8, Bytes (bp_reproducibility self)),
        (9, wall_time_value (bp_wall_time self))]"

definition build_provenance_validate :: "externals \<Rightarrow> build_provenance \<Rightarrow> (unit, object_error) result" where
  "build_provenance_validate X self =
     and_then (sorted_unique_refs X (bp_inputs self) ''build inputs must be sorted and unique'') (\<lambda>_.
     and_then (sorted_unique_ids (bp_outputs self) ''build outputs must be sorted and unique'') (\<lambda>_.
     and_then (validate_canonical_map X (bp_reproducibility self) ''build reproducibility metadata must be a canonical CBOR map'') (\<lambda>_.
     registry_signatures (bp_signatures self) ForBuildProvenance)))"

definition build_provenance_object :: "externals \<Rightarrow> build_provenance \<Rightarrow> signed_object" where
  "build_provenance_object X self =
     signed_registry_object BuildProvenanceKind (build_provenance_unsigned_map self)
       (build_provenance_unsigned_map self @ [(10, signatures_value (bp_signatures self))])
       (bp_signatures self) (build_provenance_validate X self)"

datatype artifact_kind = ArtifactBinary | ArtifactSourceArchive | ArtifactSbom | ArtifactAttestation

primrec artifact_kind_code :: "artifact_kind \<Rightarrow> u64" where
  "artifact_kind_code ArtifactBinary = 0"
| "artifact_kind_code ArtifactSourceArchive = 1"
| "artifact_kind_code ArtifactSbom = 2"
| "artifact_kind_code ArtifactAttestation = 3"

datatype artifact_digest_algorithm = DigestSha256 | DigestBlake3_256

primrec artifact_digest_algorithm_code :: "artifact_digest_algorithm \<Rightarrow> u64" where
  "artifact_digest_algorithm_code DigestSha256 = 0"
| "artifact_digest_algorithm_code DigestBlake3_256 = 1"

record artifact =
  art_policy_ref :: policy_ref
  art_artifact_kind :: artifact_kind
  art_digest_algorithm :: artifact_digest_algorithm
  art_digest :: bytes
  art_byte_length :: u64
  art_locator :: "bytes option"
  art_blob :: "object_id option"

definition artifact_map :: "artifact \<Rightarrow> (u64 \<times> cvalue) list" where
  "artifact_map self =
     (let m = registry_header ArtifactKind (Some (art_policy_ref self)) @
            [(3, Unsigned (artifact_kind_code (art_artifact_kind self))),
             (4, Unsigned (artifact_digest_algorithm_code (art_digest_algorithm self))), (5, Bytes (art_digest self)),
             (6, Unsigned (art_byte_length self))];
          m = optional m 7 (map_option text_value (art_locator self))
      in optional m 8 (map_option oid (art_blob self)))"

definition artifact_validate :: "externals \<Rightarrow> artifact \<Rightarrow> (unit, object_error) result" where
  "artifact_validate X self =
     (if length (art_digest self) \<noteq> 32 \<or> art_locator self = None \<and> art_blob self = None
      then Inl (Invalid ''artifact requires digest and location or blob'')
      else case art_locator self of Some v \<Rightarrow> ensure_nfc X [v] | None \<Rightarrow> Inr ())"

definition artifact_object :: "externals \<Rightarrow> artifact \<Rightarrow> canonical_object" where
  "artifact_object X self = registry_object ArtifactKind (artifact_map self) (artifact_validate X self)"

datatype operation_payload_kind = PayloadInverse | PayloadRecovery | PayloadPublicRedaction | PayloadPrivateAudit

primrec operation_payload_kind_code :: "operation_payload_kind \<Rightarrow> u64" where
  "operation_payload_kind_code PayloadInverse = 0"
| "operation_payload_kind_code PayloadRecovery = 1"
| "operation_payload_kind_code PayloadPublicRedaction = 2"
| "operation_payload_kind_code PayloadPrivateAudit = 3"

datatype operation_payload_schema = CanonicalCborMapV0

primrec operation_payload_schema_code :: "operation_payload_schema \<Rightarrow> u64" where
  "operation_payload_schema_code CanonicalCborMapV0 = 0"

record operation_payload =
  opl_policy_ref :: policy_ref
  opl_payload_kind :: operation_payload_kind
  opl_references :: "typed_object_ref list"
  opl_payload_schema :: operation_payload_schema
  opl_canonical_payload :: bytes

definition operation_payload_map :: "operation_payload \<Rightarrow> (u64 \<times> cvalue) list" where
  "operation_payload_map self =
     registry_header OperationPayloadKind (Some (opl_policy_ref self)) @
       [(3, Unsigned (operation_payload_kind_code (opl_payload_kind self))), (4, typed_refs_value (opl_references self)),
        (5, Unsigned (operation_payload_schema_code (opl_payload_schema self))), (6, Bytes (opl_canonical_payload self))]"

definition operation_payload_validate :: "externals \<Rightarrow> operation_payload \<Rightarrow> (unit, object_error) result" where
  "operation_payload_validate X self =
     and_then (sorted_unique_refs X (opl_references self) ''payload references must be sorted and unique'') (\<lambda>_.
       validate_canonical_map X (opl_canonical_payload self) ''operation payload must be a canonical CBOR map'')"

definition operation_payload_object :: "externals \<Rightarrow> operation_payload \<Rightarrow> canonical_object" where
  "operation_payload_object X self =
     registry_object OperationPayloadKind (operation_payload_map self) (operation_payload_validate X self)"

section \<open>Views, migrations and rulesets\<close>

record line_generation =
  lg_line_id :: line_id
  lg_generation :: u64
  lg_state :: object_id

definition line_generation_value :: "line_generation \<Rightarrow> cvalue" where
  "line_generation_value self =
     Map [(0, stable_id_value (lg_line_id self)), (1, Unsigned (lg_generation self)), (2, oid (lg_state self))]"

text \<open>The derived order of \<open>LineGeneration\<close>: its fields in turn.\<close>

definition line_generation_key :: "line_generation \<Rightarrow> line_id \<times> u64 \<times> object_id" where
  "line_generation_key l = (lg_line_id l, lg_generation l, lg_state l)"

record view =
  vw_policy_ref :: policy_ref
  vw_actor :: actor_id
  vw_device :: device_id
  vw_policies :: "object_id list"
  vw_lines :: "line_generation list"
  vw_projected_manifest :: object_id
  vw_validity_constraints :: bytes
  vw_signatures :: "signature list"

definition view_unsigned_map :: "view \<Rightarrow> (u64 \<times> cvalue) list" where
  "view_unsigned_map self =
     registry_header ViewKind (Some (vw_policy_ref self)) @
       [(3, stable_id_value (vw_actor self)), (4, stable_id_value (vw_device self)), (5, oid_array (vw_policies self)),
        (6, Array (map line_generation_value (vw_lines self))), (7, oid (vw_projected_manifest self)),
        (8, Bytes (vw_validity_constraints self))]"

definition view_validate :: "externals \<Rightarrow> view \<Rightarrow> (unit, object_error) result" where
  "view_validate X self =
     and_then (sorted_unique_ids (vw_policies self) ''view policies must be sorted and unique'') (\<lambda>_.
     if windows2_any (\<lambda>a b. line_generation_key a \<ge> line_generation_key b) (vw_lines self)
     then Inl (Invalid ''view lines must be sorted and unique'')
     else if \<not> distinct (map lg_line_id (vw_lines self)) then Inl (Invalid ''view contains duplicate line IDs'')
     else and_then (validate_canonical_map X (vw_validity_constraints self) ''view validity constraints must be a canonical CBOR map'') (\<lambda>_.
       registry_signatures (vw_signatures self) ForView))"

definition view_object :: "externals \<Rightarrow> view \<Rightarrow> signed_object" where
  "view_object X self =
     signed_registry_object ViewKind (view_unsigned_map self)
       (view_unsigned_map self @ [(9, signatures_value (vw_signatures self))])
       (vw_signatures self) (view_validate X self)"

record id_mapping =
  im_old :: object_id
  im_new :: object_id

definition id_mapping_value :: "id_mapping \<Rightarrow> cvalue" where
  "id_mapping_value self = Map [(0, oid (im_old self)), (1, oid (im_new self))]"

datatype object_id_format = FormatV0 | FormatV1

primrec object_id_format_code :: "object_id_format \<Rightarrow> u64" where
  "object_id_format_code FormatV0 = 0"
| "object_id_format_code FormatV1 = 1"

record migration =
  mg_policy_ref :: policy_ref
  mg_source_format :: object_id_format
  mg_target_format :: object_id_format
  mg_mappings :: "id_mapping list"
  mg_tool_identity :: object_id
  mg_wall_time :: wall_time
  mg_signatures :: "signature list"

definition migration_unsigned_map :: "migration \<Rightarrow> (u64 \<times> cvalue) list" where
  "migration_unsigned_map self =
     registry_header MigrationKind (Some (mg_policy_ref self)) @
       [(3, Unsigned (object_id_format_code (mg_source_format self))),
        (4, Unsigned (object_id_format_code (mg_target_format self))),
        (5, Array (map id_mapping_value (mg_mappings self))), (6, oid (mg_tool_identity self)),
        (7, wall_time_value (mg_wall_time self))]"

definition migration_validate :: "externals \<Rightarrow> migration \<Rightarrow> (unit, object_error) result" where
  "migration_validate X self =
     (if mg_source_format self = mg_target_format self \<or> mg_mappings self = []
      then Inl (Invalid ''migration must change formats and contain mappings'')
      else and_then (sorted_unique_values X (map id_mapping_value (mg_mappings self))
          ''migration mappings must be sorted and unique'') (\<lambda>_.
        if \<not> distinct (map im_old (mg_mappings self)) \<or> \<not> distinct (map im_new (mg_mappings self))
        then Inl (Invalid ''migration must be one-to-one'')
        else registry_signatures (mg_signatures self) ForMigration))"

definition migration_object :: "externals \<Rightarrow> migration \<Rightarrow> signed_object" where
  "migration_object X self =
     signed_registry_object MigrationKind (migration_unsigned_map self)
       (migration_unsigned_map self @ [(8, signatures_value (mg_signatures self))])
       (mg_signatures self) (migration_validate X self)"

datatype ruleset_kind = RulesReview | RulesApproval | RulesCi | RulesLanding | RulesRelease

primrec ruleset_kind_code :: "ruleset_kind \<Rightarrow> u64" where
  "ruleset_kind_code RulesReview = 0"
| "ruleset_kind_code RulesApproval = 1"
| "ruleset_kind_code RulesCi = 2"
| "ruleset_kind_code RulesLanding = 3"
| "ruleset_kind_code RulesRelease = 4"

record ruleset =
  rls_policy_ref :: policy_ref
  rls_ruleset_kind :: ruleset_kind
  rls_version :: u64
  rls_previous :: "object_id option"
  rls_constraints :: bytes
  rls_required_evidence_kinds :: "object_kind list"

definition ruleset_map :: "ruleset \<Rightarrow> (u64 \<times> cvalue) list" where
  "ruleset_map self =
     (let m = registry_header RulesetKind (Some (rls_policy_ref self)) @
            [(3, Unsigned (ruleset_kind_code (rls_ruleset_kind self))), (4, Unsigned (rls_version self)),
             (6, Bytes (rls_constraints self)),
             (7, Array (map (\<lambda>k. Unsigned (kind_code k)) (rls_required_evidence_kinds self)))]
      in optional m 5 (map_option oid (rls_previous self)))"

definition ruleset_validate :: "externals \<Rightarrow> ruleset \<Rightarrow> (unit, object_error) result" where
  "ruleset_validate X self =
     (if (rls_version self = 0) = (rls_previous self \<noteq> None)
      then Inl (Invalid ''only ruleset version zero may omit previous'')
      else if windows2_any (\<lambda>a b. kind_code a \<ge> kind_code b) (rls_required_evidence_kinds self) \<or>
        (\<exists>k \<in> set (rls_required_evidence_kinds self).
          k \<notin> {ReviewEvidenceKind, ApprovalEvidenceKind, CiEvidenceKind, PolicyDecisionEvidenceKind})
      then Inl (Invalid ''ruleset evidence kinds must be sorted, unique evidence kinds'')
      else validate_canonical_map X (rls_constraints self) ''ruleset constraints must be a canonical CBOR map'')"

definition ruleset_object :: "externals \<Rightarrow> ruleset \<Rightarrow> canonical_object" where
  "ruleset_object X self = registry_object RulesetKind (ruleset_map self) (ruleset_validate X self)"

section \<open>Bootstrap\<close>

record bootstrap_graph =
  bg_root :: repository_root
  bg_root_policy :: policy
  bg_identities :: "identity list"
  bg_key_envelope_set :: key_envelope_set
  bg_genesis_operation :: operation
  bg_initial_line_states :: "line_state list"

definition bootstrap_identity :: "externals \<Rightarrow> hash_algorithm \<Rightarrow> identity \<Rightarrow> (object_id, object_error) result" where
  "bootstrap_identity X alg identity =
     and_then (identity_validate X identity) (\<lambda>_.
     if idn_version identity \<noteq> 0 \<or> idn_policy_ref identity \<noteq> None \<or> idn_previous identity \<noteq> None \<or>
        idn_activation_operation identity \<noteq> None
     then Inl (Invalid ''bootstrap identity has nonbootstrap links'')
     else object_identity X (canonical_object.truncate (identity_object X identity)) alg)"

definition bootstrap_line ::
  "externals \<Rightarrow> hash_algorithm \<Rightarrow> policy_ref \<Rightarrow> operation \<Rightarrow> line_state \<Rightarrow> (object_id, object_error) result" where
  "bootstrap_line X alg policy_ref genesis line =
     and_then (line_state_validate X line) (\<lambda>_.
     if ls_generation line \<noteq> 0 \<or> ls_previous_state line \<noteq> None \<or> ls_policy_ref line \<noteq> policy_ref
     then Inl (Invalid ''initial line state is not a policy-bound genesis state'')
     else and_then (validate_transaction X line genesis) (\<lambda>_.
       object_identity X (canonical_object.truncate (line_state_object X line)) alg))"

definition bootstrap_signer :: "identity list \<Rightarrow> signature \<Rightarrow> bool" where
  "bootstrap_signer identities s \<longleftrightarrow>
     (\<exists>identity \<in> set identities. idn_subject_kind identity = SubjectActor \<and> idn_subject identity = sig_signer s \<and>
       (\<exists>key \<in> set (idn_signing_keys identity). pk_key_id key = signing_key_id s))"

definition bootstrap_validate :: "externals \<Rightarrow> bootstrap_graph \<Rightarrow> hash_algorithm \<Rightarrow> (unit, object_error) result" where
  "bootstrap_validate X g alg =
     (let root = bg_root g; policy = bg_root_policy g; keys = bg_key_envelope_set g; genesis = bg_genesis_operation g in
      and_then (repository_root_validate root) (\<lambda>_.
      and_then (policy_validate policy) (\<lambda>_.
      and_then (key_envelope_set_validate X keys) (\<lambda>_.
      and_then (operation_validate X genesis) (\<lambda>_.
      if po_policy_ref policy \<noteq> None \<or> po_version_sequence policy \<noteq> 0 \<or> po_previous_version policy \<noteq> None
      then Inl (Invalid ''bootstrap root policy must be version zero and parentless'')
      else if ke_policy_ref keys \<noteq> None \<or> ke_epoch keys \<noteq> 0
      then Inl (Invalid ''bootstrap key envelope set must be epoch zero and policy-free'')
      else if bg_identities g = [] \<or> bg_initial_line_states g = []
      then Inl (Invalid ''bootstrap identity and line sets must not be empty'')
      else and_then (collect_results (map (bootstrap_identity X alg) (bg_identities g))) (\<lambda>identity_ids.
        if identity_ids \<noteq> rr_trusted_identities root
        then Inl (Invalid ''repository root identity links do not match bootstrap identities'')
        else and_then (object_identity X (canonical_object.truncate (policy_object policy)) alg) (\<lambda>policy_id.
        and_then (if rr_root_policy root \<noteq> policy_id then Inr True
          else and_then (object_identity X (key_envelope_set_object X keys) alg) (\<lambda>keys_id.
            if rr_bootstrap_key_envelope_set root \<noteq> keys_id then Inr True
            else and_then (object_identity X (canonical_object.truncate (operation_object X genesis)) alg) (\<lambda>genesis_id.
              Inr (rr_genesis_operation root \<noteq> genesis_id)))) (\<lambda>mismatch.
        if mismatch then Inl (Invalid ''repository root bootstrap object link mismatch'')
        else if po_key_envelope_set policy \<noteq> rr_bootstrap_key_envelope_set root
        then Inl (Invalid ''root policy does not name bootstrap key envelope set'')
        else if op_parents genesis \<noteq> [] then Inl (Invalid ''genesis operation must not have parents'')
        else
          let policy_ref = \<lparr>pr_policy_id = po_policy_id policy, pr_version = rr_root_policy root\<rparr> in
          if op_policy_ref genesis \<noteq> policy_ref then Inl (Invalid ''genesis operation does not use the root policy'')
          else and_then (collect_results (map (bootstrap_line X alg policy_ref genesis) (bg_initial_line_states g))) (\<lambda>line_ids.
            if line_ids \<noteq> rr_initial_line_states root
            then Inl (Invalid ''repository root line links do not match initial states'')
            else if \<exists>s \<in> set (rr_signatures root). \<not> bootstrap_signer (bg_identities g) s
            then Inl (Invalid ''repository root signer is not a bootstrap identity key'')
            else Inr ())))))))))"

end
