(* ===== verification/Extended_Schemas.thy ===== *)
theory Extended_Schemas
  imports Operation_Schemas Content_Schemas Extended
begin

text \<open>
  The schema contract for the registry objects of \<open>extended.rs\<close>: whatever their \<open>validate\<close> accepts
  passes the field and shape checks of the decoder.
\<close>

section \<open>Checks on both sides\<close>

lemma norm_bool [simp]: "norm (Bool b) = Bool b"
  by simp

lemma sorted_unique_ids_Inr:
  "sorted_unique_ids ids what = Inr () \<longleftrightarrow> length ids \<le> MAX_REGISTRY_ITEMS \<and> \<not> windows2_any (\<lambda>a b. a \<ge> b) ids"
  by (simp add: sorted_unique_ids_def)

lemma sorted_unique_values_Inr:
  "sorted_unique_values X values what = Inr () \<longleftrightarrow> ensure_sorted_unique_values X values k = Inr ()"
  by (cases "collect_results (map (encode X) values)")
    (auto simp: sorted_unique_values_def ensure_sorted_unique_values_def)

lemma registry_signatures_Inr: "registry_signatures sigs p = Inr () \<longleftrightarrow> ensure_signature_set sigs p = Inr ()"
  by (auto simp: registry_signatures_def ensure_signature_set_def ensure_signature_purpose_def all_ok_Inr)

lemma canonical_map_bytes_value:
  "validate_canonical_map X bs what = Inr () \<Longrightarrow> canonical_map_bytes X (Bytes bs) k = Inr ()"
  by (auto simp: validate_canonical_map_def canonical_map_bytes_def as_bytes_def split: sum.splits cvalue.splits)

lemma norm_typed_refs [simp]: "norm (typed_refs_value refs) = typed_refs_value refs"
  and text_wf_typed_refs [simp]: "text_wf (typed_refs_value refs)"
  and norm_signatures_value [simp]: "norm (signatures_value sigs) = signatures_value sigs"
  and text_wf_signatures_value [simp]: "text_wf (signatures_value sigs)"
  by (simp_all add: typed_refs_value_def signatures_value_def)

section \<open>Fields\<close>

named_theorems field_checks \<open>a field holds what a validated object put there\<close>

lemma signatures_field [field_checks]:
  "registry_signatures sigs p = Inr () \<Longrightarrow> \<forall>s \<in> set sigs. signature_wf s \<Longrightarrow>
    signature_set_check X p (signatures_value sigs) k = Inr ()"
  unfolding signatures_value_def registry_signatures_Inr by (rule signature_set_check_values)

lemma sorted_ids_field:
  assumes "map_of n k = Some (oid_array ids)" "\<forall>i \<in> set ids. oid_wf i" "sorted_unique_ids ids what = Inr ()"
    "ne \<longrightarrow> ids \<noteq> []"
  shows "sorted_ids_check n k ne = Inr ()"
  using assms by (auto simp: sorted_ids_check_def oid_values_array ensure_sorted_unique_ids_def sorted_unique_ids_Inr)

lemma typed_refs_field:
  assumes "map_of n k = Some (typed_refs_value refs)" "\<forall>r \<in> set refs. typed_ref_wf r"
    "sorted_unique_refs X refs what = Inr ()"
  shows "typed_refs_check X n k = Inr ()"
proof -
  have "sorted_unique_values X (map typed_object_ref_value refs) what = Inr ()"
    using assms(3) by (simp add: sorted_unique_refs_def split: if_splits)
  then show ?thesis
    using assms(1,2)
    by (simp add: typed_refs_check_def typed_refs_value_def as_array_def at_field_def field_def all_ok_Inr
        typed_ref_check_value sorted_unique_values_Inr [of X _ what k])
qed

lemma at_most_field: "map_of n k = Some (Unsigned c) \<Longrightarrow> c \<le> b \<Longrightarrow> at_most n k b = Inr ()"
  by (simp add: at_most_def at_field_def field_def as_unsigned_def not_less)

lemma version_chain_field:
  assumes "map_of n a = Some (Unsigned version)" "map_of n b = map_option oid previous"
    "(version = 0) \<noteq> (previous \<noteq> None)" "\<forall>i \<in> set_option previous. oid_wf i"
  shows "version_chain_check n a b = Inr ()"
  using assms by (cases previous) (simp_all add: version_chain_check_def lookup_defs as_oid_oid)

lemma map_of_optional:
  "map_of (optional m k v) j = (case map_of m j of Some x \<Rightarrow> Some x | None \<Rightarrow> if j = k then v else None)"
  by (cases v) (auto simp: optional_def map_add_def split: option.splits)

lemma map_of_append_at: "map_of (a @ b) k = (case map_of a k of Some x \<Rightarrow> Some x | None \<Rightarrow> map_of b k)"
  by (simp add: map_add_def split: option.splits)

lemmas map_lookup = map_of_optional map_of_append_at option.map_comp o_def

lemma norm_oid_option [simp]: "map_option (\<lambda>i. norm (oid i)) v = map_option oid v"
  by (cases v) simp_all

lemma optional_oid_field:
  "map_of n k = map_option oid v \<Longrightarrow> \<forall>i \<in> set_option v. oid_wf i \<Longrightarrow> opt_field n k (\<lambda>x. as_oid x k) = Inr ()"
  by (cases v) (simp_all add: opt_field_def optional_field_def as_oid_oid)

lemmas registry_defs = registry_header_def registry_object_def signed_registry_object_def Let_def

section \<open>Repository roots\<close>

definition repository_root_wf :: "repository_root \<Rightarrow> bool" where
  "repository_root_wf x \<longleftrightarrow> length (rr_repository_id x) = 16 \<and> oid_wf (rr_root_policy x) \<and>
     (\<forall>i \<in> set (rr_trusted_identities x) \<union> set (rr_initial_line_states x). oid_wf i) \<and>
     oid_wf (rr_bootstrap_key_envelope_set x) \<and> oid_wf (rr_genesis_operation x) \<and>
     (\<forall>s \<in> set (rr_signatures x). signature_wf s)"

lemmas repository_root_defs = repository_root_object_def repository_root_unsigned_map_def registry_defs

lemma filesystem_profile_code_le: "filesystem_profile_code c \<le> 1"
  by (cases c) simp_all

interpretation repository_root_schema:
  object_schema X RepositoryRootKind 0 "\<lambda>x. signed_base (repository_root_object x)" repository_root_wf for X
proof (unfold_locales, goal_cases)
  case (4 x)
  then have v: "sorted_unique_ids (rr_trusted_identities x) ''trusted identities must be sorted and unique'' = Inr ()"
      "sorted_unique_ids (rr_initial_line_states x) ''initial line states must be sorted and unique'' = Inr ()"
      "rr_trusted_identities x \<noteq> []" "rr_initial_line_states x \<noteq> []"
      "registry_signatures (rr_signatures x) ForRepositoryRoot = Inr ()"
    by (auto simp: repository_root_object_def signed_registry_object_def repository_root_validate_def split: if_splits)
  show ?case
  proof (rule schema_valueI [of _ "repository_root_unsigned_map x @ [(10, signatures_value (rr_signatures x))]"], goal_cases)
    case (8 n)
    have "sorted_ids_check n 5 True = Inr ()"
      by (rule sorted_ids_field [OF _ _ v(1)]) (use 4(1) v(3) in \<open>simp_all add: 8(1) repository_root_defs lookup_defs repository_root_wf_def\<close>)
    moreover have "sorted_ids_check n 8 True = Inr ()"
      by (rule sorted_ids_field [OF _ _ v(2)]) (use 4(1) v(4) in \<open>simp_all add: 8(1) repository_root_defs lookup_defs repository_root_wf_def\<close>)
    moreover have "at_most n 9 1 = Inr ()"
      by (rule at_most_field [OF _ filesystem_profile_code_le]) (simp add: 8(1) repository_root_defs lookup_defs)
    ultimately show ?case
      using 4(1) v(5)
      by (simp add: 8(1) repository_root_defs repository_root_wf_def lookup_defs validate_shapes_def
          shape_repository_root_def embedded field_checks)
  qed (auto simp: repository_root_defs lookup_defs)
qed (simp_all add: repository_root_defs supports_schema_def)

section \<open>Identities\<close>

definition public_key_wf :: "public_key_record \<Rightarrow> bool" where
  "public_key_wf k \<longleftrightarrow> length (pk_key_id k) = 32 \<and> (\<forall>i \<in> set_option (pk_not_before k). oid_wf i) \<and>
     (\<forall>i \<in> set_option (pk_not_after k). oid_wf i)"

definition identity_wf :: "identity \<Rightarrow> bool" where
  "identity_wf x \<longleftrightarrow> (\<forall>p \<in> set_option (idn_policy_ref x). policy_ref_wf p) \<and> length (idn_subject x) = 16 \<and>
     (\<forall>i \<in> set_option (idn_previous x). oid_wf i) \<and>
     (\<forall>k \<in> set (idn_signing_keys x) \<union> set (idn_encryption_keys x). public_key_wf k) \<and> length (idn_issuer x) = 16 \<and>
     (\<forall>i \<in> set_option (idn_activation_operation x). oid_wf i) \<and>
     (\<forall>i \<in> set_option (idn_not_after_operation x). oid_wf i) \<and> (\<forall>s \<in> set (idn_signatures x). signature_wf s)"

lemmas identity_defs = identity_object_def identity_unsigned_map_def registry_defs

lemma identity_subject_kind_code_le: "identity_subject_kind_code c \<le> 1"
  and identity_status_code_le: "identity_status_code d \<le> 2"
  by (cases c; simp) (cases d; simp)

lemma norm_public_key [simp]: "norm (public_key_value k) = public_key_value k"
  and text_wf_public_key [simp]: "text_wf (public_key_value k)"
  by (cases "pk_not_before k"; cases "pk_not_after k"; simp add: public_key_value_def optional_def word_le_nat_alt)+

lemma public_key_value_check:
  assumes "public_key_wf k" "public_key_validate k = Inr ()"
  shows "public_key (public_key_value k) f = Inr (public_key_algorithm_code (pk_algorithm k), pk_key_id k)"
  using assms
  by (cases "pk_not_before k"; cases "pk_not_after k"; cases "pk_algorithm k")
    (auto simp: public_key_def public_key_value_def public_key_wf_def public_key_validate_def optional_def lookup_defs
      exact_map_def as_map_def fixed_nonzero_bytes_def fixed_bytes_def all_zero_replicate as_oid_oid split: if_splits)

lemma key_fold:
  assumes "\<forall>k \<in> set ks. public_key_wf k \<and> public_key_validate k = Inr () \<and> public_key_algorithm_code (pk_algorithm k) = c"
    "distinct (map pk_key_id ks)" "pk_key_id ` set ks \<inter> S = {}"
  shows "try_fold (key_step c f) S (map public_key_value ks) = Inr (S \<union> pk_key_id ` set ks)"
  using assms
proof (induction ks arbitrary: S)
  case (Cons k ks)
  then have "key_step c f S (public_key_value k) = Inr (insert (pk_key_id k) S)"
    by (simp add: key_step_def public_key_value_check)
  moreover have "try_fold (key_step c f) (insert (pk_key_id k) S) (map public_key_value ks) =
      Inr (insert (pk_key_id k) S \<union> pk_key_id ` set ks)"
    using Cons.prems by (intro Cons.IH) auto
  ultimately show ?case by simp
qed simp

lemma identity_keys:
  assumes "identity_wf x" "identity_validate X x = Inr ()"
    "map_of n 7 = Some (Array (map public_key_value (idn_signing_keys x)))"
    "map_of n 8 = Some (Array (map public_key_value (idn_encryption_keys x)))"
  shows "identity_keys_check X n = Inr ()"
proof -
  let ?s = "idn_signing_keys x" and ?e = "idn_encryption_keys x"
  have v: "?s \<noteq> []" "\<forall>k \<in> set ?s \<union> set ?e. public_key_validate k = Inr ()"
      "\<forall>k \<in> set ?s. pk_algorithm k = KeyEd25519" "\<forall>k \<in> set ?e. pk_algorithm k = KeyX25519"
      "distinct (map pk_key_id (?s @ ?e))"
      "sorted_unique_values X (map public_key_value ?s) ''identity key records must be sorted and unique'' = Inr ()"
      "sorted_unique_values X (map public_key_value ?e) ''identity key records must be sorted and unique'' = Inr ()"
    using assms(2) by (auto simp: identity_validate_def Let_def all_ok_Inr split: if_splits)
  have "try_fold (key_step 0 7) {} (map public_key_value ?s) = Inr ({} \<union> pk_key_id ` set ?s)"
    by (rule key_fold) (use assms(1) v in \<open>auto simp: identity_wf_def\<close>)
  moreover have "try_fold (key_step 1 8) (pk_key_id ` set ?s) (map public_key_value ?e) = Inr (pk_key_id ` set ?s \<union> pk_key_id ` set ?e)"
    by (rule key_fold) (use assms(1) v in \<open>auto simp: identity_wf_def\<close>)
  ultimately show ?thesis
    using assms(3,4) v(1) v(6,7) [unfolded sorted_unique_values_Inr [of X _ _ 7]] v(7) [unfolded sorted_unique_values_Inr [of X _ _ 8]]
    by (simp add: identity_keys_check_def at_field_def field_def as_array_def)
qed

interpretation identity_schema:
  object_schema X IdentityKind 0 "\<lambda>x. signed_base (identity_object X x)" identity_wf for X
proof (unfold_locales, goal_cases)
  case (4 x)
  then have valid: "identity_validate X x = Inr ()" by (simp add: identity_object_def signed_registry_object_def)
  then have v: "(idn_version x = 0) = (idn_previous x = None \<and> idn_activation_operation x = None \<and> idn_policy_ref x = None)"
      "idn_version x \<noteq> 0 \<longrightarrow> idn_policy_ref x \<noteq> None \<and> idn_previous x \<noteq> None \<and> idn_activation_operation x \<noteq> None"
      "registry_signatures (idn_signatures x) ForIdentity = Inr ()"
    by (auto simp: identity_validate_def Let_def split: if_splits)
  let ?m = "identity_unsigned_map x @ [(13, signatures_value (idn_signatures x))]"
  show ?case
  proof (rule schema_valueI [of _ ?m], goal_cases)
    case 3
    show ?case by (auto simp: identity_defs lookup_defs split: option.splits)
  next
    case (8 n)
    have look: "map_of n 2 = map_option policy_ref_value (idn_policy_ref x)" "map_of n 6 = map_option oid (idn_previous x)"
        "map_of n 11 = map_option oid (idn_activation_operation x)" "map_of n 12 = map_option oid (idn_not_after_operation x)"
        "map_of n 3 = Some (Unsigned (identity_subject_kind_code (idn_subject_kind x)))"
        "map_of n 4 = Some (Bytes (idn_subject x))" "map_of n 5 = Some (Unsigned (idn_version x))"
        "map_of n 7 = Some (Array (map public_key_value (idn_signing_keys x)))"
        "map_of n 8 = Some (Array (map public_key_value (idn_encryption_keys x)))"
        "map_of n 9 = Some (stable_id_value (idn_issuer x))" "map_of n 10 = Some (Unsigned (identity_status_code (idn_status x)))"
        "map_of n 13 = Some (signatures_value (idn_signatures x))"
      unfolding 8(1) by (simp_all add: identity_defs map_lookup del: map_of_append split: option.splits)
    have "identity_version_check n = Inr ()"
      using v(1,2)
      by (cases "idn_version x = 0") (auto simp: identity_version_check_def Let_def at_field_def field_def as_unsigned_def optional_field_def look)
    moreover have "at_most n 3 1 = Inr ()" "at_most n 10 2 = Inr ()"
      using at_most_field [OF look(5) identity_subject_kind_code_le] at_most_field [OF look(11) identity_status_code_le] by auto
    moreover have "opt_field n 6 (\<lambda>v. as_oid v 6) = Inr ()" "opt_field n 11 (\<lambda>v. as_oid v 11) = Inr ()"
        "opt_field n 12 (\<lambda>v. as_oid v 12) = Inr ()"
      using 4(1) by (auto simp: identity_wf_def intro: optional_oid_field [OF look(2)] optional_oid_field [OF look(3)]
          optional_oid_field [OF look(4)])
    ultimately have "shape_identity X n = Inr ()"
      using 4(1) identity_keys [OF 4(1) valid look(8,9)] v(3)
      by (simp add: shape_identity_def look at_field_def field_def identity_wf_def fixed_bytes_def as_bytes_def
          stable_id_value_def signatures_field)
    moreover have "map_of ?m 2 \<noteq> None \<longrightarrow> at_field n 2 (\<lambda>v. policy_ref_check v 2) = Inr ()"
      using 4(1) look(1) 8(1) [of 2]
      by (cases "idn_policy_ref x") (auto simp: at_field_def field_def identity_wf_def policy_ref_check_value)
    ultimately show ?case by (simp add: validate_shapes_def)
  qed (auto simp: identity_defs lookup_defs split: option.splits)
qed (simp_all add: identity_defs supports_schema_def)

section \<open>Memberships and key envelopes\<close>

definition group_membership_wf :: "group_membership \<Rightarrow> bool" where
  "group_membership_wf x \<longleftrightarrow> policy_ref_wf (gm_policy_ref x) \<and> length (gm_membership_id x) = 16 \<and> length (gm_group_id x) = 16 \<and>
     (\<forall>i \<in> set_option (gm_previous x). oid_wf i) \<and> length (gm_issuer x) = 16 \<and> oid_wf (gm_activation_operation x) \<and>
     (\<forall>i \<in> set_option (gm_not_after_operation x). oid_wf i) \<and> (\<forall>s \<in> set (gm_signatures x). signature_wf s)"

lemmas group_membership_defs = group_membership_object_def group_membership_unsigned_map_def registry_defs

lemma membership_state_code_le: "membership_state_code c \<le> 1"
  by (cases c) simp_all

interpretation group_membership_schema:
  object_schema X GroupMembershipKind 0 "\<lambda>x. signed_base (group_membership_object x)" group_membership_wf for X
proof (unfold_locales, goal_cases)
  case (4 x)
  then have v: "(gm_version x = 0) \<noteq> (gm_previous x \<noteq> None)" "pn_identifier (gm_principal x) \<noteq> []"
      "registry_signatures (gm_signatures x) ForGroupMembership = Inr ()"
    by (auto simp: group_membership_object_def signed_registry_object_def group_membership_validate_def split: if_splits)
  show ?case
  proof (rule schema_valueI [of _ "group_membership_unsigned_map x @ [(12, signatures_value (gm_signatures x))]"], goal_cases)
    case 3
    show ?case by (auto simp: group_membership_defs lookup_defs split: option.splits)
  next
    case (8 n)
    have look: "map_of n 2 = Some (policy_ref_value (gm_policy_ref x))" "map_of n 3 = Some (stable_id_value (gm_membership_id x))"
        "map_of n 4 = Some (stable_id_value (gm_group_id x))" "map_of n 5 = Some (Unsigned (gm_version x))"
        "map_of n 6 = map_option oid (gm_previous x)" "map_of n 7 = Some (principal_value (gm_principal x))"
        "map_of n 8 = Some (Unsigned (membership_state_code (gm_state x)))" "map_of n 9 = Some (stable_id_value (gm_issuer x))"
        "map_of n 10 = Some (oid (gm_activation_operation x))" "map_of n 11 = map_option oid (gm_not_after_operation x)"
        "map_of n 12 = Some (signatures_value (gm_signatures x))"
      unfolding 8(1) by (simp_all add: group_membership_defs map_lookup del: map_of_append split: option.splits)
    have "version_chain_check n 5 6 = Inr ()" "opt_field n 11 (\<lambda>v. as_oid v 11) = Inr ()"
      using 4(1) v(1) by (auto simp: group_membership_wf_def intro: version_chain_field [OF look(4,5)] optional_oid_field [OF look(10)])
    with at_most_field [OF look(7) membership_state_code_le] show ?case
      using 4(1) v(2,3)
      by (simp add: validate_shapes_def shape_group_membership_def look at_field_def field_def group_membership_wf_def
          embedded field_checks)
  qed (auto simp: group_membership_defs lookup_defs split: option.splits)
qed (simp_all add: group_membership_defs supports_schema_def)

definition key_envelope_set_wf :: "key_envelope_set \<Rightarrow> bool" where
  "key_envelope_set_wf x \<longleftrightarrow> (\<forall>p \<in> set_option (ke_policy_ref x). policy_ref_wf p) \<and>
     (\<forall>r \<in> set (ke_recipients x). length (re_key_id r) = 32)"

lemmas key_envelope_set_defs = key_envelope_set_object_def key_envelope_set_map_def registry_defs

lemma single_codes: "key_envelope_suite_code c = 0" "projection_proof_algorithm_code d = 0" "operation_payload_schema_code e = 0"
  by (cases c, simp) (cases d, simp, cases e, simp)

lemma norm_recipient [simp]: "norm (recipient_envelope_value r) = recipient_envelope_value r"
  and text_wf_recipient [simp]: "text_wf (recipient_envelope_value r)"
  by (simp_all add: recipient_envelope_value_def word_le_nat_alt)

lemma recipient_shape_value:
  "pn_identifier (re_recipient r) \<noteq> [] \<Longrightarrow> re_key_id r \<noteq> replicate 32 0 \<Longrightarrow> re_envelope r \<noteq> [] \<Longrightarrow> length (re_key_id r) = 32 \<Longrightarrow>
    recipient_shape (recipient_envelope_value r) = Inr ()"
  by (auto simp: recipient_shape_def recipient_envelope_value_def exact_map_def as_map_def lookup_defs principal_check_value
      fixed_nonzero_bytes_def fixed_bytes_def all_zero_replicate)

interpretation key_envelope_set_schema:
  object_schema X KeyEnvelopeSetKind 0 "key_envelope_set_object X" key_envelope_set_wf for X
proof (unfold_locales, goal_cases)
  case (4 x)
  then have v: "(ke_epoch x = 0) = (ke_policy_ref x = None)" "ke_recipients x \<noteq> []"
      "\<forall>r \<in> set (ke_recipients x). pn_identifier (re_recipient r) \<noteq> [] \<and> re_key_id r \<noteq> replicate 32 0 \<and> re_envelope r \<noteq> []"
      "sorted_unique_values X (map recipient_envelope_value (ke_recipients x)) ''recipient envelopes must be sorted and unique'' = Inr ()"
    by (auto simp: key_envelope_set_object_def registry_object_def key_envelope_set_validate_def split: if_splits)
  show ?case
  proof (rule schema_valueI [of _ "key_envelope_set_map x"], goal_cases)
    case 3
    show ?case by (auto simp: key_envelope_set_defs lookup_defs split: option.splits)
  next
    case (8 n)
    have look: "map_of n 2 = map_option policy_ref_value (ke_policy_ref x)" "map_of n 3 = Some (Unsigned (ke_epoch x))"
        "map_of n 4 = Some (Unsigned 0)" "map_of n 5 = Some (Array (map recipient_envelope_value (ke_recipients x)))"
      unfolding 8(1) by (simp_all add: single_codes key_envelope_set_defs map_lookup del: map_of_append split: option.splits)
    have "all_ok (map recipient_shape (map recipient_envelope_value (ke_recipients x))) = Inr ()"
      using 4(1) v(3) by (auto simp: all_ok_Inr key_envelope_set_wf_def recipient_shape_value)
    moreover have "ensure_sorted_unique_values X (map recipient_envelope_value (ke_recipients x)) 5 = Inr ()"
      using v(4) sorted_unique_values_Inr by blast
    ultimately have "shape_key_envelope_set X n = Inr ()"
      using v(1,2) by (simp add: shape_key_envelope_set_def look at_field_def field_def optional_field_def as_unsigned_def as_array_def)
    moreover have "map_of (key_envelope_set_map x) 2 \<noteq> None \<longrightarrow> at_field n 2 (\<lambda>v. policy_ref_check v 2) = Inr ()"
      using 4(1) look(1) 8(1) [of 2]
      by (cases "ke_policy_ref x") (auto simp: at_field_def field_def key_envelope_set_wf_def policy_ref_check_value)
    ultimately show ?case by (simp add: validate_shapes_def)
  qed (auto simp: key_envelope_set_defs lookup_defs split: option.splits)
qed (simp_all add: key_envelope_set_defs supports_schema_def)

section \<open>Relations and resolutions\<close>

definition change_relation_wf :: "change_relation \<Rightarrow> bool" where
  "change_relation_wf x \<longleftrightarrow> policy_ref_wf (crl_policy_ref x) \<and>
     (\<forall>i \<in> set (crl_sources x) \<union> set (crl_results x) \<union> set (crl_provenance x). oid_wf i) \<and> oid_wf (crl_creating_operation x)"

lemmas change_relation_defs = change_relation_object_def change_relation_map_def registry_defs

lemma change_relation_kind_code_le: "change_relation_kind_code c \<le> 2"
  by (cases c) simp_all

interpretation change_relation_schema:
  object_schema X ChangeRelationKind 0 change_relation_object change_relation_wf for X
proof (unfold_locales, goal_cases)
  case (4 x)
  then have v: "sorted_unique_ids (crl_sources x) ''relation sources must be sorted and unique'' = Inr ()"
      "sorted_unique_ids (crl_results x) ''relation results must be sorted and unique'' = Inr ()"
      "sorted_unique_ids (crl_provenance x) ''relation provenance must be sorted and unique'' = Inr ()"
      "crl_sources x \<noteq> []" "crl_results x \<noteq> []"
    by (auto simp: change_relation_object_def registry_object_def change_relation_validate_def split: if_splits)
  show ?case
  proof (rule schema_valueI [of _ "change_relation_map x"], goal_cases)
    case (8 n)
    have look: "map_of n 2 = Some (policy_ref_value (crl_policy_ref x))"
        "map_of n 3 = Some (Unsigned (change_relation_kind_code (crl_relation_kind x)))" "map_of n 4 = Some (oid_array (crl_sources x))"
        "map_of n 5 = Some (oid_array (crl_results x))" "map_of n 6 = Some (oid_array (crl_provenance x))"
        "map_of n 7 = Some (oid (crl_creating_operation x))"
      unfolding 8(1) by (simp_all add: change_relation_defs map_lookup del: map_of_append)
    have "sorted_ids_check n 4 True = Inr ()" "sorted_ids_check n 5 True = Inr ()" "sorted_ids_check n 6 False = Inr ()"
      using 4(1) v(4,5) by (auto simp: change_relation_wf_def intro: sorted_ids_field [OF look(3) _ v(1)]
          sorted_ids_field [OF look(4) _ v(2)] sorted_ids_field [OF look(5) _ v(3)])
    with at_most_field [OF look(2) change_relation_kind_code_le] show ?case
      using 4(1) by (simp add: validate_shapes_def shape_change_relation_def look at_field_def field_def change_relation_wf_def embedded)
  qed (auto simp: change_relation_defs lookup_defs)
qed (simp_all add: change_relation_defs supports_schema_def)

definition conflict_resolution_wf :: "conflict_resolution \<Rightarrow> bool" where
  "conflict_resolution_wf x \<longleftrightarrow> policy_ref_wf (crs_policy_ref x) \<and> oid_wf (crs_conflict x) \<and> typed_ref_wf (crs_resolved x) \<and>
     length (crs_resolver x) = 16 \<and> length (crs_device x) = 16 \<and> (\<forall>r \<in> set (crs_provenance x). typed_ref_wf r) \<and>
     (\<forall>s \<in> set (crs_signatures x). signature_wf s)"

lemmas conflict_resolution_defs = conflict_resolution_object_def conflict_resolution_unsigned_map_def registry_defs

lemma resolution_kind_code_le: "resolution_kind_code c \<le> 4"
  by (cases c) simp_all

interpretation conflict_resolution_schema:
  object_schema X ConflictResolutionKind 0 "\<lambda>x. signed_base (conflict_resolution_object X x)" conflict_resolution_wf for X
proof (unfold_locales, goal_cases)
  case (4 x)
  then have v: "sorted_unique_refs X (crs_provenance x) ''resolution provenance must be sorted and unique'' = Inr ()"
      "registry_signatures (crs_signatures x) ForConflictResolution = Inr ()"
    by (auto simp: conflict_resolution_object_def signed_registry_object_def conflict_resolution_validate_def)
  show ?case
  proof (rule schema_valueI [of _ "conflict_resolution_unsigned_map x @ [(10, signatures_value (crs_signatures x))]"], goal_cases)
    case (8 n)
    have look: "map_of n 2 = Some (policy_ref_value (crs_policy_ref x))" "map_of n 3 = Some (oid (crs_conflict x))"
        "map_of n 4 = Some (typed_object_ref_value (crs_resolved x))" "map_of n 5 = Some (stable_id_value (crs_resolver x))"
        "map_of n 6 = Some (stable_id_value (crs_device x))" "map_of n 7 = Some (Unsigned (resolution_kind_code (crs_resolution_kind x)))"
        "map_of n 8 = Some (typed_refs_value (crs_provenance x))" "map_of n 9 = Some (norm (wall_time_value (crs_wall_time x)))"
        "map_of n 10 = Some (signatures_value (crs_signatures x))"
      unfolding 8(1) by (simp_all add: conflict_resolution_defs map_lookup del: map_of_append)
    have "typed_refs_check X n 8 = Inr ()"
      using 4(1) by (auto simp: conflict_resolution_wf_def intro: typed_refs_field [OF look(7) _ v(1)])
    with at_most_field [OF look(6) resolution_kind_code_le] show ?case
      using 4(1) v(2)
      by (simp add: validate_shapes_def shape_conflict_resolution_def look at_field_def field_def conflict_resolution_wf_def
          embedded field_checks)
  qed (auto simp: conflict_resolution_defs lookup_defs)
qed (simp_all add: conflict_resolution_defs supports_schema_def)

section \<open>Evidence\<close>

definition evidence_wf :: "evidence_fields \<Rightarrow> bool" where
  "evidence_wf x \<longleftrightarrow> policy_ref_wf (evd_policy_ref x) \<and> typed_ref_wf (evd_target x) \<and> oid_wf (evd_snapshot x) \<and> oid_wf (evd_ruleset x) \<and>
     length (evd_issuer x) = 16 \<and> length (evd_device x) = 16 \<and> (\<forall>r \<in> set (evd_related x). typed_ref_wf r) \<and>
     (\<forall>s \<in> set (evd_signatures x). signature_wf s)"

lemmas evidence_defs = review_evidence_object_def approval_evidence_object_def policy_decision_evidence_object_def
  evidence_object_def evidence_map_def registry_defs

lemma evidence_outcome_code_le: "evidence_outcome_code c \<le> 3"
  by (cases c) simp_all

text \<open>The checks all four kinds share, on any map that holds the common fields.\<close>

definition evidence_at :: "fields \<Rightarrow> evidence_fields \<Rightarrow> bool" where
  "evidence_at n x \<longleftrightarrow> map_of n 2 = Some (policy_ref_value (evd_policy_ref x)) \<and>
     map_of n 3 = Some (typed_object_ref_value (evd_target x)) \<and> map_of n 4 = Some (oid (evd_snapshot x)) \<and>
     map_of n 5 = Some (oid (evd_ruleset x)) \<and> map_of n 6 = Some (stable_id_value (evd_issuer x)) \<and>
     map_of n 7 = Some (stable_id_value (evd_device x)) \<and> map_of n 8 = Some (Unsigned (evidence_outcome_code (evd_outcome x))) \<and>
     map_of n 9 = Some (Bytes (evd_constraints x)) \<and> map_of n 10 = Some (typed_refs_value (evd_related x)) \<and>
     map_of n 11 = Some (norm (wall_time_value (evd_wall_time x))) \<and> map_of n 12 = Some (signatures_value (evd_signatures x))"

lemma evidence_shape:
  assumes x: "evidence_wf x" and v: "validate_evidence X x (evidence_purpose kind) = Inr ()" and n: "evidence_at n x"
    and ci: "kind = CiEvidenceKind \<Longrightarrow> \<exists>t i p. map_of n 13 = Some (Text t) \<and> t \<noteq> [] \<and> map_of n 14 = Some (oid i) \<and> oid_wf i \<and>
      map_of n 15 = map_option oid p \<and> (\<forall>j \<in> set_option p. oid_wf j)"
  shows "at_field n 2 (\<lambda>v. policy_ref_check v 2) = Inr () \<and> shape_evidence X kind n = Inr ()"
proof -
  have v: "sorted_unique_refs X (evd_related x) ''related evidence references must be sorted and unique'' = Inr ()"
      "validate_canonical_map X (evd_constraints x) ''evidence constraints must be a canonical CBOR map'' = Inr ()"
      "registry_signatures (evd_signatures x) (evidence_purpose kind) = Inr ()"
    using v by (auto simp: validate_evidence_def)
  have "typed_refs_check X n 10 = Inr ()" "at_most n 8 3 = Inr ()"
    using x n typed_refs_field [OF _ _ v(1)] at_most_field [OF _ evidence_outcome_code_le] by (auto simp: evidence_at_def evidence_wf_def)
  moreover have "all_ok (if kind = CiEvidenceKind then
         [and_then (at_field n 13 (\<lambda>v. as_text v 13)) (\<lambda>t. ensure (t \<noteq> []) (Field 13)),
          discard (at_field n 14 (\<lambda>v. as_oid v 14)), opt_field n 15 (\<lambda>v. as_oid v 15)] else []) = Inr ()"
    using ci optional_oid_field by (auto simp: at_field_def field_def as_text_def as_oid_oid)
  ultimately show ?thesis
    using x n v canonical_map_bytes_value [OF v(2)]
    by (simp add: shape_evidence_def evidence_at_def all_ok_append at_field_def field_def evidence_wf_def embedded field_checks)
qed

lemma evidence_value:
  assumes x: "evidence_wf x" and v: "validate_evidence X x (evidence_purpose kind) = Inr ()"
    and kind: "kind \<in> {ReviewEvidenceKind, ApprovalEvidenceKind, PolicyDecisionEvidenceKind}"
  shows "\<exists>m. Inr (Map (evidence_map kind x @ [(12, signatures_value (evd_signatures x))])) = (Inr (Map m) :: (cvalue, object_error) result) \<and>
      distinct (map fst m) \<and> text_wf (Map m) \<and> map_of m 0 = Some (Unsigned (kind_code kind)) \<and> map_of m 1 = Some (Unsigned 0) \<and>
      validate_fields X kind 0 (normed m) = Inr ()"
proof (rule schema_valueI [of _ "evidence_map kind x @ [(12, signatures_value (evd_signatures x))]"], goal_cases)
  case (8 n)
  have "evidence_at n x"
    unfolding evidence_at_def 8(1) by (simp add: evidence_map_def registry_header_def map_lookup del: map_of_append)
  with evidence_shape [OF x v, of n] kind show ?case by (auto simp: validate_shapes_def)
qed (use kind in \<open>auto simp: evidence_map_def registry_header_def lookup_defs\<close>)

interpretation review_evidence_schema:
  object_schema X ReviewEvidenceKind 0 "\<lambda>x. signed_base (review_evidence_object X x)" evidence_wf for X
proof (unfold_locales, goal_cases)
  case (4 x)
  then show ?case using evidence_value [of x X ReviewEvidenceKind]
    by (simp add: review_evidence_object_def evidence_object_def signed_registry_object_def evidence_purpose_def)
qed (simp_all add: evidence_defs supports_schema_def)

interpretation approval_evidence_schema:
  object_schema X ApprovalEvidenceKind 0 "\<lambda>x. signed_base (approval_evidence_object X x)" evidence_wf for X
proof (unfold_locales, goal_cases)
  case (4 x)
  then show ?case using evidence_value [of x X ApprovalEvidenceKind]
    by (simp add: approval_evidence_object_def evidence_object_def signed_registry_object_def evidence_purpose_def)
qed (simp_all add: evidence_defs supports_schema_def)

interpretation policy_decision_evidence_schema:
  object_schema X PolicyDecisionEvidenceKind 0 "\<lambda>x. signed_base (policy_decision_evidence_object X x)" evidence_wf for X
proof (unfold_locales, goal_cases)
  case (4 x)
  then show ?case using evidence_value [of x X PolicyDecisionEvidenceKind]
    by (simp add: policy_decision_evidence_object_def evidence_object_def signed_registry_object_def evidence_purpose_def)
qed (simp_all add: evidence_defs supports_schema_def)

definition ci_evidence_wf :: "ci_evidence \<Rightarrow> bool" where
  "ci_evidence_wf x \<longleftrightarrow> evidence_wf (ci_fields x) \<and> utf8_valid (ci_check_name x) \<and> oid_wf (ci_runner_identity x) \<and>
     (\<forall>i \<in> set_option (ci_build_provenance x). oid_wf i)"

lemmas ci_evidence_defs = ci_evidence_object_def ci_evidence_unsigned_map_def evidence_map_def registry_defs

interpretation ci_evidence_schema:
  object_schema X CiEvidenceKind 0 "\<lambda>x. signed_base (ci_evidence_object X x)" ci_evidence_wf for X
proof (unfold_locales, goal_cases)
  case (4 x)
  let ?u = "ci_evidence_unsigned_map x @ [(12, signatures_value (evd_signatures (ci_fields x)))]"
  from 4 have v: "ci_check_name x \<noteq> []" "validate_evidence X (ci_fields x) (evidence_purpose CiEvidenceKind) = Inr ()"
    by (auto simp: ci_evidence_object_def signed_registry_object_def ci_evidence_validate_def evidence_purpose_def split: if_splits)
  have u: "distinct (map fst ?u)" by (simp add: ci_evidence_defs lookup_defs split: option.splits)
  note look = map_of_sort_key [OF u]
  show ?case
  proof (rule schema_valueI [of _ "sort_key fst ?u"], goal_cases)
    case 3
    show ?case using 4(1) by (auto simp: ci_evidence_wf_def ci_evidence_defs lookup_defs split: option.splits)
  next
    case (8 n)
    have "evidence_at n (ci_fields x)"
      unfolding evidence_at_def 8(1) look by (simp add: ci_evidence_defs map_lookup del: map_of_append split: option.splits)
    moreover have "map_of n 13 = Some (Text (ci_check_name x))" "map_of n 14 = Some (oid (ci_runner_identity x))"
        "map_of n 15 = map_option oid (ci_build_provenance x)"
      unfolding 8(1) look by (simp_all add: ci_evidence_defs text_value_def map_lookup del: map_of_append split: option.splits)
    ultimately show ?case
      using 4(1) v evidence_shape [of "ci_fields x" X CiEvidenceKind n] by (auto simp: validate_shapes_def ci_evidence_wf_def)
  next
    case 2
    show ?case using u by simp
  qed (simp_all add: look ci_evidence_defs lookup_defs split: option.splits)
qed (simp_all add: ci_evidence_defs supports_schema_def)

section \<open>Projections\<close>

definition projection_rules_wf :: "projection_rules \<Rightarrow> bool" where
  "projection_rules_wf x \<longleftrightarrow> policy_ref_wf (prs_policy_ref x) \<and> (\<forall>i \<in> set_option (prs_previous x). oid_wf i)"

lemmas projection_rules_defs = projection_rules_object_def projection_rules_map_def registry_defs

lemma norm_projection_rule [simp]: "norm (projection_rule_value r) = projection_rule_value r"
  and text_wf_projection_rule [simp]: "text_wf (projection_rule_value r)"
  by (simp_all add: projection_rule_value_def)

lemma rule_shape_value:
  "validate_canonical_map X (prl_parameters r) what = Inr () \<Longrightarrow> rule_shape X (projection_rule_value r) = Inr ()"
  using canonical_map_bytes_value [of X "prl_parameters r" what 5]
  by (cases "prl_rule_kind r") (simp_all add: rule_shape_def projection_rule_value_def exact_map_def as_map_def at_field_def
      field_def as_unsigned_def)

interpretation projection_rules_schema:
  object_schema X ProjectionRulesKind 0 "projection_rules_object X" projection_rules_wf for X
proof (unfold_locales, goal_cases)
  case (4 x)
  then have v: "(prs_version x = 0) \<noteq> (prs_previous x \<noteq> None)" "prs_default_fail x"
      "\<forall>r \<in> set (prs_rules x). validate_canonical_map X (prl_parameters r) ''projection rule parameters must be canonical CBOR maps'' = Inr ()"
    by (auto simp: projection_rules_object_def registry_object_def projection_rules_validate_def all_ok_Inr split: if_splits)
  show ?case
  proof (rule schema_valueI [of _ "projection_rules_map x"], goal_cases)
    case 3
    show ?case by (auto simp: projection_rules_defs lookup_defs split: option.splits)
  next
    case (8 n)
    have look: "map_of n 2 = Some (policy_ref_value (prs_policy_ref x))" "map_of n 3 = Some (Unsigned (prs_version x))"
        "map_of n 4 = map_option oid (prs_previous x)" "map_of n 5 = Some (Array (map projection_rule_value (prs_rules x)))"
        "map_of n 6 = Some (Bool (prs_default_fail x))"
      unfolding 8(1) by (simp_all add: projection_rules_defs map_lookup del: map_of_append split: option.splits)
    have "version_chain_check n 3 4 = Inr ()" "all_ok (map (rule_shape X) (map projection_rule_value (prs_rules x))) = Inr ()"
      using 4(1) v(1,3)
      by (auto simp: projection_rules_wf_def all_ok_Inr intro: version_chain_field [OF look(2,3)] rule_shape_value)
    then show ?case
      using 4(1) v(2) by (simp add: validate_shapes_def shape_projection_rules_def look at_field_def field_def as_array_def as_bool_def
          projection_rules_wf_def embedded)
  qed (auto simp: projection_rules_defs lookup_defs split: option.splits)
qed (simp_all add: projection_rules_defs supports_schema_def)

definition projection_proof_wf :: "projection_proof \<Rightarrow> bool" where
  "projection_proof_wf x \<longleftrightarrow> policy_ref_wf (ppf_policy_ref x) \<and> oid_wf (ppf_source_snapshot x) \<and> oid_wf (ppf_rules x) \<and>
     oid_wf (ppf_audience_policy x) \<and> oid_wf (ppf_projected_manifest x)"

lemmas projection_proof_defs = projection_proof_object_def projection_proof_map_def registry_defs

interpretation projection_proof_schema:
  object_schema X ProjectionProofKind 0 projection_proof_object projection_proof_wf for X
proof (unfold_locales, goal_cases)
  case (4 x)
  then have v: "ppf_proof x \<noteq> []"
    by (auto simp: projection_proof_object_def registry_object_def projection_proof_validate_def)
  show ?case
  proof (rule schema_valueI [of _ "projection_proof_map x"], goal_cases)
    case (8 n)
    show ?case
      using 4(1) v by (simp add: 8(1) projection_proof_defs projection_proof_wf_def lookup_defs validate_shapes_def
          shape_projection_proof_def single_codes embedded)
  qed (auto simp: projection_proof_defs lookup_defs)
qed (simp_all add: projection_proof_defs supports_schema_def)

section \<open>Builds, artifacts and payloads\<close>

definition build_provenance_wf :: "build_provenance \<Rightarrow> bool" where
  "build_provenance_wf x \<longleftrightarrow> policy_ref_wf (bp_policy_ref x) \<and> oid_wf (bp_snapshot x) \<and> oid_wf (bp_ruleset x) \<and>
     oid_wf (bp_builder_identity x) \<and> (\<forall>r \<in> set (bp_inputs x). typed_ref_wf r) \<and> (\<forall>i \<in> set (bp_outputs x). oid_wf i) \<and>
     (\<forall>s \<in> set (bp_signatures x). signature_wf s)"

lemmas build_provenance_defs = build_provenance_object_def build_provenance_unsigned_map_def registry_defs

interpretation build_provenance_schema:
  object_schema X BuildProvenanceKind 0 "\<lambda>x. signed_base (build_provenance_object X x)" build_provenance_wf for X
proof (unfold_locales, goal_cases)
  case (4 x)
  then have v: "sorted_unique_refs X (bp_inputs x) ''build inputs must be sorted and unique'' = Inr ()"
      "sorted_unique_ids (bp_outputs x) ''build outputs must be sorted and unique'' = Inr ()"
      "validate_canonical_map X (bp_reproducibility x) ''build reproducibility metadata must be a canonical CBOR map'' = Inr ()"
      "registry_signatures (bp_signatures x) ForBuildProvenance = Inr ()"
    by (auto simp: build_provenance_object_def signed_registry_object_def build_provenance_validate_def)
  show ?case
  proof (rule schema_valueI [of _ "build_provenance_unsigned_map x @ [(10, signatures_value (bp_signatures x))]"], goal_cases)
    case (8 n)
    have look: "map_of n 2 = Some (policy_ref_value (bp_policy_ref x))" "map_of n 3 = Some (oid (bp_snapshot x))"
        "map_of n 4 = Some (oid (bp_ruleset x))" "map_of n 5 = Some (oid (bp_builder_identity x))"
        "map_of n 6 = Some (typed_refs_value (bp_inputs x))" "map_of n 7 = Some (oid_array (bp_outputs x))"
        "map_of n 8 = Some (Bytes (bp_reproducibility x))" "map_of n 9 = Some (norm (wall_time_value (bp_wall_time x)))"
        "map_of n 10 = Some (signatures_value (bp_signatures x))"
      unfolding 8(1) by (simp_all add: build_provenance_defs map_lookup del: map_of_append)
    have "typed_refs_check X n 6 = Inr ()" "sorted_ids_check n 7 False = Inr ()"
      using 4(1) by (auto simp: build_provenance_wf_def intro: typed_refs_field [OF look(5) _ v(1)] sorted_ids_field [OF look(6) _ v(2)])
    with canonical_map_bytes_value [OF v(3)] show ?case
      using 4(1) v(4)
      by (simp add: validate_shapes_def shape_build_provenance_def look at_field_def field_def build_provenance_wf_def
          embedded field_checks)
  qed (auto simp: build_provenance_defs lookup_defs)
qed (simp_all add: build_provenance_defs supports_schema_def)

definition artifact_wf :: "artifact \<Rightarrow> bool" where
  "artifact_wf x \<longleftrightarrow> policy_ref_wf (art_policy_ref x) \<and> (\<forall>t \<in> set_option (art_locator x). utf8_valid t) \<and>
     (\<forall>i \<in> set_option (art_blob x). oid_wf i)"

lemmas artifact_defs = artifact_object_def artifact_map_def registry_defs

lemma artifact_codes_le: "artifact_kind_code c \<le> 3" "artifact_digest_algorithm_code d \<le> 1"
  by (cases c; simp) (cases d; simp)

interpretation artifact_schema: object_schema X ArtifactKind 0 "artifact_object X" artifact_wf for X
proof (unfold_locales, goal_cases)
  case (4 x)
  then have v: "length (art_digest x) = 32" "art_locator x \<noteq> None \<or> art_blob x \<noteq> None"
    by (auto simp: artifact_object_def registry_object_def artifact_validate_def split: if_splits)
  show ?case
  proof (rule schema_valueI [of _ "artifact_map x"], goal_cases)
    case 3
    show ?case using 4(1) by (auto simp: artifact_wf_def artifact_defs lookup_defs split: option.splits)
  next
    case (8 n)
    have look: "map_of n 2 = Some (policy_ref_value (art_policy_ref x))"
        "map_of n 3 = Some (Unsigned (artifact_kind_code (art_artifact_kind x)))"
        "map_of n 4 = Some (Unsigned (artifact_digest_algorithm_code (art_digest_algorithm x)))"
        "map_of n 5 = Some (Bytes (art_digest x))" "map_of n 6 = Some (Unsigned (art_byte_length x))"
        "map_of n 7 = map_option Text (art_locator x)" "map_of n 8 = map_option oid (art_blob x)"
      unfolding 8(1) by (simp_all add: artifact_defs text_value_def map_lookup del: map_of_append split: option.splits)
    have "opt_field n 7 (\<lambda>v. as_text v 7) = Inr ()"
      by (cases "art_locator x") (simp_all add: opt_field_def optional_field_def look as_text_def)
    with at_most_field [OF look(2) artifact_codes_le(1)] at_most_field [OF look(3) artifact_codes_le(2)]
      optional_oid_field [OF look(7)]
    show ?case
      using 4(1) v by (auto simp: validate_shapes_def shape_artifact_def look at_field_def field_def as_bytes_def as_unsigned_def
          optional_field_def artifact_wf_def embedded)
  qed (auto simp: artifact_defs lookup_defs split: option.splits)
qed (simp_all add: artifact_defs supports_schema_def)

definition operation_payload_wf :: "operation_payload \<Rightarrow> bool" where
  "operation_payload_wf x \<longleftrightarrow> policy_ref_wf (opl_policy_ref x) \<and> (\<forall>r \<in> set (opl_references x). typed_ref_wf r)"

lemmas operation_payload_defs = operation_payload_object_def operation_payload_map_def registry_defs

lemma operation_payload_kind_code_le: "operation_payload_kind_code c \<le> 3"
  by (cases c) simp_all

interpretation operation_payload_schema:
  object_schema X OperationPayloadKind 0 "operation_payload_object X" operation_payload_wf for X
proof (unfold_locales, goal_cases)
  case (4 x)
  then have v: "sorted_unique_refs X (opl_references x) ''payload references must be sorted and unique'' = Inr ()"
      "validate_canonical_map X (opl_canonical_payload x) ''operation payload must be a canonical CBOR map'' = Inr ()"
    by (auto simp: operation_payload_object_def registry_object_def operation_payload_validate_def)
  show ?case
  proof (rule schema_valueI [of _ "operation_payload_map x"], goal_cases)
    case (8 n)
    have look: "map_of n 2 = Some (policy_ref_value (opl_policy_ref x))"
        "map_of n 3 = Some (Unsigned (operation_payload_kind_code (opl_payload_kind x)))"
        "map_of n 4 = Some (typed_refs_value (opl_references x))" "map_of n 5 = Some (Unsigned 0)"
        "map_of n 6 = Some (Bytes (opl_canonical_payload x))"
      unfolding 8(1) by (simp_all add: operation_payload_defs single_codes map_lookup del: map_of_append)
    have "typed_refs_check X n 4 = Inr ()"
      using 4(1) by (auto simp: operation_payload_wf_def intro: typed_refs_field [OF look(3) _ v(1)])
    with at_most_field [OF look(2) operation_payload_kind_code_le] canonical_map_bytes_value [OF v(2)] show ?case
      using 4(1) by (simp add: validate_shapes_def shape_operation_payload_def look at_field_def field_def as_unsigned_def
          operation_payload_wf_def embedded)
  qed (auto simp: operation_payload_defs lookup_defs)
qed (simp_all add: operation_payload_defs supports_schema_def)

section \<open>Views\<close>

definition line_generation_wf :: "line_generation \<Rightarrow> bool" where
  "line_generation_wf l \<longleftrightarrow> length (lg_line_id l) = 16 \<and> oid_wf (lg_state l)"

lemma norm_line_generation [simp]: "norm (line_generation_value l) = line_generation_value l"
  and text_wf_line_generation [simp]: "text_wf (line_generation_value l)"
  by (simp_all add: line_generation_value_def word_le_nat_alt)

lemma enc_line_generation:
  "line_generation_wf l \<Longrightarrow> enc (line_generation_value l) =
    [0xa3, 0x00, 0x50] @ lg_line_id l @ [0x01] @ head 0 (lg_generation l) @ [0x02] @ enc (oid (lg_state l))"
  by (simp add: line_generation_wf_def line_generation_value_def stable_id_value_def enc_Map enc_entry_def head_def [of 5]
      head_def [of 0 0] head_def [of 0 1] head_def [of 0 2] head_def [of 2 16] word_le_nat_alt)

lemma encode_line_generation:
  assumes "line_generation_wf l"
  shows "encode X (line_generation_value l) = Inr (enc (line_generation_value l))"
proof -
  have o: "length (to_bytes (lg_state l)) = 35" "length (lg_line_id l) = 16"
    using assms by (simp_all add: line_generation_wf_def length_to_bytes)
  have "length (enc (line_generation_value l)) \<le> 1048576"
    unfolding enc_line_generation [OF assms] using o length_head [of 0 "lg_generation l"]
    by (simp add: oid_def head_def [of 2 35] word_le_nat_alt)
  moreover have "fits X metadata 0 (line_generation_value l)"
    using o by (simp add: line_generation_value_def stable_id_value_def oid_def fits.simps)
  ultimately show ?thesis by (simp add: encode_iff del: enc.simps)
qed

text \<open>Sorted lines with distinct identifiers are sorted by their encodings, because the identifier comes first.\<close>

lemma lines_sorted_by_id:
  assumes "\<not> windows2_any (\<lambda>a b. line_generation_key a \<ge> line_generation_key b) ls" "distinct (map lg_line_id ls)"
    "\<forall>l \<in> set ls. line_generation_wf l"
  shows "\<not> windows2_any (\<lambda>a b. a \<ge> b) (map (\<lambda>l. enc (line_generation_value l)) ls)"
  using assms
proof (induction ls rule: induct_list012)
  case (3 a b ls)
  then have "lg_line_id a < lg_line_id b" by (auto simp: line_generation_key_def not_le less_prod_def')
  then have "enc (line_generation_value a) < enc (line_generation_value b)"
    using 3(5) by (simp add: enc_line_generation less_append_block line_generation_wf_def)
  with 3 show ?case by simp
qed simp_all

lemma view_line_fold:
  assumes "\<forall>l \<in> set ls. line_generation_wf l" "distinct (map lg_line_id ls)" "lg_line_id ` set ls \<inter> S = {}"
  shows "\<exists>T. try_fold view_line_step S (map line_generation_value ls) = Inr T"
  using assms
proof (induction ls arbitrary: S)
  case (Cons l ls)
  then have "view_line_step S (line_generation_value l) = Inr (insert (lg_line_id l) S)"
    by (simp add: view_line_step_def line_generation_value_def line_generation_wf_def exact_map_def as_map_def at_field_def field_def
        as_bytes_def as_unsigned_def stable_id_value_def fixed_bytes_def as_oid_oid)
  moreover have "\<exists>T. try_fold view_line_step (insert (lg_line_id l) S) (map line_generation_value ls) = Inr T"
    using Cons.prems by (intro Cons.IH) auto
  ultimately show ?case by simp
qed simp

definition view_wf :: "view \<Rightarrow> bool" where
  "view_wf x \<longleftrightarrow> policy_ref_wf (vw_policy_ref x) \<and> length (vw_actor x) = 16 \<and> length (vw_device x) = 16 \<and>
     (\<forall>i \<in> set (vw_policies x). oid_wf i) \<and> (\<forall>l \<in> set (vw_lines x). line_generation_wf l) \<and> oid_wf (vw_projected_manifest x) \<and>
     (\<forall>s \<in> set (vw_signatures x). signature_wf s)"

lemmas view_defs = view_object_def view_unsigned_map_def registry_defs

lemma view_lines:
  assumes "view_wf x" "view_validate X x = Inr ()"
  shows "\<exists>T. try_fold view_line_step {} (map line_generation_value (vw_lines x)) = Inr T"
    "ensure_sorted_unique_values X (map line_generation_value (vw_lines x)) 6 = Inr ()"
proof -
  have v: "\<not> windows2_any (\<lambda>a b. line_generation_key a \<ge> line_generation_key b) (vw_lines x)" "distinct (map lg_line_id (vw_lines x))"
    and wf: "\<forall>l \<in> set (vw_lines x). line_generation_wf l"
    using assms by (auto simp: view_validate_def view_wf_def split: if_splits)
  show "\<exists>T. try_fold view_line_step {} (map line_generation_value (vw_lines x)) = Inr T"
    by (rule view_line_fold [OF wf v(2)]) simp
  have "map (encode X) (map line_generation_value (vw_lines x)) = map Inr (map (\<lambda>l. enc (line_generation_value l)) (vw_lines x))"
    using wf by (simp add: encode_line_generation)
  then show "ensure_sorted_unique_values X (map line_generation_value (vw_lines x)) 6 = Inr ()"
    unfolding ensure_sorted_unique_values_def
    using lines_sorted_by_id [OF v wf] by (simp only: collect_results_Inr [THEN iffD2, OF refl]) simp
qed

interpretation view_schema: object_schema X ViewKind 0 "\<lambda>x. signed_base (view_object X x)" view_wf for X
proof (unfold_locales, goal_cases)
  case (4 x)
  then have valid: "view_validate X x = Inr ()" by (simp add: view_object_def signed_registry_object_def)
  then have v: "sorted_unique_ids (vw_policies x) ''view policies must be sorted and unique'' = Inr ()"
      "validate_canonical_map X (vw_validity_constraints x) ''view validity constraints must be a canonical CBOR map'' = Inr ()"
      "registry_signatures (vw_signatures x) ForView = Inr ()"
    by (auto simp: view_validate_def split: if_splits)
  show ?case
  proof (rule schema_valueI [of _ "view_unsigned_map x @ [(9, signatures_value (vw_signatures x))]"], goal_cases)
    case (8 n)
    have look: "map_of n 2 = Some (policy_ref_value (vw_policy_ref x))" "map_of n 3 = Some (stable_id_value (vw_actor x))"
        "map_of n 4 = Some (stable_id_value (vw_device x))" "map_of n 5 = Some (oid_array (vw_policies x))"
        "map_of n 6 = Some (Array (map line_generation_value (vw_lines x)))" "map_of n 7 = Some (oid (vw_projected_manifest x))"
        "map_of n 8 = Some (Bytes (vw_validity_constraints x))" "map_of n 9 = Some (signatures_value (vw_signatures x))"
      unfolding 8(1) by (simp_all add: view_defs map_lookup del: map_of_append)
    have "sorted_ids_check n 5 False = Inr ()"
      using 4(1) by (auto simp: view_wf_def intro: sorted_ids_field [OF look(4) _ v(1)])
    with canonical_map_bytes_value [OF v(2)] view_lines [OF 4(1) valid] show ?case
      using 4(1) v(3)
      by (auto simp: validate_shapes_def shape_view_def look at_field_def field_def as_array_def view_wf_def embedded field_checks)
  qed (auto simp: view_defs lookup_defs)
qed (simp_all add: view_defs supports_schema_def)

section \<open>Migrations and rulesets\<close>

definition migration_wf :: "migration \<Rightarrow> bool" where
  "migration_wf x \<longleftrightarrow> policy_ref_wf (mg_policy_ref x) \<and> (\<forall>m \<in> set (mg_mappings x). oid_wf (im_old m) \<and> oid_wf (im_new m)) \<and>
     oid_wf (mg_tool_identity x) \<and> (\<forall>s \<in> set (mg_signatures x). signature_wf s)"

lemmas migration_defs = migration_object_def migration_unsigned_map_def registry_defs

lemma norm_id_mapping [simp]: "norm (id_mapping_value m) = id_mapping_value m"
  and text_wf_id_mapping [simp]: "text_wf (id_mapping_value m)"
  by (simp_all add: id_mapping_value_def)

lemma mapping_fold:
  assumes "\<forall>m \<in> set ms. oid_wf (im_old m) \<and> oid_wf (im_new m)" "distinct (map im_old ms)" "distinct (map im_new ms)"
    "im_old ` set ms \<inter> A = {}" "im_new ` set ms \<inter> B = {}"
  shows "\<exists>T. try_fold migration_step (A, B) (map id_mapping_value ms) = Inr T"
  using assms
proof (induction ms arbitrary: A B)
  case (Cons m ms)
  then have "migration_step (A, B) (id_mapping_value m) = Inr (insert (im_old m) A, insert (im_new m) B)"
    by (simp add: migration_step_def id_mapping_value_def exact_map_def as_map_def at_field_def field_def as_oid_oid)
  moreover have "\<exists>T. try_fold migration_step (insert (im_old m) A, insert (im_new m) B) (map id_mapping_value ms) = Inr T"
    using Cons.prems by (intro Cons.IH) auto
  ultimately show ?case by simp
qed simp

lemma format_codes: "\<not> object_id_format_code c > 1" "object_id_format_code c = object_id_format_code d \<longleftrightarrow> c = d"
  by (cases c; simp) (cases c; cases d; simp)

interpretation migration_schema: object_schema X MigrationKind 0 "\<lambda>x. signed_base (migration_object X x)" migration_wf for X
proof (unfold_locales, goal_cases)
  case (4 x)
  then have v: "mg_source_format x \<noteq> mg_target_format x" "mg_mappings x \<noteq> []"
      "sorted_unique_values X (map id_mapping_value (mg_mappings x)) ''migration mappings must be sorted and unique'' = Inr ()"
      "distinct (map im_old (mg_mappings x))" "distinct (map im_new (mg_mappings x))"
      "registry_signatures (mg_signatures x) ForMigration = Inr ()"
    by (auto simp: migration_object_def signed_registry_object_def migration_validate_def split: if_splits)
  show ?case
  proof (rule schema_valueI [of _ "migration_unsigned_map x @ [(8, signatures_value (mg_signatures x))]"], goal_cases)
    case (8 n)
    have look: "map_of n 2 = Some (policy_ref_value (mg_policy_ref x))"
        "map_of n 3 = Some (Unsigned (object_id_format_code (mg_source_format x)))"
        "map_of n 4 = Some (Unsigned (object_id_format_code (mg_target_format x)))"
        "map_of n 5 = Some (Array (map id_mapping_value (mg_mappings x)))" "map_of n 6 = Some (oid (mg_tool_identity x))"
        "map_of n 7 = Some (norm (wall_time_value (mg_wall_time x)))" "map_of n 8 = Some (signatures_value (mg_signatures x))"
      unfolding 8(1) by (simp_all add: migration_defs map_lookup del: map_of_append)
    have "\<exists>T. try_fold migration_step ({}, {}) (map id_mapping_value (mg_mappings x)) = Inr T"
      by (rule mapping_fold) (use 4(1) v(4,5) in \<open>auto simp: migration_wf_def\<close>)
    with v(3) [unfolded sorted_unique_values_Inr [of X _ _ 5]] show ?case
      using 4(1) v(1,2,6)
      by (auto simp: validate_shapes_def shape_migration_def look at_field_def field_def as_array_def as_unsigned_def format_codes
          migration_wf_def embedded field_checks)
  qed (auto simp: migration_defs lookup_defs)
qed (simp_all add: migration_defs supports_schema_def)

definition ruleset_wf :: "ruleset \<Rightarrow> bool" where
  "ruleset_wf x \<longleftrightarrow> policy_ref_wf (rls_policy_ref x) \<and> (\<forall>i \<in> set_option (rls_previous x). oid_wf i)"

lemmas ruleset_defs = ruleset_object_def ruleset_map_def registry_defs

lemma ruleset_kind_code_le: "ruleset_kind_code c \<le> 4"
  by (cases c) simp_all

lemma ruleset_kinds_fold:
  assumes "\<not> windows2_any (\<lambda>a b. kind_code a \<ge> kind_code b) ks" "case p of None \<Rightarrow> True | Some q \<Rightarrow> ks = [] \<or> q < kind_code (hd ks)"
    "\<forall>k \<in> set ks. k \<in> {ReviewEvidenceKind, ApprovalEvidenceKind, CiEvidenceKind, PolicyDecisionEvidenceKind}"
  shows "\<exists>T. try_fold ruleset_kind_step p (map (\<lambda>k. Unsigned (kind_code k)) ks) = Inr T"
  using assms
proof (induction ks arbitrary: p)
  case (Cons k ks)
  then have "ruleset_kind_step p (Unsigned (kind_code k)) = Inr (Some (kind_code k))"
    by (auto simp: ruleset_kind_step_def as_unsigned_def not_le split: option.splits)
  moreover have "\<exists>T. try_fold ruleset_kind_step (Some (kind_code k)) (map (\<lambda>k. Unsigned (kind_code k)) ks) = Inr T"
    using Cons.prems by (intro Cons.IH) (cases ks; simp add: not_le)+
  ultimately show ?case by simp
qed simp

interpretation ruleset_schema: object_schema X RulesetKind 0 "ruleset_object X" ruleset_wf for X
proof (unfold_locales, goal_cases)
  case (4 x)
  then have v: "(rls_version x = 0) \<noteq> (rls_previous x \<noteq> None)"
      "\<not> windows2_any (\<lambda>a b. kind_code a \<ge> kind_code b) (rls_required_evidence_kinds x)"
      "\<forall>k \<in> set (rls_required_evidence_kinds x). k \<in> {ReviewEvidenceKind, ApprovalEvidenceKind, CiEvidenceKind, PolicyDecisionEvidenceKind}"
      "validate_canonical_map X (rls_constraints x) ''ruleset constraints must be a canonical CBOR map'' = Inr ()"
    unfolding ruleset_object_def registry_object_def ruleset_validate_def by (simp_all split: if_splits)
  show ?case
  proof (rule schema_valueI [of _ "ruleset_map x"], goal_cases)
    case 3
    show ?case by (auto simp: ruleset_defs lookup_defs split: option.splits)
  next
    case (8 n)
    have look: "map_of n 2 = Some (policy_ref_value (rls_policy_ref x))"
        "map_of n 3 = Some (Unsigned (ruleset_kind_code (rls_ruleset_kind x)))" "map_of n 4 = Some (Unsigned (rls_version x))"
        "map_of n 5 = map_option oid (rls_previous x)" "map_of n 6 = Some (Bytes (rls_constraints x))"
        "map_of n 7 = Some (Array (map (\<lambda>k. Unsigned (kind_code k)) (rls_required_evidence_kinds x)))"
      unfolding 8(1) by (simp_all add: ruleset_defs map_lookup del: map_of_append split: option.splits)
    have "version_chain_check n 4 5 = Inr ()"
      using 4(1) v(1) by (auto simp: ruleset_wf_def intro: version_chain_field [OF look(3,4)])
    with at_most_field [OF look(2) ruleset_kind_code_le] canonical_map_bytes_value [OF v(4)]
      ruleset_kinds_fold [OF v(2) _ v(3), of None]
    show ?case
      using 4(1) by (auto simp: validate_shapes_def shape_ruleset_def look at_field_def field_def as_array_def ruleset_wf_def embedded)
  qed (auto simp: ruleset_defs lookup_defs split: option.splits)
qed (simp_all add: ruleset_defs supports_schema_def)

end
