(* ===== verification/Catalog.thy ===== *)
theory Catalog
  imports Metadata_Schemas Extended_Schemas
begin

text \<open>
  All logical objects of \<open>object.rs\<close> and \<open>extended.rs\<close> as one type, with the facts of their schema contracts stated
  for every object at once, and the soundness of verified decoding.
\<close>

datatype logical_object =
    LChunk chunk
  | LBlob blob
  | LManifest manifest
  | LSubproject subproject
  | LSecretRef secret_ref
  | LSnapshot snapshot
  | LChangeRevision change_revision
  | LLineState line_state
  | LConflict conflict
  | LOperation operation
  | LOperationV1 operation_v1
  | LMarker marker
  | LRelease release
  | LPolicy policy
  | LRepositoryRoot repository_root
  | LIdentity identity
  | LGroupMembership group_membership
  | LKeyEnvelopeSet key_envelope_set
  | LChangeRelation change_relation
  | LConflictResolution conflict_resolution
  | LReviewEvidence evidence_fields
  | LApprovalEvidence evidence_fields
  | LCiEvidence ci_evidence
  | LPolicyDecisionEvidence evidence_fields
  | LProjectionRules projection_rules
  | LProjectionProof projection_proof
  | LBuildProvenance build_provenance
  | LArtifact artifact
  | LOperationPayload operation_payload
  | LView view
  | LMigration migration
  | LRuleset ruleset

text \<open>The trait instance of an object and the invariants of its Rust type.\<close>

primrec logical :: "externals \<Rightarrow> logical_object \<Rightarrow> canonical_object" where
  "logical X (LChunk x) = chunk_object x"
| "logical X (LBlob x) = blob_object X x"
| "logical X (LManifest x) = manifest_object X x"
| "logical X (LSubproject x) = subproject_object X x"
| "logical X (LSecretRef x) = secret_ref_object X x"
| "logical X (LSnapshot x) = snapshot_object x"
| "logical X (LChangeRevision x) = change_revision_object x"
| "logical X (LLineState x) = signed_base (line_state_object X x)"
| "logical X (LConflict x) = conflict_object X x"
| "logical X (LOperation x) = signed_base (operation_object X x)"
| "logical X (LOperationV1 x) = signed_base (operation_v1_object X x)"
| "logical X (LMarker x) = signed_base (marker_object x)"
| "logical X (LRelease x) = signed_base (release_object X x)"
| "logical X (LPolicy x) = signed_base (policy_object x)"
| "logical X (LRepositoryRoot x) = signed_base (repository_root_object x)"
| "logical X (LIdentity x) = signed_base (identity_object X x)"
| "logical X (LGroupMembership x) = signed_base (group_membership_object x)"
| "logical X (LKeyEnvelopeSet x) = key_envelope_set_object X x"
| "logical X (LChangeRelation x) = change_relation_object x"
| "logical X (LConflictResolution x) = signed_base (conflict_resolution_object X x)"
| "logical X (LReviewEvidence x) = signed_base (review_evidence_object X x)"
| "logical X (LApprovalEvidence x) = signed_base (approval_evidence_object X x)"
| "logical X (LCiEvidence x) = signed_base (ci_evidence_object X x)"
| "logical X (LPolicyDecisionEvidence x) = signed_base (policy_decision_evidence_object X x)"
| "logical X (LProjectionRules x) = projection_rules_object X x"
| "logical X (LProjectionProof x) = projection_proof_object x"
| "logical X (LBuildProvenance x) = signed_base (build_provenance_object X x)"
| "logical X (LArtifact x) = artifact_object X x"
| "logical X (LOperationPayload x) = operation_payload_object X x"
| "logical X (LView x) = signed_base (view_object X x)"
| "logical X (LMigration x) = signed_base (migration_object X x)"
| "logical X (LRuleset x) = ruleset_object X x"

primrec logical_wf :: "externals \<Rightarrow> logical_object \<Rightarrow> bool" where
  "logical_wf X (LChunk x) = chunk_wf x"
| "logical_wf X (LBlob x) = blob_wf x"
| "logical_wf X (LManifest x) = manifest_wf x"
| "logical_wf X (LSubproject x) = subproject_wf x"
| "logical_wf X (LSecretRef x) = secret_ref_wf x"
| "logical_wf X (LSnapshot x) = snapshot_wf x"
| "logical_wf X (LChangeRevision x) = change_revision_wf x"
| "logical_wf X (LLineState x) = line_state_wf x"
| "logical_wf X (LConflict x) = conflict_wf X x"
| "logical_wf X (LOperation x) = operation_wf x"
| "logical_wf X (LOperationV1 x) = operation_v1_wf x"
| "logical_wf X (LMarker x) = marker_wf x"
| "logical_wf X (LRelease x) = release_wf x"
| "logical_wf X (LPolicy x) = policy_wf x"
| "logical_wf X (LRepositoryRoot x) = repository_root_wf x"
| "logical_wf X (LIdentity x) = identity_wf x"
| "logical_wf X (LGroupMembership x) = group_membership_wf x"
| "logical_wf X (LKeyEnvelopeSet x) = key_envelope_set_wf x"
| "logical_wf X (LChangeRelation x) = change_relation_wf x"
| "logical_wf X (LConflictResolution x) = conflict_resolution_wf x"
| "logical_wf X (LReviewEvidence x) = evidence_wf x"
| "logical_wf X (LApprovalEvidence x) = evidence_wf x"
| "logical_wf X (LCiEvidence x) = ci_evidence_wf x"
| "logical_wf X (LPolicyDecisionEvidence x) = evidence_wf x"
| "logical_wf X (LProjectionRules x) = projection_rules_wf x"
| "logical_wf X (LProjectionProof x) = projection_proof_wf x"
| "logical_wf X (LBuildProvenance x) = build_provenance_wf x"
| "logical_wf X (LArtifact x) = artifact_wf x"
| "logical_wf X (LOperationPayload x) = operation_payload_wf x"
| "logical_wf X (LView x) = view_wf x"
| "logical_wf X (LMigration x) = migration_wf x"
| "logical_wf X (LRuleset x) = ruleset_wf x"

lemmas schema_decode_encoded =
  chunk_schema.decode_encoded blob_schema.decode_encoded manifest_schema.decode_encoded
  subproject_schema.decode_encoded secret_ref_schema.decode_encoded snapshot_schema.decode_encoded
  change_revision_schema.decode_encoded line_state_schema.decode_encoded conflict_schema.decode_encoded
  operation_schema.decode_encoded operation_v1_schema.decode_encoded marker_schema.decode_encoded
  release_schema.decode_encoded policy_schema.decode_encoded
  repository_root_schema.decode_encoded identity_schema.decode_encoded group_membership_schema.decode_encoded
  key_envelope_set_schema.decode_encoded change_relation_schema.decode_encoded conflict_resolution_schema.decode_encoded
  review_evidence_schema.decode_encoded approval_evidence_schema.decode_encoded ci_evidence_schema.decode_encoded
  policy_decision_evidence_schema.decode_encoded projection_rules_schema.decode_encoded projection_proof_schema.decode_encoded
  build_provenance_schema.decode_encoded artifact_schema.decode_encoded operation_payload_schema.decode_encoded
  view_schema.decode_encoded migration_schema.decode_encoded ruleset_schema.decode_encoded

lemmas schema_decode_identified =
  chunk_schema.decode_identified blob_schema.decode_identified manifest_schema.decode_identified
  subproject_schema.decode_identified secret_ref_schema.decode_identified snapshot_schema.decode_identified
  change_revision_schema.decode_identified line_state_schema.decode_identified conflict_schema.decode_identified
  operation_schema.decode_identified operation_v1_schema.decode_identified marker_schema.decode_identified
  release_schema.decode_identified policy_schema.decode_identified
  repository_root_schema.decode_identified identity_schema.decode_identified group_membership_schema.decode_identified
  key_envelope_set_schema.decode_identified change_relation_schema.decode_identified conflict_resolution_schema.decode_identified
  review_evidence_schema.decode_identified approval_evidence_schema.decode_identified ci_evidence_schema.decode_identified
  policy_decision_evidence_schema.decode_identified projection_rules_schema.decode_identified projection_proof_schema.decode_identified
  build_provenance_schema.decode_identified artifact_schema.decode_identified operation_payload_schema.decode_identified
  view_schema.decode_identified migration_schema.decode_identified ruleset_schema.decode_identified

lemma limits_wf_object [simp]: "limits_wf (restricted_by L (object_limits k))"
  by (simp add: object_limits_def)

lemma object_encode_iff:
  assumes "limits_wf L"
  shows "object_encode_with_limits X obj L = Inr bs \<longleftrightarrow> co_validate obj = Inr () \<and>
    (\<exists>v. co_value obj = Inr v \<and> fits X L 0 v \<and> length (enc v) \<le> max_bytes L \<and> bs = enc v)"
  by (auto simp: object_encode_with_limits_def and_then_Inr map_err_Inr encode_with_limits_iff [OF assms])

text \<open>
  C10: Objects round-trip through admission. Under the caller's limits capped by the profile of its kind, an
  object whose fields have their types encodes exactly when it validates and its canonical value fits those
  limits. \<open>AnyObject::decode\<close> then accepts the bytes under the caller's limits and returns the variant of
  the object's kind, its schema version and its canonical value in normal form: no object that a client can
  build and encode is refused by the separately written field and shape checks.
\<close>

theorem encoded_object_admitted:
  assumes "logical_wf X obj"
  shows "(object_encode_with_limits X (logical X obj) (restricted_by L (object_limits (co_kind (logical X obj)))) = Inr bs \<longleftrightarrow>
      co_validate (logical X obj) = Inr () \<and>
      (\<exists>v. co_value (logical X obj) = Inr v \<and> fits X (restricted_by L (object_limits (co_kind (logical X obj)))) 0 v \<and>
        length (enc v) \<le> max_bytes (restricted_by L (object_limits (co_kind (logical X obj)))) \<and> bs = enc v)) \<and>
    (object_encode_with_limits X (logical X obj) (restricted_by L (object_limits (co_kind (logical X obj)))) = Inr bs \<longrightarrow>
      (\<exists>a. any_decode X bs L = Inr a \<and> admitted_as (logical X obj) a))"
proof (intro conjI impI object_encode_iff limits_wf_object)
  assume "object_encode_with_limits X (logical X obj) (restricted_by L (object_limits (co_kind (logical X obj)))) = Inr bs"
  with assms show "\<exists>a. any_decode X bs L = Inr a \<and> admitted_as (logical X obj) a"
    by (cases obj) (simp_all only: logical.simps logical_wf.simps schema_decode_encoded)
qed

definition sample_policy_ref :: policy_ref where
  "sample_policy_ref = \<lparr>pr_policy_id = replicate 16 1, pr_version = ObjectId 0 Sha256 (replicate 32 2)\<rparr>"

definition sample_chunk :: chunk where
  "sample_chunk = \<lparr>ck_policy_ref = sample_policy_ref, ck_bytes = [1, 2, 3]\<rparr>"

lemma sample_chunk_ok: "chunk_wf sample_chunk" "chunk_validate sample_chunk = Inr ()"
  by (simp_all add: chunk_wf_def policy_ref_wf_def oid_wf_def sample_chunk_def sample_policy_ref_def
      chunk_validate_def MAX_CHUNK_BYTES_def BULK_MAX_BYTE_STRING_BYTES_def)

theorem encoded_object_admitted_witness:
  "\<exists>a. any_decode sample_externals (enc (Map (chunk_map sample_chunk))) bulk = Inr a \<and>
    admitted_as (logical sample_externals (LChunk sample_chunk)) a"
proof -
  have "logical_wf sample_externals (LChunk sample_chunk)" using sample_chunk_ok by simp
  moreover have "object_encode_with_limits sample_externals (logical sample_externals (LChunk sample_chunk))
      (restricted_by bulk (object_limits (co_kind (logical sample_externals (LChunk sample_chunk))))) = Inr (enc (Map (chunk_map sample_chunk)))"
    using sample_chunk_ok chunk_encode_eq [OF sample_chunk_ok, of sample_externals]
    by (simp add: object_encode_def object_limits_def chunk_object_def del: enc.simps)
  ultimately show ?thesis
    using encoded_object_admitted [of sample_externals "LChunk sample_chunk" bulk "enc (Map (chunk_map sample_chunk))"]
    by (simp del: logical.simps enc.simps)
qed

lemma logical_identified:
  assumes "logical_wf X obj" "object_identity X (logical X obj) alg = Inr i"
  shows "\<exists>bs a. object_encode X (logical X obj) = Inr bs \<and>
    any_decode_verified X bs i (object_limits (co_kind (logical X obj))) = Inr a \<and> admitted_as (logical X obj) a"
  using assms
  by (cases obj) (simp_all only: logical.simps logical_wf.simps schema_decode_identified)

text \<open>
  C11: Identifiers agree. The identifier a client computes for a valid object is the one under which
  the decoder verifies the object's encoding.
\<close>

theorem object_identity_verifies:
  assumes "logical_wf X obj" "object_identity X (logical X obj) alg = Inr i"
  shows "\<exists>bs a. object_encode X (logical X obj) = Inr bs \<and>
    any_decode_verified X bs i (object_limits (co_kind (logical X obj))) = Inr a \<and> admitted_as (logical X obj) a"
  using assms by (rule logical_identified)

theorem object_identity_verifies_witness:
  "\<exists>i. object_identity sample_externals (logical sample_externals (LChunk sample_chunk)) Sha256 = Inr i \<and>
    (\<exists>bs a. object_encode sample_externals (logical sample_externals (LChunk sample_chunk)) = Inr bs \<and>
      any_decode_verified sample_externals bs i
        (object_limits (co_kind (logical sample_externals (LChunk sample_chunk)))) = Inr a \<and>
      admitted_as (logical sample_externals (LChunk sample_chunk)) a)"
  using chunk_encodes [OF sample_chunk_ok, of sample_externals Sha256]
    object_identity_verifies [of sample_externals "LChunk sample_chunk" Sha256] sample_chunk_ok
  by auto

text \<open>
  Verified decoding binds bytes to identifiers. If \<open>decode_verified\<close> accepts, the expected
  identifier is the digest of exactly the given bytes under the kind and schema of the returned
  object; and every object that decodes verifies under that identifier.
\<close>

theorem decode_verified_iff:
  "any_decode_verified X bs expected L = Inr a \<longleftrightarrow>
    any_decode X bs L = Inr a \<and>
    expected = from_payload X (kind_code (do_kind (decoded a))) (do_schema_version (decoded a)) bs (algorithm expected)"
  using any_id_decoded [of X bs L a "algorithm expected"] by (auto simp: any_decode_verified_def)

lemma admitted_decodes:
  assumes "admitted X L k v m"
  shows "decode_canonical X (enc (Map m)) bulk = Inr (Map m)"
proof -
  from assms have "fits X (restricted_by L bulk) 0 (Map m)"
      "length (enc (Map m)) \<le> max_bytes (restricted_by L bulk)"
    using fits_kind_bulk max_bytes_kind [of L k] by (auto simp: admitted_def simp del: enc.simps)
  then have "fits X bulk 0 (Map m)" "length (enc (Map m)) \<le> max_bytes bulk"
    by (simp_all add: fits_restricted, auto simp: restricted_by_def min_usize_def split: if_splits)
  with assms show ?thesis
    by (simp add: decode_canonical_iff canonical_at_def admitted_def del: enc.simps norm.simps(3) text_wf.simps)
qed

text \<open>
  C31: Admission is unambiguous. Under any two limits the same bytes decode to the same object, and
  different bytes never decode to the same object.
\<close>

theorem any_decode_unambiguous:
  assumes "any_decode X bs L = Inr a" "any_decode X bs' L' = Inr a'"
  shows "bs = bs' \<longleftrightarrow> a = a'"
proof -
  from assms(1) obtain k v m where m: "admitted X L k v m" "bs = enc (Map m)"
      "a = any_object_of k \<lparr>do_kind = k, do_schema_version = v, do_value = Map m\<rparr>"
    unfolding any_decode_iff by blast
  from assms(2) obtain k' v' m' where m': "admitted X L' k' v' m'" "bs' = enc (Map m')"
      "a' = any_object_of k' \<lparr>do_kind = k', do_schema_version = v', do_value = Map m'\<rparr>"
    unfolding any_decode_iff by blast
  show ?thesis
  proof
    assume eq: "bs = bs'"
    have "Map m = Map m'"
      using admitted_decodes [OF m(1)] admitted_decodes [OF m'(1)] m(2) m'(2) eq by (metis sum.inject(2))
    with m(1) m'(1) have "k = k'" "v = v'"
      by (simp_all add: admitted_def kind_code_inj)
    with \<open>Map m = Map m'\<close> m(3) m'(3) show "a = a'" by simp
  next
    assume "a = a'"
    with m(3) m'(3) have "Map m = Map m'"
      by (metis decoded_any_object_of decoded_object.select_convs(3))
    with m(2) m'(2) show "bs = bs'" by simp
  qed
qed

theorem any_decode_unambiguous_witness:
  "\<exists>a a'. any_decode sample_externals (enc (Map (chunk_map sample_chunk))) bulk = Inr a \<and>
    any_decode sample_externals (enc (Map (chunk_map sample_chunk))) bulk = Inr a' \<and>
    (enc (Map (chunk_map sample_chunk)) = enc (Map (chunk_map sample_chunk)) \<longleftrightarrow> a = a')"
proof -
  obtain a where "any_decode sample_externals (enc (Map (chunk_map sample_chunk))) bulk = Inr a"
    using chunk_schema.decode_encoded [of sample_chunk sample_externals bulk] sample_chunk_ok
      chunk_encode_eq [OF sample_chunk_ok, of sample_externals]
    by (auto simp: object_encode_def object_limits_def chunk_object_def simp del: enc.simps)
  with any_decode_unambiguous [OF this this] show ?thesis by blast
qed

section \<open>An unchecked field\<close>

text \<open>
  The admission of a release does not look at its optional field 11, the release notes: any value,
  present or absent, is treated alike.
\<close>

lemma at_field_lookup: "map_of m k = map_of m' k \<Longrightarrow> at_field m k f = at_field m' k f"
  by (simp add: at_field_def field_def)

lemma release_notes_unchecked:
  assumes "\<And>k. k \<noteq> 11 \<Longrightarrow> map_of m k = map_of m' k"
  shows "shape_release X m = shape_release X m'"
  by (simp add: shape_release_def at_field_lookup [OF assms])

end
