(* ===== verification/Roles.thy ===== *)
theory Roles
  imports Main
begin

text \<open>
  The closed enumeration \<open>ReferenceRole\<close> of \<open>crates/rgit-objects/src/decode.rs\<close>: the schema field
  that gives an object reference its meaning, with the source's variants under the prefix \<open>Role\<close>.
\<close>

datatype (plugins only:) reference_role =
    RoleObjectPolicy | RoleManifestEntryPolicy | RoleReviewPolicy | RoleLandingPolicy
    | RoleIntegrationPolicy | RoleApprovalPolicy | RoleReleasePolicy | RoleVisibilityPolicy
    | RoleAudiencePolicy | RoleBlobChunk | RoleManifestEntryTarget | RoleSnapshotRootManifest
    | RoleSnapshotParent | RoleSnapshotMessage | RoleChangePreviousRevision | RoleChangeTitle
    | RoleChangeDescription | RoleChangeBaseSnapshot | RoleChangeCurrentSnapshot
    | RoleLineHeadSnapshot | RoleLinePreviousState | RoleLineTransactionOperation
    | RoleSubprojectNativeProjection | RoleSecretDevelopmentValue | RoleConflictBase
    | RoleConflictLeft | RoleConflictRight | RoleOperationParent | RoleOperationBefore
    | RoleOperationAfter | RoleOperationLinePolicy | RoleOperationLineHeadSnapshot
    | RoleOperationLinePreviousState | RoleOperationLineIntegrationPolicy
    | RoleOperationLineApprovalPolicy | RoleOperationLineReleasePolicy
    | RoleOperationLineVisibilityPolicy | RoleOperationInversePayload
    | RoleOperationPublicEnvelope | RoleOperationPrivatePayload | RoleMarkerTarget
    | RoleReleaseSourceSnapshot | RoleReleaseProjectionRules | RoleReleaseProjectionProof
    | RoleReleaseProjectedRoot | RoleReleaseNotes | RoleReleaseBuildProvenance
    | RoleReleaseArtifact | RoleReleasePolicyEvidence | RolePolicyPreviousVersion
    | RolePolicyDeclassificationRequirement | RolePolicyKeyEnvelopeSet | RoleRepositoryRootPolicy
    | RoleRepositoryTrustedIdentity | RoleRepositoryBootstrapKeyEnvelopeSet
    | RoleRepositoryGenesisOperation | RoleRepositoryInitialLineState | RoleIdentityPrevious
    | RoleIdentityKeyNotBefore | RoleIdentityKeyNotAfter | RoleIdentityActivationOperation
    | RoleIdentityNotAfterOperation | RoleMembershipPrevious | RoleMembershipActivationOperation
    | RoleMembershipNotAfterOperation | RoleChangeRelationSource | RoleChangeRelationResult
    | RoleChangeRelationProvenance | RoleChangeRelationOperation | RoleResolutionConflict
    | RoleResolutionResult | RoleResolutionProvenance | RoleEvidenceTarget | RoleEvidenceSnapshot
    | RoleEvidenceRuleset | RoleEvidenceRelated | RoleCiRunnerIdentity | RoleCiBuildProvenance
    | RoleProjectionRulesPrevious | RoleProjectionSourceSnapshot | RoleProjectionRules
    | RoleProjectionAudiencePolicy | RoleProjectionManifest | RoleBuildSnapshot | RoleBuildRuleset
    | RoleBuildIdentity | RoleBuildInput | RoleBuildOutput | RoleArtifactBlob
    | RolePayloadReference | RoleViewPolicy | RoleViewLineState | RoleViewManifest
    | RoleMigrationOldObject | RoleMigrationNewObject | RoleMigrationToolIdentity
    | RoleRulesetPrevious

end
