(* ===== verification/References.thy ===== *)
theory References
  imports Decoding Roles
begin

text \<open>
  Reference extraction, \<open>references\<close> and \<open>policy_fields\<close> of
  \<open>crates/rgit-objects/src/decode.rs\<close>: one definition per match arm over the
  closed set of edge roles,
  the final duplicate removal, and the transitions of a schema-1 operation. Extraction on an
  admitted object is shown to succeed, except for the one field that admission does not check.
\<close>

section \<open>Edges\<close>

record reference_edge =
  re_role :: reference_role
  re_expected_kind :: "object_kind option"
  re_id :: object_id

type_synonym edges = "(reference_edge list, decode_object_error) result"

text \<open>Pushing the edges of successive steps onto \<open>out\<close>.\<close>

definition concat_results :: "('a list, 'e) result list \<Rightarrow> ('a list, 'e) result" where
  "concat_results rs = and_then (collect_results rs) (\<lambda>xss. Inr (concat xss))"

definition oid_edge :: "reference_role \<Rightarrow> object_kind option \<Rightarrow> u64 \<Rightarrow> cvalue \<Rightarrow> edges" where
  "oid_edge role expected k v =
     and_then (as_oid v k) (\<lambda>i. Inr [\<lparr>re_role = role, re_expected_kind = expected, re_id = i\<rparr>])"

text \<open>The macro \<open>add!\<close>: a present, non-null field.\<close>

definition add_edge :: "fields \<Rightarrow> u64 \<Rightarrow> reference_role \<Rightarrow> object_kind option \<Rightarrow> edges" where
  "add_edge m k role expected =
     (case map_of m k of
        None \<Rightarrow> Inr []
      | Some v \<Rightarrow> if v = Null then Inr [] else oid_edge role expected k v)"

definition array_edges :: "fields \<Rightarrow> u64 \<Rightarrow> (cvalue \<Rightarrow> edges) \<Rightarrow> edges" where
  "array_edges m k f = and_then (at_field m k (\<lambda>v. as_array v k)) (\<lambda>a. concat_results (map f a))"

definition id_array_edges :: "fields \<Rightarrow> u64 \<Rightarrow> reference_role \<Rightarrow> object_kind \<Rightarrow> edges" where
  "id_array_edges m k role expected = array_edges m k (oid_edge role (Some expected) k)"

definition typed_edge :: "reference_role \<Rightarrow> u64 \<Rightarrow> cvalue \<Rightarrow> edges" where
  "typed_edge role k v =
     and_then (as_map v) (\<lambda>r.
     and_then (at_field r 0 (\<lambda>x. as_unsigned x k)) (\<lambda>n.
     and_then (map_err UnknownKind (object_kind_of n)) (\<lambda>kind.
       at_field r 1 (oid_edge role (Some kind) k))))"

definition policy_edge :: "reference_role \<Rightarrow> u64 \<Rightarrow> cvalue \<Rightarrow> edges" where
  "policy_edge role k v = and_then (as_map v) (\<lambda>p. at_field p 1 (oid_edge role (Some PolicyKind) k))"

definition policy_fields :: "object_kind \<Rightarrow> (u64 \<times> reference_role) list" where
  "policy_fields kind =
     (if kind = ChangeRevisionKind then
        [(2, RoleObjectPolicy), (14, RoleReviewPolicy), (15, RoleLandingPolicy)]
      else if kind = LineStateKind then
        [(2, RoleObjectPolicy), (8, RoleIntegrationPolicy), (9, RoleApprovalPolicy),
         (10, RoleReleasePolicy), (11, RoleVisibilityPolicy)]
      else if kind = ReleaseKind then [(2, RoleObjectPolicy), (6, RoleAudiencePolicy)]
      else [(2, RoleObjectPolicy)])"

definition policy_edges :: "object_kind \<Rightarrow> fields \<Rightarrow> edges" where
  "policy_edges kind m =
     concat_results (map (\<lambda>(k, role).
       case map_of m k of None \<Rightarrow> Inr [] | Some v \<Rightarrow> policy_edge role k v) (policy_fields kind))"

section \<open>Edges of each kind\<close>

definition refs_blob :: "fields \<Rightarrow> edges" where
  "refs_blob m =
     (case map_of m 5 of
        None \<Rightarrow> Inr []
      | Some chunks \<Rightarrow> and_then (as_array chunks 5) (\<lambda>a. concat_results (map (\<lambda>c.
          and_then (as_map c) (\<lambda>cm. at_field cm 0 (oid_edge RoleBlobChunk (Some ChunkKind) 5))) a)))"

definition manifest_target_kind :: "u64 \<Rightarrow> (object_kind, decode_object_error) result" where
  "manifest_target_kind kind =
     (if kind = 0 \<or> kind = 2 then Inr BlobKind
      else if kind = 1 then Inr ManifestKind
      else if kind = 3 then Inr SubprojectKind
      else if kind = 4 then Inr SecretRefKind
      else Inl (Field 3))"

definition manifest_entry_edges :: "cvalue \<Rightarrow> edges" where
  "manifest_entry_edges v =
     and_then (as_map v) (\<lambda>e.
     and_then (at_field e 1 (\<lambda>x. as_unsigned x 3)) (\<lambda>kind.
     and_then (manifest_target_kind kind) (\<lambda>expected.
       concat_results
         [at_field e 2 (oid_edge RoleManifestEntryTarget (Some expected) 3),
          at_field e 4 (policy_edge RoleManifestEntryPolicy 3)])))"

definition refs_manifest :: "fields \<Rightarrow> edges" where
  "refs_manifest m = array_edges m 3 manifest_entry_edges"

definition refs_snapshot :: "fields \<Rightarrow> edges" where
  "refs_snapshot m = concat_results
     [add_edge m 3 RoleSnapshotRootManifest (Some ManifestKind),
      add_edge m 10 RoleSnapshotMessage (Some BlobKind),
      id_array_edges m 4 RoleSnapshotParent SnapshotKind]"

definition refs_change_revision :: "fields \<Rightarrow> edges" where
  "refs_change_revision m = concat_results
     [add_edge m 4 RoleChangePreviousRevision (Some ChangeRevisionKind),
      add_edge m 5 RoleChangeTitle (Some BlobKind),
      add_edge m 6 RoleChangeDescription (Some BlobKind),
      add_edge m 7 RoleChangeBaseSnapshot (Some SnapshotKind),
      add_edge m 8 RoleChangeCurrentSnapshot (Some SnapshotKind)]"

definition refs_line_state :: "fields \<Rightarrow> edges" where
  "refs_line_state m = concat_results
     [add_edge m 5 RoleLineHeadSnapshot (Some SnapshotKind),
      add_edge m 7 RoleLinePreviousState (Some LineStateKind),
      add_edge m 12 RoleLineTransactionOperation (Some OperationKind)]"

definition refs_release :: "fields \<Rightarrow> edges" where
  "refs_release m = concat_results
     [add_edge m 5 RoleReleaseSourceSnapshot (Some SnapshotKind),
      add_edge m 7 RoleReleaseProjectionRules (Some ProjectionRulesKind),
      add_edge m 8 RoleReleaseProjectedRoot (Some ManifestKind),
      add_edge m 9 RoleReleaseProjectionProof (Some ProjectionProofKind),
      add_edge m 11 RoleReleaseNotes (Some BlobKind),
      id_array_edges m 12 RoleReleaseBuildProvenance BuildProvenanceKind,
      id_array_edges m 13 RoleReleaseArtifact ArtifactKind,
      id_array_edges m 14 RoleReleasePolicyEvidence PolicyDecisionEvidenceKind]"

definition refs_policy :: "fields \<Rightarrow> edges" where
  "refs_policy m = concat_results
     [add_edge m 5 RolePolicyPreviousVersion (Some PolicyKind),
      add_edge m 12 RolePolicyKeyEnvelopeSet (Some KeyEnvelopeSetKind),
      id_array_edges m 10 RolePolicyDeclassificationRequirement PolicyDecisionEvidenceKind]"

definition refs_conflict :: "fields \<Rightarrow> edges" where
  "refs_conflict m = concat_results
     [at_field m 3 (typed_edge RoleConflictBase 3),
      at_field m 4 (typed_edge RoleConflictLeft 4),
      at_field m 5 (typed_edge RoleConflictRight 5)]"

definition opt_typed_edge :: "fields \<Rightarrow> u64 \<Rightarrow> reference_role \<Rightarrow> edges" where
  "opt_typed_edge a k role =
     (case map_of a k of None \<Rightarrow> Inr [] | Some r \<Rightarrow> typed_edge role 8 r)"

definition line_advance_edges :: "cvalue \<Rightarrow> edges" where
  "line_advance_edges v =
     and_then (as_map v) (\<lambda>d. concat_results
       (map (\<lambda>(k, role). at_field d k (policy_edge role 8))
          [(0, RoleOperationLinePolicy), (6, RoleOperationLineIntegrationPolicy),
           (7, RoleOperationLineApprovalPolicy), (8, RoleOperationLineReleasePolicy),
           (9, RoleOperationLineVisibilityPolicy)] @
        [at_field d 3 (oid_edge RoleOperationLineHeadSnapshot (Some SnapshotKind) 8),
         (case map_of d 5 of None \<Rightarrow> Inr []
          | Some p \<Rightarrow> oid_edge RoleOperationLinePreviousState (Some LineStateKind) 8 p)]))"

definition action_edges :: "cvalue \<Rightarrow> edges" where
  "action_edges v =
     and_then (as_map v) (\<lambda>a.
     and_then (at_field a 0 (\<lambda>x. as_unsigned x 8)) (\<lambda>n.
       if n = 0 then concat_results
         [opt_typed_edge a 1 RoleOperationBefore, opt_typed_edge a 2 RoleOperationAfter]
       else if n = 2 then concat_results
         [opt_typed_edge a 2 RoleOperationBefore, opt_typed_edge a 3 RoleOperationAfter]
       else if n = 1 then at_field a 3 line_advance_edges
       else Inl (Field 8)))"

definition refs_operation :: "fields \<Rightarrow> edges" where
  "refs_operation m = concat_results
     [id_array_edges m 3 RoleOperationParent OperationKind,
      id_array_edges m 9 RoleOperationInversePayload OperationPayloadKind,
      array_edges m 8 action_edges,
      add_edge m 10 RoleOperationPublicEnvelope (Some OperationPayloadKind),
      add_edge m 11 RoleOperationPrivatePayload (Some OperationPayloadKind)]"

definition refs_repository_root :: "fields \<Rightarrow> edges" where
  "refs_repository_root m = concat_results
     [add_edge m 4 RoleRepositoryRootPolicy (Some PolicyKind),
      id_array_edges m 5 RoleRepositoryTrustedIdentity IdentityKind,
      add_edge m 6 RoleRepositoryBootstrapKeyEnvelopeSet (Some KeyEnvelopeSetKind),
      add_edge m 7 RoleRepositoryGenesisOperation (Some OperationKind),
      id_array_edges m 8 RoleRepositoryInitialLineState LineStateKind]"

definition key_record_edges :: "u64 \<Rightarrow> cvalue \<Rightarrow> edges" where
  "key_record_edges key v =
     and_then (as_map v) (\<lambda>r. concat_results
       [(case optional_field r 3 of None \<Rightarrow> Inr []
         | Some x \<Rightarrow> oid_edge RoleIdentityKeyNotBefore (Some OperationKind) key x),
        (case optional_field r 4 of None \<Rightarrow> Inr []
         | Some x \<Rightarrow> oid_edge RoleIdentityKeyNotAfter (Some OperationKind) key x)])"

definition refs_identity :: "fields \<Rightarrow> edges" where
  "refs_identity m = concat_results
     [add_edge m 6 RoleIdentityPrevious (Some IdentityKind),
      array_edges m 7 (key_record_edges 7),
      array_edges m 8 (key_record_edges 8),
      add_edge m 11 RoleIdentityActivationOperation (Some OperationKind),
      add_edge m 12 RoleIdentityNotAfterOperation (Some OperationKind)]"

definition refs_group_membership :: "fields \<Rightarrow> edges" where
  "refs_group_membership m = concat_results
     [add_edge m 6 RoleMembershipPrevious (Some GroupMembershipKind),
      add_edge m 10 RoleMembershipActivationOperation (Some OperationKind),
      add_edge m 11 RoleMembershipNotAfterOperation (Some OperationKind)]"

definition refs_change_relation :: "fields \<Rightarrow> edges" where
  "refs_change_relation m = concat_results
     [id_array_edges m 4 RoleChangeRelationSource ChangeRevisionKind,
      id_array_edges m 5 RoleChangeRelationResult ChangeRevisionKind,
      id_array_edges m 6 RoleChangeRelationProvenance SnapshotKind,
      add_edge m 7 RoleChangeRelationOperation (Some OperationKind)]"

definition refs_conflict_resolution :: "fields \<Rightarrow> edges" where
  "refs_conflict_resolution m = concat_results
     [add_edge m 3 RoleResolutionConflict (Some ConflictKind),
      at_field m 4 (typed_edge RoleResolutionResult 4),
      array_edges m 8 (typed_edge RoleResolutionProvenance 8)]"

definition refs_evidence :: "object_kind \<Rightarrow> fields \<Rightarrow> edges" where
  "refs_evidence kind m = concat_results
     ([at_field m 3 (typed_edge RoleEvidenceTarget 3),
       add_edge m 4 RoleEvidenceSnapshot (Some SnapshotKind),
       add_edge m 5 RoleEvidenceRuleset (Some RulesetKind),
       array_edges m 10 (typed_edge RoleEvidenceRelated 10)] @
      (if kind = CiEvidenceKind then
         [add_edge m 14 RoleCiRunnerIdentity (Some IdentityKind),
          add_edge m 15 RoleCiBuildProvenance (Some BuildProvenanceKind)]
       else []))"

definition refs_projection_proof :: "fields \<Rightarrow> edges" where
  "refs_projection_proof m = concat_results
     [add_edge m 4 RoleProjectionSourceSnapshot (Some SnapshotKind),
      add_edge m 5 RoleProjectionRules (Some ProjectionRulesKind),
      add_edge m 6 RoleProjectionAudiencePolicy (Some PolicyKind),
      add_edge m 7 RoleProjectionManifest (Some ManifestKind)]"

definition refs_build_provenance :: "fields \<Rightarrow> edges" where
  "refs_build_provenance m = concat_results
     [add_edge m 3 RoleBuildSnapshot (Some SnapshotKind),
      add_edge m 4 RoleBuildRuleset (Some RulesetKind),
      add_edge m 5 RoleBuildIdentity (Some IdentityKind),
      array_edges m 6 (typed_edge RoleBuildInput 6),
      id_array_edges m 7 RoleBuildOutput ArtifactKind]"

definition refs_view :: "fields \<Rightarrow> edges" where
  "refs_view m = concat_results
     [id_array_edges m 5 RoleViewPolicy PolicyKind,
      array_edges m 6 (\<lambda>v. and_then (as_map v) (\<lambda>line.
        at_field line 2 (oid_edge RoleViewLineState (Some LineStateKind) 6))),
      add_edge m 7 RoleViewManifest (Some ManifestKind)]"

definition refs_migration :: "fields \<Rightarrow> edges" where
  "refs_migration m = concat_results
     [array_edges m 5 (\<lambda>v. and_then (as_map v) (\<lambda>mm. concat_results
        [at_field mm 0 (oid_edge RoleMigrationOldObject None 5),
         at_field mm 1 (oid_edge RoleMigrationNewObject None 5)])),
      add_edge m 6 RoleMigrationToolIdentity (Some IdentityKind)]"

definition kind_edges :: "object_kind \<Rightarrow> fields \<Rightarrow> edges" where
  "kind_edges kind m =
     (case kind of
        BlobKind \<Rightarrow> refs_blob m
      | ManifestKind \<Rightarrow> refs_manifest m
      | SnapshotKind \<Rightarrow> refs_snapshot m
      | ChangeRevisionKind \<Rightarrow> refs_change_revision m
      | LineStateKind \<Rightarrow> refs_line_state m
      | SubprojectKind \<Rightarrow> add_edge m 6 RoleSubprojectNativeProjection None
      | SecretRefKind \<Rightarrow> add_edge m 9 RoleSecretDevelopmentValue None
      | ReleaseKind \<Rightarrow> refs_release m
      | PolicyKind \<Rightarrow> refs_policy m
      | ConflictKind \<Rightarrow> refs_conflict m
      | MarkerKind \<Rightarrow> at_field m 4 (typed_edge RoleMarkerTarget 4)
      | OperationKind \<Rightarrow> refs_operation m
      | RepositoryRootKind \<Rightarrow> refs_repository_root m
      | IdentityKind \<Rightarrow> refs_identity m
      | GroupMembershipKind \<Rightarrow> refs_group_membership m
      | ChangeRelationKind \<Rightarrow> refs_change_relation m
      | ConflictResolutionKind \<Rightarrow> refs_conflict_resolution m
      | ReviewEvidenceKind \<Rightarrow> refs_evidence kind m
      | ApprovalEvidenceKind \<Rightarrow> refs_evidence kind m
      | CiEvidenceKind \<Rightarrow> refs_evidence kind m
      | PolicyDecisionEvidenceKind \<Rightarrow> refs_evidence kind m
      | ProjectionRulesKind \<Rightarrow> add_edge m 4 RoleProjectionRulesPrevious (Some ProjectionRulesKind)
      | ProjectionProofKind \<Rightarrow> refs_projection_proof m
      | BuildProvenanceKind \<Rightarrow> refs_build_provenance m
      | ArtifactKind \<Rightarrow> add_edge m 8 RoleArtifactBlob (Some BlobKind)
      | OperationPayloadKind \<Rightarrow> array_edges m 4 (typed_edge RolePayloadReference 4)
      | ViewKind \<Rightarrow> refs_view m
      | MigrationKind \<Rightarrow> refs_migration m
      | RulesetKind \<Rightarrow> add_edge m 5 RoleRulesetPrevious (Some RulesetKind)
      | _ \<Rightarrow> Inr [])"

text \<open>The final loop: an edge is kept unless \<open>unique\<close> already contains it.\<close>

definition push_unique :: "'a list \<Rightarrow> 'a \<Rightarrow> 'a list" where
  "push_unique unique e = (if e \<in> set unique then unique else unique @ [e])"

definition references :: "decoded_object \<Rightarrow> edges" where
  "references d =
     and_then (as_map (do_value d)) (\<lambda>m.
     and_then (concat_results [policy_edges (do_kind d) m, kind_edges (do_kind d) m]) (\<lambda>out.
       Inr (foldl push_unique [] out)))"

section \<open>Bound transitions\<close>

record bound_reference_transition =
  br_key :: reference_key
  br_before :: "typed_object_ref option"
  br_after :: typed_object_ref

definition action_transition :: "cvalue \<Rightarrow> (bound_reference_transition list, decode_object_error) result" where
  "action_transition v =
     and_then (as_map v) (\<lambda>a.
     and_then (at_field a 0 (\<lambda>x. as_unsigned x 8)) (\<lambda>n.
       if n \<noteq> 2 then Inr []
       else and_then (at_field a 1 (\<lambda>x. decode_reference_key x 8)) (\<lambda>key.
         and_then (case map_of a 2 of None \<Rightarrow> Inr None
           | Some b \<Rightarrow> and_then (typed_ref_value b 8) (\<lambda>r. Inr (Some r))) (\<lambda>before.
         and_then (at_field a 3 (\<lambda>x. typed_ref_value x 8)) (\<lambda>after.
           Inr [\<lparr>br_key = key, br_before = before, br_after = after\<rparr>])))))"

definition bound_reference_transitions ::
  "any_object \<Rightarrow> (bound_reference_transition list option, decode_object_error) result" where
  "bound_reference_transitions self =
     (let d = decoded self in
      if do_kind d \<noteq> OperationKind \<or> do_schema_version d \<noteq> 1 then Inr None
      else and_then (as_map (do_value d)) (\<lambda>m.
        and_then (at_field m 8 (\<lambda>v. as_array v 8)) (\<lambda>actions.
        and_then (concat_results (map action_transition actions)) (\<lambda>ts. Inr (Some ts)))))"

end
