(* ===== verification/Ordered.thy ===== *)
theory Ordered
  imports Prelude "HOL-Library.Multiset"
begin

text \<open>
  \<open>BTreeMap\<close> and \<open>BTreeSet\<close> as the sources use them: the entries in key order, as a strictly sorted
  association list. Insertion replaces the value of a present key, lookup is \<open>map_of\<close>, iteration is
  the list itself. The interface laws are stated as a locale and discharged for these lists; the
  lemma its clients need is that filling a map does not depend on the order of distinct keys.
\<close>

section \<open>Entries in key order\<close>

definition bt_wf :: "('k::linorder \<times> 'v) list \<Rightarrow> bool" where
  "bt_wf m \<longleftrightarrow> sorted_wrt (<) (map fst m)"

fun bt_insert :: "'k::linorder \<Rightarrow> 'v \<Rightarrow> ('k \<times> 'v) list \<Rightarrow> ('k \<times> 'v) list" where
  "bt_insert k v [] = [(k, v)]"
| "bt_insert k v ((k', v') # m) =
     (if k < k' then (k, v) # (k', v') # m
      else if k = k' then (k, v) # m
      else (k', v') # bt_insert k v m)"

lemma bt_wf_Nil [simp]: "bt_wf []"
  by (simp add: bt_wf_def)

lemma bt_wf_Cons [simp]: "bt_wf ((k, v) # m) \<longleftrightarrow> bt_wf m \<and> (\<forall>x \<in> fst ` set m. k < x)"
  by (auto simp: bt_wf_def)

lemma fst_set_bt_insert [simp]: "fst ` set (bt_insert k v m) = insert k (fst ` set m)"
  by (induction k v m rule: bt_insert.induct) auto

lemma bt_wf_insert [simp]: "bt_wf m \<Longrightarrow> bt_wf (bt_insert k v m)"
  by (induction k v m rule: bt_insert.induct) auto

lemma map_of_bt_insert [simp]: "bt_wf m \<Longrightarrow> map_of (bt_insert k v m) = (map_of m)(k \<mapsto> v)"
  by (induction k v m rule: bt_insert.induct) (auto simp: map_of_eq_None_iff fun_eq_iff)

lemma lookup_insert: "map_of (bt_insert k v m) = (map_of m)(k \<mapsto> v)"
  by (induction k v m rule: bt_insert.induct) auto

lemma set_bt_insert:
  "bt_wf m \<Longrightarrow> set (bt_insert k v m) = insert (k, v) {x \<in> set m. fst x \<noteq> k}"
  by (induction k v m rule: bt_insert.induct) auto

lemma bt_wf_distinct: "bt_wf m \<Longrightarrow> distinct (map fst m)"
  by (simp add: bt_wf_def strict_sorted_iff)

lemma bt_wf_sorted: "bt_wf m \<Longrightarrow> sorted (map fst m)"
  by (simp add: bt_wf_def strict_sorted_iff)

text \<open>Two ordered maps with the same lookup are the same list.\<close>

lemma bt_keys: "bt_wf m \<Longrightarrow> map fst m = sorted_list_of_set (dom (map_of m))"
  by (metis bt_wf_distinct bt_wf_sorted dom_map_of_conv_image_fst set_map sorted_list_of_set.idem_if_sorted_distinct)

lemma bt_eqI:
  assumes "bt_wf m" "bt_wf m'" "map_of m = map_of m'"
  shows "m = m'"
proof -
  have "map fst m = map fst m'" using assms by (simp add: bt_keys)
  moreover have "map snd m = map (the \<circ> map_of m) (map fst m)" if "bt_wf m" for m :: "('a \<times> 'b) list"
    using bt_wf_distinct [OF that] by (auto intro!: map_cong simp: map_of_eq_Some_iff)
  ultimately have "map snd m = map snd m'" using assms by metis
  with \<open>map fst m = map fst m'\<close> show ?thesis by (metis zip_map_fst_snd)
qed

text \<open>Keeping the keys and changing the values, as \<open>iter().map(..).collect()\<close> does.\<close>

definition bt_map :: "('k \<Rightarrow> 'v \<Rightarrow> 'w) \<Rightarrow> ('k \<times> 'v) list \<Rightarrow> ('k \<times> 'w) list" where
  "bt_map f m = map (\<lambda>(k, v). (k, f k v)) m"

lemma bt_map_keys [simp]: "map fst (bt_map f m) = map fst m"
  by (auto simp: bt_map_def)

lemma bt_map_wf [simp]: "bt_wf (bt_map f m) = bt_wf m"
  by (simp add: bt_wf_def)

lemma map_of_bt_map [simp]: "map_of (bt_map f m) k = map_option (f k) (map_of m k)"
  by (induction m) (auto simp: bt_map_def)

section \<open>Sets in order\<close>

text \<open>\<open>collect::<BTreeSet<_>>()\<close>; insertion into a set is \<open>insort_insert\<close>.\<close>

definition btset :: "'a::linorder list \<Rightarrow> 'a list" where
  "btset xs = sort (remdups xs)"

lemma set_btset [simp]: "set (btset xs) = set xs"
  and sorted_btset [simp]: "sorted (btset xs)"
  and distinct_btset [simp]: "distinct (btset xs)"
  by (simp_all add: btset_def)

lemma btset_eq: "btset xs = sorted_list_of_set (set xs)"
  by (simp add: btset_def sorted_list_of_set_sort_remdups)

section \<open>Loops that may panic\<close>

text \<open>A loop whose body updates local state; \<open>None\<close> is a panic (a failed \<open>expect\<close> or index).\<close>

primrec opt_fold :: "('s \<Rightarrow> 'a \<Rightarrow> 's option) \<Rightarrow> 's \<Rightarrow> 'a list \<Rightarrow> 's option" where
  "opt_fold f s [] = Some s"
| "opt_fold f s (x # xs) = Option.bind (f s x) (\<lambda>s. opt_fold f s xs)"

primrec opt_all :: "'a option list \<Rightarrow> 'a list option" where
  "opt_all [] = Some []"
| "opt_all (x # xs) = Option.bind x (\<lambda>y. map_option (Cons y) (opt_all xs))"

lemma opt_all_Some: "opt_all xs = Some ys \<longleftrightarrow> xs = map Some ys"
  by (induction xs arbitrary: ys) (auto simp: bind_eq_Some_conv)

section \<open>The map interface\<close>

text \<open>
  What the code relies on when it keeps a map: lookups after an insertion, and extensionality on
  well-formed maps.
\<close>

locale ordered_map =
  fixes emp :: 'm
    and ins :: "'k::linorder \<Rightarrow> 'v \<Rightarrow> 'm \<Rightarrow> 'm"
    and look :: "'m \<Rightarrow> 'k \<Rightarrow> 'v option"
    and wf :: "'m \<Rightarrow> bool"
  assumes wf_emp: "wf emp"
    and look_emp: "look emp k = None"
    and wf_ins: "wf m \<Longrightarrow> wf (ins k v m)"
    and look_ins: "wf m \<Longrightarrow> look (ins k v m) k' = (if k' = k then Some v else look m k')"
    and look_ext: "wf m \<Longrightarrow> wf m' \<Longrightarrow> (\<And>k. look m k = look m' k) \<Longrightarrow> m = m'"
begin

definition fill :: "('k \<times> 'v) list \<Rightarrow> 'm" where
  "fill kvs = foldl (\<lambda>m (k, v). ins k v m) emp kvs"

lemma fill_wf_look: "wf (fill kvs) \<and> look (fill kvs) k = map_of (rev kvs) k"
proof (induction kvs rule: rev_induct)
  case Nil
  then show ?case by (simp add: fill_def wf_emp look_emp)
next
  case (snoc kv kvs)
  then show ?case by (cases kv) (simp add: fill_def wf_ins look_ins)
qed

lemma fill_order:
  assumes "distinct (map fst kvs)" "mset kvs = mset kvs'"
  shows "fill kvs = fill kvs'"
proof (rule look_ext)
  show "wf (fill kvs)" "wf (fill kvs')" by (simp_all add: fill_wf_look)
  have "set kvs = set kvs'" "mset (map fst kvs) = mset (map fst kvs')"
    using assms(2) by (auto dest: mset_eq_setD)
  with assms(1) have "distinct (map fst kvs')" by (metis mset_eq_imp_distinct_iff)
  with assms(1) \<open>set kvs = set kvs'\<close> have "map_of (rev kvs) = map_of (rev kvs')"
    by (intro map_of_inject_set [THEN iffD2]) (auto simp flip: rev_map)
  then show "look (fill kvs) k = look (fill kvs') k" for k by (simp add: fill_wf_look)
qed

end

interpretation bt: ordered_map "[]" bt_insert map_of bt_wf
  by unfold_locales (auto intro: bt_eqI)

text \<open>
  The loop by which the sources index a list, failing on a repeated key: it succeeds exactly on
  distinct keys, and then the map is the filled one.
\<close>

lemma index_loop_Inr:
  assumes f: "\<And>m e. f m e = (if map_of m (k e) \<noteq> None then Inl (err e) else Inr (bt_insert (k e) (v e) m))"
  shows "try_fold f [] es = Inr m \<longleftrightarrow> distinct (map k es) \<and> m = bt.fill (map (\<lambda>e. (k e, v e)) es)"
proof -
  have "try_fold f m0 es = Inr m \<longleftrightarrow> distinct (map k es) \<and> k ` set es \<inter> dom (map_of m0) = {} \<and>
      m = foldl (\<lambda>m e. bt_insert (k e) (v e) m) m0 es" if "bt_wf m0" for m0
    using that
  proof (induction es arbitrary: m0)
    case (Cons e es)
    have d: "dom (map_of (bt_insert (k e) (v e) m0)) = insert (k e) (dom (map_of m0))" using Cons.prems by simp
    show ?case
    proof (cases "map_of m0 (k e)")
      case None
      then have "k e \<notin> dom (map_of m0)" by (simp add: domIff)
      with None Cons.IH [of "bt_insert (k e) (v e) m0"] Cons.prems show ?thesis
        by (simp add: f [of m0 e] d Int_insert_left Int_insert_right cong: conj_cong del: map_of_bt_insert)
    next
      case (Some x)
      then show ?thesis by (auto simp: f [of m0 e])
    qed
  qed auto
  then show ?thesis by (simp add: bt.fill_def foldl_map)
qed

lemma index_loop_Inl:
  assumes f: "\<And>m e. f m e = (if map_of m (k e) \<noteq> None then Inl (err e) else Inr (bt_insert (k e) (v e) m))"
    and "try_fold f [] es = Inl x"
  shows "\<exists>xs e ys. es = xs @ e # ys \<and> x = err e \<and> k e \<in> k ` set xs"
proof -
  have "\<exists>xs e ys. es = xs @ e # ys \<and> x = err e \<and> (k e \<in> k ` set xs \<or> k e \<in> dom (map_of m0))"
    if "bt_wf m0" "try_fold f m0 es = Inl x" for m0
    using that
  proof (induction es arbitrary: m0)
    case (Cons e es)
    show ?case
    proof (cases "map_of m0 (k e)")
      case None
      with Cons.prems have "try_fold f (bt_insert (k e) (v e) m0) es = Inl x" by (simp add: f [of m0 e])
      from Cons.IH [OF bt_wf_insert [OF Cons.prems(1)] this]
      obtain xs e' ys where x: "es = xs @ e' # ys" "x = err e'"
          "k e' \<in> k ` set xs \<or> k e' \<in> dom (map_of (bt_insert (k e) (v e) m0))"
        by blast
      moreover have "k e' \<in> k ` set (e # xs) \<or> k e' \<in> dom (map_of m0)"
        using x(3) Cons.prems(1) by (auto split: if_splits)
      ultimately show ?thesis by (intro exI [of _ "e # xs"]) auto
    next
      case (Some y)
      with Cons.prems show ?thesis by (intro exI [of _ "[]"]) (auto simp: f [of m0 e])
    qed
  qed simp
  from this [OF _ assms(2)] show ?thesis by simp
qed

text \<open>Filling from entries with distinct keys.\<close>

lemma fill_lookup:
  assumes "distinct (map k es)"
  shows "bt_wf (bt.fill (map (\<lambda>e. (k e, v e)) es))"
    and "map_of (bt.fill (map (\<lambda>e. (k e, v e)) es)) i = Some x \<longleftrightarrow> (\<exists>e \<in> set es. k e = i \<and> x = v e)"
    and "dom (map_of (bt.fill (map (\<lambda>e. (k e, v e)) es))) = k ` set es"
proof -
  let ?kvs = "map (\<lambda>e. (k e, v e)) es"
  have d: "distinct (map fst (rev ?kvs))" using assms by (simp add: comp_def flip: rev_map)
  show "bt_wf (bt.fill ?kvs)" by (simp add: bt.fill_wf_look)
  show l: "map_of (bt.fill ?kvs) i = Some x \<longleftrightarrow> (\<exists>e \<in> set es. k e = i \<and> x = v e)" for i x
    unfolding bt.fill_wf_look [THEN conjunct2] map_of_eq_Some_iff [OF d] by auto
  show "dom (map_of (bt.fill ?kvs)) = k ` set es" by (auto simp: dom_def l)
qed

end
