(* ===== verification/Worklist.thy ===== *)
theory Worklist
  imports Ordered
begin

text \<open>
  The traversal the graph index and the store share: a stack of pending items; visiting an item
  fails, or gives its key, the value recorded for the key and further items, which are pushed when
  the key was not recorded yet. \<open>None\<close> stands for a traversal that does not end. The locale states
  when it ends and what it has then computed: everything reachable, and nothing else.
\<close>

partial_function (option) walk ::
  "('e \<Rightarrow> ('k::linorder \<times> 'v \<times> 'e list, 'r) result) \<Rightarrow> 'e list \<Rightarrow> ('k \<times> 'v) list
    \<Rightarrow> (('k \<times> 'v) list, 'r) result option" where
  [code]: "walk visit pending seen =
     (if pending = [] then Some (Inr seen)
      else case visit (last pending) of
        Inl r \<Rightarrow> Some (Inl r)
      | Inr (k, v, next) \<Rightarrow>
          if map_of seen k = None
          then walk visit (butlast pending @ next) (bt_insert k v seen)
          else walk visit (butlast pending) (bt_insert k v seen))"

text \<open>Items that a traversal from \<open>roots\<close> comes across.\<close>

inductive reached :: "('e \<Rightarrow> ('k \<times> 'v \<times> 'e list, 'r) result) \<Rightarrow> 'e set \<Rightarrow> 'e \<Rightarrow> bool"
  for visit roots where
  root: "e \<in> roots \<Longrightarrow> reached visit roots e"
| succ: "reached visit roots e \<Longrightarrow> visit e = Inr (k, v, next) \<Longrightarrow> e' \<in> set next \<Longrightarrow> reached visit roots e'"

locale worklist =
  fixes visit :: "'e \<Rightarrow> ('k::linorder \<times> 'v \<times> 'e list, 'r) result"
    and keys :: "'k set"
  assumes finite_keys: "finite keys"
    and visit_keys: "visit e = Inr (k, v, next) \<Longrightarrow> k \<in> keys"
    and visit_key_determines:
      "visit e = Inr (k, v, next) \<Longrightarrow> visit e' = Inr (k, v', next') \<Longrightarrow> v = v' \<and> next = next'"
begin

text \<open>An item whose visit succeeds and whose key is recorded.\<close>

definition done_in :: "('k \<times> 'v) list \<Rightarrow> 'e \<Rightarrow> bool" where
  "done_in seen e \<longleftrightarrow> (\<exists>k v next. visit e = Inr (k, v, next) \<and> map_of seen k = Some v)"

definition traversing :: "'e set \<Rightarrow> 'e list \<Rightarrow> ('k \<times> 'v) list \<Rightarrow> bool" where
  "traversing roots pending seen \<longleftrightarrow>
     bt_wf seen \<and> (\<forall>e \<in> set pending. reached visit roots e) \<and>
     (\<forall>e \<in> roots. e \<in> set pending \<or> done_in seen e) \<and>
     (\<forall>k v. map_of seen k = Some v \<longrightarrow>
        (\<exists>e next. reached visit roots e \<and> visit e = Inr (k, v, next) \<and>
           (\<forall>e' \<in> set next. e' \<in> set pending \<or> done_in seen e')))"

definition complete :: "'e set \<Rightarrow> ('k \<times> 'v) list \<Rightarrow> bool" where
  "complete roots m \<longleftrightarrow>
     bt_wf m \<and> (\<forall>e. reached visit roots e \<longrightarrow> (\<exists>x. visit e = Inr x)) \<and>
     (\<forall>k v. map_of m k = Some v \<longleftrightarrow> (\<exists>e next. reached visit roots e \<and> visit e = Inr (k, v, next)))"

lemma traversing_start: "traversing (set roots) roots []"
  by (auto simp: traversing_def intro: reached.root)

lemma done_in_insert:
  "bt_wf seen \<Longrightarrow> visit e = Inr (k, v, next) \<Longrightarrow>
    done_in (bt_insert k v seen) e' \<longleftrightarrow> done_in seen e' \<or> (\<exists>next. visit e' = Inr (k, v, next))"
  unfolding done_in_def by (auto split: if_splits) (metis visit_key_determines)

lemma traversing_step:
  assumes t: "traversing roots pending seen" and "pending \<noteq> []"
    and v: "visit (last pending) = Inr (k, v, next)"
  shows "traversing roots
    (if map_of seen k = None then butlast pending @ next else butlast pending) (bt_insert k v seen)"
proof -
  let ?e = "last pending" and ?seen = "bt_insert k v seen"
  define new where "new = (if map_of seen k = None then butlast pending @ next else butlast pending)"
  have pend: "set pending = insert ?e (set (butlast pending))"
    using \<open>pending \<noteq> []\<close> by (metis append_butlast_last_id list.simps(15) rotate1.simps(2) set_rotate1)
  from t have wf: "bt_wf seen" and reach: "reached visit roots ?e"
    using \<open>pending \<noteq> []\<close> by (auto simp: traversing_def)
  have moved: "e' \<in> set new \<or> done_in ?seen e'" if "e' \<in> set pending \<or> done_in seen e'" for e'
    using that v done_in_insert [OF wf v] by (auto simp: pend new_def)
  have "\<exists>e nx. reached visit roots e \<and> visit e = Inr (k', v', nx) \<and>
      (\<forall>e' \<in> set nx. e' \<in> set new \<or> done_in ?seen e')" if l: "map_of ?seen k' = Some v'" for k' v'
  proof (cases "map_of seen k' = None")
    case True
    with l wf have "k' = k" "v' = v" by (auto split: if_splits)
    with True reach v show ?thesis by (auto simp: new_def)
  next
    case False
    then obtain w where w: "map_of seen k' = Some w" by auto
    with t obtain e nx where e: "reached visit roots e" "visit e = Inr (k', w, nx)"
        "\<forall>e' \<in> set nx. e' \<in> set pending \<or> done_in seen e'"
      unfolding traversing_def by blast
    moreover have "v' = w" using l w wf e(2) v by (auto split: if_splits dest: visit_key_determines)
    ultimately show ?thesis using moved by blast
  qed
  moreover have "\<forall>e \<in> set new. reached visit roots e"
    using t v reach by (auto simp: traversing_def new_def pend intro: reached.succ)
  moreover have "\<forall>e \<in> roots. e \<in> set new \<or> done_in ?seen e"
    using t moved by (auto simp: traversing_def)
  ultimately show ?thesis using wf unfolding traversing_def new_def by simp
qed

lemma traversing_done:
  assumes "traversing roots [] m"
  shows "complete roots m"
proof -
  have all: "done_in m e" if "reached visit roots e" for e
    using that
  proof induction
    case (root e)
    with assms show ?case by (auto simp: traversing_def)
  next
    case (succ e k v nx0 e')
    then have "map_of m k = Some v" by (auto simp: done_in_def)
    with assms obtain e1 nx where "visit e1 = Inr (k, v, nx)" "\<forall>e' \<in> set nx. done_in m e'"
      unfolding traversing_def by auto metis
    with succ show ?case by (auto dest: visit_key_determines)
  qed
  then have "map_of m k = Some v \<longleftrightarrow> (\<exists>e next. reached visit roots e \<and> visit e = Inr (k, v, next))" for k v
    using assms by (fastforce simp: traversing_def done_in_def)
  moreover have "\<exists>x. visit e = Inr x" if "reached visit roots e" for e
    using all [OF that] by (auto simp: done_in_def)
  moreover have "bt_wf m" using assms by (simp add: traversing_def)
  ultimately show ?thesis unfolding complete_def by blast
qed

lemma walk_correct:
  "traversing roots pending seen \<Longrightarrow>
    (\<exists>m. walk visit pending seen = Some (Inr m) \<and> complete roots m) \<or>
    (\<exists>r e. walk visit pending seen = Some (Inl r) \<and> reached visit roots e \<and> visit e = Inl r)"
proof (induction "(card (keys - dom (map_of seen)), length pending)" arbitrary: pending seen
    rule: wf_induct_rule [OF wf_lex_prod [OF wf_less_than wf_less_than]])
  case 1
  show ?case
  proof (cases "pending = []")
    case True
    with 1(2) show ?thesis by (subst (1 2) walk.simps) (simp add: traversing_done)
  next
    case ne: False
    then have reach: "reached visit roots (last pending)" using 1(2) by (simp add: traversing_def)
    show ?thesis
    proof (cases "visit (last pending)")
      case (Inl r)
      with ne reach show ?thesis by (subst (1 2) walk.simps) auto
    next
      case (Inr x)
      obtain k v nx where v: "visit (last pending) = Inr (k, v, nx)" using Inr by (cases x) auto
      let ?new = "if map_of seen k = None then butlast pending @ nx else butlast pending"
      have wf: "bt_wf seen" using 1(2) by (simp add: traversing_def)
      have "card (keys - dom (map_of (bt_insert k v seen))) < card (keys - dom (map_of seen))"
        if "map_of seen k = None"
        using that wf visit_keys [OF v] finite_keys by (intro psubset_card_mono) auto
      moreover have "dom (map_of (bt_insert k v seen)) = dom (map_of seen)" if "map_of seen k \<noteq> None"
        using that wf by auto
      ultimately have less: "((card (keys - dom (map_of (bt_insert k v seen))), length ?new),
          card (keys - dom (map_of seen)), length pending) \<in> less_than <*lex*> less_than"
        using ne by auto
      have "walk visit pending seen = walk visit ?new (bt_insert k v seen)"
        using ne v by (subst walk.simps) simp
      with 1(1) [OF less traversing_step [OF 1(2) ne v]] show ?thesis by simp
    qed
  qed
qed

text \<open>The two outcomes from the roots.\<close>

lemma walk_returns: "\<exists>r. walk visit roots [] = Some r"
  using walk_correct [OF traversing_start] by blast

lemma walk_Inr: "walk visit roots [] = Some (Inr m) \<Longrightarrow> complete (set roots) m"
  using walk_correct [OF traversing_start, of roots] by auto

lemma walk_Inl: "walk visit roots [] = Some (Inl r) \<Longrightarrow> \<exists>e. reached visit (set roots) e \<and> visit e = Inl r"
  using walk_correct [OF traversing_start, of roots] by auto

lemma walk_ok:
  assumes "\<And>e. reached visit (set roots) e \<Longrightarrow> \<exists>x. visit e = Inr x"
  shows "\<exists>m. walk visit roots [] = Some (Inr m) \<and> complete (set roots) m"
  using walk_correct [OF traversing_start, of roots] assms by fastforce

end

end
