(* ===== verification/Graph.thy ===== *)
theory Graph
  imports Worklist
begin

text \<open>
  The graph index of \<open>crates/rgit-graph/src/reachability.rs\<close>: construction with its duplicate,
  missing-parent, overflow and cycle errors, generations, ancestors and reachability. A value of
  \<open>None\<close> is a call that does not return, by a panic or by looping; it is shown never to happen.
\<close>

section \<open>Nodes and errors\<close>

record 'k graph_node =
  gn_id :: 'k
  gn_parents :: "'k list"

datatype generation_error = Overflow

fun next_generation :: "u64 list \<Rightarrow> (u64, generation_error) result" where
  "next_generation [] = Inr 0"
| "next_generation (g # gs) = ok_or (checked_add (foldl max g gs) 1) Overflow"

datatype 'k graph_error =
    DuplicateNode 'k
  | MissingParent 'k 'k
  | Cycle "'k list"
  | GenerationOverflow 'k
  | UnknownNode 'k

record 'k indexed_node =
  ix_parents :: "'k list"
  ix_generation :: u64

record 'k graph_index =
  gi_nodes :: "('k \<times> 'k indexed_node) list"
  gi_topological_order :: "'k list"

section \<open>Building the index\<close>

type_synonym 'k parent_map = "('k \<times> 'k list) list"

definition insert_node ::
  "'k::linorder parent_map \<Rightarrow> 'k graph_node \<Rightarrow> ('k parent_map, 'k graph_error) result" where
  "insert_node m node =
     (if map_of m (gn_id node) \<noteq> None then Inl (DuplicateNode (gn_id node))
      else Inr (bt_insert (gn_id node) (btset (gn_parents node)) m))"

definition check_parents :: "'k parent_map \<Rightarrow> (unit, 'k graph_error) result" where
  "check_parents m =
     all_ok (concat (map (\<lambda>(node, parents).
       map (\<lambda>parent. ensure (map_of m parent \<noteq> None) (MissingParent node parent)) parents) m))"

definition add_child :: "'k::linorder \<Rightarrow> 'k parent_map \<Rightarrow> 'k \<Rightarrow> 'k parent_map option" where
  "add_child node children parent =
     map_option (\<lambda>s. bt_insert parent (insort_insert node s) children) (map_of children parent)"

definition children_map :: "'k::linorder parent_map \<Rightarrow> 'k parent_map option" where
  "children_map m =
     opt_fold (\<lambda>children (node, parents). opt_fold (add_child node) children parents)
       (bt_map (\<lambda>_ _. []) m) m"

record 'k kahn =
  ready :: "'k list"
  remaining :: "('k \<times> nat) list"
  generations :: "('k \<times> u64) list"
  order :: "'k list"

definition kahn_start :: "'k parent_map \<Rightarrow> 'k kahn" where
  "kahn_start m = (let counts = bt_map (\<lambda>_ parents. length parents) m in
     \<lparr>ready = map fst (filter (\<lambda>(_, c). c = 0) counts), remaining = counts,
      generations = [], order = []\<rparr>)"

text \<open>One round of the loop over \<open>children[&node]\<close>; the decrement is on \<open>usize\<close>.\<close>

definition release_child ::
  "('k::linorder \<times> nat) list \<times> 'k list \<Rightarrow> 'k \<Rightarrow> (('k \<times> nat) list \<times> 'k list) option" where
  "release_child st child =
     (case st of (counts, queue) \<Rightarrow>
        (case map_of counts child of
           None \<Rightarrow> None
         | Some 0 \<Rightarrow> None
         | Some (Suc c) \<Rightarrow>
             Some (bt_insert child c counts, if c = 0 then insort_insert child queue else queue)))"

definition kahn_step ::
  "'k::linorder parent_map \<Rightarrow> 'k parent_map \<Rightarrow> 'k \<Rightarrow> 'k kahn \<Rightarrow> ('k kahn, 'k graph_error) result option" where
  "kahn_step m children node st =
     Option.bind (map_of m node) (\<lambda>parents.
     Option.bind (opt_all (map (map_of (generations st)) parents)) (\<lambda>gs.
       case next_generation gs of
         Inl Overflow \<Rightarrow> Some (Inl (GenerationOverflow node))
       | Inr generation \<Rightarrow>
           Option.bind (map_of children node) (\<lambda>cs.
           Option.bind (opt_fold release_child (remaining st, tl (ready st)) cs) (\<lambda>(counts, ready').
             Some (Inr \<lparr>ready = ready', remaining = counts,
               generations = bt_insert node generation (generations st),
               order = order st @ [node]\<rparr>)))))"

partial_function (option) kahn_loop ::
  "'k::linorder parent_map \<Rightarrow> 'k parent_map \<Rightarrow> 'k kahn \<Rightarrow> ('k kahn, 'k graph_error) result option" where
  [code]: "kahn_loop m children st =
     (case ready st of
        [] \<Rightarrow> Some (Inr st)
      | node # _ \<Rightarrow>
          Option.bind (kahn_step m children node st) (\<lambda>r.
            case r of Inl e \<Rightarrow> Some (Inl e) | Inr st \<Rightarrow> kahn_loop m children st))"

text \<open>The search of \<open>cycle_members\<close>: \<open>Inl True\<close> is the early \<open>return true\<close>, \<open>Inl False\<close> a panic.\<close>

definition cycle_visit ::
  "'k::linorder parent_map \<Rightarrow> 'k list \<Rightarrow> 'k \<Rightarrow> 'k \<Rightarrow> ('k \<times> unit \<times> 'k list, bool) result" where
  "cycle_visit m blocked node candidate =
     (if candidate = node then Inl True
      else case map_of m candidate of
        None \<Rightarrow> Inl False
      | Some parents \<Rightarrow> Inr (candidate, (), filter (\<lambda>p. p \<in> set blocked) parents))"

definition in_cycle :: "'k::linorder parent_map \<Rightarrow> 'k list \<Rightarrow> 'k \<Rightarrow> bool option" where
  "in_cycle m blocked node =
     Option.bind (map_of m node) (\<lambda>parents.
     Option.bind (walk (cycle_visit m blocked node) (filter (\<lambda>p. p \<in> set blocked) parents) []) (\<lambda>r.
       case r of Inl True \<Rightarrow> Some True | Inl False \<Rightarrow> None | Inr _ \<Rightarrow> Some False))"

definition cycle_members :: "'k::linorder parent_map \<Rightarrow> 'k list \<Rightarrow> 'k list option" where
  "cycle_members m blocked =
     map_option (map fst \<circ> filter snd) (opt_all (map (\<lambda>node. map_option (Pair node) (in_cycle m blocked node)) blocked))"

definition index_node ::
  "('k \<times> u64) list \<Rightarrow> 'k \<times> 'k list \<Rightarrow> ('k \<times> 'k indexed_node) option" where
  "index_node gens np =
     map_option (\<lambda>g. (fst np, \<lparr>ix_parents = snd np, ix_generation = g\<rparr>)) (map_of gens (fst np))"

definition finish_build ::
  "'k::linorder parent_map \<Rightarrow> 'k kahn \<Rightarrow> ('k graph_index, 'k graph_error) result option" where
  "finish_build m st =
     (if length (order st) \<noteq> length m
      then map_option (\<lambda>c. Inl (Cycle c))
             (cycle_members m (map fst (filter (\<lambda>(_, c). c \<noteq> 0) (remaining st))))
      else map_option (\<lambda>nodes. Inr \<lparr>gi_nodes = nodes, gi_topological_order = order st\<rparr>)
             (opt_all (map (index_node (generations st)) m)))"

definition build ::
  "'k::linorder graph_node list \<Rightarrow> ('k graph_index, 'k graph_error) result option" where
  "build nodes =
     (case try_fold insert_node [] nodes of
        Inl e \<Rightarrow> Some (Inl e)
      | Inr m \<Rightarrow>
          (case check_parents m of
             Inl e \<Rightarrow> Some (Inl e)
           | Inr _ \<Rightarrow>
               Option.bind (children_map m) (\<lambda>children.
               Option.bind (kahn_loop m children (kahn_start m)) (\<lambda>r.
                 case r of Inl e \<Rightarrow> Some (Inl e) | Inr st \<Rightarrow> finish_build m st))))"

section \<open>Queries\<close>

definition generation :: "'k graph_index \<Rightarrow> 'k \<Rightarrow> (u64, 'k graph_error) result" where
  "generation self node =
     ok_or (map_option ix_generation (map_of (gi_nodes self) node)) (UnknownNode node)"

definition ancestor_visit :: "'k graph_index \<Rightarrow> 'k \<Rightarrow> ('k \<times> unit \<times> 'k list, unit) result" where
  "ancestor_visit self parent =
     (case map_of (gi_nodes self) parent of
        None \<Rightarrow> Inl ()
      | Some n \<Rightarrow> Inr (parent, (), ix_parents n))"

definition ancestors :: "'k::linorder graph_index \<Rightarrow> 'k \<Rightarrow> ('k list, 'k graph_error) result option" where
  "ancestors self node =
     (case map_of (gi_nodes self) node of
        None \<Rightarrow> Some (Inl (UnknownNode node))
      | Some n \<Rightarrow>
          Option.bind (walk (ancestor_visit self) (ix_parents n) []) (\<lambda>r.
            case r of Inl _ \<Rightarrow> None | Inr seen \<Rightarrow> Some (Inr (map fst seen))))"

definition is_reachable ::
  "'k::linorder graph_index \<Rightarrow> 'k \<Rightarrow> 'k \<Rightarrow> (bool, 'k graph_error) result option" where
  "is_reachable self ancestor descendant =
     (if map_of (gi_nodes self) ancestor = None then Some (Inl (UnknownNode ancestor))
      else if ancestor = descendant then Some (Inr True)
      else map_option (\<lambda>r. and_then r (\<lambda>as. Inr (ancestor \<in> set as))) (ancestors self descendant))"

end
