(* ===== verification/Graph_Spec.thy ===== *)
theory Graph_Spec
  imports Graph
begin

text \<open>
  Correctness of the graph index: construction always returns, succeeds exactly on acyclic graphs
  with distinct nodes and known parents, reports exactly the nodes on cycles otherwise, orders
  parents before children, numbers nodes by their longest ancestry path, and answers ancestor and
  reachability queries by the transitive closure of the parent relation.
\<close>

section \<open>Loops\<close>

lemma opt_fold_append:
  "opt_fold f s (xs @ ys) = Option.bind (opt_fold f s xs) (\<lambda>t. opt_fold f t ys)"
  by (induction xs arbitrary: s) (auto split: bind_splits)

lemma opt_fold_invariant:
  assumes "P [] s"
    and "\<And>ys x zs t. xs = ys @ x # zs \<Longrightarrow> P ys t \<Longrightarrow> \<exists>u. f t x = Some u \<and> P (ys @ [x]) u"
  shows "\<exists>t. opt_fold f s xs = Some t \<and> P xs t"
proof -
  have "\<exists>t. opt_fold f s ys = Some t \<and> P ys t" if "xs = ys @ zs" for ys zs
    using that
  proof (induction ys arbitrary: zs rule: rev_induct)
    case Nil
    then show ?case using assms(1) by simp
  next
    case (snoc y ys)
    then obtain t where "opt_fold f s ys = Some t" "P ys t" by auto
    with assms(2) [of ys y zs t] snoc.prems show ?case by (auto simp: opt_fold_append)
  qed
  then show ?thesis by simp
qed

section \<open>The parent map\<close>

definition parent_map :: "'k::linorder graph_node list \<Rightarrow> 'k parent_map" where
  "parent_map ns = bt.fill (map (\<lambda>n. (gn_id n, btset (gn_parents n))) ns)"

definition edges :: "'k parent_map \<Rightarrow> ('k \<times> 'k) set" where
  "edges m = {(p, n). \<exists>ps. map_of m n = Some ps \<and> p \<in> set ps}"

definition closed_map :: "'k::linorder parent_map \<Rightarrow> bool" where
  "closed_map m \<longleftrightarrow> bt_wf m \<and> (\<forall>x \<in> set m. distinct (snd x) \<and> set (snd x) \<subseteq> dom (map_of m))"

lemma closed_map_wf: "closed_map m \<Longrightarrow> bt_wf m"
  by (simp add: closed_map_def)

lemma closed_mapD:
  "closed_map m \<Longrightarrow> map_of m n = Some ps \<Longrightarrow> distinct ps \<and> set ps \<subseteq> dom (map_of m)"
  unfolding closed_map_def by (force dest: map_of_SomeD)

lemma parent_map_Inr:
  "try_fold insert_node [] ns = Inr m \<longleftrightarrow> distinct (map gn_id ns) \<and> m = parent_map ns"
  unfolding parent_map_def by (rule index_loop_Inr [OF insert_node_def])

lemma parent_map_lookup:
  assumes "distinct (map gn_id ns)"
  shows "bt_wf (parent_map ns)"
    and "map_of (parent_map ns) i = Some ps \<longleftrightarrow> (\<exists>n \<in> set ns. gn_id n = i \<and> ps = btset (gn_parents n))"
    and "dom (map_of (parent_map ns)) = gn_id ` set ns"
  unfolding parent_map_def by (rule fill_lookup [OF assms])+

lemma check_parents_Inr:
  "check_parents m = Inr u \<longleftrightarrow> (\<forall>(n, ps) \<in> set m. set ps \<subseteq> dom (map_of m))"
  by (fastforce simp: check_parents_def all_ok_Inr)

lemma check_parents_Inl:
  "check_parents m = Inl e \<Longrightarrow>
    \<exists>n ps p. (n, ps) \<in> set m \<and> p \<in> set ps \<and> map_of m p = None \<and> e = MissingParent n p"
proof -
  have "\<exists>c \<in> set cs. c = Inl e" if "all_ok cs = Inl e" for cs :: "(unit, 'a graph_error) result list"
    using that by (induction cs) (auto simp: and_then_Inl)
  moreover assume "check_parents m = Inl e"
  ultimately show ?thesis by (fastforce simp: check_parents_def ensure_def split: if_splits)
qed

lemma closed_parent_map:
  assumes "distinct (map gn_id ns)" "check_parents (parent_map ns) = Inr u"
  shows "closed_map (parent_map ns)"
proof -
  have "distinct (snd x)" if "x \<in> set (parent_map ns)" for x
    using that parent_map_lookup(2) [OF assms(1), of "fst x" "snd x"]
      map_of_eq_Some_iff [OF bt_wf_distinct [OF parent_map_lookup(1) [OF assms(1)]]] by auto
  with assms show ?thesis
    unfolding closed_map_def check_parents_Inr split_beta by (simp add: parent_map_lookup(1))
qed

lemma length_dom: "bt_wf m \<Longrightarrow> length m = card (dom (map_of m))"
  by (metis bt_wf_distinct distinct_card dom_map_of_conv_image_fst length_map set_map)

lemma finite_edges [simp]: "finite (edges m)"
proof (rule finite_subset)
  show "edges m \<subseteq> (\<Union>x \<in> set m. set (snd x) \<times> {fst x})"
    by (force simp: edges_def dest: map_of_SomeD)
qed auto

lemma finite_parents [simp]: "finite {p. (p, x) \<in> edges m}"
  using finite_edges [of m] by (rule finite_surj [where f = fst]) force

lemma edges_in_dom:
  "closed_map m \<Longrightarrow> (p, n) \<in> edges m \<Longrightarrow> p \<in> dom (map_of m) \<and> n \<in> dom (map_of m)"
  unfolding edges_def using closed_mapD by blast

section \<open>The child map\<close>

definition child_lists :: "'k::linorder set \<Rightarrow> ('k \<times> 'k) set \<Rightarrow> 'k parent_map \<Rightarrow> bool" where
  "child_lists D S c \<longleftrightarrow> bt_wf c \<and> dom (map_of c) = D \<and>
     (\<forall>p \<in> D. distinct (the (map_of c p)) \<and> set (the (map_of c p)) = {n. (p, n) \<in> S})"

lemma add_child_lists:
  assumes "child_lists D S c" "p \<in> D"
  shows "\<exists>c'. add_child node c p = Some c' \<and> child_lists D (insert (p, node) S) c'"
proof -
  let ?cs = "the (map_of c p)"
  from assms have cs: "map_of c p = Some ?cs" "distinct ?cs" "set ?cs = {n. (p, n) \<in> S}" "bt_wf c"
    by (auto simp: child_lists_def domIff)
  then have "distinct (insort_insert node ?cs)"
    by (simp add: insort_insert_key_def distinct_insort)
  moreover have "set (insort_insert node ?cs) = {n. (p, n) \<in> insert (p, node) S}"
    using cs(3) by (auto simp: set_insort_insert)
  moreover have "add_child node c p = Some (bt_insert p (insort_insert node ?cs) c)"
    unfolding add_child_def by (subst cs(1)) simp
  ultimately show ?thesis
    using assms cs(4) by (auto simp: child_lists_def insert_absorb)
qed

lemma children_map_ok:
  assumes "closed_map m"
  shows "\<exists>c. children_map m = Some c \<and> child_lists (dom (map_of m)) (edges m) c"
proof -
  let ?D = "dom (map_of m)"
  let ?S = "\<lambda>nps. {(p, n). \<exists>ps. (n, ps) \<in> set nps \<and> p \<in> set ps}"
  have inner: "\<exists>c'. opt_fold (add_child node) c ps = Some c' \<and>
      child_lists ?D (S \<union> {(p, n). n = node \<and> p \<in> set ps}) c'"
    if "child_lists ?D S c" "set ps \<subseteq> ?D" for node S c ps
  proof (rule opt_fold_invariant)
    fix ys x zs c
    assume "ps = ys @ x # zs" "child_lists ?D (S \<union> {(p, n). n = node \<and> p \<in> set ys}) c"
    moreover have "insert (x, node) (S \<union> {(p, n). n = node \<and> p \<in> set ys}) =
        S \<union> {(p, n). n = node \<and> p \<in> set (ys @ [x])}" by auto
    ultimately show "\<exists>u. add_child node c x = Some u \<and>
        child_lists ?D (S \<union> {(p, n). n = node \<and> p \<in> set (ys @ [x])}) u"
      using add_child_lists [of ?D _ c x node] that(2) by fastforce
  qed (use that in simp)
  have "\<exists>c. children_map m = Some c \<and> child_lists ?D (?S m) c"
    unfolding children_map_def
  proof (rule opt_fold_invariant [where P = "\<lambda>ys c. child_lists ?D (?S ys) c"])
    show "child_lists ?D (?S []) (bt_map (\<lambda>_ _. []) m)"
      using closed_map_wf [OF assms] by (auto simp: child_lists_def domIff)
    fix ys x zs c
    assume x: "m = ys @ x # zs" "child_lists ?D (?S ys) c"
    obtain node ps where np: "x = (node, ps)" by (cases x)
    have "map_of m node = Some ps"
      using x(1) np by (intro map_of_is_SomeI bt_wf_distinct closed_map_wf [OF assms]) simp
    from closed_mapD [OF assms this] have "set ps \<subseteq> ?D" by simp
    moreover have "?S ys \<union> {(p, n). n = node \<and> p \<in> set ps} = ?S (ys @ [x])" using np by auto
    ultimately show "\<exists>u. (case x of (node, ps) \<Rightarrow> opt_fold (add_child node) c ps) = Some u \<and>
        child_lists ?D (?S (ys @ [x])) u"
      using inner [OF x(2), of ps node] np by simp
  qed
  moreover have "?S m = edges m"
    using bt_wf_distinct [OF closed_map_wf [OF assms]] by (simp add: edges_def map_of_eq_Some_iff)
  ultimately show ?thesis by simp
qed

section \<open>The scheduling loop\<close>

lemma next_generation_ok:
  assumes "\<forall>g \<in> set gs. unat g < N" "N < 2 ^ 64"
  shows "\<exists>g. next_generation gs = Inr g \<and> unat g \<le> N \<and> (gs = [] \<longrightarrow> g = 0) \<and>
    (gs \<noteq> [] \<longrightarrow> (\<exists>h \<in> set gs. unat g = Suc (unat h))) \<and> (\<forall>h \<in> set gs. unat h < unat g)"
proof (cases gs)
  case (Cons g0 rest)
  let ?h = "foldl max g0 rest"
  have max: "?h = Max (set gs)"
    by (simp only: Cons Max.set_eq_fold) (simp add: foldl_conv_fold max.commute)
  then have h: "?h \<in> set gs" "\<And>x. x \<in> set gs \<Longrightarrow> x \<le> ?h" using Cons Max_in [of "set gs"] by simp_all
  with assms have "unat ?h + 1 < 2 ^ 64" by fastforce
  then have c: "checked_add ?h 1 = Some (?h + 1)" "unat (?h + 1) = Suc (unat ?h)"
    by (simp_all add: checked_add_def unat_word_ariths)
  with h assms show ?thesis
    unfolding Cons by (auto simp: word_le_nat_alt less_Suc_eq_le Suc_le_eq)
qed auto

definition generations_ok :: "'k parent_map \<Rightarrow> ('k \<rightharpoonup> u64) \<Rightarrow> bool" where
  "generations_ok m gens \<longleftrightarrow>
     (\<forall>n \<in> dom gens.
        (\<forall>p. (p, n) \<in> edges m \<longrightarrow> p \<in> dom gens \<and> unat (the (gens p)) < unat (the (gens n))) \<and>
        (unat (the (gens n)) = 0 \<or> (\<exists>p. (p, n) \<in> edges m \<and> unat (the (gens n)) = Suc (unat (the (gens p))))))"

definition scheduled :: "'k parent_map \<Rightarrow> 'k list \<Rightarrow> bool" where
  "scheduled m xs \<longleftrightarrow> distinct xs \<and> set xs \<subseteq> dom (map_of m) \<and>
     (\<forall>i < length xs. \<forall>p. (p, xs ! i) \<in> edges m \<longrightarrow> p \<in> set (take i xs))"

definition kahn_inv :: "'k::linorder parent_map \<Rightarrow> 'k kahn \<Rightarrow> bool" where
  "kahn_inv m st \<longleftrightarrow>
     bt_wf (remaining st) \<and> bt_wf (generations st) \<and> sorted (ready st) \<and> distinct (ready st) \<and>
     scheduled m (order st) \<and>
     set (ready st) = {n \<in> dom (map_of m). n \<notin> set (order st) \<and> (\<forall>p. (p, n) \<in> edges m \<longrightarrow> p \<in> set (order st))} \<and>
     dom (map_of (remaining st)) = dom (map_of m) \<and>
     (\<forall>n \<in> dom (map_of m). the (map_of (remaining st) n) = card ({p. (p, n) \<in> edges m} - set (order st))) \<and>
     dom (map_of (generations st)) = set (order st) \<and>
     (\<forall>n \<in> set (order st). unat (the (map_of (generations st) n)) < length (order st)) \<and>
     generations_ok m (map_of (generations st))"

lemma edges_parents: "map_of m n = Some ps \<Longrightarrow> {p. (p, n) \<in> edges m} = set ps"
  by (auto simp: edges_def)

lemma kahn_start_inv:
  assumes "closed_map m"
  shows "kahn_inv m (kahn_start m)"
proof -
  have card: "length ps = card {p. (p, n) \<in> edges m}" if "map_of m n = Some ps" for n ps
    using that closed_mapD [OF assms that] by (simp add: edges_parents distinct_card)
  have wf: "bt_wf m" using assms by (simp add: closed_map_wf)
  let ?ready = "map fst (filter (\<lambda>(_, c). c = 0) (bt_map (\<lambda>_ ps. length ps) m))"
  have "sorted ?ready" "distinct ?ready"
    using wf by (simp_all add: sorted_filter distinct_map_filter bt_wf_sorted bt_wf_distinct)
  moreover have "set ?ready = {n \<in> dom (map_of m). \<forall>p. (p, n) \<notin> edges m}"
  proof -
    have "n \<in> set ?ready \<longleftrightarrow> map_of m n = Some []" for n
      using map_of_eq_Some_iff [OF bt_wf_distinct [OF wf], of n "[]"] by (force simp: bt_map_def)
    moreover have "map_of m n = Some [] \<longleftrightarrow> n \<in> dom (map_of m) \<and> (\<forall>p. (p, n) \<notin> edges m)" for n
      by (cases "map_of m n") (auto simp: edges_def neq_Nil_conv)
    ultimately show ?thesis by blast
  qed
  moreover have "\<forall>n \<in> dom (map_of m). the (map_of (bt_map (\<lambda>_ ps. length ps) m) n) = card {p. (p, n) \<in> edges m}"
    using card by auto
  moreover have "dom (map_of (bt_map (\<lambda>_ ps. length ps) m)) = dom (map_of m)" by (auto simp: domIff)
  ultimately show ?thesis
    using wf by (simp add: kahn_inv_def kahn_start_def Let_def scheduled_def generations_ok_def)
qed

definition released ::
  "('k::linorder \<times> nat) list \<Rightarrow> 'k list \<Rightarrow> 'k list \<Rightarrow> ('k \<times> nat) list \<times> 'k list \<Rightarrow> bool" where
  "released counts queue cs st \<longleftrightarrow>
     bt_wf (fst st) \<and> sorted (snd st) \<and> distinct (snd st) \<and>
     dom (map_of (fst st)) = dom (map_of counts) \<and>
     (\<forall>x. the (map_of (fst st) x) = the (map_of counts x) - (if x \<in> set cs then 1 else 0)) \<and>
     set (snd st) = set queue \<union> {c \<in> set cs. the (map_of counts c) = 1}"

lemma release_child_ok:
  assumes "released counts queue ys st" "x \<notin> set ys" "x \<in> dom (map_of counts)" "the (map_of counts x) \<noteq> 0"
  shows "\<exists>u. release_child st x = Some u \<and> released counts queue (ys @ [x]) u"
proof -
  obtain cts q where st: "st = (cts, q)" by (cases st)
  from assms have "x \<in> dom (map_of cts)" "the (map_of cts x) = the (map_of counts x)"
    by (simp_all add: released_def st)
  with assms(4) obtain c where c: "map_of cts x = Some (Suc c)" "the (map_of counts x) = Suc c"
    by (cases "the (map_of counts x)") auto
  with assms show ?thesis
    by (auto simp: release_child_def st released_def set_insort_insert sorted_insort_insert
        insort_insert_key_def sorted_insort distinct_insort set_insort_key)
qed

lemma release_children:
  assumes "bt_wf counts" "sorted queue" "distinct queue" "distinct cs"
    and "\<forall>c \<in> set cs. c \<in> dom (map_of counts) \<and> the (map_of counts c) \<noteq> 0"
  shows "\<exists>st. opt_fold release_child (counts, queue) cs = Some st \<and> released counts queue cs st"
proof (rule opt_fold_invariant)
  show "released counts queue [] (counts, queue)" using assms by (simp add: released_def)
next
  fix ys x zs st
  assume "cs = ys @ x # zs" "released counts queue ys st"
  with assms show "\<exists>u. release_child st x = Some u \<and> released counts queue (ys @ [x]) u"
    by (intro release_child_ok) auto
qed

lemma scheduled_snoc:
  assumes "scheduled m xs" "n \<in> dom (map_of m)" "n \<notin> set xs" "\<forall>p. (p, n) \<in> edges m \<longrightarrow> p \<in> set xs"
  shows "scheduled m (xs @ [n])"
  using assms by (auto simp: scheduled_def nth_append less_Suc_eq)

lemma scheduled_length: "scheduled m xs \<Longrightarrow> bt_wf m \<Longrightarrow> length xs \<le> length m"
  unfolding scheduled_def length_dom
  by (metis card_mono distinct_card finite_dom_map_of)

lemma card_parents_step:
  assumes "n \<notin> X"
  shows "card ({p. (p, x) \<in> edges m} - insert n X) =
    card ({p. (p, x) \<in> edges m} - X) - (if (n, x) \<in> edges m then 1 else 0)"
proof -
  have "{p. (p, x) \<in> edges m} - insert n X = ({p. (p, x) \<in> edges m} - X) - {n}" by auto
  with assms show ?thesis by (auto simp: card_Diff_singleton_if)
qed

lemma generations_ok_step:
  assumes ok: "generations_ok m gens" and n: "n \<notin> dom gens"
    and parents: "\<forall>p. (p, n) \<in> edges m \<longrightarrow> p \<in> dom gens \<and> unat (the (gens p)) < unat g"
    and top: "unat g = 0 \<or> (\<exists>p. (p, n) \<in> edges m \<and> unat g = Suc (unat (the (gens p))))"
  shows "generations_ok m (gens(n \<mapsto> g))"
  unfolding generations_ok_def
proof
  fix x assume x: "x \<in> dom (gens(n \<mapsto> g))"
  have same: "p \<noteq> n" if "p \<in> dom gens" for p using that n by auto
  show "(\<forall>p. (p, x) \<in> edges m \<longrightarrow> p \<in> dom (gens(n \<mapsto> g)) \<and>
        unat (the ((gens(n \<mapsto> g)) p)) < unat (the ((gens(n \<mapsto> g)) x))) \<and>
      (unat (the ((gens(n \<mapsto> g)) x)) = 0 \<or>
        (\<exists>p. (p, x) \<in> edges m \<and> unat (the ((gens(n \<mapsto> g)) x)) = Suc (unat (the ((gens(n \<mapsto> g)) p)))))"
  proof (cases "x = n")
    case True
    with parents top same show ?thesis by (auto simp: domIff)
  next
    case False
    with x have "x \<in> dom gens" by auto
    with ok have "(\<forall>p. (p, x) \<in> edges m \<longrightarrow> p \<in> dom gens \<and> unat (the (gens p)) < unat (the (gens x))) \<and>
        (unat (the (gens x)) = 0 \<or> (\<exists>p. (p, x) \<in> edges m \<and> unat (the (gens x)) = Suc (unat (the (gens p)))))"
      by (simp add: generations_ok_def)
    with False same show ?thesis by fastforce
  qed
qed

lemma scheduled_parents: "scheduled m xs \<Longrightarrow> n \<in> set xs \<Longrightarrow> (p, n) \<in> edges m \<Longrightarrow> p \<in> set xs"
  unfolding scheduled_def in_set_conv_nth [of n] by (metis in_set_takeD)

lemma kahn_inv_step:
  assumes m: "closed_map m" and inv: "kahn_inv m st" and rd: "ready st = node # rest"
    and rel: "released (remaining st) rest cs (counts, queue)" and cs: "set cs = {x. (node, x) \<in> edges m}"
    and g: "unat g \<le> length (order st)"
      "\<forall>p. (p, node) \<in> edges m \<longrightarrow> unat (the (map_of (generations st) p)) < unat g"
      "unat g = 0 \<or> (\<exists>p. (p, node) \<in> edges m \<and> unat g = Suc (unat (the (map_of (generations st) p))))"
  shows "kahn_inv m \<lparr>ready = queue, remaining = counts,
    generations = bt_insert node g (generations st), order = order st @ [node]\<rparr>"
proof -
  let ?D = "dom (map_of m)" and ?o = "order st" and ?P = "\<lambda>n. {p. (p, n) \<in> edges m}"
  have ready: "set (node # rest) = {n \<in> ?D. n \<notin> set ?o \<and> ?P n \<subseteq> set ?o}" "node \<notin> set rest"
    and sched: "scheduled m ?o" and rem: "\<forall>n \<in> ?D. the (map_of (remaining st) n) = card (?P n - set ?o)"
    and gens: "bt_wf (generations st)" "dom (map_of (generations st)) = set ?o"
      "\<forall>n \<in> set ?o. unat (the (map_of (generations st) n)) < length ?o"
      "generations_ok m (map_of (generations st))"
    and dr: "dom (map_of (remaining st)) = ?D"
    using inv rd unfolding kahn_inv_def by auto
  from ready have node: "node \<in> ?D" "node \<notin> set ?o" "?P node \<subseteq> set ?o" by auto
  have cin: "c \<in> ?D \<and> c \<notin> set ?o \<and> c \<noteq> node" if "(node, c) \<in> edges m" for c
    using that node edges_in_dom [OF m that] scheduled_parents [OF sched, of c node] by auto
  have one: "card (?P c - set ?o) = 1 \<longleftrightarrow> ?P c \<subseteq> insert node (set ?o)" if "(node, c) \<in> edges m" for c
  proof -
    have "node \<in> ?P c - set ?o" using that node by simp
    then have "card (?P c - set ?o) = 1 \<longleftrightarrow> ?P c - set ?o = {node}"
      by (metis card_1_singletonE is_singletonI is_singleton_altdef singletonD)
    also have "\<dots> \<longleftrightarrow> ?P c \<subseteq> insert node (set ?o)" using \<open>node \<in> ?P c - set ?o\<close> by auto
    finally show ?thesis .
  qed
  have "set queue = set rest \<union> {c \<in> set cs. the (map_of (remaining st) c) = 1}"
    using rel by (simp add: released_def)
  also have "\<dots> = {n \<in> ?D. n \<notin> set (?o @ [node]) \<and> (\<forall>p. (p, n) \<in> edges m \<longrightarrow> p \<in> set (?o @ [node]))}"
    (is "_ = ?R")
  proof (rule set_eqI)
    fix n
    have r: "n \<in> set rest \<longleftrightarrow> n \<in> ?D \<and> n \<notin> set ?o \<and> ?P n \<subseteq> set ?o \<and> n \<noteq> node" using ready by auto
    show "n \<in> set rest \<union> {c \<in> set cs. the (map_of (remaining st) c) = 1} \<longleftrightarrow> n \<in> ?R"
    proof (cases "(node, n) \<in> edges m")
      case True
      with node r cin [OF True] one [OF True] rem cs show ?thesis by auto
    next
      case False
      then have "?P n \<subseteq> insert node (set ?o) \<longleftrightarrow> ?P n \<subseteq> set ?o" by auto
      with False r cs show ?thesis by auto
    qed
  qed
  finally have "set queue = ?R" .
  moreover have "the (map_of counts n) = card (?P n - set (?o @ [node]))" if "n \<in> ?D" for n
    using rel rem that cs card_parents_step [OF node(2), of n m] by (simp add: released_def)
  moreover have "generations_ok m ((map_of (generations st))(node \<mapsto> g))"
    using gens node g(2,3) by (intro generations_ok_step) auto
  moreover have "scheduled m (?o @ [node])" using sched node by (intro scheduled_snoc) auto
  moreover have "\<forall>n \<in> set (?o @ [node]). unat (the (((map_of (generations st))(node \<mapsto> g)) n)) < length (?o @ [node])"
    using gens(3) g(1) by (auto simp: less_Suc_eq_le less_imp_le)
  ultimately show ?thesis
    using rel dr gens(1,2) by (simp add: kahn_inv_def released_def)
qed

lemma kahn_step_ok:
  assumes m: "closed_map m" "length m \<le> usize_max" and ch: "child_lists (dom (map_of m)) (edges m) ch"
    and inv: "kahn_inv m st" and rd: "ready st = node # rest"
  shows "\<exists>st'. kahn_step m ch node st = Some (Inr st') \<and> kahn_inv m st' \<and> order st' = order st @ [node]"
proof -
  let ?D = "dom (map_of m)" and ?o = "order st" and ?gens = "map_of (generations st)"
  have "set (ready st) = {n \<in> ?D. n \<notin> set ?o \<and> (\<forall>p. (p, n) \<in> edges m \<longrightarrow> p \<in> set ?o)}"
    using inv by (simp add: kahn_inv_def)
  with rd have node: "node \<in> ?D" "node \<notin> set ?o" "\<forall>p. (p, node) \<in> edges m \<longrightarrow> p \<in> set ?o"
      and rest: "set rest = {n \<in> ?D. n \<notin> set ?o \<and> (\<forall>p. (p, n) \<in> edges m \<longrightarrow> p \<in> set ?o)} - {node}"
    using inv by (auto simp: kahn_inv_def)
  then obtain ps where ps: "map_of m node = Some ps" by auto
  have dg: "dom ?gens = set ?o" and gb: "\<forall>n \<in> set ?o. unat (the (?gens n)) < length ?o"
    and gok: "generations_ok m ?gens" and sched: "scheduled m ?o"
    using inv by (simp_all add: kahn_inv_def)
  have par: "set ps \<subseteq> dom ?gens" using node(3) ps dg edges_parents [OF ps] by auto
  then have gs: "opt_all (map ?gens ps) = Some (map (the \<circ> ?gens) ps)"
    by (auto simp: opt_all_Some)
  have lt: "length ?o < length m"
    using scheduled_length [OF scheduled_snoc [OF sched node] closed_map_wf [OF m(1)]] by simp
  obtain g where g: "next_generation (map (the \<circ> ?gens) ps) = Inr g" "unat g \<le> length ?o"
      "\<forall>h \<in> set (map (the \<circ> ?gens) ps). unat h < unat g"
      "ps \<noteq> [] \<longrightarrow> (\<exists>h \<in> set (map (the \<circ> ?gens) ps). unat g = Suc (unat h))" "ps = [] \<longrightarrow> g = 0"
    using next_generation_ok [of "map (the \<circ> ?gens) ps" "length ?o"] gb par dg lt m(2)
    by (auto simp: usize_max_def)
  from ch node(1) obtain cs where cs: "map_of ch node = Some cs" "distinct cs" "set cs = {x. (node, x) \<in> edges m}"
    by (force simp: child_lists_def domIff)
  have pos: "\<forall>c \<in> set cs. c \<in> dom (map_of (remaining st)) \<and> the (map_of (remaining st) c) \<noteq> 0"
  proof
    fix c assume "c \<in> set cs"
    with cs have e: "(node, c) \<in> edges m" by simp
    then have "node \<in> {p. (p, c) \<in> edges m} - set ?o" using node by simp
    then have "card ({p. (p, c) \<in> edges m} - set ?o) \<noteq> 0" by (auto simp del: Diff_iff)
    with inv e edges_in_dom [OF m(1) e] show "c \<in> dom (map_of (remaining st)) \<and> the (map_of (remaining st) c) \<noteq> 0"
      by (simp add: kahn_inv_def)
  qed
  obtain st' where st': "opt_fold release_child (remaining st, rest) cs = Some st'"
      "released (remaining st) rest cs st'"
    using release_children [OF _ _ _ cs(2) pos, of rest] inv rd by (auto simp: kahn_inv_def)
  define new where "new = \<lparr>ready = snd st', remaining = fst st',
      generations = bt_insert node g (generations st), order = ?o @ [node]\<rparr>"
  have "kahn_step m ch node st = Some (Inr new)"
    using ps gs g(1) cs(1) st'(1) rd by (simp add: kahn_step_def new_def split_beta)
  moreover have "kahn_inv m new"
    unfolding new_def
  proof (rule kahn_inv_step [OF m(1) inv rd])
    show "released (remaining st) rest cs (fst st', snd st')" "set cs = {x. (node, x) \<in> edges m}"
      using st'(2) cs by simp_all
    show "unat g \<le> length ?o" by (fact g(2))
    show "\<forall>p. (p, node) \<in> edges m \<longrightarrow> unat (the (?gens p)) < unat g"
      using g(3) ps by (auto simp: edges_def)
    show "unat g = 0 \<or> (\<exists>p. (p, node) \<in> edges m \<and> unat g = Suc (unat (the (?gens p))))"
      using g(4,5) ps by (cases "ps = []") (auto simp: edges_def)
  qed
  ultimately show ?thesis by (auto simp: new_def)
qed

lemma kahn_loop_ok:
  assumes m: "closed_map m" "length m \<le> usize_max" and ch: "child_lists (dom (map_of m)) (edges m) ch"
  shows "kahn_inv m st \<Longrightarrow>
    \<exists>st'. kahn_loop m ch st = Some (Inr st') \<and> kahn_inv m st' \<and> ready st' = []"
proof (induction "length m - length (order st)" arbitrary: st rule: less_induct)
  case less
  show ?case
  proof (cases "ready st")
    case Nil
    with less.prems show ?thesis by (subst kahn_loop.simps) simp
  next
    case (Cons node rest)
    obtain st' where st': "kahn_step m ch node st = Some (Inr st')" "kahn_inv m st'" "order st' = order st @ [node]"
      using kahn_step_ok [OF m ch less.prems Cons] by auto
    have "scheduled m (order st')" using st'(2) by (simp add: kahn_inv_def)
    then have "length (order st') \<le> length m" by (rule scheduled_length [OF _ closed_map_wf [OF m(1)]])
    with st'(3) have "length m - length (order st') < length m - length (order st)" by simp
    from less.hyps [OF this st'(2)] obtain st'' where
      "kahn_loop m ch st' = Some (Inr st'') \<and> kahn_inv m st'' \<and> ready st'' = []" by auto
    with Cons st'(1) show ?thesis by (subst kahn_loop.simps) simp
  qed
qed

section \<open>Cycles\<close>

lemma scheduled_trancl:
  assumes "generations_ok m (map_of gens)" "(p, n) \<in> (edges m)\<^sup>+" "n \<in> dom (map_of gens)"
  shows "p \<in> dom (map_of gens) \<and> unat (the (map_of gens p)) < unat (the (map_of gens n))"
  using assms(2,3)
proof (induction rule: converse_trancl_induct)
  case (base y)
  with assms(1) show ?case by (auto simp: generations_ok_def)
next
  case (step y z)
  then have "z \<in> dom (map_of gens)" "unat (the (map_of gens z)) < unat (the (map_of gens n))" by auto
  with assms(1) step.hyps(1) show ?case unfolding generations_ok_def by (meson order_less_trans)
qed

lemma on_cycle_not_scheduled:
  "kahn_inv m st \<Longrightarrow> (n, n) \<in> (edges m)\<^sup>+ \<Longrightarrow> n \<notin> set (order st)"
  using scheduled_trancl [of m "generations st" n n] by (auto simp: kahn_inv_def)

text \<open>When nothing is ready, every node left over has a parent left over.\<close>

lemma blocked_has_parent:
  assumes "kahn_inv m st" "ready st = []" "n \<in> dom (map_of m)" "n \<notin> set (order st)"
  shows "\<exists>p. (p, n) \<in> edges m \<and> p \<notin> set (order st)"
  using assms by (auto simp: kahn_inv_def)

lemma acyclic_iff_all_scheduled:
  assumes m: "closed_map m" and inv: "kahn_inv m st" "ready st = []"
  shows "acyclic (edges m) \<longleftrightarrow> set (order st) = dom (map_of m)"
proof
  assume "acyclic (edges m)"
  then have wf: "wf (edges m)" by (simp add: finite_acyclic_wf)
  show "set (order st) = dom (map_of m)"
  proof (rule ccontr)
    let ?B = "dom (map_of m) - set (order st)"
    assume "set (order st) \<noteq> dom (map_of m)"
    moreover have "set (order st) \<subseteq> dom (map_of m)" using inv by (simp add: kahn_inv_def scheduled_def)
    ultimately obtain x where "x \<in> ?B" by auto
    from wfE_min [OF wf this] obtain z where z: "z \<in> ?B" "\<And>y. (y, z) \<in> edges m \<Longrightarrow> y \<notin> ?B" by metis
    then obtain p where "(p, z) \<in> edges m" "p \<notin> set (order st)" using blocked_has_parent [OF inv] by auto
    with z edges_in_dom [OF m] show False by blast
  qed
next
  assume all: "set (order st) = dom (map_of m)"
  show "acyclic (edges m)"
  proof (rule acyclicI, rule allI, rule notI)
    fix x assume x: "(x, x) \<in> (edges m)\<^sup>+"
    then have "x \<in> dom (map_of m)" using edges_in_dom [OF m] by (auto dest: tranclD)
    with all on_cycle_not_scheduled [OF inv(1) x] show False by simp
  qed
qed

interpretation cyc: worklist "cycle_visit m blocked node" "dom (map_of m)" for m blocked node
  by unfold_locales (auto simp: cycle_visit_def finite_dom_map_of split: if_splits option.splits)

text \<open>The search restricted to blocked nodes follows the parent relation restricted to them.\<close>

definition blocked_edges :: "'k parent_map \<Rightarrow> 'k set \<Rightarrow> ('k \<times> 'k) set" where
  "blocked_edges m B = {(p, n). (p, n) \<in> edges m \<and> p \<in> B}"

lemma cycle_reached:
  assumes "map_of m node = Some ps"
  shows "reached (cycle_visit m blocked node) {p \<in> set ps. p \<in> set blocked} e \<Longrightarrow>
    (e, node) \<in> (blocked_edges m (set blocked))\<^sup>+"
proof (induction rule: reached.induct)
  case (root e)
  with assms show ?case by (auto simp: blocked_edges_def edges_def)
next
  case (succ e k v nx e')
  then have "(e', e) \<in> blocked_edges m (set blocked)"
    by (auto simp: cycle_visit_def blocked_edges_def edges_def split: if_splits option.splits)
  with succ.IH show ?case by simp
qed

lemma cycle_reached_back:
  assumes "closed_map m" "map_of m node = Some ps" "(e, node) \<in> (blocked_edges m (set blocked))\<^sup>+"
  shows "reached (cycle_visit m blocked node) {p \<in> set ps. p \<in> set blocked} e"
  using assms(3)
proof (induction rule: converse_trancl_induct)
  case (base y)
  with assms(2) show ?case by (auto simp: blocked_edges_def edges_def intro: reached.root)
next
  case (step y z)
  show ?case
  proof (cases "z = node")
    case True
    with step.hyps(1) assms(2) show ?thesis by (auto simp: blocked_edges_def edges_def intro: reached.root)
  next
    case False
    from step.hyps(1) obtain zs where "map_of m z = Some zs" "y \<in> set zs" "y \<in> set blocked"
      by (auto simp: blocked_edges_def edges_def)
    with False step.IH show ?thesis
      by (auto intro!: reached.succ [of _ _ z] simp: cycle_visit_def)
  qed
qed

lemma in_cycle_iff:
  assumes m: "closed_map m" and n: "map_of m node = Some ps"
  shows "in_cycle m blocked node = Some ((node, node) \<in> (blocked_edges m (set blocked))\<^sup>+)"
proof -
  let ?v = "cycle_visit m blocked node" and ?roots = "filter (\<lambda>p. p \<in> set blocked) ps"
  have r: "reached ?v (set ?roots) e \<longleftrightarrow> (e, node) \<in> (blocked_edges m (set blocked))\<^sup>+" for e
    using cycle_reached [OF n] cycle_reached_back [OF m n] by auto
  have v: "?v e = Inl b \<longleftrightarrow> b \<and> e = node" if "reached ?v (set ?roots) e" for e b
  proof -
    from that r obtain z where "(e, z) \<in> edges m" by (auto dest: tranclD simp: blocked_edges_def)
    with edges_in_dom [OF m] obtain es where "map_of m e = Some es" by blast
    then show ?thesis by (auto simp: cycle_visit_def)
  qed
  show ?thesis
    using cyc.walk_correct [OF cyc.traversing_start, of m blocked node ?roots]
  proof (elim disjE exE conjE)
    fix seen assume w: "walk ?v ?roots [] = Some (Inr seen)" "cyc.complete m blocked node (set ?roots) seen"
    then have "\<not> reached ?v (set ?roots) node"
      using v [of node True] by (force simp: cyc.complete_def)
    with w r n show ?thesis by (simp add: in_cycle_def)
  next
    fix b e assume "walk ?v ?roots [] = Some (Inl b)" "reached ?v (set ?roots) e" "?v e = Inl b"
    with v [of e b] r n show ?thesis by (auto simp: in_cycle_def)
  qed
qed

lemma cycle_members_eq:
  assumes m: "closed_map m" and b: "set blocked \<subseteq> dom (map_of m)"
  shows "cycle_members m blocked =
    Some (filter (\<lambda>n. (n, n) \<in> (blocked_edges m (set blocked))\<^sup>+) blocked)"
proof -
  let ?C = "\<lambda>n. (n, n) \<in> (blocked_edges m (set blocked))\<^sup>+"
  have "in_cycle m blocked n = Some (?C n)" if "n \<in> set blocked" for n
    using that b in_cycle_iff [OF m] by blast
  then have "map (\<lambda>node. map_option (Pair node) (in_cycle m blocked node)) blocked =
      map Some (map (\<lambda>n. (n, ?C n)) blocked)" by simp
  then have "opt_all (map (\<lambda>node. map_option (Pair node) (in_cycle m blocked node)) blocked) =
      Some (map (\<lambda>n. (n, ?C n)) blocked)" by (simp only: opt_all_Some)
  then show ?thesis by (simp add: cycle_members_def filter_map comp_def)
qed

lemma cycle_is_blocked:
  assumes inv: "kahn_inv m st" and B: "dom (map_of m) - set (order st) \<subseteq> B" and m: "closed_map m"
    and "(y, n) \<in> (edges m)\<^sup>+" "(n, y) \<in> (edges m)\<^sup>*"
  shows "(y, n) \<in> (blocked_edges m B)\<^sup>+"
  using assms(4,5)
proof (induction rule: converse_trancl_induct)
  case (base y)
  then have "(y, y) \<in> (edges m)\<^sup>+" by (meson rtrancl_into_trancl2)
  from on_cycle_not_scheduled [OF inv this] base edges_in_dom [OF m base(1)] B
  show ?case by (auto simp: blocked_edges_def)
next
  case (step y z)
  then have "(y, y) \<in> (edges m)\<^sup>+" by (meson rtrancl_into_trancl2 trancl_into_rtrancl trancl_rtrancl_trancl)
  from on_cycle_not_scheduled [OF inv this] step.hyps(1) edges_in_dom [OF m step.hyps(1)] B
  have "(y, z) \<in> blocked_edges m B" by (auto simp: blocked_edges_def)
  moreover have "(z, n) \<in> (blocked_edges m B)\<^sup>+"
    using step by (meson rtrancl.rtrancl_into_rtrancl)
  ultimately show ?case by simp
qed

lemma finish_cycle:
  assumes m: "closed_map m" and inv: "kahn_inv m st" "ready st = []" and cyc: "\<not> acyclic (edges m)"
  shows "finish_build m st = Some (Inl (Cycle (sorted_list_of_set {n. (n, n) \<in> (edges m)\<^sup>+})))"
proof -
  let ?B = "map fst (filter (\<lambda>(_, c). c \<noteq> 0) (remaining st))" and ?D = "dom (map_of m)"
  have wfr: "bt_wf (remaining st)" and dr: "dom (map_of (remaining st)) = ?D"
    and rem: "\<forall>n \<in> ?D. the (map_of (remaining st) n) = card ({p. (p, n) \<in> edges m} - set (order st))"
    and sched: "scheduled m (order st)"
    using inv(1) by (simp_all add: kahn_inv_def)
  have B: "set ?B = ?D - set (order st)"
  proof -
    have a: "n \<in> set ?B \<longleftrightarrow> n \<in> ?D \<and> the (map_of (remaining st) n) \<noteq> 0" for n
      unfolding dr [symmetric] using map_of_eq_Some_iff [OF bt_wf_distinct [OF wfr], of n] by force
    have b: "card ({p. (p, n) \<in> edges m} - set (order st)) \<noteq> 0 \<longleftrightarrow> n \<notin> set (order st)" if "n \<in> ?D" for n
      using blocked_has_parent [OF inv that] scheduled_parents [OF sched, of n] by (auto simp: card_eq_0_iff)
    have "n \<in> set ?B \<longleftrightarrow> n \<in> ?D - set (order st)" for n
      unfolding a using b [of n] bspec [OF rem, of n] by (cases "n \<in> ?D") (simp_all del: domIff)
    then show ?thesis by blast
  qed
  have srt: "sorted ?B" "distinct ?B"
    using wfr by (simp_all add: sorted_filter distinct_map_filter bt_wf_sorted bt_wf_distinct)
  have "length (order st) \<noteq> length m"
    using cyc acyclic_iff_all_scheduled [OF m inv] sched closed_map_wf [OF m]
    by (metis card_subset_eq distinct_card finite_dom_map_of length_dom scheduled_def)
  moreover have "filter (\<lambda>n. (n, n) \<in> (blocked_edges m (set ?B))\<^sup>+) ?B = sorted_list_of_set {n. (n, n) \<in> (edges m)\<^sup>+}"
  proof (rule sorted_distinct_set_unique)
    have sub: "(blocked_edges m (set ?B))\<^sup>+ \<subseteq> (edges m)\<^sup>+"
      by (auto simp: blocked_edges_def intro: trancl_mono)
    have "n \<in> ?D" if "(n, n) \<in> (edges m)\<^sup>+" for n
      using that edges_in_dom [OF m] by (auto dest: tranclD)
    then have "finite {n. (n, n) \<in> (edges m)\<^sup>+}"
      by (intro finite_subset [OF _ finite_dom_map_of [of m]]) auto
    moreover have "(n, n) \<in> (blocked_edges m (set ?B))\<^sup>+ \<and> n \<in> set ?B" if "(n, n) \<in> (edges m)\<^sup>+" for n
      using that on_cycle_not_scheduled [OF inv(1) that] cycle_is_blocked [OF inv(1) _ m that] B
        \<open>\<And>n. (n, n) \<in> (edges m)\<^sup>+ \<Longrightarrow> n \<in> ?D\<close> by auto
    ultimately show "set (filter (\<lambda>n. (n, n) \<in> (blocked_edges m (set ?B))\<^sup>+) ?B) =
        set (sorted_list_of_set {n. (n, n) \<in> (edges m)\<^sup>+})"
      using sub by (simp only: set_sorted_list_of_set set_filter) blast
  qed (use srt in \<open>simp_all add: sorted_filter [of "\<lambda>x. x", simplified] del: filter_map\<close>)
  ultimately show ?thesis
    using cycle_members_eq [OF m, of ?B] B by (simp add: finish_build_def)
qed

section \<open>The built index\<close>

text \<open>The parent relation of the given nodes, and when they form a graph the index accepts.\<close>

definition parent_of :: "'k graph_node list \<Rightarrow> ('k \<times> 'k) set" where
  "parent_of ns = {(p, i). \<exists>n \<in> set ns. gn_id n = i \<and> p \<in> set (gn_parents n)}"

definition parents_known :: "'k graph_node list \<Rightarrow> bool" where
  "parents_known ns \<longleftrightarrow> (\<forall>n \<in> set ns. set (gn_parents n) \<subseteq> gn_id ` set ns)"

definition indexes :: "'k::linorder graph_index \<Rightarrow> 'k graph_node list \<Rightarrow> bool" where
  "indexes g ns \<longleftrightarrow>
     (\<exists>m gens. closed_map m \<and> edges m = parent_of ns \<and> dom (map_of m) = gn_id ` set ns \<and>
        generations_ok m (map_of gens) \<and> dom (map_of gens) = dom (map_of m) \<and>
        gi_nodes g = bt_map (\<lambda>n ps. \<lparr>ix_parents = ps, ix_generation = the (map_of gens n)\<rparr>) m \<and>
        scheduled m (gi_topological_order g) \<and> set (gi_topological_order g) = dom (map_of m))"

lemma edges_parent_map: "distinct (map gn_id ns) \<Longrightarrow> edges (parent_map ns) = parent_of ns"
  by (auto simp: edges_def parent_of_def parent_map_lookup)

lemma check_parents_known:
  assumes "distinct (map gn_id ns)"
  shows "check_parents (parent_map ns) = Inr () \<longleftrightarrow> parents_known ns"
proof -
  have "set (parent_map ns) = (\<lambda>n. (gn_id n, btset (gn_parents n))) ` set ns"
    using parent_map_lookup [OF assms] map_of_eq_Some_iff [OF bt_wf_distinct, of "parent_map ns"] by auto
  then show ?thesis
    using parent_map_lookup(3) [OF assms] by (auto simp: check_parents_Inr parents_known_def)
qed

lemma length_parent_map: "distinct (map gn_id ns) \<Longrightarrow> length (parent_map ns) = length ns"
  by (metis distinct_card length_dom length_map parent_map_lookup(1,3) set_map)

lemma finish_acyclic:
  assumes m: "closed_map m" and inv: "kahn_inv m st" "ready st = []" and acyc: "acyclic (edges m)"
  shows "finish_build m st = Some (Inr
    \<lparr>gi_nodes = bt_map (\<lambda>n ps. \<lparr>ix_parents = ps, ix_generation = the (map_of (generations st) n)\<rparr>) m,
     gi_topological_order = order st\<rparr>)"
proof -
  have all: "set (order st) = dom (map_of m)"
    using acyc acyclic_iff_all_scheduled [OF m inv] by simp
  then have "length (order st) = length m"
    using inv(1) closed_map_wf [OF m] by (metis distinct_card kahn_inv_def length_dom scheduled_def)
  moreover have "index_node (generations st) x =
      Some (fst x, \<lparr>ix_parents = snd x, ix_generation = the (map_of (generations st) (fst x))\<rparr>)" if "x \<in> set m" for x
  proof -
    from that have "fst x \<in> dom (map_of m)" by (simp add: dom_map_of_conv_image_fst)
    with inv(1) all have "fst x \<in> dom (map_of (generations st))" by (simp add: kahn_inv_def)
    then show ?thesis by (auto simp: index_node_def)
  qed
  then have "map (index_node (generations st)) m =
      map Some (bt_map (\<lambda>n ps. \<lparr>ix_parents = ps, ix_generation = the (map_of (generations st) n)\<rparr>) m)"
    by (simp add: bt_map_def split_beta)
  ultimately show ?thesis by (simp add: finish_build_def opt_all_Some [THEN iffD2])
qed

lemma build_outcomes:
  assumes "length ns \<le> usize_max"
  shows "(if \<not> distinct (map gn_id ns) then
      \<exists>xs n ys. ns = xs @ n # ys \<and> gn_id n \<in> gn_id ` set xs \<and> build ns = Some (Inl (DuplicateNode (gn_id n)))
    else if \<not> parents_known ns then
      \<exists>n \<in> set ns. \<exists>p \<in> set (gn_parents n). p \<notin> gn_id ` set ns \<and> build ns = Some (Inl (MissingParent (gn_id n) p))
    else if \<not> acyclic (parent_of ns) then
      build ns = Some (Inl (Cycle (sorted_list_of_set {i. (i, i) \<in> (parent_of ns)\<^sup>+})))
    else \<exists>g. build ns = Some (Inr g) \<and> indexes g ns)"
proof (cases "distinct (map gn_id ns)")
  case False
  then obtain e where e: "try_fold insert_node [] ns = Inl e"
    by (cases "try_fold insert_node [] ns") (auto simp: parent_map_Inr)
  from index_loop_Inl [OF insert_node_def this] obtain xs n ys where
    "ns = xs @ n # ys" "e = DuplicateNode (gn_id n)" "gn_id n \<in> gn_id ` set xs" by auto
  with False e show ?thesis by (auto simp: build_def)
next
  case d: True
  let ?m = "parent_map ns"
  have fold: "try_fold insert_node [] ns = Inr ?m" using d by (simp add: parent_map_Inr)
  show ?thesis
  proof (cases "parents_known ns")
    case False
    then obtain e where e: "check_parents ?m = Inl e"
      using check_parents_known [OF d] by (cases "check_parents ?m") auto
    from check_parents_Inl [OF this] obtain i ps p where x: "(i, ps) \<in> set ?m" "p \<in> set ps"
        "map_of ?m p = None" "e = MissingParent i p" by auto
    then have "map_of ?m i = Some ps"
      using bt_wf_distinct [OF parent_map_lookup(1) [OF d]] by simp
    then obtain n where "n \<in> set ns" "gn_id n = i" "ps = btset (gn_parents n)"
      by (auto simp: parent_map_lookup [OF d])
    moreover have "p \<notin> gn_id ` set ns" using x(3) parent_map_lookup(3) [OF d] by (metis domIff)
    ultimately show ?thesis using d False fold e x by (auto simp: build_def)
  next
    case True
    then have c: "check_parents ?m = Inr ()" using check_parents_known [OF d] by simp
    have m: "closed_map ?m" by (rule closed_parent_map [OF d c])
    obtain ch where ch: "children_map ?m = Some ch" "child_lists (dom (map_of ?m)) (edges ?m) ch"
      using children_map_ok [OF m] by auto
    obtain st where st: "kahn_loop ?m ch (kahn_start ?m) = Some (Inr st)" "kahn_inv ?m st" "ready st = []"
      using kahn_loop_ok [OF m _ ch(2) kahn_start_inv [OF m]] assms length_parent_map [OF d] by auto
    have b: "build ns = finish_build ?m st" using fold c ch st by (simp add: build_def)
    show ?thesis
    proof (cases "acyclic (parent_of ns)")
      case False
      with d True b finish_cycle [OF m st(2,3)] show ?thesis by (simp add: edges_parent_map)
    next
      case acyc: True
      then have a: "acyclic (edges ?m)" using d by (simp add: edges_parent_map)
      have "indexes \<lparr>gi_nodes = bt_map (\<lambda>n ps. \<lparr>ix_parents = ps, ix_generation = the (map_of (generations st) n)\<rparr>) ?m,
          gi_topological_order = order st\<rparr> ns"
        unfolding indexes_def
        using m st(2) a acyclic_iff_all_scheduled [OF m st(2,3)] edges_parent_map [OF d] parent_map_lookup(3) [OF d]
        by (intro exI [of _ ?m] exI [of _ "generations st"]) (simp add: kahn_inv_def)
      with d True acyc b finish_acyclic [OF m st(2,3) a] show ?thesis by simp
    qed
  qed
qed

lemma build_Inr_indexes:
  assumes "length ns \<le> usize_max" "build ns = Some (Inr g)"
  shows "indexes g ns" "acyclic (parent_of ns)" "distinct (map gn_id ns)" "parents_known ns"
  using build_outcomes [OF assms(1)] assms(2) by (auto split: if_splits)

section \<open>Queries\<close>

interpretation anc: worklist "ancestor_visit self" "dom (map_of (gi_nodes self))" for self
  by unfold_locales (auto simp: ancestor_visit_def finite_dom_map_of split: option.splits)

lemma indexes_node:
  assumes "indexes g ns"
  shows "i \<in> dom (map_of (gi_nodes g)) \<longleftrightarrow> i \<in> gn_id ` set ns"
    and "map_of (gi_nodes g) i = Some x \<Longrightarrow> set (ix_parents x) = {p. (p, i) \<in> parent_of ns}"
    and "(p, i) \<in> parent_of ns \<Longrightarrow> p \<in> gn_id ` set ns \<and> i \<in> gn_id ` set ns"
proof -
  from assms obtain m gens where m: "closed_map m" "edges m = parent_of ns" "dom (map_of m) = gn_id ` set ns"
      "gi_nodes g = bt_map (\<lambda>n ps. \<lparr>ix_parents = ps, ix_generation = the (map_of gens n)\<rparr>) m"
    unfolding indexes_def by auto
  show "i \<in> dom (map_of (gi_nodes g)) \<longleftrightarrow> i \<in> gn_id ` set ns"
    unfolding m(3) [symmetric] m(4) by (simp add: domIff)
  show "set (ix_parents x) = {p. (p, i) \<in> parent_of ns}" if "map_of (gi_nodes g) i = Some x"
    using that unfolding m(2) [symmetric] m(4) by (auto simp: edges_def)
  show "p \<in> gn_id ` set ns \<and> i \<in> gn_id ` set ns" if "(p, i) \<in> parent_of ns"
    using that edges_in_dom [OF m(1)] unfolding m(2,3) [symmetric] by auto
qed

lemma ancestor_known:
  assumes "indexes g ns" "(e, n) \<in> (parent_of ns)\<^sup>+"
  shows "e \<in> gn_id ` set ns"
proof -
  from tranclD [OF assms(2)] obtain z where "(e, z) \<in> parent_of ns" by blast
  from indexes_node(3) [OF assms(1) this] show ?thesis by simp
qed

lemma ancestor_reached:
  assumes g: "indexes g ns" and n: "map_of (gi_nodes g) node = Some x"
  shows "reached (ancestor_visit g) (set (ix_parents x)) e \<longleftrightarrow> (e, node) \<in> (parent_of ns)\<^sup>+"
proof
  show "(e, node) \<in> (parent_of ns)\<^sup>+" if "reached (ancestor_visit g) (set (ix_parents x)) e"
    using that
  proof (induction rule: reached.induct)
    case (root e)
    with indexes_node(2) [OF g n] show ?case by auto
  next
    case (succ e k v nx e')
    then have "(e', e) \<in> parent_of ns"
      using indexes_node(2) [OF g, of e] by (auto simp: ancestor_visit_def split: option.splits)
    with succ.IH show ?case by simp
  qed
  assume "(e, node) \<in> (parent_of ns)\<^sup>+"
  then show "reached (ancestor_visit g) (set (ix_parents x)) e"
  proof (induction rule: converse_trancl_induct)
    case (base y)
    with indexes_node(2) [OF g n] show ?case by (auto intro: reached.root)
  next
    case (step y z)
    from indexes_node(3) [OF g step.hyps(1)] have "z \<in> dom (map_of (gi_nodes g))"
      by (simp only: indexes_node(1) [OF g])
    then obtain zx where zx: "map_of (gi_nodes g) z = Some zx" by (auto simp: domIff)
    then have "ancestor_visit g z = Inr (z, (), ix_parents zx)" by (simp add: ancestor_visit_def)
    with step.IH show ?case
      by (rule reached.succ) (use step.hyps(1) indexes_node(2) [OF g zx] in simp)
  qed
qed

lemma ancestors_eq:
  assumes g: "indexes g ns" and n: "node \<in> gn_id ` set ns"
  shows "ancestors g node = Some (Inr (sorted_list_of_set {a. (a, node) \<in> (parent_of ns)\<^sup>+}))"
proof -
  from n indexes_node(1) [OF g] obtain x where x: "map_of (gi_nodes g) node = Some x" by blast
  let ?v = "ancestor_visit g"
  have ok: "?v e = Inr (e, (), ix_parents (the (map_of (gi_nodes g) e)))" if "(e, node) \<in> (parent_of ns)\<^sup>+" for e
  proof -
    have "e \<in> dom (map_of (gi_nodes g))"
      using ancestor_known [OF g that] by (simp only: indexes_node(1) [OF g])
    then show ?thesis by (auto simp: ancestor_visit_def)
  qed
  obtain seen where seen: "walk ?v (ix_parents x) [] = Some (Inr seen)" "anc.complete g (set (ix_parents x)) seen"
    using anc.walk_ok [of g "ix_parents x"] ok ancestor_reached [OF g x] by blast
  have "bt_wf seen" using seen(2) by (simp add: anc.complete_def)
  moreover have "dom (map_of seen) = {a. (a, node) \<in> (parent_of ns)\<^sup>+}"
  proof -
    have "k \<in> dom (map_of seen) \<longleftrightarrow> (k, node) \<in> (parent_of ns)\<^sup>+" for k
    proof
      assume "k \<in> dom (map_of seen)"
      then obtain e nx where "reached ?v (set (ix_parents x)) e" "?v e = Inr (k, (), nx)"
        using seen(2) by (auto simp: anc.complete_def)
      then show "(k, node) \<in> (parent_of ns)\<^sup>+"
        using ok [of e] ancestor_reached [OF g x] by simp
    next
      assume "(k, node) \<in> (parent_of ns)\<^sup>+"
      with ok [OF this] ancestor_reached [OF g x, of k] have "map_of seen k = Some ()"
        using seen(2) unfolding anc.complete_def by blast
      then show "k \<in> dom (map_of seen)" by blast
    qed
    then show ?thesis by auto
  qed
  ultimately show ?thesis using x seen(1) by (simp add: ancestors_def bt_keys)
qed

lemma generation_longest:
  assumes ok: "generations_ok m gens" and all: "\<And>p n. (p, n) \<in> edges m \<Longrightarrow> p \<in> dom gens \<and> n \<in> dom gens"
  shows "n \<in> dom gens \<Longrightarrow> (\<exists>a. (a, n) \<in> edges m ^^ unat (the (gens n))) \<and>
    (\<forall>k a. (a, n) \<in> edges m ^^ k \<longrightarrow> k \<le> unat (the (gens n)))"
proof (induction "unat (the (gens n))" arbitrary: n rule: less_induct)
  case less
  have below: "p \<in> dom gens \<and> unat (the (gens p)) < unat (the (gens n))" if "(p, n) \<in> edges m" for p
    using that ok less.prems by (simp add: generations_ok_def)
  have "\<exists>a. (a, n) \<in> edges m ^^ unat (the (gens n))"
  proof (cases "unat (the (gens n)) = 0")
    case False
    with ok less.prems obtain p where p: "(p, n) \<in> edges m" "unat (the (gens n)) = Suc (unat (the (gens p)))"
      unfolding generations_ok_def by (metis (no_types, lifting))
    with less.hyps [of p] below [OF p(1)] show ?thesis by auto
  qed auto
  moreover have "k \<le> unat (the (gens n))" if k: "(a, n) \<in> edges m ^^ k" for k a
  proof (cases k)
    case (Suc j)
    with k obtain p where p: "(a, p) \<in> edges m ^^ j" "(p, n) \<in> edges m" by auto
    with less.hyps [of p] below [OF p(2)] have "j \<le> unat (the (gens p))" by blast
    with below [OF p(2)] Suc show ?thesis by simp
  qed simp
  ultimately show ?case by blast
qed

lemma generation_eq:
  assumes "indexes g ns" "n \<in> gn_id ` set ns"
  shows "\<exists>k. generation g n = Inr k \<and> (\<exists>a. (a, n) \<in> parent_of ns ^^ unat k) \<and>
    (\<forall>j a. (a, n) \<in> parent_of ns ^^ j \<longrightarrow> j \<le> unat k)"
proof -
  from assms(1) obtain m gens where
    m: "closed_map m" "edges m = parent_of ns" "dom (map_of m) = gn_id ` set ns"
      "generations_ok m (map_of gens)" "dom (map_of gens) = dom (map_of m)"
      "gi_nodes g = bt_map (\<lambda>n ps. \<lparr>ix_parents = ps, ix_generation = the (map_of gens n)\<rparr>) m"
    unfolding indexes_def by blast
  from assms(2) m(3) obtain ps where "map_of m n = Some ps" by blast
  then have "generation g n = Inr (the (map_of gens n))" by (simp add: generation_def m(6))
  moreover have "n \<in> dom (map_of gens)" using assms(2) m(3,5) by simp
  ultimately show ?thesis
    using generation_longest [OF m(4), of n] edges_in_dom [OF m(1)] m(5) unfolding m(2) by simp
qed

lemma queries_eq:
  assumes g: "indexes g ns"
  shows "ancestors g n = Some (if n \<in> gn_id ` set ns
        then Inr (sorted_list_of_set {a. (a, n) \<in> (parent_of ns)\<^sup>+}) else Inl (UnknownNode n)) \<and>
    is_reachable g a d = Some (if a \<notin> gn_id ` set ns then Inl (UnknownNode a)
        else if a \<noteq> d \<and> d \<notin> gn_id ` set ns then Inl (UnknownNode d)
        else Inr ((a, d) \<in> (parent_of ns)\<^sup>*))"
proof -
  have unknown: "map_of (gi_nodes g) x = None \<longleftrightarrow> x \<notin> gn_id ` set ns" for x
    using indexes_node(1) [OF g, of x] by (auto simp: domIff)
  have anc: "ancestors g n = Some (if n \<in> gn_id ` set ns
      then Inr (sorted_list_of_set {a. (a, n) \<in> (parent_of ns)\<^sup>+}) else Inl (UnknownNode n))" for n
    using ancestors_eq [OF g] unknown [of n] by (auto simp: ancestors_def)
  have fin: "finite {a. (a, d) \<in> (parent_of ns)\<^sup>+}"
    by (rule finite_subset [of _ "gn_id ` set ns"]) (use ancestor_known [OF g] in blast, simp)
  have "is_reachable g a d = Some (if a \<notin> gn_id ` set ns then Inl (UnknownNode a)
      else if a \<noteq> d \<and> d \<notin> gn_id ` set ns then Inl (UnknownNode d)
      else Inr (a = d \<or> a \<noteq> d \<and> (a, d) \<in> (parent_of ns)\<^sup>+))"
    unfolding is_reachable_def unknown anc using fin by simp
  then show ?thesis unfolding anc rtrancl_eq_or_trancl by simp
qed

section \<open>Properties\<close>

text \<open>
  C14: Building an index always returns, and its outcome is exact. Duplicate identifiers, then
  unknown parents, then cycles are reported, the last with precisely the nodes that lie on a cycle,
  in order; every other list of nodes is accepted. Generations never overflow and no lookup panics.
\<close>

theorem graph_build_outcome:
  assumes "length ns \<le> usize_max"
  shows "(if \<not> distinct (map gn_id ns) then
      \<exists>xs n ys. ns = xs @ n # ys \<and> gn_id n \<in> gn_id ` set xs \<and> build ns = Some (Inl (DuplicateNode (gn_id n)))
    else if \<not> parents_known ns then
      \<exists>n \<in> set ns. \<exists>p \<in> set (gn_parents n). p \<notin> gn_id ` set ns \<and> build ns = Some (Inl (MissingParent (gn_id n) p))
    else if \<not> acyclic (parent_of ns) then
      build ns = Some (Inl (Cycle (sorted_list_of_set {i. (i, i) \<in> (parent_of ns)\<^sup>+})))
    else \<exists>g. build ns = Some (Inr g))"
  using build_outcomes [OF assms] by (auto split: if_splits)

text \<open>A diamond and the same nodes closed to a cycle.\<close>

definition diamond :: "nat graph_node list" where
  "diamond = [\<lparr>gn_id = 4, gn_parents = [2, 3]\<rparr>, \<lparr>gn_id = 1, gn_parents = []\<rparr>,
     \<lparr>gn_id = 3, gn_parents = [1]\<rparr>, \<lparr>gn_id = 2, gn_parents = [1, 1]\<rparr>]"

definition cyclic_nodes :: "nat graph_node list" where
  "cyclic_nodes = [\<lparr>gn_id = 1, gn_parents = [3]\<rparr>, \<lparr>gn_id = 3, gn_parents = [1]\<rparr>,
     \<lparr>gn_id = 2, gn_parents = [1]\<rparr>]"

theorem graph_build_outcome_witness:
  "build cyclic_nodes = Some (Inl (Cycle [1, 3])) \<and>
    build cyclic_nodes = Some (Inl (Cycle (sorted_list_of_set {i. (i, i) \<in> (parent_of cyclic_nodes)\<^sup>+})))"
proof
  show b: "build cyclic_nodes = Some (Inl (Cycle [1, 3]))" by code_simp
  have "length cyclic_nodes \<le> usize_max" by (simp add: cyclic_nodes_def usize_max_def)
  moreover have "distinct (map gn_id cyclic_nodes)" "parents_known cyclic_nodes"
    by (simp_all add: cyclic_nodes_def parents_known_def)
  ultimately show "build cyclic_nodes =
      Some (Inl (Cycle (sorted_list_of_set {i. (i, i) \<in> (parent_of cyclic_nodes)\<^sup>+})))"
    using graph_build_outcome [of cyclic_nodes] b by (simp split: if_splits)
qed

text \<open>
  C32: The built index. The topological order lists every node once with all parents before it, and
  the generation of a node is the length of its longest ancestry path.
\<close>

theorem graph_index_order:
  assumes "length ns \<le> usize_max" "build ns = Some (Inr g)"
  shows "distinct (gi_topological_order g) \<and> set (gi_topological_order g) = gn_id ` set ns \<and>
    (\<forall>i < length (gi_topological_order g). \<forall>p. (p, gi_topological_order g ! i) \<in> parent_of ns \<longrightarrow>
       p \<in> set (take i (gi_topological_order g))) \<and>
    (\<forall>n \<in> gn_id ` set ns. \<exists>k. generation g n = Inr k \<and> (\<exists>a. (a, n) \<in> parent_of ns ^^ unat k) \<and>
       (\<forall>j a. (a, n) \<in> parent_of ns ^^ j \<longrightarrow> j \<le> unat k))"
proof -
  from build_Inr_indexes(1) [OF assms] obtain m where
    "edges m = parent_of ns" "dom (map_of m) = gn_id ` set ns"
      "scheduled m (gi_topological_order g)" "set (gi_topological_order g) = dom (map_of m)"
    unfolding indexes_def by blast
  with generation_eq [OF build_Inr_indexes(1) [OF assms]] show ?thesis by (simp add: scheduled_def)
qed

theorem graph_index_order_witness:
  "\<exists>g. build diamond = Some (Inr g) \<and> gi_topological_order g = [1, 2, 3, 4] \<and>
    set (gi_topological_order g) = gn_id ` set diamond \<and> generation g 4 = Inr 2 \<and>
    (\<exists>a. (a, 4) \<in> parent_of diamond ^^ 2)"
proof -
  have l: "length diamond \<le> usize_max" by (simp add: diamond_def usize_max_def)
  have "case build diamond of Some (Inr g) \<Rightarrow>
      gi_topological_order g = [1, 2, 3, 4] \<and> generation g 4 = Inr 2 | _ \<Rightarrow> False" by code_simp
  then obtain g where g: "build diamond = Some (Inr g)" "gi_topological_order g = [1, 2, 3, 4]" "generation g 4 = Inr 2"
    by (auto split: option.splits sum.splits)
  have "4 \<in> gn_id ` set diamond" by (simp add: diamond_def)
  with graph_index_order [OF l g(1)] g show ?thesis by fastforce
qed

text \<open>
  C33: Ancestry queries. On a built index \<open>ancestors\<close> returns, in order, exactly the strict ancestors of a
  known node and \<open>is_reachable\<close> decides whether a path exists; unknown nodes are errors, and the
  traversals always end.
\<close>

theorem graph_queries:
  assumes "length ns \<le> usize_max" "build ns = Some (Inr g)"
  shows "ancestors g n = Some (if n \<in> gn_id ` set ns
        then Inr (sorted_list_of_set {a. (a, n) \<in> (parent_of ns)\<^sup>+}) else Inl (UnknownNode n)) \<and>
    is_reachable g a d = Some (if a \<notin> gn_id ` set ns then Inl (UnknownNode a)
        else if a \<noteq> d \<and> d \<notin> gn_id ` set ns then Inl (UnknownNode d)
        else Inr ((a, d) \<in> (parent_of ns)\<^sup>*))"
  by (rule queries_eq [OF build_Inr_indexes(1) [OF assms]])

theorem graph_queries_witness:
  "\<exists>g. build diamond = Some (Inr g) \<and>
    is_reachable g 1 4 = Some (Inr ((1, 4) \<in> (parent_of diamond)\<^sup>*)) \<and>
    ancestors g 9 = Some (Inl (UnknownNode 9))"
proof -
  have l: "length diamond \<le> usize_max" by (simp add: diamond_def usize_max_def)
  have "case build diamond of Some (Inr g) \<Rightarrow> True | _ \<Rightarrow> False" by code_simp
  then obtain g where g: "build diamond = Some (Inr g)" by (auto split: option.splits sum.splits)
  with graph_queries [OF l g, of 9 1 4] show ?thesis by (simp add: diamond_def)
qed

text \<open>C34: The index does not depend on the order in which the nodes are given.\<close>

theorem graph_build_order_independent:
  assumes "mset ns = mset ns'" "distinct (map gn_id ns)"
  shows "build ns = build ns'"
proof -
  have "distinct (map gn_id ns')" using assms by (metis mset_eq_imp_distinct_iff mset_map)
  moreover have "parent_map ns = parent_map ns'"
    unfolding parent_map_def using assms by (intro bt.fill_order) (simp_all add: comp_def)
  moreover have "try_fold insert_node [] xs = Inr (parent_map xs)" if "distinct (map gn_id xs)" for xs :: "'a graph_node list"
    using that by (simp add: parent_map_Inr)
  ultimately show ?thesis using assms(2) by (simp add: build_def)
qed

theorem graph_build_order_independent_witness:
  "build diamond = build (rev diamond) \<and> rev diamond \<noteq> diamond"
proof -
  have "mset diamond = mset (rev diamond)" "distinct (map gn_id diamond)" "rev diamond \<noteq> diamond"
    by (simp_all add: diamond_def)
  with graph_build_order_independent [of diamond "rev diamond"] show ?thesis by blast
qed

end
