(* ===== verification/Tree.thy ===== *)
theory Tree
  imports Ordered Objects
begin

text \<open>
  Flattened trees, \<open>crates/rgit-graph/src/tree.rs\<close>: entries at full paths, their ordering key, and the
  search for two paths that cannot coexist in a portable tree. The search inserts the paths in key
  order into a tree keyed by case-folded segments; it is shown to find a clash exactly when there
  is one, and to name two paths that really clash.
\<close>

section \<open>Entries\<close>

record tree_entry =
  te_path :: portable_path
  te_target :: manifest_target
  te_policy_ref :: policy_ref

datatype tree_entry_error = EmptyPath

definition tree_entry_new ::
  "portable_path \<Rightarrow> manifest_target \<Rightarrow> policy_ref \<Rightarrow> (tree_entry, tree_entry_error) result" where
  "tree_entry_new path target policy =
     (if segments path = [] then Inl EmptyPath
      else Inr \<lparr>te_path = path, te_target = target, te_policy_ref = policy\<rparr>)"

definition path_key_bytes :: "portable_path \<Rightarrow> bytes list" where
  "path_key_bytes path = map as_str (segments path)"

definition path_key :: "tree_entry \<Rightarrow> bytes list" where
  "path_key e = path_key_bytes (te_path e)"

section \<open>The collision search\<close>

datatype portable_tree_node =
  PortableTreeNode (terminal: "portable_path option")
    (tchildren: "(bytes \<times> bytes \<times> portable_path \<times> portable_tree_node) list")

text \<open>\<open>min_by_key\<close> on a nonempty iterator: the first of the least elements.\<close>

definition min_path :: "portable_path \<Rightarrow> portable_path list \<Rightarrow> portable_path" where
  "min_path p ps = foldl (\<lambda>a b. if path_key_bytes b < path_key_bytes a then b else a) p ps"

fun place ::
  "externals \<Rightarrow> portable_path \<Rightarrow> path_segment list \<Rightarrow> portable_tree_node
    \<Rightarrow> (portable_tree_node, portable_path \<times> portable_path) result" where
  "place X current [] (PortableTreeNode t ch) =
     (case map (fst \<circ> snd \<circ> snd) ch of
        p # ps \<Rightarrow> Inl (current, min_path p ps)
      | [] \<Rightarrow> Inr (PortableTreeNode (Some current) ch))"
| "place X current (segment # rest) (PortableTreeNode t ch) =
     (case t of
        Some ancestor \<Rightarrow> Inl (ancestor, current)
      | None \<Rightarrow>
          let folded = segment_case_fold X segment;
              (spelling, representative, node) =
                (case map_of ch folded of
                   Some child \<Rightarrow> child
                 | None \<Rightarrow> (as_str segment, current, PortableTreeNode None []))
          in if spelling \<noteq> as_str segment then Inl (representative, current)
             else and_then (place X current rest node) (\<lambda>node.
               Inr (PortableTreeNode None (bt_insert folded (spelling, representative, node) ch))))"

definition first_portable_collision ::
  "externals \<Rightarrow> (bytes list \<times> tree_entry) list \<Rightarrow> (portable_path \<times> portable_path) option" where
  "first_portable_collision X entries =
     (case try_fold (\<lambda>root (_, entry). place X (te_path entry) (segments (te_path entry)) root)
        (PortableTreeNode None []) entries of
        Inl pair \<Rightarrow> Some pair
      | Inr _ \<Rightarrow> None)"

section \<open>When two paths cannot coexist\<close>

text \<open>
  At the first difference one path ends inside the other, or two different spellings of one
  portable name meet.
\<close>

fun clash :: "externals \<Rightarrow> path_segment list \<Rightarrow> path_segment list \<Rightarrow> bool" where
  "clash X [] [] = False"
| "clash X [] (t # ts) = True"
| "clash X (s # ss) [] = True"
| "clash X (s # ss) (t # ts) =
     (if s = t then clash X ss ts else segment_case_fold X s = segment_case_fold X t)"

lemma clash_sym: "clash X p q = clash X q p"
  by (induction X p q rule: clash.induct) auto

lemma clash_irrefl [simp]: "\<not> clash X p p"
  by (induction p) auto

text \<open>
  A node stands for the paths placed below it, each with the segments still to go: at most one path
  ends here, and then it is the only one; each child stands for the paths whose next segment folds
  to its key, all of them with the child's spelling.
\<close>

type_synonym placed = "(path_segment list \<times> portable_path) set"

definition below :: "externals \<Rightarrow> bytes \<Rightarrow> placed \<Rightarrow> placed" where
  "below X f S = {(ss, p). \<exists>s. (s # ss, p) \<in> S \<and> segment_case_fold X s = f}"

fun stands_for :: "externals \<Rightarrow> portable_tree_node \<Rightarrow> placed \<Rightarrow> bool" where
  "stands_for X (PortableTreeNode t ch) S \<longleftrightarrow>
     (\<forall>p. t = Some p \<longleftrightarrow> ([], p) \<in> S) \<and> (t = None \<or> ch = []) \<and> bt_wf ch \<and>
     (\<forall>s ss p. (s # ss, p) \<in> S \<longrightarrow> segment_case_fold X s \<in> fst ` set ch) \<and>
     (\<forall>c \<in> set ch. (case c of (f, spelling, representative, node) \<Rightarrow>
        stands_for X node (below X f S) \<and> representative \<in> snd ` below X f S \<and>
        (\<forall>s ss p. (s # ss, p) \<in> S \<and> segment_case_fold X s = f \<longrightarrow> as_str s = spelling)))"

lemma stands_for_empty: "stands_for X (PortableTreeNode None []) {}"
  by simp

lemma min_path_in: "min_path p ps \<in> set (p # ps)"
proof -
  have "foldl (\<lambda>a b. if path_key_bytes b < path_key_bytes a then b else a) p ps \<in> set (p # ps)" for p
    by (induction ps arbitrary: p) (simp, fastforce)
  then show ?thesis by (simp only: min_path_def)
qed

lemma below_insert:
  "below X f (insert (s # ss, p) S) =
     (if segment_case_fold X s = f then insert (ss, p) (below X f S) else below X f S)"
  by (auto simp: below_def)

lemma place_ok:
  assumes "stands_for X node S" "place X p segs node = Inr node'" "segs \<notin> fst ` S"
  shows "stands_for X node' (insert (segs, p) S) \<and> (\<forall>(ts, q) \<in> S. \<not> clash X segs ts)"
  using assms
proof (induction X p segs node arbitrary: S node' rule: place.induct)
  case (1 X p t ch)
  then have "ch = []" "node' = PortableTreeNode (Some p) []" by (auto split: list.splits)
  with 1 have "S = {}" by (auto simp: neq_Nil_conv) (metis image_eqI fst_conv list.exhaust)
  with \<open>node' = _\<close> show ?case by auto
next
  case (2 X p s ss t ch)
  let ?f = "segment_case_fold X s"
  from "2.prems"(2) have t: "t = None" by (auto split: option.splits)
  obtain spelling rep child where c: "(case map_of ch ?f of Some c \<Rightarrow> c
      | None \<Rightarrow> (as_str s, p, PortableTreeNode None [])) = (spelling, rep, child)"
    by (metis prod_cases3)
  with "2.prems"(2) t have sp: "spelling = as_str s" by (auto split: if_splits)
  with "2.prems"(2) t c obtain child' where child': "place X p ss child = Inr child'"
      "node' = PortableTreeNode None (bt_insert ?f (spelling, rep, child') ch)"
    by (auto split: if_splits)
  note S = "2.prems"(1) [unfolded stands_for.simps t]
  have wf: "bt_wf ch" and fst: "\<And>s' ss' q. (s' # ss', q) \<in> S \<Longrightarrow> segment_case_fold X s' \<in> fst ` set ch"
    and nil: "\<And>q. ([], q) \<notin> S"
    using S by blast+
  have sub: "stands_for X n (below X f S) \<and> r \<in> snd ` below X f S \<and>
      (\<forall>s ss p. (s # ss, p) \<in> S \<and> segment_case_fold X s = f \<longrightarrow> as_str s = sp)"
    if "(f, sp, r, n) \<in> set ch" for f sp r n
    by (rule bspec [OF conjunct2 [OF conjunct2 [OF conjunct2 [OF conjunct2 [OF S]]]] that, unfolded prod.case])
  have spell: "s' = s" if "(s' # ss', q) \<in> S" "segment_case_fold X s' = ?f" for s' ss' q
  proof -
    from fst [OF that(1)] that(2) obtain x where "map_of ch ?f = Some x"
      by (metis map_of_eq_None_iff not_None_eq)
    with c have "(?f, spelling, rep, child) \<in> set ch" by (simp add: map_of_SomeD)
    with sub that sp have "as_str s' = as_str s" by blast
    then show ?thesis by (simp add: path_segment.expand)
  qed
  have "stands_for X child (below X ?f S)"
  proof (cases "map_of ch ?f")
    case None
    then have "below X ?f S = {}" using fst unfolding map_of_eq_None_iff below_def by (auto simp del: image_iff) metis
    with None c show ?thesis by auto
  next
    case (Some x)
    with c have "(?f, spelling, rep, child) \<in> set ch" by (simp add: map_of_SomeD)
    with sub show ?thesis by blast
  qed
  moreover have "ss \<notin> fst ` below X ?f S"
    using "2.prems"(3) spell by (force simp: below_def)
  ultimately have IH: "stands_for X child' (insert (ss, p) (below X ?f S))" "\<forall>(ts, q) \<in> below X ?f S. \<not> clash X ss ts"
    using "2.IH" [OF t refl refl c [symmetric] refl _ _ child'(1)] sp by auto
  have "rep \<in> snd ` insert (ss, p) (below X ?f S)"
    using c sub [of ?f spelling rep child] by (auto split: option.splits dest: map_of_SomeD)
  have "stands_for X n (below X f (insert (s # ss, p) S)) \<and> r \<in> snd ` below X f (insert (s # ss, p) S) \<and>
      (\<forall>s' ss' p'. (s' # ss', p') \<in> insert (s # ss, p) S \<and> segment_case_fold X s' = f \<longrightarrow> as_str s' = sp)"
    if "(f, sp, r, n) \<in> set (bt_insert ?f (spelling, rep, child') ch)" for f sp r n
  proof (cases "f = ?f")
    case True
    with that wf have "sp = spelling" "r = rep" "n = child'" by (auto simp: set_bt_insert)
    with True IH(1) \<open>rep \<in> _\<close> sp spell show ?thesis by (auto simp: below_insert)
  next
    case False
    with that wf have "(f, sp, r, n) \<in> set ch" by (simp add: set_bt_insert)
    with False sub [OF this] show ?thesis by (auto simp: below_insert)
  qed
  then have kids: "\<forall>c \<in> set (bt_insert ?f (spelling, rep, child') ch). case c of (f, sp, r, n) \<Rightarrow>
      stands_for X n (below X f (insert (s # ss, p) S)) \<and> r \<in> snd ` below X f (insert (s # ss, p) S) \<and>
      (\<forall>s' ss' p'. (s' # ss', p') \<in> insert (s # ss, p) S \<and> segment_case_fold X s' = f \<longrightarrow> as_str s' = sp)"
    by blast
  have "stands_for X node' (insert (s # ss, p) S)"
    unfolding child'(2) stands_for.simps by (intro conjI kids) (use wf nil fst in auto)
  moreover have "\<not> clash X (s # ss) ts" if "(ts, q) \<in> S" for ts q
  proof (cases ts)
    case (Cons t' ts')
    have "\<not> clash X ss ts'" if "t' = s"
      using bspec [OF IH(2), of "(ts', q)"] that \<open>(ts, q) \<in> S\<close> Cons by (auto simp: below_def)
    with Cons spell [of t' ts' q] that show ?thesis by auto
  qed (use that nil in simp)
  ultimately show ?case by auto
qed

lemma place_clash:
  assumes "stands_for X node S" "place X p segs node = Inl (a, b)"
  shows "\<exists>ts q. (ts, q) \<in> S \<and> clash X segs ts \<and> (a, b) \<in> {(p, q), (q, p)}"
  using assms
proof (induction X p segs node arbitrary: S rule: place.induct)
  case (1 X p t ch)
  then obtain r rs where r: "map (fst \<circ> snd \<circ> snd) ch = r # rs" "a = p" "b = min_path r rs"
    by (auto split: list.splits)
  with min_path_in [of r rs] have "b \<in> set (map (fst \<circ> snd \<circ> snd) ch)" by simp
  then obtain f sp n where c: "(f, sp, b, n) \<in> set ch" by force
  note S = "1.prems"(1) [unfolded stands_for.simps]
  have "b \<in> snd ` below X f S"
    using bspec [OF conjunct2 [OF conjunct2 [OF conjunct2 [OF conjunct2 [OF S]]]] c, unfolded prod.case] by blast
  then obtain s ss where "(s # ss, b) \<in> S" by (auto simp: below_def)
  with r show ?case by (intro exI [of _ "s # ss"] exI [of _ b]) simp
next
  case (2 X p s ss t ch)
  let ?f = "segment_case_fold X s"
  note S = "2.prems"(1) [unfolded stands_for.simps]
  show ?case
  proof (cases t)
    case (Some anc)
    with "2.prems"(2) have "a = anc" "b = p" by auto
    moreover have "([], anc) \<in> S" using S Some by blast
    ultimately show ?thesis by (intro exI [of _ "[]"] exI [of _ anc]) simp
  next
    case t: None
    obtain spelling rep child where c: "(case map_of ch ?f of Some c \<Rightarrow> c
        | None \<Rightarrow> (as_str s, p, PortableTreeNode None [])) = (spelling, rep, child)"
      by (metis prod_cases3)
    show ?thesis
    proof (cases "map_of ch ?f")
      case None
      with c have "stands_for X child {}" "spelling = as_str s" by auto
      with "2.IH" [OF t refl refl c [symmetric] refl _ \<open>stands_for X child {}\<close>] "2.prems"(2) t c
      show ?thesis by (auto simp: and_then_Inl)
    next
      case (Some x)
      with c have "(?f, spelling, rep, child) \<in> set ch" by (simp add: map_of_SomeD)
      from bspec [OF conjunct2 [OF conjunct2 [OF conjunct2 [OF conjunct2 [OF S]]]] this, unfolded prod.case]
      have k: "stands_for X child (below X ?f S)" "rep \<in> snd ` below X ?f S"
          "\<And>s' ss' q. (s' # ss', q) \<in> S \<Longrightarrow> segment_case_fold X s' = ?f \<Longrightarrow> as_str s' = spelling" by blast+
      show ?thesis
      proof (cases "spelling = as_str s")
        case True
        with "2.prems"(2) t c have "place X p ss child = Inl (a, b)" by (auto simp: and_then_Inl)
        with "2.IH" [OF t refl refl c [symmetric] refl _ k(1)] True obtain ts q where
          q: "(ts, q) \<in> below X ?f S" "clash X ss ts" "(a, b) \<in> {(p, q), (q, p)}" by blast
        then obtain s' where "(s' # ts, q) \<in> S" "segment_case_fold X s' = ?f" by (auto simp: below_def)
        moreover from this k(3) True have "s' = s" by (metis path_segment.expand)
        ultimately show ?thesis using q by (intro exI [of _ "s # ts"] exI [of _ q]) simp
      next
        case False
        with "2.prems"(2) t c have "a = rep" "b = p" by auto
        from k(2) obtain s' ss' where s': "(s' # ss', rep) \<in> S" "segment_case_fold X s' = ?f"
          by (auto simp: below_def)
        with k(3) False have "s' \<noteq> s" by auto
        with s' \<open>a = rep\<close> \<open>b = p\<close> show ?thesis by (intro exI [of _ "s' # ss'"] exI [of _ rep]) simp
      qed
    qed
  qed
qed

text \<open>The whole search over entries with distinct paths.\<close>

definition entry_paths :: "(bytes list \<times> tree_entry) list \<Rightarrow> portable_path set" where
  "entry_paths entries = (te_path \<circ> snd) ` set entries"

lemma place_all:
  assumes "stands_for X root ((\<lambda>p. (segments p, p)) ` P)"
    and "\<forall>p \<in> P. \<forall>q \<in> P. \<not> clash X (segments p) (segments q)"
    and "distinct (map (te_path \<circ> snd) entries)" "P \<inter> entry_paths entries = {}"
  shows "case try_fold (\<lambda>root (_, entry). place X (te_path entry) (segments (te_path entry)) root) root entries of
    Inr _ \<Rightarrow> \<forall>p \<in> P \<union> entry_paths entries. \<forall>q \<in> P \<union> entry_paths entries. \<not> clash X (segments p) (segments q)
  | Inl (a, b) \<Rightarrow> a \<in> P \<union> entry_paths entries \<and> b \<in> P \<union> entry_paths entries \<and> clash X (segments a) (segments b)"
  using assms
proof (induction entries arbitrary: P root)
  case Nil
  then show ?case by (simp add: entry_paths_def)
next
  case (Cons e entries)
  let ?p = "te_path (snd e)" and ?S = "(\<lambda>p. (segments p, p)) ` P"
  have paths: "entry_paths (e # entries) = insert ?p (entry_paths entries)" by (simp add: entry_paths_def)
  have new: "?p \<notin> P" "?p \<notin> entry_paths entries" "distinct (map (te_path \<circ> snd) entries)"
    using Cons.prems(3,4) paths by (auto simp: entry_paths_def comp_def)
  show ?case
  proof (cases "place X ?p (segments ?p) root")
    case (Inl ab)
    obtain a b where ab: "ab = (a, b)" by (cases ab)
    from place_clash [OF Cons.prems(1) Inl [unfolded ab]] obtain q where "q \<in> P" "clash X (segments ?p) (segments q)"
        "(a, b) \<in> {(?p, q), (q, ?p)}" by auto
    then have "a \<in> P \<union> entry_paths (e # entries) \<and> b \<in> P \<union> entry_paths (e # entries) \<and> clash X (segments a) (segments b)"
      using paths clash_sym [of X "segments ?p" "segments q"] by auto
    with Inl ab show ?thesis by (simp add: split_beta)
  next
    case (Inr root')
    have "segments ?p \<notin> fst ` ?S" using new(1) by (auto dest!: portable_path.expand)
    from place_ok [OF Cons.prems(1) Inr this] have
      a: "stands_for X root' ((\<lambda>p. (segments p, p)) ` insert ?p P)" and b: "\<forall>q \<in> P. \<not> clash X (segments ?p) (segments q)"
      by auto
    have c: "\<forall>p \<in> insert ?p P. \<forall>q \<in> insert ?p P. \<not> clash X (segments p) (segments q)"
      using b Cons.prems(2) by (simp add: clash_sym)
    have d: "insert ?p P \<inter> entry_paths entries = {}" using new Cons.prems(4) paths by auto
    have e: "insert ?p P \<union> entry_paths entries = P \<union> entry_paths (e # entries)" using paths by auto
    have f: "try_fold (\<lambda>root (_, entry). place X (te_path entry) (segments (te_path entry)) root) root (e # entries) =
        try_fold (\<lambda>root (_, entry). place X (te_path entry) (segments (te_path entry)) root) root' entries"
      using Inr by (simp add: split_beta)
    show ?thesis unfolding f by (rule Cons.IH [OF a c new(3) d, unfolded e])
  qed
qed

lemma first_portable_collision_cases:
  assumes "distinct (map (te_path \<circ> snd) entries)"
  shows "case first_portable_collision X entries of
    None \<Rightarrow> \<forall>p \<in> entry_paths entries. \<forall>q \<in> entry_paths entries. \<not> clash X (segments p) (segments q)
  | Some (a, b) \<Rightarrow> a \<in> entry_paths entries \<and> b \<in> entry_paths entries \<and> clash X (segments a) (segments b)"
  using place_all [of X "PortableTreeNode None []" "{}" entries] assms
  by (auto simp: first_portable_collision_def split: sum.splits)

end
