(* ===== verification/Diff_Merge_Spec.thy ===== *)
theory Diff_Merge_Spec
  imports Diff_Merge
begin

text \<open>
  Correctness of tree comparison and merge: admission of inputs, exactness and symmetry of the diff,
  and the three-way rule behind the merge.
\<close>

section \<open>Path-indexed maps\<close>

definition tree_map_of :: "tree_entry list \<Rightarrow> tree_map" where
  "tree_map_of es = bt.fill (map (\<lambda>e. (path_key e, e)) es)"

definition keyed :: "tree_map \<Rightarrow> bool" where
  "keyed m \<longleftrightarrow> bt_wf m \<and> (\<forall>x \<in> set m. fst x = path_key (snd x))"

text \<open>Entries that form a tree on every supported platform.\<close>

definition portable_tree :: "externals \<Rightarrow> tree_entry list \<Rightarrow> bool" where
  "portable_tree X es \<longleftrightarrow> distinct (map path_key es) \<and>
     (\<forall>a \<in> set es. \<forall>b \<in> set es. \<not> clash X (segments (te_path a)) (segments (te_path b)))"

lemma path_key_bytes_inj: "path_key_bytes p = path_key_bytes q \<Longrightarrow> p = q"
  unfolding path_key_bytes_def
  by (metis inj_map_eq_map injI path_segment.expand portable_path.expand)

lemma tree_map_lookup:
  assumes "distinct (map path_key es)"
  shows "bt_wf (tree_map_of es)"
    and "map_of (tree_map_of es) i = Some x \<longleftrightarrow> x \<in> set es \<and> path_key x = i"
    and "dom (map_of (tree_map_of es)) = path_key ` set es"
  using fill_lookup [OF assms, where v = "\<lambda>e. e"] unfolding tree_map_of_def by auto

lemma set_tree_map: "distinct (map path_key es) \<Longrightarrow> set (tree_map_of es) = (\<lambda>e. (path_key e, e)) ` set es"
  using tree_map_lookup [of es] map_of_eq_Some_iff [OF bt_wf_distinct, of "tree_map_of es"] by auto

lemma keyed_tree_map: "distinct (map path_key es) \<Longrightarrow> keyed (tree_map_of es)"
  by (auto simp: keyed_def tree_map_lookup set_tree_map)

lemma keyed_lookup: "keyed m \<Longrightarrow> map_of m k = Some e \<Longrightarrow> path_key e = k"
  unfolding keyed_def by (force dest: map_of_SomeD)

lemma keyed_distinct_paths: "keyed m \<Longrightarrow> distinct (map (te_path \<circ> snd) m)"
proof -
  assume m: "keyed m"
  then have "map fst m = map path_key_bytes (map (te_path \<circ> snd) m)"
    by (auto simp: keyed_def path_key_def)
  with m show ?thesis by (metis bt_wf_distinct distinct_map keyed_def)
qed

text \<open>The admission check of both routines: distinct paths without a portable clash.\<close>

lemma collision_free_tree_map:
  assumes "distinct (map path_key es)"
  shows "first_portable_collision X (tree_map_of es) = None \<longleftrightarrow> portable_tree X es"
proof -
  have "entry_paths (tree_map_of es) = te_path ` set es"
    using set_tree_map [OF assms] by (simp add: entry_paths_def image_image)
  then show ?thesis
    using first_portable_collision_cases [OF keyed_distinct_paths [OF keyed_tree_map [OF assms]], of X] assms
    by (auto simp: portable_tree_def split: option.splits prod.splits)
qed

lemma entries_by_path_Inr:
  "entries_by_path X input es = Inr m \<longleftrightarrow> portable_tree X es \<and> m = tree_map_of es"
proof -
  have "try_fold (insert_path input) [] es = Inr m' \<longleftrightarrow> distinct (map path_key es) \<and> m' = tree_map_of es" for m'
    unfolding tree_map_of_def by (rule index_loop_Inr [OF insert_path_def])
  then show ?thesis
    using collision_free_tree_map [of es X]
    by (auto simp: entries_by_path_def portable_tree_def split: option.splits prod.splits)
qed

lemma diff_input_new_Inr:
  "diff_input_new X visible opaque = Inr d \<longleftrightarrow>
     portable_tree X visible \<and> distinct (map oe_id opaque) \<and> di_visible d = tree_map_of visible \<and>
     di_opaque d = bt.fill (map (\<lambda>e. (oe_id e, oe_fingerprint e)) opaque)"
proof -
  have "try_fold insert_visible [] visible = Inr m \<longleftrightarrow> distinct (map path_key visible) \<and> m = tree_map_of visible" for m
    unfolding tree_map_of_def by (rule index_loop_Inr [OF insert_visible_def])
  moreover have "try_fold insert_opaque [] opaque = Inr m \<longleftrightarrow>
      distinct (map oe_id opaque) \<and> m = bt.fill (map (\<lambda>e. (oe_id e, oe_fingerprint e)) opaque)" for m
    by (rule index_loop_Inr [OF insert_opaque_def])
  ultimately show ?thesis
    using collision_free_tree_map [of visible X]
    by (cases d) (auto simp: diff_input_new_def portable_tree_def split: option.splits prod.splits)
qed

section \<open>Diff\<close>

lemma diff_fold:
  "foldl (diff_key p c) acc ks =
     acc\<lparr>fd_added := fd_added acc @ map (te_path \<circ> the \<circ> map_of c) (filter (\<lambda>k. map_of p k = None \<and> map_of c k \<noteq> None) ks),
         fd_modified := fd_modified acc @ map (te_path \<circ> the \<circ> map_of c)
           (filter (\<lambda>k. map_of p k \<noteq> None \<and> map_of c k \<noteq> None \<and> map_of p k \<noteq> map_of c k) ks),
         fd_deleted := fd_deleted acc @ map (te_path \<circ> the \<circ> map_of p) (filter (\<lambda>k. map_of p k \<noteq> None \<and> map_of c k = None) ks)\<rparr>"
proof (induction ks arbitrary: acc)
  case (Cons k ks)
  show ?case
    by (cases "map_of p k"; cases "map_of c k"; simp add: Cons.IH diff_key_def [of p c acc k])
qed simp

text \<open>Running over all keys and keeping those of one map is running over that map.\<close>

lemma btset_filter_keys:
  assumes "bt_wf m" "\<And>k. P k \<Longrightarrow> k \<in> dom (map_of m)" "dom (map_of m) \<subseteq> set ks"
  shows "filter P (btset ks) = filter P (map fst m)"
proof (rule sorted_distinct_set_unique)
  have "set (map fst m) = dom (map_of m)" by (simp add: dom_map_of_conv_image_fst)
  then show "set (filter P (btset ks)) = set (filter P (map fst m))"
    unfolding set_filter set_btset using assms(2,3) by blast
qed (use assms(1) in \<open>auto simp: sorted_wrt_filter bt_wf_sorted bt_wf_distinct\<close>)

lemma map_filter_entries:
  assumes "bt_wf m"
  shows "map (f \<circ> the \<circ> map_of m) (filter P (map fst m)) = map (f \<circ> snd) (filter (P \<circ> fst) m)"
proof -
  have "map_of m (fst x) = Some (snd x)" if "x \<in> set m" for x
    using map_of_is_SomeI [OF bt_wf_distinct [OF assms], of "fst x" "snd x"] that by simp
  then show ?thesis by (simp add: filter_map comp_def)
qed

text \<open>The specification of a diff between two views.\<close>

definition diff_spec :: "diff_input \<Rightarrow> diff_input \<Rightarrow> file_diff \<Rightarrow> bool" where
  "diff_spec p c d \<longleftrightarrow>
     fd_added d = [te_path e. (k, e) \<leftarrow> di_visible c, map_of (di_visible p) k = None] \<and>
     fd_deleted d = [te_path e. (k, e) \<leftarrow> di_visible p, map_of (di_visible c) k = None] \<and>
     fd_modified d = [te_path e. (k, e) \<leftarrow> di_visible c,
        map_of (di_visible p) k \<noteq> None \<and> map_of (di_visible p) k \<noteq> Some e] \<and>
     unat (fd_opaque_changed d) = card {i. map_of (di_opaque p) i \<noteq> map_of (di_opaque c) i}"

lemma filter_comprehension: "[f e. (k, e) \<leftarrow> m, P k e] = map (f \<circ> snd) (filter (\<lambda>x. P (fst x) (snd x)) m)"
  by (induction m) auto

lemma diff_opaque_card:
  "length (filter (\<lambda>i. map_of p i \<noteq> map_of c i) (btset (map fst p @ map fst c))) = card {i. map_of p i \<noteq> map_of c i}"
proof -
  have "length (filter (\<lambda>i. map_of p i \<noteq> map_of c i) (btset (map fst p @ map fst c))) =
      card (set (filter (\<lambda>i. map_of p i \<noteq> map_of c i) (btset (map fst p @ map fst c))))"
    by (rule distinct_card [symmetric]) simp
  also have "set (filter (\<lambda>i. map_of p i \<noteq> map_of c i) (btset (map fst p @ map fst c))) =
      {i. map_of p i \<noteq> map_of c i}"
    by (auto simp: map_of_eq_None_iff) (metis map_of_eq_None_iff set_map)+
  finally show ?thesis .
qed

lemma diff_exact_wf:
  assumes p: "bt_wf (di_visible p)" and c: "bt_wf (di_visible c)"
    and n: "length (di_opaque p) + length (di_opaque c) \<le> usize_max"
  shows "\<exists>d. diff p c = Inr d \<and> diff_spec p c d"
proof -
  let ?p = "di_visible p" and ?c = "di_visible c"
  let ?ks = "map fst ?p @ map fst ?c"
  have dp: "dom (map_of ?p) \<subseteq> set ?ks" and dc: "dom (map_of ?c) \<subseteq> set ?ks"
    by (auto simp: dom_map_of_conv_image_fst)
  let ?o = "length (filter (\<lambda>i. map_of (di_opaque p) i \<noteq> map_of (di_opaque c) i)
      (btset (map fst (di_opaque p) @ map fst (di_opaque c))))"
  have "?o \<le> length (btset (map fst (di_opaque p) @ map fst (di_opaque c)))" by (rule length_filter_le)
  also have "\<dots> \<le> length (map fst (di_opaque p) @ map fst (di_opaque c))" by (simp only: btset_def length_sort length_remdups_leq)
  finally have o: "?o \<le> usize_max" using n by simp
  have lookup_c: "map_of ?c (fst x) = Some (snd x)" if "x \<in> set ?c" for x
    using map_of_is_SomeI [OF bt_wf_distinct [OF c], of "fst x" "snd x"] that by simp
  have lookup_p: "map_of ?p (fst x) = Some (snd x)" if "x \<in> set ?p" for x
    using map_of_is_SomeI [OF bt_wf_distinct [OF p], of "fst x" "snd x"] that by simp
  have a: "map (te_path \<circ> the \<circ> map_of ?c) (filter (\<lambda>k. map_of ?p k = None \<and> map_of ?c k \<noteq> None) (btset ?ks)) =
      [te_path e. (k, e) \<leftarrow> ?c, map_of ?p k = None]"
    by (subst btset_filter_keys [OF c _ dc], blast, subst map_filter_entries [OF c], unfold filter_comprehension,
        intro arg_cong [where f = "map (te_path \<circ> snd)"] filter_cong) (auto simp: lookup_c)
  have m: "map (te_path \<circ> the \<circ> map_of ?c)
      (filter (\<lambda>k. map_of ?p k \<noteq> None \<and> map_of ?c k \<noteq> None \<and> map_of ?p k \<noteq> map_of ?c k) (btset ?ks)) =
      [te_path e. (k, e) \<leftarrow> ?c, map_of ?p k \<noteq> None \<and> map_of ?p k \<noteq> Some e]"
    by (subst btset_filter_keys [OF c _ dc], blast, subst map_filter_entries [OF c], unfold filter_comprehension,
        intro arg_cong [where f = "map (te_path \<circ> snd)"] filter_cong) (auto simp: lookup_c)
  have d: "map (te_path \<circ> the \<circ> map_of ?p) (filter (\<lambda>k. map_of ?p k \<noteq> None \<and> map_of ?c k = None) (btset ?ks)) =
      [te_path e. (k, e) \<leftarrow> ?p, map_of ?c k = None]"
    by (subst btset_filter_keys [OF p _ dp], blast, subst map_filter_entries [OF p], unfold filter_comprehension,
        intro arg_cong [where f = "map (te_path \<circ> snd)"] filter_cong) (auto simp: lookup_p)
  show ?thesis
    using o unfolding diff_def Let_def diff_fold a m d by (simp add: diff_spec_def diff_opaque_card)
qed

lemma diff_swap:
  assumes p: "keyed (di_visible p)" and c: "keyed (di_visible c)"
  shows "diff c p = and_then (diff p c) (\<lambda>d. Inr (d\<lparr>fd_added := fd_deleted d, fd_deleted := fd_added d\<rparr>))"
proof -
  let ?p = "di_visible p" and ?c = "di_visible c"
  let ?Q = "\<lambda>p c k. map_of p k \<noteq> None \<and> map_of c k \<noteq> None \<and> map_of p k \<noteq> map_of c k"
  have ks: "btset (map fst a @ map fst b) = btset (map fst b @ map fst a)"
    for a :: "('k::linorder \<times> 'v) list" and b :: "('k \<times> 'v) list" by (simp add: btset_eq Un_commute)
  have q: "?Q ?p ?c = ?Q ?c ?p" by (auto simp: fun_eq_iff)
  have "te_path (the (map_of ?c k)) = te_path (the (map_of ?p k))" if "?Q ?p ?c k" for k
    using that keyed_lookup [OF p, of k] keyed_lookup [OF c, of k]
    by (auto intro!: path_key_bytes_inj simp: path_key_def)
  then have "map (te_path \<circ> the \<circ> map_of ?c) (filter (?Q ?p ?c) xs) =
      map (te_path \<circ> the \<circ> map_of ?p) (filter (?Q ?p ?c) xs)" for xs by auto
  then have m: "map (te_path \<circ> the \<circ> map_of ?c) (filter (?Q ?p ?c) xs) =
      map (te_path \<circ> the \<circ> map_of ?p) (filter (?Q ?c ?p) xs)" for xs unfolding q by blast
  have o: "{i. map_of (di_opaque c) i \<noteq> map_of (di_opaque p) i} = {i. map_of (di_opaque p) i \<noteq> map_of (di_opaque c) i}"
    by auto
  show ?thesis
    unfolding diff_def Let_def diff_fold diff_opaque_card m [symmetric] ks [of ?c ?p] o
    by (simp add: conj_commute)
qed

section \<open>Merge\<close>

text \<open>The three-way rule at one path: \<open>None\<close> is a conflict, \<open>Some\<close> the entry of the result, if any.\<close>

definition resolve :: "'e option \<Rightarrow> 'e option \<Rightarrow> 'e option \<Rightarrow> 'e option option" where
  "resolve base line incoming =
     (if line = incoming then Some line
      else if base = line then Some incoming
      else if base = incoming then Some line
      else None)"

lemma resolve_laws [simp]:
  "resolve b b x = Some x" "resolve b x b = Some x" "resolve b x x = Some x"
  by (simp_all add: resolve_def)

lemma resolve_commute: "resolve b l i = resolve b i l"
  by (auto simp: resolve_def)

definition resolved :: "tree_map \<Rightarrow> tree_map \<Rightarrow> tree_map \<Rightarrow> bytes list \<Rightarrow> tree_entry option option" where
  "resolved B L I k = resolve (map_of B k) (map_of L k) (map_of I k)"

definition conflict_source :: "tree_map \<Rightarrow> tree_map \<Rightarrow> bytes list \<Rightarrow> tree_entry" where
  "conflict_source L I k = the (case map_of L k of Some e \<Rightarrow> Some e | None \<Rightarrow> map_of I k)"

definition conflict_at :: "tree_map \<Rightarrow> tree_map \<Rightarrow> tree_map \<Rightarrow> bytes list \<Rightarrow> merge_conflict" where
  "conflict_at B L I k =
     merge_conflict_new (te_path (conflict_source L I k)) (map_of B k) (map_of L k) (map_of I k)"

definition kept :: "tree_map \<Rightarrow> tree_map \<Rightarrow> tree_map \<Rightarrow> bytes list \<Rightarrow> tree_entry list" where
  "kept B L I k = (case resolved B L I k of Some (Some e) \<Rightarrow> [e] | _ \<Rightarrow> [])"

lemma merge_key_step:
  "merge_key B L I plan k =
     plan\<lparr>mp_merged_entries := mp_merged_entries plan @ kept B L I k,
          mp_conflicts := mp_conflicts plan @ (if resolved B L I k = None then [conflict_at B L I k] else [])\<rparr>"
  by (cases "map_of B k"; cases "map_of L k"; cases "map_of I k")
    (auto simp: merge_key_def kept_def resolved_def resolve_def push_entry_def conflict_at_def conflict_source_def Let_def)

lemma merge_fold:
  "foldl (merge_key B L I) plan ks =
     plan\<lparr>mp_merged_entries := mp_merged_entries plan @ concat (map (kept B L I) ks),
          mp_conflicts := mp_conflicts plan @ map (conflict_at B L I) (filter (\<lambda>k. resolved B L I k = None) ks)\<rparr>"
  by (induction ks arbitrary: plan) (simp_all add: merge_key_step)

lemma kept_key:
  assumes "keyed B" "keyed L" "keyed I" "e \<in> set (kept B L I k)"
  shows "path_key e = k \<and> resolved B L I k = Some (Some e)"
proof -
  from assms(4) have r: "resolved B L I k = Some (Some e)" by (auto simp: kept_def split: option.splits)
  then have "map_of L k = Some e \<or> map_of I k = Some e" by (auto simp: resolved_def resolve_def split: if_splits)
  with assms r show ?thesis using keyed_lookup by blast
qed

lemma kept_distinct:
  assumes "keyed B" "keyed L" "keyed I" "distinct ks"
  shows "distinct (map path_key (concat (map (kept B L I) ks)))"
  using assms(4)
proof (induction ks)
  case (Cons k ks)
  have "distinct (map path_key (kept B L I k))" by (auto simp: kept_def split: option.splits)
  moreover have "path_key e \<noteq> path_key e'" if "e \<in> set (kept B L I k)" "e' \<in> set (kept B L I k')" "k' \<in> set ks" for e e' k'
    using kept_key [OF assms(1-3)] that Cons.prems by fastforce
  ultimately show ?case using Cons by auto
qed simp

lemma option_eqI: "(\<And>e. x = Some e \<longleftrightarrow> y = Some e) \<Longrightarrow> x = y"
  by (cases x; cases y) auto

lemma merged_lookup:
  assumes k: "keyed B" "keyed L" "keyed I"
    and ks: "distinct ks" "dom (map_of B) \<union> dom (map_of L) \<union> dom (map_of I) \<subseteq> set ks"
  shows "map_of (tree_map_of (concat (map (kept B L I) ks))) p = Option.bind (resolved B L I p) (\<lambda>x. x)"
proof -
  have "e \<in> set (concat (map (kept B L I) ks)) \<and> path_key e = p \<longleftrightarrow> resolved B L I p = Some (Some e)" for e
  proof
    assume r: "resolved B L I p = Some (Some e)"
    then have "map_of L p = Some e \<or> map_of I p = Some e"
      by (auto simp: resolved_def resolve_def split: if_splits)
    then have "p \<in> set ks" using ks(2) by blast
    moreover have "e \<in> set (kept B L I p)" using r by (simp add: kept_def)
    ultimately show "e \<in> set (concat (map (kept B L I) ks)) \<and> path_key e = p"
      using kept_key [OF k] by auto
  qed (use kept_key [OF k] in auto)
  then have "map_of (tree_map_of (concat (map (kept B L I) ks))) p = Some e \<longleftrightarrow> resolved B L I p = Some (Some e)" for e
    by (simp add: tree_map_lookup(2) [OF kept_distinct [OF k ks(1)]] del: set_concat set_map)
  note r = this
  show ?thesis
  proof (rule option_eqI)
    show "map_of (tree_map_of (concat (map (kept B L I) ks))) p = Some e \<longleftrightarrow>
        Option.bind (resolved B L I p) (\<lambda>x. x) = Some e" for e
      using r [of e] by (cases "resolved B L I p") simp_all
  qed
qed

text \<open>The plan the merge computes before its final check.\<close>

definition merge_keys :: "tree_map \<Rightarrow> tree_map \<Rightarrow> tree_map \<Rightarrow> bytes list list" where
  "merge_keys B L I = btset (map fst B @ map fst L @ map fst I)"

definition merge_result :: "tree_map \<Rightarrow> tree_map \<Rightarrow> tree_map \<Rightarrow> merge_plan" where
  "merge_result B L I =
     \<lparr>mp_merged_entries = concat (map (kept B L I) (merge_keys B L I)),
      mp_conflicts = map (conflict_at B L I) (filter (\<lambda>k. resolved B L I k = None) (merge_keys B L I))\<rparr>"

lemma merge_three_way_Inr:
  "merge_three_way X base line incoming = Inr plan \<longleftrightarrow>
     portable_tree X base \<and> portable_tree X line \<and> portable_tree X incoming \<and>
     plan = merge_result (tree_map_of base) (tree_map_of line) (tree_map_of incoming) \<and>
     portable_tree X (mp_merged_entries plan)"
proof -
  have c: "first_portable_collision X (tree_map_of es) = None" if "portable_tree X es" for es
    using that collision_free_tree_map [of es X] by (simp add: portable_tree_def)
  show ?thesis
    unfolding merge_three_way_def Let_def merge_fold
    by (auto simp: entries_by_path_Inr merge_result_def merge_keys_def c split: option.splits)
qed

lemma keys_in_merge_keys:
  "dom (map_of B) \<union> dom (map_of L) \<union> dom (map_of I) \<subseteq> set (merge_keys B L I)"
  by (auto simp: merge_keys_def dom_map_of_conv_image_fst)

section \<open>Properties\<close>

text \<open>
  C35: The search for portable collisions is exact. Over entries with distinct paths it reports nothing
  if and only if no path ends inside another and no two spellings of one portable name meet in a
  directory; what it reports are two paths of the input that do clash.
\<close>

theorem portable_collision_exact:
  assumes "distinct (map path_key es)"
  shows "case first_portable_collision X (tree_map_of es) of
    None \<Rightarrow> portable_tree X es
  | Some (a, b) \<Rightarrow> a \<in> te_path ` set es \<and> b \<in> te_path ` set es \<and> clash X (segments a) (segments b)"
proof -
  have "entry_paths (tree_map_of es) = te_path ` set es"
    using set_tree_map [OF assms] by (simp add: entry_paths_def image_image)
  then show ?thesis
    using first_portable_collision_cases [OF keyed_distinct_paths [OF keyed_tree_map [OF assms]], of X]
      collision_free_tree_map [OF assms, of X]
    by (auto split: option.splits)
qed

definition sample_entry :: "bytes list \<Rightarrow> u8 \<Rightarrow> tree_entry" where
  "sample_entry ss d = \<lparr>te_path = PortablePath (map PathSegment ss),
     te_target = TDirectory (ObjectId 0 Sha256 (pad32 [d])),
     te_policy_ref = \<lparr>pr_policy_id = replicate 16 1, pr_version = ObjectId 0 Sha256 (pad32 [9])\<rparr>\<rparr>"

theorem portable_collision_exact_witness:
  "let es = [sample_entry [[0x61], [0x62]] 1, sample_entry [[0x61]] 2] in
    distinct (map path_key es) \<and>
    first_portable_collision sample_externals (tree_map_of es) =
      Some (PortablePath [PathSegment [0x61]], PortablePath [PathSegment [0x61], PathSegment [0x62]]) \<and>
    clash sample_externals [PathSegment [0x61]] [PathSegment [0x61], PathSegment [0x62]]"
proof -
  let ?es = "[sample_entry [[0x61], [0x62]] 1, sample_entry [[0x61]] 2]"
  have "distinct (map path_key ?es)" by (simp add: path_key_def path_key_bytes_def sample_entry_def)
  moreover have "first_portable_collision sample_externals (tree_map_of ?es) =
      Some (PortablePath [PathSegment [0x61]], PortablePath [PathSegment [0x61], PathSegment [0x62]])"
    by (simp add: first_portable_collision_def tree_map_of_def bt.fill_def path_key_def path_key_bytes_def
        sample_entry_def segment_case_fold_def portable_case_fold_def min_path_def word_less_nat_alt Let_def)
  ultimately show ?thesis
    using portable_collision_exact [of ?es sample_externals] by (simp add: Let_def)
qed

text \<open>
  C36: Tree diffs are exact. For two admitted views the diff always succeeds; it lists, in path order,
  exactly the visible paths added, deleted and changed, counts the hidden identities whose
  fingerprint changed, and comparing the views in the other direction swaps additions and deletions.
\<close>

theorem diff_exact:
  assumes "diff_input_new X vp op = Inr p" "diff_input_new X vc oc = Inr c"
    and "length (di_opaque p) + length (di_opaque c) \<le> usize_max"
  shows "\<exists>d. diff p c = Inr d \<and> diff_spec p c d \<and>
    diff c p = Inr (d\<lparr>fd_added := fd_deleted d, fd_deleted := fd_added d\<rparr>)"
proof -
  have "keyed (di_visible p)" "keyed (di_visible c)"
    using assms(1,2) by (auto simp: diff_input_new_Inr portable_tree_def intro: keyed_tree_map)
  with diff_exact_wf [of p c] diff_swap [of p c] assms(3) show ?thesis by (auto simp: keyed_def)
qed

theorem diff_exact_witness:
  "\<exists>p c d. diff_input_new sample_externals [sample_entry [[0x61]] 1] [] = Inr p \<and>
    diff_input_new sample_externals [sample_entry [[0x61]] 2, sample_entry [[0x62]] 3] [] = Inr c \<and>
    diff p c = Inr d \<and> diff_spec p c d"
proof -
  have "portable_tree sample_externals [sample_entry [[0x61]] 1]"
      "portable_tree sample_externals [sample_entry [[0x61]] 2, sample_entry [[0x62]] 3]"
    by (simp_all add: portable_tree_def path_key_def path_key_bytes_def sample_entry_def segment_case_fold_def
        portable_case_fold_def)
  then obtain p c where
    p: "diff_input_new sample_externals [sample_entry [[0x61]] 1] [] = Inr p" "di_opaque p = []" and
    c: "diff_input_new sample_externals [sample_entry [[0x61]] 2, sample_entry [[0x62]] 3] [] = Inr c" "di_opaque c = []"
    unfolding diff_input_new_Inr by (auto simp: bt.fill_def) (metis diff_input.select_convs)
  with diff_exact [OF p(1) c(1)] show ?thesis by (auto simp: usize_max_def)
qed

lemma merge_conflict_path: "mc_path (merge_conflict_new p base line incoming) = p"
  by (simp add: merge_conflict_new_def)

text \<open>What a conflict keeps of the three entries at its path.\<close>

definition side_of :: "tree_entry option \<Rightarrow> conflict_side option" where
  "side_of e = (case e of None \<Rightarrow> None | Some x \<Rightarrow> Some \<lparr>cs_target = te_target x, cs_policy_ref = te_policy_ref x\<rparr>)"

definition preserves :: "tree_entry option \<Rightarrow> tree_entry option \<Rightarrow> tree_entry option \<Rightarrow> merge_conflict \<Rightarrow> bool" where
  "preserves base line incoming c \<longleftrightarrow>
     mc_base c = side_of base \<and> mc_line c = side_of line \<and> mc_incoming c = side_of incoming \<and>
     mc_kind c = (if base = None then MergeAddAdd else if line = None \<or> incoming = None then MergeDeleteModify
       else MergeBothModified) \<and>
     rev (mc_source_policy_refs c) = remdups (rev (List.map_filter (map_option te_policy_ref) [line, incoming, base]))"

lemma conflict_preserves:
  assumes "resolve base line incoming = None"
  shows "c = merge_conflict_new (mc_path c) base line incoming \<longleftrightarrow> preserves base line incoming c"
proof -
  have "mc_kind (merge_conflict_new p base line incoming) = (if base = None then MergeAddAdd
      else if line = None \<or> incoming = None then MergeDeleteModify else MergeBothModified)" for p
    using assms by (cases base; cases line; cases incoming)
      (auto simp: merge_conflict_new_def conflict_kind_of_def resolve_def split: if_splits)
  moreover have "rev (mc_source_policy_refs (merge_conflict_new p base line incoming)) =
      remdups (rev (List.map_filter (map_option te_policy_ref) [line, incoming, base]))" for p
    by (cases base; cases line; cases incoming) (auto simp: merge_conflict_new_def push_policy_def map_filter_simps)
  ultimately have "preserves base line incoming (merge_conflict_new p base line incoming)" for p
    unfolding preserves_def by (cases base; cases line; cases incoming) (simp_all add: merge_conflict_new_def side_of_def conflict_side_of_def)
  moreover have "c = d" if "preserves base line incoming c" "preserves base line incoming d" "mc_path c = mc_path d" for c d
    using that unfolding preserves_def by (metis merge_conflict.equality rev_rev_ident old.unit.exhaust)
  ultimately show ?thesis by (metis merge_conflict_path)
qed

text \<open>
  C13: The merge follows the three-way rule at every path. A successful merge keeps exactly the entries
  that the rule selects, reports one conflict exactly at each path where base, line and incoming all
  differ, and its entries form a portable tree again. A conflict has its kind, the target and policy of
  each side in that side's field, absent where the side has no entry, and the policies of line, incoming
  and base in this order without repetition.
\<close>

theorem merge_three_way_correct:
  assumes "merge_three_way X base line incoming = Inr plan"
  shows "portable_tree X (mp_merged_entries plan) \<and>
    (\<forall>k. map_of (tree_map_of (mp_merged_entries plan)) k =
       Option.bind (resolved (tree_map_of base) (tree_map_of line) (tree_map_of incoming) k) (\<lambda>x. x)) \<and>
    distinct (map mc_path (mp_conflicts plan)) \<and>
    (\<forall>c. c \<in> set (mp_conflicts plan) \<longleftrightarrow>
       (\<exists>k. resolved (tree_map_of base) (tree_map_of line) (tree_map_of incoming) k = None \<and>
          path_key_bytes (mc_path c) = k \<and>
          preserves (map_of (tree_map_of base) k) (map_of (tree_map_of line) k) (map_of (tree_map_of incoming) k) c))"
proof -
  let ?B = "tree_map_of base" and ?L = "tree_map_of line" and ?I = "tree_map_of incoming"
  from assms have plan: "plan = merge_result ?B ?L ?I" "portable_tree X (mp_merged_entries plan)"
    and k: "keyed ?B" "keyed ?L" "keyed ?I"
    by (auto simp: merge_three_way_Inr portable_tree_def intro: keyed_tree_map)
  have src: "path_key (conflict_source ?L ?I key) = key \<and> key \<in> set (merge_keys ?B ?L ?I)"
    if "resolved ?B ?L ?I key = None" for key
  proof -
    from that obtain e where e: "conflict_source ?L ?I key = e" "map_of ?L key = Some e \<or> map_of ?I key = Some e"
      by (cases "map_of ?L key"; cases "map_of ?I key")
        (auto simp: resolved_def resolve_def conflict_source_def split: if_splits)
    then have "key \<in> set (merge_keys ?B ?L ?I)" using keys_in_merge_keys [of ?B ?L ?I] by blast
    with e keyed_lookup [OF k(2)] keyed_lookup [OF k(3)] show ?thesis by blast
  qed
  have "c \<in> set (mp_conflicts plan) \<longleftrightarrow> (\<exists>k. resolved ?B ?L ?I k = None \<and> c = conflict_at ?B ?L ?I k)" for c
    using src by (auto simp: plan(1) merge_result_def)
  moreover have "c = conflict_at ?B ?L ?I k \<longleftrightarrow> path_key_bytes (mc_path c) = k \<and>
      c = merge_conflict_new (mc_path c) (map_of ?B k) (map_of ?L k) (map_of ?I k)"
    if "resolved ?B ?L ?I k = None" for c k
  proof -
    have "mc_path (conflict_at ?B ?L ?I k) = te_path (conflict_source ?L ?I k)"
      by (simp add: conflict_at_def merge_conflict_new_def)
    with src [OF that] show ?thesis
      unfolding conflict_at_def path_key_def by (metis path_key_bytes_inj)
  qed
  ultimately have "c \<in> set (mp_conflicts plan) \<longleftrightarrow>
      (\<exists>k. resolved ?B ?L ?I k = None \<and> path_key_bytes (mc_path c) = k \<and>
          preserves (map_of ?B k) (map_of ?L k) (map_of ?I k) c)" for c
    using conflict_preserves unfolding resolved_def by metis
  moreover have ks: "distinct (merge_keys ?B ?L ?I)" by (simp add: merge_keys_def)
  moreover have "distinct (map mc_path (mp_conflicts plan))"
  proof -
    have "map (path_key_bytes \<circ> mc_path) (mp_conflicts plan) = filter (\<lambda>k. resolved ?B ?L ?I k = None) (merge_keys ?B ?L ?I)"
      using src by (auto simp: plan(1) merge_result_def conflict_at_def merge_conflict_new_def path_key_def intro!: map_idI)
    then have "distinct (map (path_key_bytes \<circ> mc_path) (mp_conflicts plan))" using ks by simp
    then show ?thesis by (metis distinct_map map_map)
  qed
  ultimately show ?thesis
    using plan(2) merged_lookup [OF k _ keys_in_merge_keys] by (simp add: plan(1) merge_result_def)
qed

definition merge_base :: "tree_entry list" where
  "merge_base = [sample_entry [[0x61]] 1, sample_entry [[0x62]] 1]"

definition merge_line :: "tree_entry list" where
  "merge_line = [sample_entry [[0x61]] 2, sample_entry [[0x62]] 2]"

definition merge_incoming :: "tree_entry list" where
  "merge_incoming = [sample_entry [[0x61]] 1, sample_entry [[0x62]] 3]"

lemma merge_samples_portable:
  "portable_tree sample_externals merge_base" "portable_tree sample_externals merge_line"
  "portable_tree sample_externals merge_incoming" "portable_tree sample_externals [sample_entry [[0x61]] 2]"
  by (simp_all add: portable_tree_def merge_base_def merge_line_def merge_incoming_def path_key_def path_key_bytes_def
      sample_entry_def segment_case_fold_def portable_case_fold_def)

lemma merge_sample:
  "merge_three_way sample_externals merge_base merge_line merge_incoming =
     Inr (merge_result (tree_map_of merge_base) (tree_map_of merge_line) (tree_map_of merge_incoming))"
  "mp_merged_entries (merge_result (tree_map_of merge_base) (tree_map_of merge_line) (tree_map_of merge_incoming)) =
     [sample_entry [[0x61]] 2]"
proof -
  have l: "map_of (tree_map_of merge_base) k = (if k = [[0x61]] then Some (sample_entry [[0x61]] 1)
        else if k = [[0x62]] then Some (sample_entry [[0x62]] 1) else None)"
      "map_of (tree_map_of merge_line) k = (if k = [[0x61]] then Some (sample_entry [[0x61]] 2)
        else if k = [[0x62]] then Some (sample_entry [[0x62]] 2) else None)"
      "map_of (tree_map_of merge_incoming) k = (if k = [[0x61]] then Some (sample_entry [[0x61]] 1)
        else if k = [[0x62]] then Some (sample_entry [[0x62]] 3) else None)" for k
    by (auto simp: tree_map_of_def bt.fill_def merge_base_def merge_line_def merge_incoming_def sample_entry_def
        path_key_def path_key_bytes_def word_less_nat_alt)
  have ks: "merge_keys (tree_map_of merge_base) (tree_map_of merge_line) (tree_map_of merge_incoming) = [[[0x61]], [[0x62]]]"
    by (simp add: merge_keys_def btset_def tree_map_of_def bt.fill_def merge_base_def merge_line_def merge_incoming_def
        sample_entry_def path_key_def path_key_bytes_def word_less_nat_alt word_le_nat_alt)
  have ne: "sample_entry ss 1 \<noteq> sample_entry ss 2" "sample_entry ss 1 \<noteq> sample_entry ss 3" "sample_entry ss 2 \<noteq> sample_entry ss 3" for ss
    by (simp_all add: sample_entry_def pad32_def)
  show m: "mp_merged_entries (merge_result (tree_map_of merge_base) (tree_map_of merge_line) (tree_map_of merge_incoming)) =
     [sample_entry [[0x61]] 2]"
    by (simp add: merge_result_def ks kept_def resolved_def resolve_def l ne ne [symmetric])
  show "merge_three_way sample_externals merge_base merge_line merge_incoming =
     Inr (merge_result (tree_map_of merge_base) (tree_map_of merge_line) (tree_map_of merge_incoming))"
    using merge_samples_portable by (simp add: merge_three_way_Inr m)
qed

theorem merge_three_way_correct_witness:
  "\<exists>plan. merge_three_way sample_externals merge_base merge_line merge_incoming = Inr plan \<and>
    portable_tree sample_externals (mp_merged_entries plan) \<and> mp_merged_entries plan = [sample_entry [[0x61]] 2]"
  using merge_three_way_correct [OF merge_sample(1)] merge_sample by blast

text \<open>
  Line and incoming side are interchangeable: merging with the sides exchanged succeeds as well,
  keeps the same entries and reports conflicts at the same paths in the same order.
\<close>

theorem merge_three_way_symmetric:
  assumes "merge_three_way X base line incoming = Inr plan"
  shows "\<exists>plan'. merge_three_way X base incoming line = Inr plan' \<and>
    mp_merged_entries plan' = mp_merged_entries plan \<and> map mc_path (mp_conflicts plan') = map mc_path (mp_conflicts plan)"
proof -
  let ?B = "tree_map_of base" and ?L = "tree_map_of line" and ?I = "tree_map_of incoming"
  let ?plan' = "merge_result ?B ?I ?L"
  from assms have plan: "plan = merge_result ?B ?L ?I" "portable_tree X (mp_merged_entries plan)"
    and p: "portable_tree X base" "portable_tree X line" "portable_tree X incoming"
    by (auto simp: merge_three_way_Inr)
  then have k: "keyed ?L" "keyed ?I" by (auto simp: portable_tree_def intro: keyed_tree_map)
  have r: "resolved ?B ?I ?L = resolved ?B ?L ?I"
    unfolding resolved_def by (intro ext) (rule resolve_commute)
  have ks: "merge_keys ?B ?I ?L = merge_keys ?B ?L ?I" by (simp add: merge_keys_def btset_eq Un_ac)
  have m: "mp_merged_entries ?plan' = mp_merged_entries plan"
    by (simp add: plan(1) merge_result_def ks kept_def [abs_def] r)
  have "mc_path (conflict_at ?B ?I ?L key) = mc_path (conflict_at ?B ?L ?I key)" if "resolved ?B ?L ?I key = None" for key
  proof -
    from that obtain e e' where "conflict_source ?L ?I key = e" "conflict_source ?I ?L key = e'"
        "path_key e = key" "path_key e' = key"
      using keyed_lookup [OF k(1), of key] keyed_lookup [OF k(2), of key]
      by (cases "map_of ?L key"; cases "map_of ?I key")
        (auto simp: resolved_def resolve_def conflict_source_def split: if_splits)
    then show ?thesis
      by (auto simp: conflict_at_def merge_conflict_new_def path_key_def intro: path_key_bytes_inj)
  qed
  then have "map mc_path (mp_conflicts ?plan') = map mc_path (mp_conflicts plan)"
    by (simp add: plan(1) merge_result_def ks r comp_def)
  with m plan(2) p show ?thesis by (auto simp: merge_three_way_Inr)
qed

theorem merge_three_way_symmetric_witness:
  "\<exists>plan'. merge_three_way sample_externals merge_base merge_incoming merge_line = Inr plan' \<and>
    mp_merged_entries plan' = [sample_entry [[0x61]] 2]"
  using merge_three_way_symmetric [OF merge_sample(1)] merge_sample(2) by auto

text \<open>
  A side that did not change does not matter: merging any portable tree with the base itself
  succeeds without conflicts and gives that tree.
\<close>

theorem merge_unchanged_side:
  assumes "portable_tree X base" "portable_tree X line"
  shows "\<exists>plan. merge_three_way X base line base = Inr plan \<and> mp_conflicts plan = [] \<and>
    tree_map_of (mp_merged_entries plan) = tree_map_of line"
proof -
  let ?B = "tree_map_of base" and ?L = "tree_map_of line"
  let ?plan = "merge_result ?B ?L ?B"
  have k: "keyed ?B" "keyed ?L" using assms by (auto simp: portable_tree_def intro: keyed_tree_map)
  have r: "resolved ?B ?L ?B key = Some (map_of ?L key)" for key by (simp add: resolved_def)
  have d: "distinct (map path_key (mp_merged_entries ?plan))"
    unfolding merge_result_def merge_plan.simps by (rule kept_distinct [OF k(1,2,1)]) (simp add: merge_keys_def)
  have "map_of (tree_map_of (mp_merged_entries ?plan)) key = map_of ?L key" for key
    using merged_lookup [OF k(1,2,1) _ keys_in_merge_keys, of key]
    by (simp add: merge_result_def r merge_keys_def)
  then have eq: "tree_map_of (mp_merged_entries ?plan) = ?L"
    using tree_map_lookup(1) [OF d] k(2) by (intro bt_eqI ext) (simp_all add: keyed_def)
  then have "(\<lambda>e. (path_key e, e)) ` set (mp_merged_entries ?plan) = (\<lambda>e. (path_key e, e)) ` set line"
    using set_tree_map [OF d] set_tree_map [of line] assms(2) by (simp add: portable_tree_def)
  then have "set (mp_merged_entries ?plan) = set line" by (auto simp: image_iff)
  with d assms(2) have "portable_tree X (mp_merged_entries ?plan)" by (simp add: portable_tree_def)
  moreover have "mp_conflicts ?plan = []" by (simp add: merge_result_def r)
  ultimately show ?thesis using assms eq by (auto simp: merge_three_way_Inr)
qed

theorem merge_unchanged_side_witness:
  "\<exists>plan. merge_three_way sample_externals merge_base merge_line merge_base = Inr plan \<and> mp_conflicts plan = [] \<and>
    tree_map_of (mp_merged_entries plan) = tree_map_of merge_line"
  by (rule merge_unchanged_side) (fact merge_samples_portable)+

end
