(* ===== verification/Memory.thy ===== *)
theory Memory
  imports References Graph
begin

text \<open>
  The object store contract and its in-memory implementation:
  \<open>crates/rgit-store/src/model.rs\<close>, \<open>error.rs\<close>, \<open>store.rs\<close> and \<open>memory.rs\<close>. An operation takes the
  locked snapshot and returns its result with the new snapshot. \<open>publish\<close> takes the lock twice, so it
  is given as the staging under the first lock and the commit under the second. A value \<open>None\<close> is
  a traversal that does not return; it is shown not to happen.
\<close>

section \<open>model.rs and error.rs\<close>

datatype put_outcome = New | AlreadyPresent

datatype object_presence = Present | PromisedPresence | QuarantinedPresence

record stored_object =
  so_id :: object_id
  so_bytes :: bytes
  so_object :: any_object
  so_references :: "reference_edge list"

definition stored_object_new ::
  "object_id \<Rightarrow> bytes \<Rightarrow> any_object \<Rightarrow> (stored_object, decode_object_error) result" where
  "stored_object_new i bs obj =
     and_then (references (decoded obj)) (\<lambda>refs.
       Inr \<lparr>so_id = i, so_bytes = bs, so_object = obj, so_references = refs\<rparr>)"

definition so_kind :: "stored_object \<Rightarrow> object_kind" where
  "so_kind o' = do_kind (decoded (so_object o'))"

record reference_state =
  rs_target :: object_id
  rs_generation :: u64
  rs_operation :: object_id

datatype expected_ref = Absent | Exact reference_state

record publication_object =
  po_id :: object_id
  po_bytes :: bytes

record ref_update =
  ru_key :: reference_key
  ru_expected :: expected_ref
  ru_target :: object_id

record publication =
  pb_objects :: "publication_object list"
  pb_updates :: "ref_update list"
  pb_operation :: object_id

type_synonym object_map = "(object_id \<times> stored_object) list"
type_synonym reference_map = "(reference_key \<times> reference_state) list"

datatype closure_error =
    ClosureMissing
  | ClosurePromised
  | ClosureQuarantined
  | ClosureWrongKind object_kind object_kind

datatype store_error =
    InvalidObject decode_object_error
  | NotPresent
  | Quarantined
  | Promised
  | InvalidReferenceKey
  | ReferenceConflict
  | DuplicateReferenceUpdate
  | ReferenceKindError
  | OperationMismatch
  | StoreGenerationOverflow
  | RevisionOverflow
  | PublicationDenied
  | ClosureFailed closure_error
  | InvalidGraph
  | Database
  | UnsupportedDatabase
  | UpgradeRequired
  | MigrationRequired
  | RetryableConflict
  | IncidentReadOnly
  | InjectedTransactionFailure
  | ObjectStorage

section \<open>Values\<close>

definition value_map :: "cvalue \<Rightarrow> fields option" where
  "value_map v = (case v of Map m \<Rightarrow> Some m | _ \<Rightarrow> None)"

definition value_array :: "cvalue \<Rightarrow> cvalue list option" where
  "value_array v = (case v of Array a \<Rightarrow> Some a | _ \<Rightarrow> None)"

definition value_field :: "fields \<Rightarrow> u64 \<Rightarrow> cvalue option" where
  "value_field m k = map_of m k"

definition value_bytes :: "cvalue \<Rightarrow> bytes option" where
  "value_bytes v = (case v of Bytes b \<Rightarrow> Some b | _ \<Rightarrow> None)"

definition value_unsigned :: "cvalue \<Rightarrow> u64 option" where
  "value_unsigned v = (case v of Unsigned n \<Rightarrow> Some n | _ \<Rightarrow> None)"

definition value_object_id :: "cvalue \<Rightarrow> object_id option" where
  "value_object_id v =
     Option.bind (value_bytes v) (\<lambda>b. case from_bytes b of Inr i \<Rightarrow> Some i | Inl _ \<Rightarrow> None)"

definition object_id_field :: "fields \<Rightarrow> u64 \<Rightarrow> object_id option" where
  "object_id_field m k = Option.bind (value_field m k) value_object_id"

definition value_typed_ref :: "cvalue \<Rightarrow> (object_kind \<times> object_id) option" where
  "value_typed_ref v =
     Option.bind (value_map v) (\<lambda>m.
     Option.bind (Option.bind (value_field m 0) value_unsigned) (\<lambda>n.
     Option.bind (case object_kind_of n of Inr k \<Rightarrow> Some k | Inl _ \<Rightarrow> None) (\<lambda>kind.
       map_option (Pair kind) (object_id_field m 1))))"

definition validate_line_predecessor :: "fields \<Rightarrow> expected_ref \<Rightarrow> (unit, store_error) result" where
  "validate_line_predecessor state expected =
     and_then (ok_or (value_field state 6) OperationMismatch) (\<lambda>v.
     and_then (ok_or (value_unsigned v) OperationMismatch) (\<lambda>generation.
       let previous = Option.bind (value_field state 7) value_object_id in
       case expected of
         Absent \<Rightarrow> ensure (generation = 0 \<and> previous = None) OperationMismatch
       | Exact old \<Rightarrow>
           and_then (ok_or (checked_add (rs_generation old) 1) StoreGenerationOverflow) (\<lambda>next.
             ensure (generation = next \<and> previous = Some (rs_target old)) OperationMismatch)))"

definition line_action_keys :: "(u64 \<times> u64) list" where
  "line_action_keys = [(0, 2), (1, 3), (2, 4), (3, 5), (4, 6), (6, 8), (7, 9), (8, 10), (9, 11)]"

definition line_action_matches :: "cvalue \<Rightarrow> fields \<Rightarrow> bool" where
  "line_action_matches action state =
     (case value_map action of
        None \<Rightarrow> False
      | Some action \<Rightarrow>
          if Option.bind (value_field action 0) value_unsigned \<noteq> Some 1 then False
          else (case Option.bind (value_field action 3) value_map of
              None \<Rightarrow> False
            | Some declaration \<Rightarrow>
                list_all (\<lambda>(dk, sk). value_field declaration dk = value_field state sk) line_action_keys \<and>
                value_field declaration 5 = value_field state 7))"

definition transition_matches :: "cvalue \<Rightarrow> ref_update \<Rightarrow> bool" where
  "transition_matches action update =
     (case value_map action of
        None \<Rightarrow> False
      | Some action \<Rightarrow>
          if Option.bind (value_field action 0) value_unsigned \<noteq> Some 0 then False
          else
            let before = Option.bind (value_field action 1) value_typed_ref;
                after = Option.bind (value_field action 2) value_typed_ref;
                expected_before = (case ru_expected update of
                    Absent \<Rightarrow> None
                  | Exact state \<Rightarrow> Some (expected_kind (ru_key update), rs_target state))
            in before = expected_before \<and> after = Some (expected_kind (ru_key update), ru_target update))"

definition reference_identity_matches :: "reference_key \<Rightarrow> stored_object \<Rightarrow> bool" where
  "reference_identity_matches key target =
     (case value_map (do_value (decoded (so_object target))) of
        None \<Rightarrow> False
      | Some m \<Rightarrow>
          (case key of
             KeyLine i \<Rightarrow> Option.bind (value_field m 3) value_bytes = Some i
           | KeyRelease i \<Rightarrow> Option.bind (value_field m 3) value_bytes = Some i
           | KeyChange i \<Rightarrow> Option.bind (value_field m 3) value_bytes = Some i
           | KeyOperationHead \<Rightarrow> True
           | KeyMarker _ \<Rightarrow> True))"

section \<open>Snapshots\<close>

record memory_snapshot =
  ms_objects :: object_map
  ms_promised :: "object_id set"
  ms_quarantined :: "object_id set"
  ms_references :: reference_map
  ms_revision :: u64

definition memory_new :: memory_snapshot where
  "memory_new = \<lparr>ms_objects = [], ms_promised = {}, ms_quarantined = {}, ms_references = [], ms_revision = 0\<rparr>"

definition memory_decode :: "externals \<Rightarrow> object_id \<Rightarrow> bytes \<Rightarrow> (stored_object, store_error) result" where
  "memory_decode X i bs =
     and_then (map_err InvalidObject (any_decode_verified X bs i bulk)) (\<lambda>obj.
       map_err InvalidObject (stored_object_new i bs obj))"

definition visible_object :: "memory_snapshot \<Rightarrow> object_id \<Rightarrow> (stored_object, store_error) result" where
  "visible_object state i =
     (if i \<in> ms_quarantined state then Inl Quarantined
      else case map_of (ms_objects state) i of
        Some obj \<Rightarrow> Inr obj
      | None \<Rightarrow> if i \<in> ms_promised state then Inl Promised else Inl NotPresent)"

definition check_expected :: "memory_snapshot \<Rightarrow> ref_update \<Rightarrow> (unit, store_error) result" where
  "check_expected state update =
     (let actual = map_of (ms_references state) (ru_key update) in
      ensure (case ru_expected update of Absent \<Rightarrow> actual = None | Exact e \<Rightarrow> actual = Some e) ReferenceConflict)"

definition next_state ::
  "memory_snapshot \<Rightarrow> publication \<Rightarrow> ref_update \<Rightarrow> (reference_state, store_error) result" where
  "next_state state pub update =
     and_then (case map_of (ms_references state) (ru_key update) of
         None \<Rightarrow> Inr 0
       | Some old \<Rightarrow> ok_or (checked_add (rs_generation old) 1) StoreGenerationOverflow) (\<lambda>g.
       Inr \<lparr>rs_target = ru_target update, rs_generation = g, rs_operation = pb_operation pub\<rparr>)"

section \<open>Traversals\<close>

definition closure_visit ::
  "memory_snapshot \<Rightarrow> reference_edge \<Rightarrow> (object_id \<times> stored_object \<times> reference_edge list, store_error) result" where
  "closure_visit state edge =
     (case visible_object state (re_id edge) of
        Inl NotPresent \<Rightarrow> Inl (ClosureFailed ClosureMissing)
      | Inl Promised \<Rightarrow> Inl (ClosureFailed ClosurePromised)
      | Inl Quarantined \<Rightarrow> Inl (ClosureFailed ClosureQuarantined)
      | Inl e \<Rightarrow> Inl e
      | Inr obj \<Rightarrow>
          (case re_expected_kind edge of
             Some expected \<Rightarrow>
               if so_kind obj \<noteq> expected then Inl (ClosureFailed (ClosureWrongKind expected (so_kind obj)))
               else Inr (re_id edge, obj, so_references obj)
           | None \<Rightarrow> Inr (re_id edge, obj, so_references obj)))"

definition closure_from ::
  "memory_snapshot \<Rightarrow> reference_edge list \<Rightarrow> (object_map, store_error) result option" where
  "closure_from state roots = walk (closure_visit state) roots []"

definition parent_role :: "object_kind \<Rightarrow> (reference_role, store_error) result" where
  "parent_role kind =
     (if kind = SnapshotKind then Inr RoleSnapshotParent
      else if kind = OperationKind then Inr RoleOperationParent
      else Inl InvalidGraph)"

definition parent_ids :: "reference_role \<Rightarrow> stored_object \<Rightarrow> object_id list" where
  "parent_ids role obj = map re_id (filter (\<lambda>edge. re_role edge = role) (so_references obj))"

definition graph ::
  "object_map \<Rightarrow> object_kind \<Rightarrow> (object_id graph_index, store_error) result option" where
  "graph objects kind =
     (case parent_role kind of
        Inl e \<Rightarrow> Some (Inl e)
      | Inr role \<Rightarrow>
          map_option (map_err (\<lambda>_. InvalidGraph))
            (build (map (\<lambda>obj. \<lparr>gn_id = so_id obj, gn_parents = parent_ids role obj\<rparr>)
               (filter (\<lambda>obj. so_kind obj = kind) (map snd objects)))))"

definition validate_affected_graphs :: "object_map \<Rightarrow> (unit, store_error) result option" where
  "validate_affected_graphs closure =
     Option.bind (graph closure SnapshotKind) (\<lambda>r.
       case r of
         Inl e \<Rightarrow> Some (Inl e)
       | Inr _ \<Rightarrow> map_option discard (graph closure OperationKind))"

definition ancestry_visit ::
  "memory_snapshot \<Rightarrow> object_kind \<Rightarrow> reference_role \<Rightarrow> object_id
    \<Rightarrow> (object_id \<times> stored_object \<times> object_id list, store_error) result" where
  "ancestry_visit state kind role i =
     and_then (visible_object state i) (\<lambda>obj.
       if so_kind obj \<noteq> kind then Inl InvalidGraph else Inr (i, obj, parent_ids role obj))"

definition ancestry_closure ::
  "memory_snapshot \<Rightarrow> object_id list \<Rightarrow> object_kind \<Rightarrow> (object_map, store_error) result option" where
  "ancestry_closure state roots kind =
     (case parent_role kind of
        Inl e \<Rightarrow> Some (Inl e)
      | Inr role \<Rightarrow> walk (ancestry_visit state kind role) roots [])"

section \<open>Staging a publication\<close>

text \<open>The first unconsumed action that matches.\<close>

definition find_action :: "(cvalue \<Rightarrow> bool) \<Rightarrow> nat set \<Rightarrow> cvalue list \<Rightarrow> nat option" where
  "find_action match consumed actions =
     find (\<lambda>i. i \<notin> consumed \<and> match (actions ! i)) [0..<length actions]"

definition validate_head_update ::
  "publication \<Rightarrow> stored_object \<Rightarrow> ref_update \<Rightarrow> (unit, store_error) result" where
  "validate_head_update pub operation update =
     (if ru_target update \<noteq> pb_operation pub then Inl OperationMismatch
      else
        let parents = parent_ids RoleOperationParent operation in
        case ru_expected update of
          Absent \<Rightarrow> ensure (parents = []) OperationMismatch
        | Exact state \<Rightarrow> ensure (rs_target state \<in> set parents) OperationMismatch)"

definition validate_line_update ::
  "publication \<Rightarrow> memory_snapshot \<Rightarrow> line_id \<Rightarrow> ref_update \<Rightarrow> (fields, store_error) result" where
  "validate_line_update pub state line_id update =
     and_then (visible_object state (ru_target update)) (\<lambda>obj.
     and_then (ok_or (value_map (do_value (decoded (so_object obj)))) OperationMismatch) (\<lambda>line_state.
     and_then (ok_or (value_field line_state 3) OperationMismatch) (\<lambda>v.
     and_then (ensure (value_bytes v = Some line_id) OperationMismatch) (\<lambda>_.
     and_then (ensure (object_id_field line_state 12 = Some (pb_operation pub)) OperationMismatch) (\<lambda>_.
     and_then (validate_line_predecessor line_state (ru_expected update)) (\<lambda>_.
       Inr line_state))))))"

definition consume :: "(cvalue \<Rightarrow> bool) \<Rightarrow> cvalue list \<Rightarrow> nat set \<Rightarrow> (nat set, store_error) result" where
  "consume match actions consumed =
     and_then (ok_or (find_action match consumed actions) OperationMismatch) (\<lambda>i. Inr (insert i consumed))"

definition validate_update ::
  "publication \<Rightarrow> stored_object \<Rightarrow> memory_snapshot \<Rightarrow> cvalue list \<Rightarrow> nat set \<Rightarrow> ref_update
    \<Rightarrow> (nat set, store_error) result" where
  "validate_update pub operation state actions consumed update =
     (case ru_key update of
        KeyOperationHead \<Rightarrow> and_then (validate_head_update pub operation update) (\<lambda>_. Inr consumed)
      | KeyLine line_id \<Rightarrow>
          and_then (validate_line_update pub state line_id update) (\<lambda>line_state.
            consume (\<lambda>action. line_action_matches action line_state) actions consumed)
      | _ \<Rightarrow> consume (\<lambda>action. transition_matches action update) actions consumed)"

definition operation_actions :: "stored_object \<Rightarrow> (cvalue list, store_error) result" where
  "operation_actions operation =
     and_then (ok_or (value_map (do_value (decoded (so_object operation)))) OperationMismatch) (\<lambda>m.
     and_then (ok_or (value_field m 8) OperationMismatch) (\<lambda>v.
       ok_or (value_array v) OperationMismatch))"

definition validate_operation ::
  "publication \<Rightarrow> stored_object \<Rightarrow> memory_snapshot \<Rightarrow> (unit, store_error) result" where
  "validate_operation pub operation state =
     and_then (operation_actions operation) (\<lambda>actions.
     and_then (try_fold (validate_update pub operation state actions) {} (pb_updates pub)) (\<lambda>consumed.
       ensure (card consumed = length actions) OperationMismatch))"

definition stage_object ::
  "externals \<Rightarrow> memory_snapshot \<Rightarrow> publication_object \<Rightarrow> (memory_snapshot, store_error) result" where
  "stage_object X staged candidate =
     and_then (memory_decode X (po_id candidate) (po_bytes candidate)) (\<lambda>dec.
       case map_of (ms_objects staged) (po_id candidate) of
         Some existing \<Rightarrow>
           if so_bytes existing \<noteq> so_bytes dec then Inl (InvalidObject Digest)
           else Inr (staged\<lparr>ms_promised := ms_promised staged - {po_id candidate}\<rparr>)
       | None \<Rightarrow>
           Inr (staged\<lparr>ms_objects := bt_insert (po_id candidate) dec (ms_objects staged),
                       ms_promised := ms_promised staged - {po_id candidate}\<rparr>))"

definition stage_update ::
  "memory_snapshot \<Rightarrow> memory_snapshot \<Rightarrow> reference_key set \<Rightarrow> ref_update \<Rightarrow> (reference_key set, store_error) result" where
  "stage_update state staged keys update =
     (if ru_key update \<in> keys then Inl DuplicateReferenceUpdate
      else
        and_then (check_expected state update) (\<lambda>_.
        and_then (visible_object staged (ru_target update)) (\<lambda>target.
        and_then (ensure (so_kind target = expected_kind (ru_key update)) ReferenceKindError) (\<lambda>_.
        and_then (ensure (reference_identity_matches (ru_key update) target) ReferenceKindError) (\<lambda>_.
          Inr (insert (ru_key update) keys))))))"

definition publication_roots :: "publication \<Rightarrow> reference_edge list" where
  "publication_roots pub =
     \<lparr>re_role = RoleOperationAfter, re_expected_kind = Some OperationKind, re_id = pb_operation pub\<rparr> #
     map (\<lambda>update. \<lparr>re_role = RoleOperationAfter, re_expected_kind = Some (expected_kind (ru_key update)),
            re_id = ru_target update\<rparr>) (pb_updates pub)"

definition install ::
  "memory_snapshot \<Rightarrow> publication \<Rightarrow> memory_snapshot \<Rightarrow> ref_update \<Rightarrow> (memory_snapshot, store_error) result" where
  "install state pub staged update =
     and_then (next_state state pub update) (\<lambda>next.
       Inr (staged\<lparr>ms_references := bt_insert (ru_key update) next (ms_references staged)\<rparr>))"

text \<open>The checks before the closure, and the whole of \<open>stage\<close>.\<close>

definition stage_checked ::
  "externals \<Rightarrow> publication \<Rightarrow> memory_snapshot \<Rightarrow> (memory_snapshot, store_error) result" where
  "stage_checked X pub state =
     and_then (try_fold (stage_object X) state (pb_objects pub)) (\<lambda>staged.
     and_then (visible_object staged (pb_operation pub)) (\<lambda>operation.
     and_then (ensure (so_kind operation = OperationKind) ReferenceKindError) (\<lambda>_.
     and_then (try_fold (stage_update state staged) {} (pb_updates pub)) (\<lambda>_.
     and_then (validate_operation pub operation staged) (\<lambda>_.
       Inr staged)))))"

definition stage ::
  "externals \<Rightarrow> publication \<Rightarrow> memory_snapshot \<Rightarrow> (memory_snapshot, store_error) result option" where
  "stage X pub state =
     (case stage_checked X pub state of
        Inl e \<Rightarrow> Some (Inl e)
      | Inr staged \<Rightarrow>
          Option.bind (closure_from staged (publication_roots pub)) (\<lambda>r.
            case r of
              Inl e \<Rightarrow> Some (Inl e)
            | Inr closure \<Rightarrow>
                map_option (\<lambda>r. and_then r (\<lambda>_. try_fold (install state pub) staged (pb_updates pub)))
                  (validate_affected_graphs closure)))"

section \<open>Store operations\<close>

definition store_put ::
  "externals \<Rightarrow> object_id \<Rightarrow> bytes \<Rightarrow> memory_snapshot \<Rightarrow> (put_outcome, store_error) result \<times> memory_snapshot" where
  "store_put X i bs state =
     (case memory_decode X i bs of
        Inl e \<Rightarrow> (Inl e, state)
      | Inr dec \<Rightarrow>
          (case map_of (ms_objects state) i of
             Some existing \<Rightarrow>
               (if so_bytes existing = so_bytes dec then Inr AlreadyPresent else Inl (InvalidObject Digest), state)
           | None \<Rightarrow>
               (case checked_add (ms_revision state) 1 of
                  None \<Rightarrow> (Inl RevisionOverflow, state)
                | Some next \<Rightarrow>
                    (Inr New, state\<lparr>ms_objects := bt_insert i dec (ms_objects state),
                       ms_promised := ms_promised state - {i}, ms_revision := next\<rparr>))))"

definition store_get :: "object_id \<Rightarrow> memory_snapshot \<Rightarrow> (stored_object, store_error) result" where
  "store_get i state = visible_object state i"

definition store_presence :: "object_id \<Rightarrow> memory_snapshot \<Rightarrow> object_presence option" where
  "store_presence i state =
     (if i \<in> ms_quarantined state then Some QuarantinedPresence
      else if map_of (ms_objects state) i \<noteq> None then Some Present
      else if i \<in> ms_promised state then Some PromisedPresence
      else None)"

definition store_mark_promised ::
  "object_id \<Rightarrow> memory_snapshot \<Rightarrow> (unit, store_error) result \<times> memory_snapshot" where
  "store_mark_promised i state =
     (if map_of (ms_objects state) i = None \<and> i \<notin> ms_promised state
      then (case checked_add (ms_revision state) 1 of
              None \<Rightarrow> (Inl RevisionOverflow, state)
            | Some next \<Rightarrow>
                (Inr (), state\<lparr>ms_promised := insert i (ms_promised state), ms_revision := next\<rparr>))
      else (Inr (), state))"

definition store_quarantine ::
  "object_id \<Rightarrow> memory_snapshot \<Rightarrow> (unit, store_error) result \<times> memory_snapshot" where
  "store_quarantine i state =
     (if map_of (ms_objects state) i = None \<and> i \<notin> ms_promised state then (Inl NotPresent, state)
      else if i \<in> ms_quarantined state then (Inr (), state)
      else (case checked_add (ms_revision state) 1 of
              None \<Rightarrow> (Inl RevisionOverflow, state)
            | Some next \<Rightarrow>
                (Inr (), state\<lparr>ms_quarantined := insert i (ms_quarantined state), ms_revision := next\<rparr>)))"

definition store_reference :: "reference_key \<Rightarrow> memory_snapshot \<Rightarrow> reference_state option" where
  "store_reference key state = map_of (ms_references state) key"

text \<open>The validator of a publication is a caller-supplied closure over the candidate.\<close>

record publication_candidate =
  pc_publication :: publication
  pc_objects :: object_map
  pc_references :: reference_map

type_synonym validator = "publication_candidate \<Rightarrow> (unit, store_error) result"

record staged_publication =
  sp_publication :: publication
  sp_staged :: memory_snapshot
  sp_base_revision :: u64
  sp_next_revision :: u64

text \<open>First critical section of \<open>publish\<close>.\<close>

definition publish_begin ::
  "externals \<Rightarrow> publication \<Rightarrow> memory_snapshot \<Rightarrow> (staged_publication, store_error) result option" where
  "publish_begin X pub state =
     (case checked_add (ms_revision state) 1 of
        None \<Rightarrow> Some (Inl RevisionOverflow)
      | Some next \<Rightarrow>
          map_option (\<lambda>r. and_then r (\<lambda>staged.
            Inr \<lparr>sp_publication = pub, sp_staged = staged, sp_base_revision = ms_revision state,
                 sp_next_revision = next\<rparr>)) (stage X pub state))"

text \<open>Validation without the lock, then the second critical section.\<close>

definition publish_commit ::
  "validator \<Rightarrow> staged_publication \<Rightarrow> memory_snapshot
    \<Rightarrow> (reference_state list \<times> memory_snapshot, store_error) result" where
  "publish_commit validate p state =
     (let pub = sp_publication p; staged = sp_staged p in
      and_then (validate \<lparr>pc_publication = pub, pc_objects = ms_objects staged, pc_references = ms_references staged\<rparr>) (\<lambda>_.
        let results = List.map_filter (\<lambda>update. map_of (ms_references staged) (ru_key update)) (pb_updates pub) in
        if ms_revision state \<noteq> sp_base_revision p then Inl ReferenceConflict
        else Inr (results, staged\<lparr>ms_revision := sp_next_revision p\<rparr>)))"

text \<open>\<open>publish\<close> when nothing else runs between the two critical sections.\<close>

definition store_publish ::
  "externals \<Rightarrow> validator \<Rightarrow> publication \<Rightarrow> memory_snapshot
    \<Rightarrow> (reference_state list \<times> memory_snapshot, store_error) result option" where
  "store_publish X validate pub state =
     map_option (\<lambda>r. and_then r (\<lambda>p. publish_commit validate p state)) (publish_begin X pub state)"

definition cas_publication ::
  "reference_key \<Rightarrow> expected_ref \<Rightarrow> object_id \<Rightarrow> object_id \<Rightarrow> publication" where
  "cas_publication key expected target operation =
     \<lparr>pb_objects = [], pb_updates = [\<lparr>ru_key = key, ru_expected = expected, ru_target = target\<rparr>],
      pb_operation = operation\<rparr>"

definition store_compare_and_swap ::
  "externals \<Rightarrow> validator \<Rightarrow> reference_key \<Rightarrow> expected_ref \<Rightarrow> object_id \<Rightarrow> object_id \<Rightarrow> memory_snapshot
    \<Rightarrow> (reference_state \<times> memory_snapshot, store_error) result option" where
  "store_compare_and_swap X validate key expected target operation state =
     map_option (\<lambda>r. and_then r (\<lambda>(states, state').
         and_then (ok_or (case states of [] \<Rightarrow> None | s # _ \<Rightarrow> Some s) ReferenceConflict) (\<lambda>s.
           Inr (s, state'))))
       (store_publish X validate (cas_publication key expected target operation) state)"

definition store_closure ::
  "reference_edge list \<Rightarrow> memory_snapshot \<Rightarrow> (object_map, store_error) result option" where
  "store_closure roots state = closure_from state roots"

definition store_generation :: "object_id \<Rightarrow> memory_snapshot \<Rightarrow> (u64, store_error) result option" where
  "store_generation i state =
     (case visible_object state i of
        Inl e \<Rightarrow> Some (Inl e)
      | Inr obj \<Rightarrow>
          Option.bind (ancestry_closure state [i] (so_kind obj)) (\<lambda>r.
            case r of
              Inl e \<Rightarrow> Some (Inl e)
            | Inr objects \<Rightarrow>
                map_option (\<lambda>r. and_then r (\<lambda>g. map_err (\<lambda>_. InvalidGraph) (generation g i)))
                  (graph objects (so_kind obj))))"

definition store_is_reachable ::
  "object_id \<Rightarrow> object_id \<Rightarrow> memory_snapshot \<Rightarrow> (bool, store_error) result option" where
  "store_is_reachable ancestor descendant state =
     (case and_then (visible_object state ancestor) (\<lambda>a.
           and_then (visible_object state descendant) (\<lambda>d.
             if so_kind a \<noteq> so_kind d then Inl InvalidGraph else Inr (so_kind a))) of
        Inl e \<Rightarrow> Some (Inl e)
      | Inr kind \<Rightarrow>
          Option.bind (ancestry_closure state [descendant] kind) (\<lambda>r.
            case r of
              Inl e \<Rightarrow> Some (Inl e)
            | Inr objects \<Rightarrow>
                if map_of objects ancestor = None then Some (Inr False)
                else
                  Option.bind (graph objects kind) (\<lambda>r.
                    case r of
                      Inl e \<Rightarrow> Some (Inl e)
                    | Inr g \<Rightarrow> map_option (map_err (\<lambda>_. InvalidGraph)) (is_reachable g ancestor descendant))))"

text \<open>Crate-internal operations by which the durable store mirrors a snapshot, and the default method of the trait.\<close>

definition replace_if_revision ::
  "u64 \<Rightarrow> memory_snapshot \<Rightarrow> memory_snapshot \<Rightarrow> (unit, store_error) result \<times> memory_snapshot" where
  "replace_if_revision expected replacement state =
     (if ms_revision state \<noteq> expected then (Inl ReferenceConflict, state) else (Inr (), replacement))"

definition memory_replace :: "memory_snapshot \<Rightarrow> memory_snapshot \<Rightarrow> memory_snapshot" where
  "memory_replace replacement state = replacement"

definition store_decode_verified ::
  "externals \<Rightarrow> object_id \<Rightarrow> bytes \<Rightarrow> (any_object, store_error) result" where
  "store_decode_verified X i bs = map_err InvalidObject (any_decode_verified X bs i bulk)"

definition raw_ids :: "memory_snapshot \<Rightarrow> object_id list" where
  "raw_ids state = map fst (ms_objects state)"

end
