(* ===== verification/Memory_Spec.thy ===== *)
theory Memory_Spec
  imports Memory Graph_Spec Catalog
begin

text \<open>
  Correctness of the store of \<open>crates/rgit-store/src/memory.rs\<close>: closures are exact and end,
  the well-formedness of a snapshot is kept by every operation and every interleaving of
  publications, a commit is atomic, and the store refines an abstract table with a multi-key
  compare-and-swap.
\<close>

section \<open>Folds\<close>

lemma try_fold_invariant:
  assumes "try_fold f s xs = Inr t" "P s"
    and "\<And>s x s'. x \<in> set xs \<Longrightarrow> P s \<Longrightarrow> f s x = Inr s' \<Longrightarrow> P s'"
  shows "P t"
  using assms by (induction xs arbitrary: s) auto

lemma try_fold_each:
  "try_fold f s xs = Inr t \<Longrightarrow> x \<in> set xs \<Longrightarrow> \<exists>s s'. f s x = Inr s'"
  by (induction xs arbitrary: s) auto

text \<open>A call that may not return followed by a use of its success value.\<close>

lemma bind_result_Inr [simp]:
  "Option.bind r (\<lambda>x. case x of Inl e \<Rightarrow> Some (Inl e) | Inr x \<Rightarrow> f x) = Some (Inr y) \<longleftrightarrow>
    (\<exists>x. r = Some (Inr x) \<and> f x = Some (Inr y))"
  by (cases r) (auto split: sum.splits)

lemma map_le_Some: "m \<subseteq>\<^sub>m m' \<Longrightarrow> m k = Some v \<Longrightarrow> m' k = Some v"
  by (auto simp: map_le_def dom_def)

section \<open>Closures\<close>

text \<open>
  An edge is backed when the object it names is stored with the kind it expects; the edges linked
  to an edge are those found by following the references of stored objects.
\<close>

definition kind_ok :: "reference_edge \<Rightarrow> stored_object \<Rightarrow> bool" where
  "kind_ok e obj \<longleftrightarrow> re_expected_kind e = None \<or> re_expected_kind e = Some (so_kind obj)"

definition backed :: "object_map \<Rightarrow> reference_edge \<Rightarrow> bool" where
  "backed objs e \<longleftrightarrow> (\<exists>obj. map_of objs (re_id e) = Some obj \<and> kind_ok e obj)"

inductive linked :: "object_map \<Rightarrow> reference_edge \<Rightarrow> reference_edge \<Rightarrow> bool" for objs e where
  here: "linked objs e e"
| there: "linked objs e e' \<Longrightarrow> map_of objs (re_id e') = Some obj \<Longrightarrow> e'' \<in> set (so_references obj)
    \<Longrightarrow> linked objs e e''"

definition supported :: "object_map \<Rightarrow> reference_edge \<Rightarrow> bool" where
  "supported objs e \<longleftrightarrow> (\<forall>e'. linked objs e e' \<longrightarrow> backed objs e')"

text \<open>Why the closure stops at an edge.\<close>

definition closure_fault :: "memory_snapshot \<Rightarrow> reference_edge \<Rightarrow> closure_error \<Rightarrow> bool" where
  "closure_fault st e c \<longleftrightarrow>
     (let i = re_id e in
      if i \<in> ms_quarantined st then c = ClosureQuarantined
      else case map_of (ms_objects st) i of
        None \<Rightarrow> c = (if i \<in> ms_promised st then ClosurePromised else ClosureMissing)
      | Some obj \<Rightarrow> (\<exists>k. re_expected_kind e = Some k \<and> k \<noteq> so_kind obj \<and> c = ClosureWrongKind k (so_kind obj)))"

lemma closure_visit_Inr:
  "closure_visit st e = Inr (k, v, nx) \<longleftrightarrow>
     k = re_id e \<and> re_id e \<notin> ms_quarantined st \<and> map_of (ms_objects st) (re_id e) = Some v \<and>
     kind_ok e v \<and> nx = so_references v"
  by (auto simp: closure_visit_def visible_object_def kind_ok_def split: option.splits)

lemma closure_visit_Inl:
  "closure_visit st e = Inl x \<longleftrightarrow> (\<exists>c. x = ClosureFailed c \<and> closure_fault st e c)"
  by (auto simp: closure_visit_def visible_object_def closure_fault_def Let_def split: option.splits)

interpretation clo: worklist "closure_visit st" "dom (map_of (ms_objects st))" for st
  by unfold_locales (auto simp: closure_visit_Inr finite_dom_map_of)

lemma reached_linked:
  "reached (closure_visit st) R e \<Longrightarrow> \<exists>r \<in> R. linked (ms_objects st) r e"
  by (induction rule: reached.induct) (auto simp: closure_visit_Inr intro: linked.intros)

lemma linked_reached:
  assumes "\<And>e'. reached (closure_visit st) R e' \<Longrightarrow> \<exists>x. closure_visit st e' = Inr x"
    and "r \<in> R" "linked (ms_objects st) r e"
  shows "reached (closure_visit st) R e"
  using assms(3)
proof (induction rule: linked.induct)
  case here
  with assms(2) show ?case by (auto intro: reached.root)
next
  case (there e' obj e'')
  with assms(1) [of e'] show ?case by (force simp: closure_visit_Inr intro: reached.succ)
qed

lemma closure_outcome:
  shows "(\<exists>m. closure_from st roots = Some (Inr m) \<and> bt_wf m \<and>
      (\<forall>r \<in> set roots. \<forall>e. linked (ms_objects st) r e \<longrightarrow>
         backed (ms_objects st) e \<and> re_id e \<notin> ms_quarantined st) \<and>
      (\<forall>i obj. map_of m i = Some obj \<longleftrightarrow> map_of (ms_objects st) i = Some obj \<and>
         (\<exists>r \<in> set roots. \<exists>e. linked (ms_objects st) r e \<and> re_id e = i))) \<or>
    (\<exists>r \<in> set roots. \<exists>e c. linked (ms_objects st) r e \<and> closure_fault st e c \<and>
      closure_from st roots = Some (Inl (ClosureFailed c)))"
  using clo.walk_correct [OF clo.traversing_start, of st roots]
proof (elim disjE exE conjE)
  fix m assume w: "walk (closure_visit st) roots [] = Some (Inr m)" and "clo.complete st (set roots) m"
  then have m: "bt_wf m" "\<And>e. reached (closure_visit st) (set roots) e \<Longrightarrow> \<exists>x. closure_visit st e = Inr x"
      "\<And>k v. map_of m k = Some v \<longleftrightarrow> (\<exists>e nx. reached (closure_visit st) (set roots) e \<and> closure_visit st e = Inr (k, v, nx))"
    unfolding clo.complete_def by blast+
  have iff: "reached (closure_visit st) (set roots) e \<longleftrightarrow> (\<exists>r \<in> set roots. linked (ms_objects st) r e)" for e
    using linked_reached [OF m(2), of "set roots"] reached_linked by blast
  have ok: "re_id e \<notin> ms_quarantined st \<and> (\<exists>obj. map_of (ms_objects st) (re_id e) = Some obj \<and> kind_ok e obj)"
    if "reached (closure_visit st) (set roots) e" for e
    using m(2) [OF that] by (auto simp: closure_visit_Inr)
  have "map_of m i = Some obj \<longleftrightarrow> map_of (ms_objects st) i = Some obj \<and>
      (\<exists>r \<in> set roots. \<exists>e. linked (ms_objects st) r e \<and> re_id e = i)" for i obj
    unfolding m(3) closure_visit_Inr using ok iff by fastforce
  with w m(1) ok iff show ?thesis unfolding closure_from_def backed_def by blast
next
  fix x e assume "walk (closure_visit st) roots [] = Some (Inl x)" "reached (closure_visit st) (set roots) e"
    "closure_visit st e = Inl x"
  then show ?thesis using reached_linked unfolding closure_from_def closure_visit_Inl by blast
qed

lemma closure_Inr:
  assumes "closure_from st roots = Some (Inr m)"
  shows "bt_wf m"
    and "r \<in> set roots \<Longrightarrow> supported (ms_objects st) r"
    and "map_of m i = Some obj \<longleftrightarrow> map_of (ms_objects st) i = Some obj \<and>
      (\<exists>r \<in> set roots. \<exists>e. linked (ms_objects st) r e \<and> re_id e = i)"
  using closure_outcome [of st roots] assms by (auto simp: supported_def)

text \<open>Support is kept when objects are only added.\<close>

lemma linked_mono:
  assumes "map_of objs \<subseteq>\<^sub>m map_of objs'" "supported objs e" "linked objs' e e'"
  shows "linked objs e e'"
  using assms(3)
proof induction
  case (there e' obj e'')
  then obtain o' where "map_of objs (re_id e') = Some o'" using assms(2) by (auto simp: supported_def backed_def)
  moreover from this assms(1) there have "o' = obj" by (auto simp: map_le_def dom_def)
  ultimately show ?case using there by (auto intro: linked.there)
qed (rule linked.here)

lemma backed_mono: "map_of objs \<subseteq>\<^sub>m map_of objs' \<Longrightarrow> backed objs e \<Longrightarrow> backed objs' e"
  unfolding backed_def by (metis map_le_Some)

lemma supported_mono: "map_of objs \<subseteq>\<^sub>m map_of objs' \<Longrightarrow> supported objs e \<Longrightarrow> supported objs' e"
  using linked_mono backed_mono unfolding supported_def by (metis (no_types, lifting) supported_def)

section \<open>Well-formed snapshots\<close>

text \<open>Objects are keyed by the identifier their bytes verify against, and no object is also promised.\<close>

definition objects_ok :: "externals \<Rightarrow> memory_snapshot \<Rightarrow> bool" where
  "objects_ok X st \<longleftrightarrow>
     bt_wf (ms_objects st) \<and>
     (\<forall>i obj. map_of (ms_objects st) i = Some obj \<longrightarrow> memory_decode X i (so_bytes obj) = Inr obj) \<and>
     ms_promised st \<inter> dom (map_of (ms_objects st)) = {} \<and>
     ms_quarantined st \<subseteq> dom (map_of (ms_objects st)) \<union> ms_promised st"

text \<open>The parent relation of one kind among the objects linked to an edge.\<close>

definition lineage :: "object_map \<Rightarrow> reference_edge \<Rightarrow> object_kind \<Rightarrow> (object_id \<times> object_id) set" where
  "lineage objs e kind =
     {(p, i). \<exists>e' obj role. linked objs e e' \<and> re_id e' = i \<and> map_of objs i = Some obj \<and>
        so_kind obj = kind \<and> parent_role kind = Inr role \<and> p \<in> set (parent_ids role obj)}"

definition root_edge :: "object_kind \<Rightarrow> object_id \<Rightarrow> reference_edge" where
  "root_edge kind i = \<lparr>re_role = RoleOperationAfter, re_expected_kind = Some kind, re_id = i\<rparr>"

definition root_ok :: "object_map \<Rightarrow> reference_edge \<Rightarrow> bool" where
  "root_ok objs e \<longleftrightarrow>
     supported objs e \<and> acyclic (lineage objs e SnapshotKind) \<and> acyclic (lineage objs e OperationKind)"

definition object_fields :: "stored_object \<Rightarrow> fields option" where
  "object_fields obj = value_map (do_value (decoded (so_object obj)))"

text \<open>What the object a reference points to says about the reference.\<close>

definition target_ok :: "reference_key \<Rightarrow> reference_state \<Rightarrow> stored_object \<Rightarrow> bool" where
  "target_ok key s obj \<longleftrightarrow>
     reference_identity_matches key obj \<and>
     (case key of
        KeyOperationHead \<Rightarrow> rs_target s = rs_operation s
      | KeyLine _ \<Rightarrow>
          (\<exists>m. object_fields obj = Some m \<and> map_of m 6 = Some (Unsigned (rs_generation s)) \<and>
             object_id_field m 12 = Some (rs_operation s))
      | _ \<Rightarrow> True)"

definition reference_ok :: "object_map \<Rightarrow> reference_key \<Rightarrow> reference_state \<Rightarrow> bool" where
  "reference_ok objs key s \<longleftrightarrow>
     root_ok objs (root_edge (expected_kind key) (rs_target s)) \<and>
     root_ok objs (root_edge OperationKind (rs_operation s)) \<and>
     (\<exists>obj. map_of objs (rs_target s) = Some obj \<and> target_ok key s obj)"

definition store_inv :: "externals \<Rightarrow> memory_snapshot \<Rightarrow> bool" where
  "store_inv X st \<longleftrightarrow>
     objects_ok X st \<and> bt_wf (ms_references st) \<and>
     (\<forall>key s. map_of (ms_references st) key = Some s \<longrightarrow> reference_ok (ms_objects st) key s)"

lemma lineage_mono:
  assumes "map_of objs \<subseteq>\<^sub>m map_of objs'" "supported objs e"
  shows "lineage objs' e kind \<subseteq> lineage objs e kind"
proof -
  have "map_of objs (re_id e') = Some obj" if "linked objs e e'" "map_of objs' (re_id e') = Some obj" for e' obj
    using that assms map_le_Some [OF assms(1)] by (fastforce simp: supported_def backed_def)
  with linked_mono [OF assms] show ?thesis unfolding lineage_def by blast
qed

lemma root_ok_mono: "map_of objs \<subseteq>\<^sub>m map_of objs' \<Longrightarrow> root_ok objs e \<Longrightarrow> root_ok objs' e"
  unfolding root_ok_def by (meson acyclic_subset lineage_mono supported_mono)

lemma reference_ok_mono:
  "map_of objs \<subseteq>\<^sub>m map_of objs' \<Longrightarrow> reference_ok objs key s \<Longrightarrow> reference_ok objs' key s"
  unfolding reference_ok_def by (meson map_le_Some root_ok_mono)

lemma store_inv_grow:
  assumes "store_inv X st" "objects_ok X st'" "ms_references st' = ms_references st"
    and "map_of (ms_objects st) \<subseteq>\<^sub>m map_of (ms_objects st')"
  shows "store_inv X st'"
  using assms reference_ok_mono [OF assms(4)] unfolding store_inv_def by auto

section \<open>Single operations\<close>

lemma memory_decode_bytes: "memory_decode X i bs = Inr obj \<Longrightarrow> so_bytes obj = bs \<and> so_id obj = i"
  by (auto simp: memory_decode_def stored_object_new_def)

lemma stored_id: "objects_ok X st \<Longrightarrow> map_of (ms_objects st) i = Some obj \<Longrightarrow> so_id obj = i"
  using memory_decode_bytes unfolding objects_ok_def by blast

text \<open>Adding a verified object that is not there yet.\<close>

lemma objects_ok_add:
  assumes "objects_ok X st" "memory_decode X i bs = Inr obj" "map_of (ms_objects st) i = None"
    and "ms_objects st' = bt_insert i obj (ms_objects st)" "ms_promised st' = ms_promised st - {i}"
    and "ms_quarantined st' = ms_quarantined st"
  shows "objects_ok X st'" "map_of (ms_objects st) \<subseteq>\<^sub>m map_of (ms_objects st')"
  using assms memory_decode_bytes [OF assms(2)] unfolding objects_ok_def
  by (auto simp: map_le_def split: if_splits)

lemma objects_ok_same:
  "objects_ok X st \<Longrightarrow> ms_objects st' = ms_objects st \<Longrightarrow> ms_promised st' = ms_promised st \<Longrightarrow>
    ms_quarantined st' = ms_quarantined st \<Longrightarrow> objects_ok X st'"
  by (simp add: objects_ok_def)

text \<open>
  Every operation that changes the snapshot moves the revision forward, and objects are never
  dropped or replaced.
\<close>

definition moves :: "memory_snapshot \<Rightarrow> memory_snapshot \<Rightarrow> bool" where
  "moves st st' \<longleftrightarrow>
     (st' = st \<or> unat (ms_revision st) < unat (ms_revision st')) \<and>
     map_of (ms_objects st) \<subseteq>\<^sub>m map_of (ms_objects st')"

lemma moves_refl [simp]: "moves st st"
  by (simp add: moves_def)

lemma store_put_inv:
  assumes "store_inv X st" "store_put X i bs st = (r, st')"
  shows "store_inv X st' \<and> moves st st'"
proof (cases "r = Inr New")
  case True
  with assms(2) obtain obj rev where new: "memory_decode X i bs = Inr obj" "map_of (ms_objects st) i = None"
      "checked_add (ms_revision st) 1 = Some rev"
      "st' = st\<lparr>ms_objects := bt_insert i obj (ms_objects st), ms_promised := ms_promised st - {i}, ms_revision := rev\<rparr>"
    by (auto simp: store_put_def split: sum.splits option.splits if_splits)
  then have "objects_ok X st'" "map_of (ms_objects st) \<subseteq>\<^sub>m map_of (ms_objects st')"
    using assms(1) objects_ok_add [of X st i bs obj st'] by (auto simp: store_inv_def)
  with new show ?thesis using store_inv_grow [OF assms(1)] unat_checked_add [OF new(3)] by (simp add: moves_def)
next
  case False
  with assms show ?thesis by (auto simp: store_put_def split: sum.splits option.splits if_splits)
qed

lemma store_mark_promised_inv:
  assumes "store_inv X st" "store_mark_promised i st = (r, st')"
  shows "store_inv X st' \<and> moves st st'"
  using assms unfolding store_inv_def objects_ok_def moves_def store_mark_promised_def
  by (auto simp: disjoint_iff subset_iff domIff split: option.splits if_splits dest!: unat_checked_add)

lemma store_quarantine_inv:
  assumes "store_inv X st" "store_quarantine i st = (r, st')"
  shows "store_inv X st' \<and> moves st st'"
  using assms unfolding store_inv_def objects_ok_def moves_def store_quarantine_def
  by (auto simp: disjoint_iff subset_iff domIff split: option.splits if_splits dest!: unat_checked_add)

section \<open>Staging\<close>

text \<open>What the objects of a publication do to the snapshot, on its bytes.\<close>

definition content :: "memory_snapshot \<Rightarrow> object_id \<rightharpoonup> bytes" where
  "content st i = map_option so_bytes (map_of (ms_objects st) i)"

definition add_content :: "(object_id \<rightharpoonup> bytes) \<Rightarrow> publication_object list \<Rightarrow> (object_id \<rightharpoonup> bytes)" where
  "add_content c pos = foldl (\<lambda>c po. c(po_id po \<mapsto> po_bytes po)) c pos"

definition stages_from :: "externals \<Rightarrow> memory_snapshot \<Rightarrow> memory_snapshot \<Rightarrow> bool" where
  "stages_from X st t \<longleftrightarrow>
     objects_ok X t \<and> map_of (ms_objects st) \<subseteq>\<^sub>m map_of (ms_objects t) \<and>
     ms_references t = ms_references st \<and> ms_quarantined t = ms_quarantined st \<and> ms_revision t = ms_revision st"

lemma stage_object_Inr:
  assumes "objects_ok X t" "stage_object X t po = Inr t'"
  shows "stages_from X t t' \<and> content t' = (content t)(po_id po \<mapsto> po_bytes po)"
proof -
  from assms(2) obtain dec where dec: "memory_decode X (po_id po) (po_bytes po) = Inr dec"
    by (auto simp: stage_object_def)
  note b = memory_decode_bytes [OF dec]
  show ?thesis
  proof (cases "map_of (ms_objects t) (po_id po)")
    case None
    with assms(2) dec have t': "t' = t\<lparr>ms_objects := bt_insert (po_id po) dec (ms_objects t),
        ms_promised := ms_promised t - {po_id po}\<rparr>"
      by (simp add: stage_object_def)
    with objects_ok_add [OF assms(1) dec None, of t'] assms(1) b show ?thesis
      by (auto simp: stages_from_def content_def objects_ok_def fun_eq_iff)
  next
    case (Some old)
    with assms dec have t': "t' = t\<lparr>ms_promised := ms_promised t - {po_id po}\<rparr>" "so_bytes old = so_bytes dec"
      by (auto simp: stage_object_def split: if_splits)
    moreover have "po_id po \<notin> ms_promised t" using assms(1) Some by (auto simp: objects_ok_def)
    ultimately show ?thesis using assms(1) Some b
      by (auto simp: stages_from_def content_def fun_eq_iff)
  qed
qed

lemma stage_objects_Inr:
  assumes "objects_ok X st" "try_fold (stage_object X) st pos = Inr t"
  shows "stages_from X st t \<and> content t = add_content (content st) pos"
  using assms
proof (induction pos arbitrary: st)
  case Nil
  then show ?case by (simp add: stages_from_def add_content_def)
next
  case (Cons po pos)
  then obtain u where u: "stage_object X st po = Inr u" "try_fold (stage_object X) u pos = Inr t" by auto
  note a = stage_object_Inr [OF Cons.prems(1) u(1)]
  then have "objects_ok X u" by (simp add: stages_from_def)
  from a Cons.IH [OF this u(2)] show ?case
    unfolding stages_from_def add_content_def by (auto intro: map_le_trans)
qed

text \<open>The loop over the updates.\<close>

definition expects :: "ref_update \<Rightarrow> reference_state option" where
  "expects u = (case ru_expected u of Absent \<Rightarrow> None | Exact s \<Rightarrow> Some s)"

lemma check_expected_Inr [simp]:
  "check_expected st u = Inr x \<longleftrightarrow> map_of (ms_references st) (ru_key u) = expects u"
  by (auto simp: check_expected_def expects_def Let_def split: expected_ref.splits)

lemma visible_object_Inr [simp]:
  "visible_object st i = Inr obj \<longleftrightarrow> i \<notin> ms_quarantined st \<and> map_of (ms_objects st) i = Some obj"
  by (auto simp: visible_object_def split: option.splits)

lemma visible_object_eq [simp]:
  "i \<notin> ms_quarantined st \<Longrightarrow> map_of (ms_objects st) i = Some obj \<Longrightarrow> visible_object st i = Inr obj"
  by simp

lemma stage_updates_Inr:
  "try_fold (stage_update st t) keys us = Inr keys' \<longleftrightarrow>
     distinct (map ru_key us) \<and> ru_key ` set us \<inter> keys = {} \<and> keys' = keys \<union> ru_key ` set us \<and>
     (\<forall>u \<in> set us. map_of (ms_references st) (ru_key u) = expects u \<and> ru_target u \<notin> ms_quarantined t \<and>
        (\<exists>obj. map_of (ms_objects t) (ru_target u) = Some obj \<and> so_kind obj = expected_kind (ru_key u) \<and>
           reference_identity_matches (ru_key u) obj))"
proof (induction us arbitrary: keys)
  case (Cons u us)
  then show ?case by (auto simp: stage_update_def [of st t keys u])
qed auto

text \<open>The successor of a reference, and the loop that installs the successors.\<close>

definition successor ::
  "(reference_key \<rightharpoonup> reference_state) \<Rightarrow> object_id \<Rightarrow> ref_update \<Rightarrow> reference_state option" where
  "successor refs operation u =
     map_option (\<lambda>g. \<lparr>rs_target = ru_target u, rs_generation = g, rs_operation = operation\<rparr>)
       (case refs (ru_key u) of None \<Rightarrow> Some 0 | Some old \<Rightarrow> checked_add (rs_generation old) 1)"

lemma next_state_Inr [simp]:
  "next_state st pub u = Inr s \<longleftrightarrow> successor (map_of (ms_references st)) (pb_operation pub) u = Some s"
  by (auto simp: next_state_def successor_def split: option.splits)

lemma installs_Inr:
  assumes "bt_wf (ms_references t)"
  shows "try_fold (install st pub) t us = Inr t' \<longleftrightarrow>
    (\<forall>u \<in> set us. successor (map_of (ms_references st)) (pb_operation pub) u \<noteq> None) \<and>
    t' = t\<lparr>ms_references := foldl (\<lambda>m u. bt_insert (ru_key u)
      (the (successor (map_of (ms_references st)) (pb_operation pub) u)) m) (ms_references t) us\<rparr>"
  using assms
proof (induction us arbitrary: t)
  case (Cons u us)
  have "install st pub t u = Inr v \<longleftrightarrow> (\<exists>s. successor (map_of (ms_references st)) (pb_operation pub) u = Some s \<and>
      v = t\<lparr>ms_references := bt_insert (ru_key u) s (ms_references t)\<rparr>)" for v
    by (auto simp: install_def)
  with Cons.prems show ?case
    by (cases "successor (map_of (ms_references st)) (pb_operation pub) u") (simp_all add: Cons.IH)
qed auto

lemma foldl_bt_insert:
  assumes "bt_wf m"
  shows "bt_wf (foldl (\<lambda>m u. bt_insert (f u) (g u) m) m us) \<and>
    map_of (foldl (\<lambda>m u. bt_insert (f u) (g u) m) m us) = foldl (\<lambda>r u. r(f u \<mapsto> g u)) (map_of m) us"
  using assms by (induction us arbitrary: m) auto

lemma foldl_upd_notin: "k \<notin> f ` set us \<Longrightarrow> foldl (\<lambda>r u. r(f u := g u)) r us k = r k"
  by (induction us arbitrary: r) auto

lemma foldl_upd_in: "distinct (map f us) \<Longrightarrow> u \<in> set us \<Longrightarrow> foldl (\<lambda>r u. r(f u := g u)) r us (f u) = g u"
proof (induction us arbitrary: r)
  case (Cons v us)
  show ?case
  proof (cases "u = v")
    case True
    with Cons.prems foldl_upd_notin [of "f v" f us g "r(f v := g v)"] show ?thesis by (simp del: fun_upd_apply) simp
  next
    case False
    with Cons.prems Cons.IH [of "r(f v := g v)"] show ?thesis by (simp del: fun_upd_apply)
  qed
qed simp

lemma foldl_upd_cases:
  assumes "foldl (\<lambda>r u. r(f u := g u)) r us k = Some s" "distinct (map f us)"
  shows "(\<exists>u \<in> set us. k = f u \<and> g u = Some s) \<or> k \<notin> f ` set us \<and> r k = Some s"
proof (cases "k \<in> f ` set us")
  case True
  then obtain u where "u \<in> set us" "k = f u" by blast
  with assms foldl_upd_in [OF assms(2), of u g r] show ?thesis by auto
next
  case False
  with assms show ?thesis by (simp add: foldl_upd_notin)
qed

lemma value_unsigned_Some [simp]: "value_unsigned v = Some n \<longleftrightarrow> v = Unsigned n"
  by (auto simp: value_unsigned_def split: cvalue.splits)

text \<open>What the matching of the operation against an update establishes.\<close>

lemma validate_update_head:
  "validate_update pub op st actions c u = Inr c' \<Longrightarrow> ru_key u = KeyOperationHead \<Longrightarrow> ru_target u = pb_operation pub"
  by (auto simp: validate_update_def validate_head_update_def split: if_splits)

lemma validate_update_line:
  assumes "validate_update pub op st actions c u = Inr c'" "ru_key u = KeyLine l"
  shows "\<exists>obj m g. map_of (ms_objects st) (ru_target u) = Some obj \<and> object_fields obj = Some m \<and>
    object_id_field m 12 = Some (pb_operation pub) \<and> map_of m 6 = Some (Unsigned g) \<and>
    (case expects u of None \<Rightarrow> g = 0 | Some old \<Rightarrow> checked_add (rs_generation old) 1 = Some g)"
  using assms
  by (auto simp: validate_update_def validate_line_update_def validate_line_predecessor_def object_fields_def
      expects_def value_field_def Let_def split: expected_ref.splits)

lemma validate_operation_each:
  assumes "validate_operation pub op st = Inr x" "u \<in> set (pb_updates pub)"
  shows "\<exists>actions c c'. validate_update pub op st actions c u = Inr c'"
  using assms try_fold_each by (fastforce simp: validate_operation_def)

text \<open>An accepted closure has acyclic parent relations.\<close>

lemma graph_acyclic:
  assumes m: "bt_wf m" "length m \<le> usize_max" "\<And>i obj. map_of m i = Some obj \<Longrightarrow> so_id obj = i"
    and g: "graph m kind = Some (Inr g)" "parent_role kind = Inr role"
  shows "acyclic {(p, i). \<exists>obj. map_of m i = Some obj \<and> so_kind obj = kind \<and> p \<in> set (parent_ids role obj)}"
proof -
  let ?ns = "map (\<lambda>obj. \<lparr>gn_id = so_id obj, gn_parents = parent_ids role obj\<rparr>)
     (filter (\<lambda>obj. so_kind obj = kind) (map snd m))"
  have "build ?ns = Some (Inr g)" using g by (auto simp: graph_def)
  moreover have "length ?ns \<le> usize_max" using m(2) by (metis length_filter_le length_map order_trans)
  ultimately have "acyclic (parent_of ?ns)" using build_Inr_indexes(2) by blast
  moreover have "(p, i) \<in> parent_of ?ns"
    if "map_of m i = Some obj" "so_kind obj = kind" "p \<in> set (parent_ids role obj)" for p i obj
  proof -
    have "obj \<in> set (filter (\<lambda>obj. so_kind obj = kind) (map snd m))"
      using that by (force dest: map_of_SomeD)
    then have "\<lparr>gn_id = so_id obj, gn_parents = parent_ids role obj\<rparr> \<in> set ?ns" by (simp add: image_iff) blast
    then show ?thesis using that m(3) [OF that(1)] unfolding parent_of_def by force
  qed
  then have "{(p, i). \<exists>obj. map_of m i = Some obj \<and> so_kind obj = kind \<and> p \<in> set (parent_ids role obj)}
      \<subseteq> parent_of ?ns"
    by blast
  ultimately show ?thesis by (rule acyclic_subset)
qed

lemma parent_role_simps [simp]:
  "parent_role SnapshotKind = Inr RoleSnapshotParent" "parent_role OperationKind = Inr RoleOperationParent"
  by (simp_all add: parent_role_def)

lemma graphs_acyclic:
  assumes "objects_ok X st" "length (ms_objects st) \<le> usize_max"
    and c: "closure_from st roots = Some (Inr m)" "validate_affected_graphs m = Some (Inr ())"
    and r: "r \<in> set roots"
  shows "root_ok (ms_objects st) r"
proof -
  note cl = closure_Inr [OF c(1)]
  have sub: "set m \<subseteq> set (ms_objects st)"
    using cl(3) map_of_is_SomeI [OF bt_wf_distinct [OF cl(1)]] by (meson map_of_SomeD subrelI)
  have "length m \<le> usize_max"
    using card_mono [OF _ sub] assms(2) bt_wf_distinct [OF cl(1)] card_length [of "ms_objects st"]
    by (metis List.finite_set distinct_card distinct_map order_trans)
  moreover have "so_id obj = i" if "map_of m i = Some obj" for i obj
    using that stored_id [OF assms(1)] unfolding cl(3) by blast
  ultimately have "acyclic {(p, i). \<exists>obj. map_of m i = Some obj \<and> so_kind obj = kind \<and> p \<in> set (parent_ids role obj)}"
    if "graph m kind = Some (Inr g)" "parent_role kind = Inr role" for kind role g
    using graph_acyclic [OF cl(1) _ _ that] by blast
  moreover obtain g h where "graph m SnapshotKind = Some (Inr g)" "graph m OperationKind = Some (Inr h)"
    using c(2) by (auto simp: validate_affected_graphs_def)
  moreover have "lineage (ms_objects st) r kind \<subseteq>
      {(p, i). \<exists>obj. map_of m i = Some obj \<and> so_kind obj = kind \<and> p \<in> set (parent_ids role obj)}"
    if "parent_role kind = Inr role" for kind role
    using that r unfolding lineage_def cl(3) by auto
  ultimately show ?thesis
    unfolding root_ok_def using cl(2) [OF r] by (meson acyclic_subset parent_role_simps)
qed

section \<open>A staged publication\<close>

lemma stage_Inr:
  "stage X pub st = Some (Inr t') \<longleftrightarrow>
    (\<exists>t m. stage_checked X pub st = Inr t \<and> closure_from t (publication_roots pub) = Some (Inr m) \<and>
       validate_affected_graphs m = Some (Inr ()) \<and> try_fold (install st pub) t (pb_updates pub) = Inr t')"
  by (cases "stage_checked X pub st") (auto simp: stage_def)

lemma publication_roots_eq:
  "publication_roots pub = root_edge OperationKind (pb_operation pub) #
     map (\<lambda>u. root_edge (expected_kind (ru_key u)) (ru_target u)) (pb_updates pub)"
  by (simp add: publication_roots_def root_edge_def)

lemma stage_checked_Inr:
  assumes "objects_ok X st" "stage_checked X pub st = Inr t"
  shows "stages_from X st t" "content t = add_content (content st) (pb_objects pub)"
    and "distinct (map ru_key (pb_updates pub))"
    and "u \<in> set (pb_updates pub) \<Longrightarrow> map_of (ms_references st) (ru_key u) = expects u"
    and "u \<in> set (pb_updates pub) \<Longrightarrow> successor (map_of (ms_references st)) (pb_operation pub) u = Some s \<Longrightarrow>
      \<exists>obj. map_of (ms_objects t) (ru_target u) = Some obj \<and> target_ok (ru_key u) s obj"
proof -
  from assms(2) obtain op ks where op:
      "try_fold (stage_object X) st (pb_objects pub) = Inr t"
      "try_fold (stage_update st t) {} (pb_updates pub) = Inr ks"
      "validate_operation pub op t = Inr ()"
    by (auto simp: stage_checked_def)
  show "stages_from X st t" "content t = add_content (content st) (pb_objects pub)"
    using stage_objects_Inr [OF assms(1) op(1)] by auto
  show d: "distinct (map ru_key (pb_updates pub))"
    and e: "u \<in> set (pb_updates pub) \<Longrightarrow> map_of (ms_references st) (ru_key u) = expects u" for u
    using op(2) unfolding stage_updates_Inr by auto
  fix u s
  assume u: "u \<in> set (pb_updates pub)" and s: "successor (map_of (ms_references st)) (pb_operation pub) u = Some s"
  obtain obj where obj: "map_of (ms_objects t) (ru_target u) = Some obj" "reference_identity_matches (ru_key u) obj"
    using op(2) u unfolding stage_updates_Inr by blast
  from validate_operation_each [OF op(3) u] obtain actions c c' where
    v: "validate_update pub op t actions c u = Inr c'" by blast
  have "target_ok (ru_key u) s obj"
    using obj s e [OF u] validate_update_head [OF v] validate_update_line [OF v]
    by (auto simp: target_ok_def successor_def split: reference_key.splits option.splits)
  with obj show "\<exists>obj. map_of (ms_objects t) (ru_target u) = Some obj \<and> target_ok (ru_key u) s obj" by blast
qed

text \<open>The reference table after the updates.\<close>

definition swapped ::
  "(reference_key \<rightharpoonup> reference_state) \<Rightarrow> publication \<Rightarrow> (reference_key \<rightharpoonup> reference_state)" where
  "swapped refs pub = foldl (\<lambda>r u. r(ru_key u := successor refs (pb_operation pub) u)) refs (pb_updates pub)"

definition cas_ready :: "(reference_key \<rightharpoonup> reference_state) \<Rightarrow> publication \<Rightarrow> bool" where
  "cas_ready refs pub \<longleftrightarrow> distinct (map ru_key (pb_updates pub)) \<and>
     (\<forall>u \<in> set (pb_updates pub). refs (ru_key u) = expects u \<and> successor refs (pb_operation pub) u \<noteq> None)"

lemma stage_effect:
  assumes inv: "store_inv X st" and stage: "stage X pub st = Some (Inr t')"
  shows "objects_ok X t'" "map_of (ms_objects st) \<subseteq>\<^sub>m map_of (ms_objects t')"
    and "content t' = add_content (content st) (pb_objects pub)"
    and "cas_ready (map_of (ms_references st)) pub"
    and "bt_wf (ms_references t')" "map_of (ms_references t') = swapped (map_of (ms_references st)) pub"
    and "length (ms_objects t') \<le> usize_max \<Longrightarrow> store_inv X t'"
proof -
  let ?refs = "map_of (ms_references st)"
  have ok: "objects_ok X st" "bt_wf (ms_references st)" using inv by (auto simp: store_inv_def)
  from stage obtain t m where t: "stage_checked X pub st = Inr t"
      "closure_from t (publication_roots pub) = Some (Inr m)" "validate_affected_graphs m = Some (Inr ())"
      "try_fold (install st pub) t (pb_updates pub) = Inr t'"
    unfolding stage_Inr by blast
  note c = stage_checked_Inr [OF ok(1) t(1)]
  have stg: "objects_ok X t" "ms_references t = ms_references st" using c(1) by (auto simp: stages_from_def)
  have succ: "successor ?refs (pb_operation pub) u = Some (the (successor ?refs (pb_operation pub) u))"
    if "u \<in> set (pb_updates pub)" for u
    using t(4) that ok(2) unfolding installs_Inr [of t, unfolded stg, OF ok(2)] by auto
  define refs' where "refs' = foldl (\<lambda>m u. bt_insert (ru_key u) (the (successor ?refs (pb_operation pub) u)) m)
    (ms_references st) (pb_updates pub)"
  have t': "t' = t\<lparr>ms_references := refs'\<rparr>"
    using t(4) unfolding installs_Inr [of t, unfolded stg, OF ok(2)] refs'_def by simp
  show "objects_ok X t'" "map_of (ms_objects st) \<subseteq>\<^sub>m map_of (ms_objects t')"
    using c(1) by (auto simp: t' stages_from_def objects_ok_def)
  show "content t' = add_content (content st) (pb_objects pub)"
    using c(2) by (simp add: t' content_def fun_eq_iff)
  show ready: "cas_ready ?refs pub" using c(3,4) succ by (force simp: cas_ready_def)
  have ins: "bt_wf refs' \<and> map_of refs' = foldl (\<lambda>r u. r(ru_key u \<mapsto> the (successor ?refs (pb_operation pub) u)))
      ?refs (pb_updates pub)"
    unfolding refs'_def by (rule foldl_bt_insert [OF ok(2)])
  also have "foldl (\<lambda>r u. r(ru_key u \<mapsto> the (successor ?refs (pb_operation pub) u))) ?refs (pb_updates pub) =
      swapped ?refs pub"
    unfolding swapped_def by (rule foldl_cong) (use succ in auto)
  finally show wf: "bt_wf (ms_references t')" and refs: "map_of (ms_references t') = swapped ?refs pub"
    by (simp_all add: t')
  assume "length (ms_objects t') \<le> usize_max"
  then have len: "length (ms_objects t) \<le> usize_max" by (simp add: t')
  have root: "root_ok (ms_objects t) r" if "r \<in> set (publication_roots pub)" for r
    using graphs_acyclic [OF stg(1) len t(2,3) that] .
  have "reference_ok (ms_objects t') key s" if "map_of (ms_references t') key = Some s" for key s
    using foldl_upd_cases [OF that [unfolded refs swapped_def] c(3)]
  proof (elim disjE bexE conjE)
    fix u assume u: "u \<in> set (pb_updates pub)" "key = ru_key u" "successor ?refs (pb_operation pub) u = Some s"
    then have "rs_target s = ru_target u" "rs_operation s = pb_operation pub" by (auto simp: successor_def)
    with u c(5) [OF u(1,3)] root show ?thesis unfolding publication_roots_eq reference_ok_def by (simp add: t')
  next
    assume "?refs key = Some s"
    with inv c(1) show ?thesis
      by (auto simp: t' store_inv_def stages_from_def intro: reference_ok_mono)
  qed
  with \<open>objects_ok X t'\<close> wf show "store_inv X t'" unfolding store_inv_def by blast
qed

section \<open>Interleavings\<close>

text \<open>
  Threads share one store. An operation under the lock is one step; a publication is a step that
  stages it and a later step that commits or gives up, with any steps of other threads between. The
  publications in flight are a multiset. The map of staged objects has a length that fits \<open>usize\<close>.
\<close>

type_synonym world = "memory_snapshot \<times> staged_publication multiset"

datatype store_event = Silent | Stored object_id bytes | Published publication "reference_state list"

inductive store_step :: "externals \<Rightarrow> world \<Rightarrow> store_event \<Rightarrow> world \<Rightarrow> bool" for X where
  put_new: "store_put X i bs st = (Inr New, st') \<Longrightarrow> store_step X (st, ps) (Stored i bs) (st', ps)"
| put_other: "store_put X i bs st = (r, st') \<Longrightarrow> r \<noteq> Inr New \<Longrightarrow> store_step X (st, ps) Silent (st', ps)"
| mark_promised: "store_mark_promised i st = (r, st') \<Longrightarrow> store_step X (st, ps) Silent (st', ps)"
| quarantine: "store_quarantine i st = (r, st') \<Longrightarrow> store_step X (st, ps) Silent (st', ps)"
| publish_stage: "publish_begin X pub st = Some (Inr p) \<Longrightarrow> length (ms_objects (sp_staged p)) \<le> usize_max \<Longrightarrow>
    store_step X (st, ps) Silent (st, add_mset p ps)"
| publish_commit: "p \<in># ps \<Longrightarrow> publish_commit validate p st = Inr (rs, st') \<Longrightarrow>
    store_step X (st, ps) (Published (sp_publication p) rs) (st', ps - {#p#})"
| publish_fail: "p \<in># ps \<Longrightarrow> publish_commit validate p st = Inl e \<Longrightarrow> store_step X (st, ps) Silent (st, ps - {#p#})"

inductive store_run :: "externals \<Rightarrow> world \<Rightarrow> store_event list \<Rightarrow> world \<Rightarrow> bool" for X w where
  start: "store_run X w [] w"
| step: "store_run X w evs w' \<Longrightarrow> store_step X w' ev w'' \<Longrightarrow> store_run X w (evs @ [ev]) w''"

text \<open>A publication in flight was staged from an earlier well-formed snapshot.\<close>

definition staged_at :: "externals \<Rightarrow> memory_snapshot \<Rightarrow> staged_publication \<Rightarrow> bool" where
  "staged_at X st0 p \<longleftrightarrow> store_inv X st0 \<and> publish_begin X (sp_publication p) st0 = Some (Inr p) \<and>
     length (ms_objects (sp_staged p)) \<le> usize_max"

definition world_inv :: "externals \<Rightarrow> world \<Rightarrow> bool" where
  "world_inv X w \<longleftrightarrow> store_inv X (fst w) \<and> (\<forall>p \<in># snd w. \<exists>st0. staged_at X st0 p \<and> moves st0 (fst w))"

lemma moves_trans: "moves a b \<Longrightarrow> moves b c \<Longrightarrow> moves a c"
  by (auto simp: moves_def intro: map_le_trans)

lemma publish_begin_Inr:
  "publish_begin X pub st = Some (Inr p) \<longleftrightarrow>
     checked_add (ms_revision st) 1 = Some (sp_next_revision p) \<and> stage X pub st = Some (Inr (sp_staged p)) \<and>
     sp_publication p = pub \<and> sp_base_revision p = ms_revision st"
  by (cases p; cases "stage X pub st") (auto simp: publish_begin_def split: option.splits)

lemma publish_commit_Inr:
  "publish_commit v p st = Inr (rs, st') \<longleftrightarrow>
     v \<lparr>pc_publication = sp_publication p, pc_objects = ms_objects (sp_staged p), pc_references = ms_references (sp_staged p)\<rparr> = Inr () \<and>
     ms_revision st = sp_base_revision p \<and>
     rs = List.map_filter (\<lambda>u. map_of (ms_references (sp_staged p)) (ru_key u)) (pb_updates (sp_publication p)) \<and>
     st' = (sp_staged p)\<lparr>ms_revision := sp_next_revision p\<rparr>"
  by (auto simp: publish_commit_def Let_def split: if_splits)

text \<open>When the revision is still the one of the staging, the snapshot is too.\<close>

lemma staged_at_same:
  assumes "staged_at X st0 p" "moves st0 st" "ms_revision st = sp_base_revision p"
  shows "st0 = st"
  using assms by (auto simp: staged_at_def publish_begin_Inr moves_def)

lemma map_filter_all: "\<forall>x \<in> set xs. f x \<noteq> None \<Longrightarrow> map Some (List.map_filter f xs) = map f xs"
  by (induction xs) (auto simp: map_filter_simps)

lemma swapped_at:
  "cas_ready refs pub \<Longrightarrow> u \<in> set (pb_updates pub) \<Longrightarrow> swapped refs pub (ru_key u) = successor refs (pb_operation pub) u"
  unfolding swapped_def cas_ready_def using foldl_upd_in [of ru_key "pb_updates pub" u] by blast

lemma commit_effect:
  assumes p: "staged_at X st p" and c: "publish_commit v p st = Inr (rs, st')"
  shows "store_inv X st' \<and> moves st st'"
    and "content st' = add_content (content st) (pb_objects (sp_publication p))"
    and "cas_ready (map_of (ms_references st)) (sp_publication p)"
    and "map_of (ms_references st') = swapped (map_of (ms_references st)) (sp_publication p)"
    and "map Some rs = map (successor (map_of (ms_references st)) (pb_operation (sp_publication p))) (pb_updates (sp_publication p))"
proof -
  let ?t = "sp_staged p" and ?pub = "sp_publication p"
  have inv: "store_inv X st" and len: "length (ms_objects ?t) \<le> usize_max"
    and b: "checked_add (ms_revision st) 1 = Some (sp_next_revision p)" "stage X ?pub st = Some (Inr ?t)"
    using p by (auto simp: staged_at_def publish_begin_Inr)
  note e = stage_effect [OF inv b(2)]
  have st': "st' = ?t\<lparr>ms_revision := sp_next_revision p\<rparr>"
    and rs: "rs = List.map_filter (\<lambda>u. map_of (ms_references ?t) (ru_key u)) (pb_updates ?pub)"
    using c by (auto simp: publish_commit_Inr)
  show "store_inv X st' \<and> moves st st'"
    using e(2) e(7) [OF len] unat_checked_add [OF b(1)]
    by (simp add: st' store_inv_def objects_ok_def moves_def)
  show "content st' = add_content (content st) (pb_objects ?pub)"
    using e(3) by (simp add: st' content_def fun_eq_iff)
  show "cas_ready (map_of (ms_references st)) ?pub" by (rule e(4))
  show "map_of (ms_references st') = swapped (map_of (ms_references st)) ?pub" by (simp add: st' e(6))
  have "map_of (ms_references ?t) (ru_key u) = successor (map_of (ms_references st)) (pb_operation ?pub) u"
    if "u \<in> set (pb_updates ?pub)" for u
    using swapped_at [OF e(4) that] by (simp add: e(6))
  with map_filter_all [of "pb_updates ?pub" "\<lambda>u. map_of (ms_references ?t) (ru_key u)"] e(4)
  show "map Some rs = map (successor (map_of (ms_references st)) (pb_operation ?pub)) (pb_updates ?pub)"
    unfolding rs by (simp add: cas_ready_def)
qed

lemma store_step_inv:
  assumes "store_step X w ev w'" "world_inv X w"
  shows "world_inv X w' \<and> moves (fst w) (fst w')"
proof -
  have keep: "world_inv X (st', qs)" if "world_inv X (st, ps)" "store_inv X st' \<and> moves st st'" "qs \<subseteq># ps" for st st' ps qs
    using that by (fastforce simp: world_inv_def intro: moves_trans dest: mset_subset_eqD)
  have plain: ?thesis if "w = (st, ps)" "w' = (st', ps)" "store_inv X st \<Longrightarrow> store_inv X st' \<and> moves st st'" for st st' ps
    using that assms(2) keep [of st ps st' ps] by (simp add: world_inv_def)
  show ?thesis using assms(1)
  proof cases
    case (publish_commit p ps v st rs st')
    then obtain st0 where "staged_at X st0 p" "moves st0 st" using assms(2) by (auto simp: world_inv_def)
    with publish_commit staged_at_same have "staged_at X st p" by (auto simp: publish_commit_Inr)
    with publish_commit commit_effect(1) keep [of st ps st' "ps - {#p#}"] assms(2) show ?thesis by auto
  next
    case (publish_stage pub st p ps)
    then have "staged_at X st p" using assms(2) by (auto simp: staged_at_def world_inv_def publish_begin_Inr)
    with publish_stage assms(2) show ?thesis by (auto simp: world_inv_def)
  next
    case (publish_fail p ps v st e)
    with keep [of st ps st "ps - {#p#}"] assms(2) show ?thesis by (auto simp: world_inv_def)
  next
    case (put_new i bs st st' ps)
    with store_put_inv show ?thesis by (intro plain)
  next
    case (put_other i bs st r st' ps)
    with store_put_inv show ?thesis by (intro plain)
  next
    case (mark_promised i st r st' ps)
    with store_mark_promised_inv show ?thesis by (intro plain)
  next
    case (quarantine i st r st' ps)
    with store_quarantine_inv show ?thesis by (intro plain)
  qed
qed

lemma store_run_inv:
  "store_run X w evs w' \<Longrightarrow> world_inv X w \<Longrightarrow> world_inv X w' \<and> moves (fst w) (fst w')"
  by (induction rule: store_run.induct) (auto dest: store_step_inv intro: moves_trans)

lemma world_inv_new: "world_inv X (memory_new, {#})"
  by (simp add: world_inv_def store_inv_def objects_ok_def memory_new_def)

text \<open>The world a store reaches from empty.\<close>

lemma reachable_inv: "store_run X (memory_new, {#}) evs w \<Longrightarrow> world_inv X w"
  using store_run_inv world_inv_new by blast

section \<open>The abstract store\<close>

text \<open>
  A table of bytes that only grows and a table of references that changes by a compare-and-swap of
  several keys at once.
\<close>

record abstract_store =
  ab_content :: "object_id \<rightharpoonup> bytes"
  ab_references :: "reference_key \<rightharpoonup> reference_state"

definition abs_step :: "abstract_store \<Rightarrow> store_event \<Rightarrow> abstract_store option" where
  "abs_step a ev =
     (case ev of
        Silent \<Rightarrow> Some a
      | Stored i bs \<Rightarrow>
          if ab_content a i = None then Some (a\<lparr>ab_content := (ab_content a)(i \<mapsto> bs)\<rparr>) else None
      | Published pub rs \<Rightarrow>
          if cas_ready (ab_references a) pub \<and>
             map Some rs = map (successor (ab_references a) (pb_operation pub)) (pb_updates pub) \<and>
             ab_content a \<subseteq>\<^sub>m add_content (ab_content a) (pb_objects pub)
          then Some \<lparr>ab_content = add_content (ab_content a) (pb_objects pub),
                     ab_references = swapped (ab_references a) pub\<rparr>
          else None)"

definition abstraction :: "memory_snapshot \<Rightarrow> abstract_store" where
  "abstraction st = \<lparr>ab_content = content st, ab_references = map_of (ms_references st)\<rparr>"

lemma content_mono: "map_of (ms_objects st) \<subseteq>\<^sub>m map_of (ms_objects st') \<Longrightarrow> content st \<subseteq>\<^sub>m content st'"
  by (auto simp: content_def map_le_def dom_def)

lemma store_step_abs:
  assumes "store_step X w ev w'" "world_inv X w"
  shows "abs_step (abstraction (fst w)) ev = Some (abstraction (fst w'))"
  using assms(1)
proof cases
  case (publish_commit p ps v st rs st')
  then obtain st0 where "staged_at X st0 p" "moves st0 st" using assms(2) by (auto simp: world_inv_def)
  with publish_commit staged_at_same have "staged_at X st p" by (auto simp: publish_commit_Inr)
  note e = commit_effect [OF this publish_commit(5)]
  have "content st \<subseteq>\<^sub>m content st'" using e(1) by (auto simp: moves_def intro: content_mono)
  with e publish_commit show ?thesis by (simp add: abs_step_def abstraction_def)
next
  case (put_new i bs st st' ps)
  then obtain obj where "memory_decode X i bs = Inr obj" "map_of (ms_objects st) i = None"
      "ms_objects st' = bt_insert i obj (ms_objects st)" "ms_references st' = ms_references st"
    by (auto simp: store_put_def split: sum.splits option.splits if_splits)
  moreover from this(1) have "so_bytes obj = bs" using memory_decode_bytes by blast
  moreover have "bt_wf (ms_objects st)" using assms(2) put_new by (simp add: world_inv_def store_inv_def objects_ok_def)
  ultimately show ?thesis using put_new
    by (auto simp: abs_step_def abstraction_def content_def fun_eq_iff)
qed (auto simp: abs_step_def abstraction_def content_def fun_eq_iff store_put_def store_mark_promised_def
      store_quarantine_def split: sum.splits option.splits if_splits)

section \<open>Ancestry\<close>

text \<open>The parent relation over the visible objects of one kind.\<close>

definition visible_parents :: "memory_snapshot \<Rightarrow> object_kind \<Rightarrow> reference_role \<Rightarrow> (object_id \<times> object_id) set" where
  "visible_parents st kind role =
     {(p, i). \<exists>obj. visible_object st i = Inr obj \<and> so_kind obj = kind \<and> p \<in> set (parent_ids role obj)}"

definition visible_as :: "memory_snapshot \<Rightarrow> object_kind \<Rightarrow> object_id \<Rightarrow> bool" where
  "visible_as st kind i \<longleftrightarrow> (\<exists>obj. visible_object st i = Inr obj \<and> so_kind obj = kind)"

lemma ancestry_visit_Inr:
  "ancestry_visit st kind role i = Inr (k, obj, nx) \<longleftrightarrow>
     k = i \<and> visible_object st i = Inr obj \<and> so_kind obj = kind \<and> nx = parent_ids role obj"
  by (auto simp: ancestry_visit_def)

interpretation ance: worklist "ancestry_visit st kind role" "dom (map_of (ms_objects st))" for st kind role
  by unfold_locales (auto simp: ancestry_visit_Inr finite_dom_map_of)

lemma ancestry_reached_sound:
  "reached (ancestry_visit st kind role) {d} i \<Longrightarrow> (i, d) \<in> (visible_parents st kind role)\<^sup>*"
proof (induction rule: reached.induct)
  case (succ e k v nx e')
  then have "(e', e) \<in> visible_parents st kind role" by (auto simp: visible_parents_def ancestry_visit_Inr)
  with succ.IH show ?case by (blast intro: converse_rtrancl_into_rtrancl)
qed simp

lemma ancestry_reached_complete:
  "(i, d) \<in> (visible_parents st kind role)\<^sup>* \<Longrightarrow> reached (ancestry_visit st kind role) {d} i"
proof (induction rule: converse_rtrancl_induct)
  case (step i j)
  then obtain obj where "ancestry_visit st kind role j = Inr (j, obj, parent_ids role obj)" "i \<in> set (parent_ids role obj)"
    by (auto simp: visible_parents_def ancestry_visit_Inr)
  with step.IH show ?case by (blast intro: reached.succ)
qed (simp add: reached.root)

lemma ancestry_reached:
  "reached (ancestry_visit st kind role) {d} i \<longleftrightarrow> (i, d) \<in> (visible_parents st kind role)\<^sup>*"
  using ancestry_reached_sound ancestry_reached_complete by blast

lemma ancestry_outcome:
  assumes "parent_role kind = Inr role"
  shows "if \<forall>i. (i, d) \<in> (visible_parents st kind role)\<^sup>* \<longrightarrow> visible_as st kind i
    then \<exists>m. ancestry_closure st [d] kind = Some (Inr m) \<and> bt_wf m \<and>
      (\<forall>i obj. map_of m i = Some obj \<longleftrightarrow> (i, d) \<in> (visible_parents st kind role)\<^sup>* \<and> visible_object st i = Inr obj \<and> so_kind obj = kind)
    else \<exists>e. ancestry_closure st [d] kind = Some (Inl e)"
proof -
  have v: "visible_as st kind i \<longleftrightarrow> (\<exists>x. ancestry_visit st kind role i = Inr x)" for i
    by (auto simp: visible_as_def ancestry_visit_Inr)
  have cl: "ancestry_closure st [d] kind = walk (ancestry_visit st kind role) [d] []"
    using assms by (simp add: ancestry_closure_def)
  from ance.walk_correct [OF ance.traversing_start, of st kind role "[d]"]
  show ?thesis
    unfolding cl ance.complete_def ancestry_visit_Inr by (auto simp: ancestry_reached v)
qed

text \<open>Paths into a node only use the part of the relation above the node.\<close>

definition leading_to :: "('a \<times> 'a) set \<Rightarrow> 'a \<Rightarrow> ('a \<times> 'a) set" where
  "leading_to P d = {(p, i) \<in> P. (i, d) \<in> P\<^sup>*}"

lemma leading_to_relpow: "(a, d) \<in> leading_to P d ^^ k \<longleftrightarrow> (a, d) \<in> P ^^ k"
proof
  have "(a, x) \<in> leading_to P d ^^ k" if "(a, x) \<in> P ^^ k" "(x, d) \<in> P\<^sup>*" for x
    using that
  proof (induction k arbitrary: x)
    case (Suc k)
    then obtain y where "(a, y) \<in> P ^^ k" "(y, x) \<in> P" by auto
    with Suc show ?case by (auto simp: leading_to_def intro: converse_rtrancl_into_rtrancl)
  qed simp
  then show "(a, d) \<in> P ^^ k \<Longrightarrow> (a, d) \<in> leading_to P d ^^ k" by simp
  have "(a, x) \<in> P ^^ k" if "(a, x) \<in> leading_to P d ^^ k" for x
    using that by (induction k arbitrary: x) (auto simp: leading_to_def)
  then show "(a, d) \<in> leading_to P d ^^ k \<Longrightarrow> (a, d) \<in> P ^^ k" .
qed

lemma leading_to_rtrancl: "(a, d) \<in> (leading_to P d)\<^sup>* \<longleftrightarrow> (a, d) \<in> P\<^sup>*"
  by (simp add: rtrancl_power leading_to_relpow)

text \<open>The index the store builds for the ancestry of one object.\<close>

definition ancestry_nodes :: "object_map \<Rightarrow> object_kind \<Rightarrow> reference_role \<Rightarrow> object_id graph_node list" where
  "ancestry_nodes m kind role = map (\<lambda>obj. \<lparr>gn_id = so_id obj, gn_parents = parent_ids role obj\<rparr>)
     (filter (\<lambda>obj. so_kind obj = kind) (map snd m))"

lemma graph_nodes:
  "parent_role kind = Inr role \<Longrightarrow>
    graph m kind = map_option (map_err (\<lambda>_. InvalidGraph)) (build (ancestry_nodes m kind role))"
  by (simp add: graph_def ancestry_nodes_def)

lemma ancestry_nodes_props:
  assumes m: "bt_wf m" "\<forall>i obj. map_of m i = Some obj \<longrightarrow> so_id obj = i \<and> so_kind obj = kind"
  shows "gn_id ` set (ancestry_nodes m kind role) = dom (map_of m)"
    and "distinct (map gn_id (ancestry_nodes m kind role))"
    and "parent_of (ancestry_nodes m kind role) = {(p, i). \<exists>obj. map_of m i = Some obj \<and> p \<in> set (parent_ids role obj)}"
    and "length (ancestry_nodes m kind role) = length m"
proof -
  have lk: "map_of m i = Some obj \<longleftrightarrow> (i, obj) \<in> set m" for i obj
    by (rule map_of_eq_Some_iff [OF bt_wf_distinct [OF m(1)]])
  have "filter (\<lambda>obj. so_kind obj = kind) (map snd m) = map snd m"
    using m(2) unfolding lk by (intro filter_True) auto
  then have n: "ancestry_nodes m kind role = map (\<lambda>(i, obj). \<lparr>gn_id = i, gn_parents = parent_ids role obj\<rparr>) m"
    using m(2) unfolding lk ancestry_nodes_def by (auto simp: split_beta intro!: map_cong)
  have "map gn_id (ancestry_nodes m kind role) = map fst m" unfolding n by (simp add: split_beta)
  then show "gn_id ` set (ancestry_nodes m kind role) = dom (map_of m)" "distinct (map gn_id (ancestry_nodes m kind role))"
    using bt_wf_distinct [OF m(1)] by (metis dom_map_of_conv_image_fst list.set_map, simp)
  show "parent_of (ancestry_nodes m kind role) = {(p, i). \<exists>obj. map_of m i = Some obj \<and> p \<in> set (parent_ids role obj)}"
    unfolding parent_of_def n lk by (force simp: split_beta)
  show "length (ancestry_nodes m kind role) = length m" by (simp add: n)
qed

lemma ancestry_index:
  assumes ok: "objects_ok X st" "length (ms_objects st) \<le> usize_max" and role: "parent_role kind = Inr role"
    and m: "bt_wf m" "\<And>i obj. map_of m i = Some obj \<longleftrightarrow>
      (i, d) \<in> (visible_parents st kind role)\<^sup>* \<and> visible_object st i = Inr obj \<and> so_kind obj = kind"
    and all: "\<forall>i. (i, d) \<in> (visible_parents st kind role)\<^sup>* \<longrightarrow> visible_as st kind i"
  shows "if acyclic (leading_to (visible_parents st kind role) d)
    then \<exists>g ns. graph m kind = Some (Inr g) \<and> indexes g ns \<and> gn_id ` set ns = {i. (i, d) \<in> (visible_parents st kind role)\<^sup>*} \<and>
      parent_of ns = leading_to (visible_parents st kind role) d
    else graph m kind = Some (Inl InvalidGraph)"
proof -
  let ?P = "visible_parents st kind role" and ?ns = "ancestry_nodes m kind role"
  have id: "\<forall>i obj. map_of m i = Some obj \<longrightarrow> so_id obj = i \<and> so_kind obj = kind"
    using stored_id [OF ok(1)] unfolding m(2) by auto
  note n = ancestry_nodes_props [OF m(1) id]
  have ids: "gn_id ` set ?ns = {i. (i, d) \<in> ?P\<^sup>*}"
    unfolding n(1) using all by (auto simp: m(2) visible_as_def)
  have par: "parent_of ?ns = leading_to ?P d"
    unfolding n(3) m(2) leading_to_def visible_parents_def by auto
  have known: "parents_known ?ns"
    unfolding parents_known_def ids
  proof (intro ballI subsetI CollectI)
    fix x p assume "x \<in> set ?ns" "p \<in> set (gn_parents x)"
    then have "(p, gn_id x) \<in> parent_of ?ns" by (auto simp: parent_of_def)
    then show "(p, d) \<in> ?P\<^sup>*" unfolding par leading_to_def by (auto intro: converse_rtrancl_into_rtrancl)
  qed
  have "set m \<subseteq> set (ms_objects st)"
    using m(2) map_of_is_SomeI [OF bt_wf_distinct [OF m(1)]] by (auto dest!: map_of_SomeD)
  then have "length m \<le> usize_max"
    using card_mono [of "set (ms_objects st)" "set m"] ok(2) bt_wf_distinct [OF m(1)] card_length [of "ms_objects st"]
    by (metis List.finite_set distinct_card distinct_map order_trans)
  then have len: "length ?ns \<le> usize_max" by (simp add: n(4))
  show ?thesis
    using build_outcomes [OF len] n(2) known ids par unfolding graph_nodes [OF role]
    by (auto intro!: exI [of _ ?ns])
qed

text \<open>Both ancestry queries, given the parent relation they run on.\<close>

lemma ancestry_queries:
  assumes inv: "store_inv X st" and len: "length (ms_objects st) \<le> usize_max" and role: "parent_role kind = Inr role"
    and a: "visible_as st kind a" and d: "visible_as st kind d"
  shows "if \<not> (\<forall>i. (i, d) \<in> (visible_parents st kind role)\<^sup>* \<longrightarrow> visible_as st kind i)
    then (\<exists>e. store_generation d st = Some (Inl e)) \<and> (\<exists>e. store_is_reachable a d st = Some (Inl e))
    else if \<not> acyclic (leading_to (visible_parents st kind role) d)
    then (\<exists>e. store_generation d st = Some (Inl e)) \<and>
      (if (a, d) \<in> (visible_parents st kind role)\<^sup>* then \<exists>e. store_is_reachable a d st = Some (Inl e)
       else store_is_reachable a d st = Some (Inr False))
    else store_is_reachable a d st = Some (Inr ((a, d) \<in> (visible_parents st kind role)\<^sup>*)) \<and>
      (\<exists>g. store_generation d st = Some (Inr g) \<and> (\<exists>r. (r, d) \<in> visible_parents st kind role ^^ unat g) \<and>
        (\<forall>k r. (r, d) \<in> visible_parents st kind role ^^ k \<longrightarrow> k \<le> unat g))"
proof -
  let ?P = "visible_parents st kind role"
  obtain oa od where o: "visible_object st a = Inr oa" "so_kind oa = kind" "visible_object st d = Inr od" "so_kind od = kind"
    using a d by (auto simp: visible_as_def)
  have ok: "objects_ok X st" using inv by (simp add: store_inv_def)
  show ?thesis
  proof (cases "\<forall>i. (i, d) \<in> ?P\<^sup>* \<longrightarrow> visible_as st kind i")
    case False
    with ancestry_outcome [OF role, of d st] obtain e where "ancestry_closure st [d] kind = Some (Inl e)" by auto
    with o False show ?thesis by (auto simp: store_generation_def store_is_reachable_def)
  next
    case True
    with ancestry_outcome [OF role, of d st] obtain m where m: "ancestry_closure st [d] kind = Some (Inr m)" "bt_wf m"
        "\<And>i obj. map_of m i = Some obj \<longleftrightarrow> (i, d) \<in> ?P\<^sup>* \<and> visible_object st i = Inr obj \<and> so_kind obj = kind"
      by auto
    note ix = ancestry_index [OF ok len role m(2,3) True]
    have mem: "map_of m a = None \<longleftrightarrow> (a, d) \<notin> ?P\<^sup>*"
      using m(3) [of a] o by (cases "map_of m a") auto
    show ?thesis
    proof (cases "acyclic (leading_to ?P d)")
      case False
      with ix True have "graph m kind = Some (Inl InvalidGraph)" by auto
      with o m(1) mem False True show ?thesis by (auto simp: store_generation_def store_is_reachable_def)
    next
      case acyc: True
      with ix True obtain g ns where g: "graph m kind = Some (Inr g)" "indexes g ns"
          "gn_id ` set ns = {i. (i, d) \<in> ?P\<^sup>*}" "parent_of ns = leading_to ?P d" by auto
      have "store_is_reachable a d st = Some (Inr ((a, d) \<in> ?P\<^sup>*))"
        using o m(1) mem g queries_eq [OF g(2), of d a d]
        by (auto simp: store_is_reachable_def leading_to_rtrancl)
      moreover obtain k where "generation g d = Inr k" "\<exists>r. (r, d) \<in> parent_of ns ^^ unat k"
          "\<forall>j r. (r, d) \<in> parent_of ns ^^ j \<longrightarrow> j \<le> unat k"
        using generation_eq [OF g(2), of d] by (auto simp: g(3))
      ultimately show ?thesis using True acyc o m(1) g(1)
        by (auto simp: store_generation_def g(4) leading_to_relpow)
    qed
  qed
qed

end
