(* ===== verification/Store_Sample.thy ===== *)
theory Store_Sample
  imports Memory Catalog
begin

text \<open>
  A concrete store: a key envelope set, the policy that names it and an operation under that policy,
  as in the contract tests of the store, with sample digest functions. It is where the properties
  of the store are evaluated.
\<close>

definition sample_id :: "object_kind \<Rightarrow> u64 \<Rightarrow> fields \<Rightarrow> object_id" where
  "sample_id kind schema m = from_payload sample_externals (kind_code kind) schema (enc (Map m)) Sha256"

definition sample_stored :: "object_kind \<Rightarrow> u64 \<Rightarrow> fields \<Rightarrow> reference_edge list \<Rightarrow> stored_object" where
  "sample_stored kind schema m refs =
     \<lparr>so_id = sample_id kind schema m, so_bytes = enc (Map m),
      so_object = any_object_of kind \<lparr>do_kind = kind, do_schema_version = schema, do_value = Map m\<rparr>,
      so_references = refs\<rparr>"

definition sample_signature :: "signature_purpose \<Rightarrow> cvalue" where
  "sample_signature p = Map [(0, Unsigned 0), (1, Bytes (replicate 16 1)), (2, Bytes (replicate 32 1)),
     (3, Bytes (replicate 64 1)), (4, Unsigned (purpose_code p))]"

definition sample_envelopes :: fields where
  "sample_envelopes = [(0, Unsigned (kind_code KeyEnvelopeSetKind)), (1, Unsigned 0), (3, Unsigned 0), (4, Unsigned 0),
     (5, Array [Map [(0, Map [(0, Unsigned 0), (1, Bytes [1])]), (1, Bytes (replicate 32 1)), (2, Bytes [1])]])]"

definition envelopes_id :: object_id where
  "envelopes_id = sample_id KeyEnvelopeSetKind 0 sample_envelopes"

definition sample_policy :: fields where
  "sample_policy = [(0, Unsigned (kind_code PolicyKind)), (1, Unsigned 0), (3, Bytes (replicate 16 1)), (4, Unsigned 0),
     (6, Array [Map [(0, Unsigned 0), (1, Bytes [1])]]), (7, Array []), (8, Unsigned 0), (9, Unsigned 0), (10, Array []),
     (11, Unsigned 0), (12, oid envelopes_id), (13, Array [Bytes (replicate 16 1)]), (14, Bytes []),
     (15, Array [sample_signature ForPolicy])]"

definition sample_policy_id :: object_id where
  "sample_policy_id = sample_id PolicyKind 0 sample_policy"

definition sample_operation :: fields where
  "sample_operation = [(0, Unsigned (kind_code OperationKind)), (1, Unsigned 0),
     (2, Map [(0, Bytes (replicate 16 1)), (1, oid sample_policy_id)]), (3, Array []), (4, Bytes (replicate 16 1)),
     (5, Bytes (replicate 16 2)), (6, Unsigned 1), (7, Map [(0, Unsigned 1), (1, Unsigned 0)]), (8, Array []),
     (9, Array []), (12, sample_signature ForOperation), (13, Text [])]"

definition sample_operation_id :: object_id where
  "sample_operation_id = sample_id OperationKind 0 sample_operation"

lemma oid_wf_sample_id [simp]: "oid_wf (sample_id kind schema m)"
  by (simp add: sample_id_def oid_wf_from_payload digest_lengths_sample)

lemma oid_wf_samples [simp]: "oid_wf envelopes_id" "oid_wf sample_policy_id" "oid_wf sample_operation_id"
  by (simp_all add: envelopes_id_def sample_policy_id_def sample_operation_id_def)

lemma sample_decode:
  assumes "admitted sample_externals bulk kind schema m"
    and "references \<lparr>do_kind = kind, do_schema_version = schema, do_value = Map m\<rparr> = Inr refs"
  shows "memory_decode sample_externals (sample_id kind schema m) (enc (Map m)) = Inr (sample_stored kind schema m refs)"
proof -
  let ?obj = "any_object_of kind \<lparr>do_kind = kind, do_schema_version = schema, do_value = Map m\<rparr>"
  have d: "any_decode sample_externals (enc (Map m)) bulk = Inr ?obj"
    unfolding any_decode_iff using assms(1) by blast
  have "algorithm (sample_id kind schema m) = Sha256" by (simp add: sample_id_def from_payload_def Let_def)
  with any_id_decoded [OF d, of Sha256] have "any_decode_verified sample_externals (enc (Map m)) (sample_id kind schema m) bulk = Inr ?obj"
    by (simp add: any_decode_verified_def d sample_id_def del: enc.simps)
  with assms(2) show ?thesis by (simp del: enc.simps add: memory_decode_def stored_object_new_def sample_stored_def)
qed

lemma norm_sorted:
  "sorted (map fst m) \<Longrightarrow> \<forall>(k, v) \<in> set m. norm v = v \<Longrightarrow> norm (Map m) = Map m"
  by (auto simp: sort_key_id_if_sorted intro!: map_idI)

lemmas sample_limits = fits.simps restricted_by_def object_limits_def min_usize_def

lemma sorted_single:
  "fits X metadata 0 v \<Longrightarrow> length (enc v) \<le> max_bytes metadata \<Longrightarrow> ensure_sorted_unique_values X [v] k = Inr ()"
  by (simp add: ensure_sorted_unique_values_def Canonical.encode_def collect_results_def encode_with_limits_iff)

lemmas sample_checks = validate_fields_def validate_shapes_def lookup_defs unknown_field_check_def
  exact_map_def principal_check_def fixed_bytes_def fixed_nonzero_bytes_def signature_check_def
  signature_set_check_def wall_time_check_def policy_ref_check_def ensure_unique_ids_def oid_values_def
  oid_array_check_def purpose_of_Inr signature_algorithm_of_def embedded

text \<open>An object given by sorted fields is admitted when each of the checks evaluates.\<close>

lemma admittedI:
  assumes "sorted (map fst m)" "\<forall>(k, v) \<in> set m. norm v = v" "text_wf (Map m)"
    "fits X (restricted_by L (object_limits kind)) 0 (Map m)"
    "length (enc (Map m)) \<le> max_bytes (restricted_by L (object_limits kind))"
    "map_of m 0 = Some (Unsigned (kind_code kind))" "map_of m 1 = Some (Unsigned schema)"
    "supports_schema kind schema" "validate_fields X kind schema m = Inr ()"
  shows "admitted X L kind schema m"
  using assms norm_sorted [OF assms(1,2)] by (simp add: admitted_def del: norm.simps enc.simps text_wf.simps)

lemma envelopes_admitted: "admitted sample_externals bulk KeyEnvelopeSetKind 0 sample_envelopes"
proof (rule admittedI, goal_cases)
  case 9
  show ?case
    by (simp add: sample_envelopes_def sample_checks shape_key_envelope_set_def recipient_shape_def sorted_single
        fits.simps head_def)
qed (simp_all add: sample_envelopes_def sample_limits head_def supports_schema_def)

lemma length_samples [simp]: "length (to_bytes envelopes_id) = 35" "length (to_bytes sample_policy_id) = 35"
  by (simp_all add: length_to_bytes)

lemma policy_admitted: "admitted sample_externals bulk PolicyKind 0 sample_policy"
proof (rule admittedI, goal_cases)
  case 9
  show ?case
    by (simp add: sample_policy_def sample_signature_def sample_checks shape_policy_def sorted_single
        fits.simps head_def)
qed (simp_all add: sample_policy_def sample_signature_def oid_def sample_limits head_def supports_schema_def)

lemma operation_admitted: "admitted sample_externals bulk OperationKind 0 sample_operation"
proof (rule admittedI, goal_cases)
  case 9
  show ?case
    by (simp add: sample_operation_def sample_signature_def sample_checks shape_operation_def
        fits.simps head_def)
qed (simp_all add: sample_operation_def sample_signature_def oid_def sample_limits head_def supports_schema_def)

text \<open>The edges of the three objects.\<close>

definition policy_refs :: "reference_edge list" where
  "policy_refs = [\<lparr>re_role = RolePolicyKeyEnvelopeSet, re_expected_kind = Some KeyEnvelopeSetKind, re_id = envelopes_id\<rparr>]"

definition operation_refs :: "reference_edge list" where
  "operation_refs = [\<lparr>re_role = RoleObjectPolicy, re_expected_kind = Some PolicyKind, re_id = sample_policy_id\<rparr>]"

lemmas edge_defs = references_def concat_results_def policy_edges_def policy_fields_def kind_edges_def
  add_edge_def oid_edge_def id_array_edges_def array_edges_def policy_edge_def push_unique_def

lemma envelopes_references:
  "references \<lparr>do_kind = KeyEnvelopeSetKind, do_schema_version = 0, do_value = Map sample_envelopes\<rparr> = Inr []"
  by (simp add: edge_defs sample_envelopes_def)

lemma oid_neq_Null [simp]: "oid i \<noteq> Null"
  by (simp add: oid_def)

lemma policy_references:
  "references \<lparr>do_kind = PolicyKind, do_schema_version = 0, do_value = Map sample_policy\<rparr> = Inr policy_refs"
  by (simp add: edge_defs refs_policy_def sample_policy_def policy_refs_def embedded)

lemma operation_references:
  "references \<lparr>do_kind = OperationKind, do_schema_version = 0, do_value = Map sample_operation\<rparr> = Inr operation_refs"
  by (simp add: edge_defs refs_operation_def sample_operation_def operation_refs_def embedded)

definition stored_envelopes :: stored_object where
  "stored_envelopes = sample_stored KeyEnvelopeSetKind 0 sample_envelopes []"

definition stored_policy :: stored_object where
  "stored_policy = sample_stored PolicyKind 0 sample_policy policy_refs"

definition stored_operation :: stored_object where
  "stored_operation = sample_stored OperationKind 0 sample_operation operation_refs"

lemma sample_decodes:
  "memory_decode sample_externals envelopes_id (enc (Map sample_envelopes)) = Inr stored_envelopes"
  "memory_decode sample_externals sample_policy_id (enc (Map sample_policy)) = Inr stored_policy"
  "memory_decode sample_externals sample_operation_id (enc (Map sample_operation)) = Inr stored_operation"
  unfolding envelopes_id_def sample_policy_id_def sample_operation_id_def
    stored_envelopes_def stored_policy_def stored_operation_def
  using sample_decode [OF envelopes_admitted envelopes_references] sample_decode [OF policy_admitted policy_references]
    sample_decode [OF operation_admitted operation_references] by auto

lemma sample_kinds [simp]:
  "so_kind stored_envelopes = KeyEnvelopeSetKind" "so_kind stored_policy = PolicyKind"
  "so_kind stored_operation = OperationKind"
  by (simp_all add: so_kind_def stored_envelopes_def stored_policy_def stored_operation_def sample_stored_def)

lemma sample_refs [simp]:
  "so_references stored_envelopes = []" "so_references stored_policy = policy_refs"
  "so_references stored_operation = operation_refs"
  by (simp_all add: stored_envelopes_def stored_policy_def stored_operation_def sample_stored_def)

text \<open>The identifiers are distinct: the sample digest keeps the kind.\<close>

lemma sample_ids_distinct:
  "envelopes_id \<noteq> sample_policy_id" "envelopes_id \<noteq> sample_operation_id" "sample_policy_id \<noteq> sample_operation_id"
  by (simp_all add: envelopes_id_def sample_policy_id_def sample_operation_id_def sample_id_def from_payload_def
      preimage_def object_domain_def push_varint.simps pad32_def Let_def)

text \<open>A schema-1 operation that binds one marker.\<close>

definition bound_action :: cvalue where
  "bound_action = Map [(0, Unsigned 2), (1, Map [(0, Unsigned 5), (1, Bytes (replicate 16 1))]),
     (3, Map [(0, Unsigned (kind_code MarkerKind)), (1, oid sample_policy_id)])]"

definition bound_operation :: fields where
  "bound_operation = [(0, Unsigned (kind_code OperationKind)), (1, Unsigned 1),
     (2, Map [(0, Bytes (replicate 16 1)), (1, oid sample_policy_id)]), (3, Array []), (4, Bytes (replicate 16 1)),
     (5, Bytes (replicate 16 2)), (6, Unsigned 1), (7, Map [(0, Unsigned 1), (1, Unsigned 0)]), (8, Array [bound_action]),
     (9, Array []), (12, sample_signature ForOperation), (13, Text [])]"

lemma bound_admitted: "admitted sample_externals bulk OperationKind 1 bound_operation"
proof (rule admittedI, goal_cases)
  case 9
  show ?case
    by (simp add: bound_operation_def bound_action_def sample_signature_def sample_checks shape_operation_def
        action_shape_step_def action_bound_shape_def decode_reference_key_def typed_ref_kind_def object_kind_of_Inr
        fits.simps head_def)
qed (simp_all add: bound_operation_def bound_action_def sample_signature_def oid_def sample_limits head_def supports_schema_def)

definition bound_refs :: "reference_edge list" where
  "bound_refs = operation_refs @ [\<lparr>re_role = RoleOperationAfter, re_expected_kind = Some MarkerKind, re_id = sample_policy_id\<rparr>]"

lemma bound_references:
  "references \<lparr>do_kind = OperationKind, do_schema_version = 1, do_value = Map bound_operation\<rparr> = Inr bound_refs"
proof -
  have "object_kind_of 11 = Inr MarkerKind" by (simp add: object_kind_of_Inr)
  then show ?thesis
    by (simp add: edge_defs refs_operation_def bound_operation_def bound_action_def bound_refs_def operation_refs_def
        action_edges_def opt_typed_edge_def typed_edge_def embedded)
qed

definition bound_id :: object_id where
  "bound_id = sample_id OperationKind 1 bound_operation"

definition stored_bound :: stored_object where
  "stored_bound = sample_stored OperationKind 1 bound_operation bound_refs"

lemma bound_decode: "memory_decode sample_externals bound_id (enc (Map bound_operation)) = Inr stored_bound"
  unfolding bound_id_def stored_bound_def by (rule sample_decode [OF bound_admitted bound_references])

end
