(* ===== verification/Store_Props.thy ===== *)
theory Store_Props
  imports Memory_Spec Store_Sample
begin

text \<open>
  The properties of the object store, each at a concrete store: an empty store that receives a key
  envelope set and a policy and then publishes a first operation as its head.
\<close>

section \<open>A publication on the sample store\<close>

abbreviation SX :: externals where "SX \<equiv> sample_externals"

definition store1 :: memory_snapshot where
  "store1 = snd (store_put SX envelopes_id (enc (Map sample_envelopes)) memory_new)"

definition store2 :: memory_snapshot where
  "store2 = snd (store_put SX sample_policy_id (enc (Map sample_policy)) store1)"

definition first_head :: publication where
  "first_head =
     \<lparr>pb_objects = [\<lparr>po_id = sample_operation_id, po_bytes = enc (Map sample_operation)\<rparr>],
      pb_updates = [\<lparr>ru_key = KeyOperationHead, ru_expected = Absent, ru_target = sample_operation_id\<rparr>],
      pb_operation = sample_operation_id\<rparr>"

lemma checked_add_small [simp]: "checked_add 0 1 = Some (1 :: u64)" "checked_add 1 1 = Some (2 :: u64)"
    "checked_add 2 1 = Some (3 :: u64)"
  by (simp_all add: checked_add_def)

lemma put1: "store_put SX envelopes_id (enc (Map sample_envelopes)) memory_new = (Inr New, store1)"
  by (simp add: store1_def store_put_def sample_decodes memory_new_def del: enc.simps)

lemma store1_sel: "ms_objects store1 = [(envelopes_id, stored_envelopes)]" "ms_promised store1 = {}"
    "ms_quarantined store1 = {}" "ms_references store1 = []" "ms_revision store1 = 1"
  by (simp_all add: store1_def store_put_def sample_decodes memory_new_def del: enc.simps)

lemma put2: "store_put SX sample_policy_id (enc (Map sample_policy)) store1 = (Inr New, store2)"
  using sample_ids_distinct by (simp add: store2_def store_put_def sample_decodes store1_sel del: enc.simps)

lemma store2_sel:
  "ms_objects store2 = bt_insert sample_policy_id stored_policy [(envelopes_id, stored_envelopes)]"
  "ms_promised store2 = {}" "ms_quarantined store2 = {}" "ms_references store2 = []" "ms_revision store2 = 2"
  using sample_ids_distinct
  by (simp_all add: store2_def store_put_def sample_decodes store1_sel del: enc.simps)

text \<open>Until the commit a world is reached by the steps the threads take.\<close>

lemma run2: "store_run SX (memory_new, {#}) [Stored envelopes_id (enc (Map sample_envelopes)),
    Stored sample_policy_id (enc (Map sample_policy))] (store2, {#})"
  using store_run.step [OF store_run.step [OF store_run.start store_step.put_new [OF put1]] store_step.put_new [OF put2]]
  by simp

lemma inv2: "store_inv SX store2"
  using reachable_inv [OF run2] by (simp add: world_inv_def)

definition store3_objects :: object_map where
  "store3_objects = bt_insert sample_operation_id stored_operation (ms_objects store2)"

lemma store3_lookup:
  "map_of store3_objects = [envelopes_id \<mapsto> stored_envelopes, sample_policy_id \<mapsto> stored_policy,
     sample_operation_id \<mapsto> stored_operation]"
  by (simp add: store3_objects_def store2_sel del: bt_insert.simps)

lemma store3_cases:
  "map_of store3_objects i = Some obj \<Longrightarrow>
    (i, obj) \<in> {(envelopes_id, stored_envelopes), (sample_policy_id, stored_policy), (sample_operation_id, stored_operation)}"
  by (auto simp: store3_lookup split: if_splits)

lemma bt_wf_store3: "bt_wf store3_objects"
  by (simp add: store3_objects_def store2_sel del: bt_insert.simps)

lemma sample_actions: "operation_actions stored_operation = Inr []"
  by (simp add: operation_actions_def stored_operation_def sample_stored_def sample_operation_def value_map_def
      value_field_def value_array_def)

lemma sample_identity: "reference_identity_matches KeyOperationHead stored_operation"
  by (simp add: reference_identity_matches_def stored_operation_def sample_stored_def value_map_def)

lemma stage_checked_first:
  "stage_checked SX first_head store2 = Inr (store2\<lparr>ms_objects := store3_objects\<rparr>)"
  using sample_ids_distinct
  by (simp add: stage_checked_def first_head_def stage_object_def sample_decodes store2_sel store3_objects_def
      visible_object_def stage_update_def check_expected_def sample_identity validate_operation_def
      sample_actions validate_update_def validate_head_update_def parent_ids_def operation_refs_def del: enc.simps)

lemma store3_length: "length store3_objects = 3"
  using sample_ids_distinct by (simp add: length_dom [OF bt_wf_store3] store3_lookup)

lemma store3_linked:
  "linked store3_objects (root_edge OperationKind sample_operation_id) e \<Longrightarrow>
    e \<in> set (root_edge OperationKind sample_operation_id # operation_refs @ policy_refs)"
proof (induction rule: linked.induct)
  case (there e' obj e'')
  then show ?case using sample_ids_distinct
    by (auto simp: store3_lookup root_edge_def operation_refs_def policy_refs_def split: if_splits)
qed simp

lemma closure_first:
  "\<exists>m. closure_from (store2\<lparr>ms_objects := store3_objects\<rparr>) (publication_roots first_head) = Some (Inr m) \<and>
     bt_wf m \<and> length m \<le> 3 \<and> (\<forall>i obj. map_of m i = Some obj \<longrightarrow> map_of store3_objects i = Some obj)"
proof -
  let ?t = "store2\<lparr>ms_objects := store3_objects\<rparr>"
  have no: "\<not> closure_fault ?t e c" if "r \<in> set (publication_roots first_head)" "linked store3_objects r e" for r e c
  proof -
    have "r = root_edge OperationKind sample_operation_id"
      using that(1) by (auto simp: publication_roots_eq first_head_def)
    with store3_linked that(2) show ?thesis using sample_ids_distinct
      by (force simp: closure_fault_def store3_lookup root_edge_def operation_refs_def policy_refs_def store2_sel)
  qed
  then obtain m where m: "closure_from ?t (publication_roots first_head) = Some (Inr m)"
    using closure_outcome [of ?t "publication_roots first_head"] by auto
  note c = closure_Inr [OF m]
  have "dom (map_of m) \<subseteq> dom (map_of store3_objects)" using c(3) by (auto simp: dom_def)
  then have "length m \<le> length store3_objects"
    by (simp add: length_dom [OF c(1)] length_dom [OF bt_wf_store3] card_mono finite_dom_map_of)
  with m c show ?thesis by (auto simp: store3_length)
qed

lemma so_id_samples: "so_id stored_envelopes = envelopes_id" "so_id stored_policy = sample_policy_id"
    "so_id stored_operation = sample_operation_id"
  by (simp_all add: stored_envelopes_def stored_policy_def stored_operation_def sample_stored_def
      envelopes_id_def sample_policy_id_def sample_operation_id_def)

text \<open>A graph whose nodes have no parents is accepted.\<close>

lemma graph_roots:
  assumes "bt_wf m" "length m \<le> usize_max" "parent_role kind = Inr role"
    and "\<forall>i obj. map_of m i = Some obj \<longrightarrow> so_id obj = i \<and> parent_ids role obj = []"
  shows "\<exists>g. graph m kind = Some (Inr g)"
proof -
  let ?ns = "ancestry_nodes m kind role"
  have lk: "map_of m i = Some obj \<longleftrightarrow> (i, obj) \<in> set m" for i obj
    by (rule map_of_eq_Some_iff [OF bt_wf_distinct [OF assms(1)]])
  have n: "?ns = map (\<lambda>x. \<lparr>gn_id = fst x, gn_parents = []\<rparr>) (filter (\<lambda>x. so_kind (snd x) = kind) m)"
    using assms(4) unfolding lk ancestry_nodes_def by (auto simp: filter_map comp_def intro!: map_cong)
  have "distinct (map gn_id ?ns)"
    using bt_wf_distinct [OF assms(1)] unfolding n by (simp add: comp_def distinct_map_filter)
  moreover have "parents_known ?ns" "acyclic (parent_of ?ns)"
    unfolding n by (auto simp: parents_known_def parent_of_def acyclic_def)
  moreover have "length ?ns \<le> usize_max"
    using assms(2) unfolding n by (simp add: order_trans [OF length_filter_le])
  ultimately obtain g where "build ?ns = Some (Inr g)" using build_outcomes [of ?ns] by auto
  then show ?thesis by (simp add: graph_nodes [OF assms(3)])
qed

definition staged_first :: memory_snapshot where
  "staged_first = store2\<lparr>ms_objects := store3_objects,
     ms_references := [(KeyOperationHead, \<lparr>rs_target = sample_operation_id, rs_generation = 0, rs_operation = sample_operation_id\<rparr>)]\<rparr>"

definition flight_first :: staged_publication where
  "flight_first = \<lparr>sp_publication = first_head, sp_staged = staged_first, sp_base_revision = 2, sp_next_revision = 3\<rparr>"

lemma stage_first: "stage SX first_head store2 = Some (Inr staged_first)"
proof -
  obtain m where m: "closure_from (store2\<lparr>ms_objects := store3_objects\<rparr>) (publication_roots first_head) = Some (Inr m)"
      "bt_wf m" "length m \<le> 3" "\<forall>i obj. map_of m i = Some obj \<longrightarrow> map_of store3_objects i = Some obj"
    using closure_first by blast
  have roots: "\<forall>i obj. map_of m i = Some obj \<longrightarrow> so_id obj = i \<and> parent_ids role obj = []"
    if "role \<in> {RoleSnapshotParent, RoleOperationParent}" for role
  proof (intro allI impI)
    fix i obj assume "map_of m i = Some obj"
    then have "(i, obj) \<in> {(envelopes_id, stored_envelopes), (sample_policy_id, stored_policy), (sample_operation_id, stored_operation)}"
      using m(4) store3_cases by blast
    with that show "so_id obj = i \<and> parent_ids role obj = []"
      by (auto simp: so_id_samples parent_ids_def operation_refs_def policy_refs_def)
  qed
  have "length m \<le> usize_max" using m(3) by (simp add: usize_max_def)
  then obtain g h where "graph m SnapshotKind = Some (Inr g)" "graph m OperationKind = Some (Inr h)"
    using graph_roots [OF m(2) _ _ roots] by (metis insertCI parent_role_simps)
  then have "validate_affected_graphs m = Some (Inr ())" by (simp add: validate_affected_graphs_def)
  moreover have "try_fold (install store2 first_head) (store2\<lparr>ms_objects := store3_objects\<rparr>) (pb_updates first_head) = Inr staged_first"
    by (simp add: install_def successor_def first_head_def store2_sel staged_first_def)
  ultimately show ?thesis unfolding stage_Inr using stage_checked_first m(1) by blast
qed

lemma begin_first: "publish_begin SX first_head store2 = Some (Inr flight_first)"
  by (simp add: publish_begin_Inr flight_first_def store2_sel stage_first)

lemma flight_first_length: "length (ms_objects (sp_staged flight_first)) \<le> usize_max"
  by (simp add: flight_first_def staged_first_def store3_length usize_max_def)

lemma run3: "store_run SX (memory_new, {#}) [Stored envelopes_id (enc (Map sample_envelopes)),
    Stored sample_policy_id (enc (Map sample_policy)), Silent] (store2, {#flight_first#})"
  using store_run.step [OF run2 store_step.publish_stage [OF begin_first flight_first_length]] by simp

definition accept_all :: validator where
  "accept_all c = Inr ()"

definition store3 :: memory_snapshot where
  "store3 = staged_first\<lparr>ms_revision := 3\<rparr>"

definition head_state :: reference_state where
  "head_state = \<lparr>rs_target = sample_operation_id, rs_generation = 0, rs_operation = sample_operation_id\<rparr>"

lemma commit_first: "publish_commit accept_all flight_first store2 = Inr ([head_state], store3)"
  by (simp add: publish_commit_def flight_first_def accept_all_def store2_sel staged_first_def first_head_def
      store3_def head_state_def map_filter_simps Let_def)

definition sample_trace :: "store_event list" where
  "sample_trace = [Stored envelopes_id (enc (Map sample_envelopes)), Stored sample_policy_id (enc (Map sample_policy)),
     Silent, Published first_head [head_state]]"

lemma run4: "store_run SX (memory_new, {#}) sample_trace (store3, {#})"
  using store_run.step [OF run3 store_step.publish_commit [OF _ commit_first]]
  by (simp add: sample_trace_def flight_first_def del: enc.simps)

lemma store3_references: "map_of (ms_references store3) KeyOperationHead = Some head_state"
  by (simp add: store3_def staged_first_def head_state_def)

section \<open>Properties\<close>

text \<open>
  C1: The store invariant. Whatever threads do to a new store - puts, promises, quarantines,
  publications staged, committed or given up in any interleaving - the snapshot is well-formed: every
  object verifies against its identifier and carries its extracted references, no object is also
  promised, only known identifiers are quarantined; every reference names a stored object of its
  kind and identity whose whole closure is stored with the expected kinds, whose snapshot and
  operation ancestry is acyclic, and a line reference has the generation and operation its line
  state declares.
\<close>

theorem store_invariant:
  assumes "store_run X (memory_new, {#}) evs (st, ps)"
  shows "store_inv X st"
  using reachable_inv [OF assms] by (simp add: world_inv_def)

theorem store_invariant_witness:
  "store_run SX (memory_new, {#}) sample_trace (store3, {#}) \<and> store_inv SX store3 \<and>
    map_of (ms_references store3) KeyOperationHead = Some head_state"
  using store_invariant [OF run4] run4 store3_references by simp

text \<open>
  C2: Refinement. Every run of the store is a run of the abstract store with the same events: bytes
  only ever appear under fresh identifiers, and a publication is one atomic compare-and-swap of all
  its references, each of which held its expected value at that moment and moves to the next
  generation; its results are the new states.
\<close>

theorem store_refines_cas:
  assumes "store_run X (memory_new, {#}) evs (st, ps)"
  shows "opt_fold abs_step \<lparr>ab_content = Map.empty, ab_references = Map.empty\<rparr> evs = Some (abstraction st)"
proof -
  have "opt_fold abs_step (abstraction memory_new) evs = Some (abstraction (fst w))"
    if "store_run X (memory_new, {#}) evs w" for w
    using that
  proof (induction rule: store_run.induct)
    case (step evs w' ev w'')
    with store_step_abs [OF step.hyps(2) reachable_inv [OF step.hyps(1)]] show ?case
      by (simp add: opt_fold_append)
  qed simp
  moreover have "abstraction memory_new = \<lparr>ab_content = Map.empty, ab_references = Map.empty\<rparr>"
    by (simp add: abstraction_def memory_new_def content_def fun_eq_iff)
  ultimately show ?thesis using assms by fastforce
qed

theorem store_refines_cas_witness:
  "store_run SX (memory_new, {#}) sample_trace (store3, {#}) \<and>
    opt_fold abs_step \<lparr>ab_content = Map.empty, ab_references = Map.empty\<rparr> sample_trace = Some (abstraction store3)"
  using store_refines_cas [OF run4] run4 by simp

text \<open>
  C4: Commits are linearizable. A publication that was staged earlier and commits now has exactly the
  effect and the result of publishing it now in one step, although the validator ran without the
  lock and other threads may have run in between.
\<close>

theorem commit_linearizable:
  assumes "store_run X (memory_new, {#}) evs (st, ps)" "p \<in># ps" "publish_commit validate p st = Inr (rs, st')"
  shows "store_publish X validate (sp_publication p) st = Some (Inr (rs, st'))"
proof -
  from reachable_inv [OF assms(1)] assms(2) obtain st0 where "staged_at X st0 p" "moves st0 st"
    by (auto simp: world_inv_def)
  moreover have "ms_revision st = sp_base_revision p" using assms(3) by (simp add: publish_commit_Inr)
  ultimately have "staged_at X st p" using staged_at_same by blast
  with assms(3) show ?thesis by (simp add: store_publish_def staged_at_def)
qed

theorem commit_linearizable_witness:
  "store_run SX (memory_new, {#}) [Stored envelopes_id (enc (Map sample_envelopes)),
      Stored sample_policy_id (enc (Map sample_policy)), Silent] (store2, {#flight_first#}) \<and>
    publish_commit accept_all flight_first store2 = Inr ([head_state], store3) \<and>
    store_publish SX accept_all first_head store2 = Some (Inr ([head_state], store3))"
proof -
  have "sp_publication flight_first = first_head" by (simp add: flight_first_def)
  with commit_linearizable [OF run3 _ commit_first] run3 commit_first show ?thesis by simp
qed

text \<open>
  C22: Progress. A publication that was staged and whose validator accepts it commits if and only if
  no operation has changed the snapshot since; a conflict is thus always the progress of another
  operation, and a publication that runs undisturbed succeeds.
\<close>

theorem publication_commits:
  assumes "store_run X (memory_new, {#}) evs0 (st0, ps0)" "publish_begin X pub st0 = Some (Inr p)"
    "length (ms_objects (sp_staged p)) \<le> usize_max"
    "store_run X (st0, add_mset p ps0) evs (st, ps)"
    "validate \<lparr>pc_publication = pub, pc_objects = ms_objects (sp_staged p), pc_references = ms_references (sp_staged p)\<rparr> = Inr ()"
  shows "if st = st0 then \<exists>rs st'. publish_commit validate p st = Inr (rs, st')
    else publish_commit validate p st = Inl ReferenceConflict"
proof -
  have p: "sp_publication p = pub" "sp_base_revision p = ms_revision st0"
    using assms(2) by (auto simp: publish_begin_Inr)
  have "world_inv X (st0, add_mset p ps0)"
    using store_step_inv [OF store_step.publish_stage [OF assms(2,3)] reachable_inv [OF assms(1)]] by simp
  with store_run_inv [OF assms(4)] have m: "moves st0 st" by simp
  then show ?thesis using assms(5) p by (auto simp: publish_commit_def moves_def Let_def)
qed

theorem publication_commits_witness:
  "publish_begin SX first_head store2 = Some (Inr flight_first) \<and>
    (\<exists>rs st'. publish_commit accept_all flight_first store2 = Inr (rs, st'))"
proof -
  have "store_run SX (store2, add_mset flight_first {#}) [] (store2, add_mset flight_first {#})" by (rule store_run.start)
  from publication_commits [OF run2 begin_first flight_first_length this, of accept_all] begin_first
  show ?thesis by (simp add: accept_all_def)
qed

text \<open>
  C21: Closures are exact. The traversal always ends. It succeeds precisely when every edge linked to a
  root names a visible object of the kind it expects, and then returns exactly those objects;
  otherwise it reports the fault of some linked edge: quarantined, promised, missing or of the wrong
  kind.
\<close>

theorem store_closure_exact:
  "(\<exists>m. store_closure roots st = Some (Inr m) \<and> bt_wf m \<and>
      (\<forall>r \<in> set roots. \<forall>e. linked (ms_objects st) r e \<longrightarrow>
         backed (ms_objects st) e \<and> re_id e \<notin> ms_quarantined st) \<and>
      (\<forall>i obj. map_of m i = Some obj \<longleftrightarrow> map_of (ms_objects st) i = Some obj \<and>
         (\<exists>r \<in> set roots. \<exists>e. linked (ms_objects st) r e \<and> re_id e = i))) \<or>
    (\<exists>r \<in> set roots. \<exists>e c. linked (ms_objects st) r e \<and> closure_fault st e c \<and>
      store_closure roots st = Some (Inl (ClosureFailed c)))"
  unfolding store_closure_def by (rule closure_outcome)

theorem store_closure_exact_witness:
  "\<exists>m. store_closure [root_edge OperationKind sample_operation_id] store3 = Some (Inr m) \<and>
    map_of m envelopes_id = Some stored_envelopes"
proof -
  let ?r = "root_edge OperationKind sample_operation_id"
  have o: "ms_objects store3 = store3_objects" "ms_quarantined store3 = {}"
    by (simp_all add: store3_def staged_first_def store2_sel)
  have "\<not> closure_fault store3 e c" if "linked store3_objects ?r e" for e c
    using store3_linked [OF that] sample_ids_distinct
    by (force simp: closure_fault_def o store3_lookup root_edge_def operation_refs_def policy_refs_def)
  with store_closure_exact [of "[?r]" store3]
  obtain m where m: "store_closure [?r] store3 = Some (Inr m)"
      "\<And>i obj. map_of m i = Some obj \<longleftrightarrow> map_of store3_objects i = Some obj \<and> (\<exists>e. linked store3_objects ?r e \<and> re_id e = i)"
    unfolding o by auto
  have "linked store3_objects ?r (hd operation_refs)"
    by (rule linked.there [OF linked.here, of _ _ stored_operation]) (simp_all add: store3_lookup root_edge_def operation_refs_def)
  then have "linked store3_objects ?r (hd policy_refs)"
    using sample_ids_distinct
    by (rule_tac linked.there [of _ _ "hd operation_refs" stored_policy])
      (simp_all add: store3_lookup operation_refs_def policy_refs_def)
  then have "\<exists>e. linked store3_objects ?r e \<and> re_id e = envelopes_id" by (auto simp: policy_refs_def)
  with m sample_ids_distinct show ?thesis by (simp add: store3_lookup)
qed

text \<open>
  C37: Ancestry queries of the store, for two visible objects of one kind that has a parent relation, in a
  reachable store of a size the machine can count. Both always return. When some ancestor of the descendant
  is missing, quarantined or of another kind, both are errors. When all are there but some lie on a cycle,
  \<open>generation\<close> is an error, and \<open>is_reachable\<close> is an error for an ancestor and false for any other object.
  Otherwise \<open>is_reachable\<close> decides whether the parent relation leads from one to the other and \<open>generation\<close>
  is the length of the longest path.
\<close>

theorem store_ancestry_exact:
  assumes "store_run X (memory_new, {#}) evs (st, ps)" "length (ms_objects st) \<le> usize_max"
    "parent_role kind = Inr role" "visible_as st kind a" "visible_as st kind d"
  shows "if \<not> (\<forall>i. (i, d) \<in> (visible_parents st kind role)\<^sup>* \<longrightarrow> visible_as st kind i)
    then (\<exists>e. store_generation d st = Some (Inl e)) \<and> (\<exists>e. store_is_reachable a d st = Some (Inl e))
    else if \<not> acyclic (leading_to (visible_parents st kind role) d)
    then (\<exists>e. store_generation d st = Some (Inl e)) \<and>
      (if (a, d) \<in> (visible_parents st kind role)\<^sup>* then \<exists>e. store_is_reachable a d st = Some (Inl e)
       else store_is_reachable a d st = Some (Inr False))
    else store_is_reachable a d st = Some (Inr ((a, d) \<in> (visible_parents st kind role)\<^sup>*)) \<and>
      (\<exists>g. store_generation d st = Some (Inr g) \<and> (\<exists>r. (r, d) \<in> visible_parents st kind role ^^ unat g) \<and>
        (\<forall>k r. (r, d) \<in> visible_parents st kind role ^^ k \<longrightarrow> k \<le> unat g))"
proof (rule ancestry_queries)
  show "store_inv X st" using reachable_inv [OF assms(1)] by (simp add: world_inv_def)
qed fact+

theorem store_ancestry_exact_witness:
  "visible_as store3 OperationKind sample_operation_id \<and>
    store_is_reachable sample_operation_id sample_operation_id store3 = Some (Inr True) \<and>
    store_generation sample_operation_id store3 = Some (Inr 0)"
proof -
  let ?P = "visible_parents store3 OperationKind RoleOperationParent"
  have o: "ms_objects store3 = store3_objects" "ms_quarantined store3 = {}"
    by (simp_all add: store3_def staged_first_def store2_sel)
  have v: "visible_as store3 OperationKind sample_operation_id"
    using sample_ids_distinct by (simp add: visible_as_def o store3_lookup)
  have "parent_ids RoleOperationParent obj = []" if "map_of store3_objects i = Some obj" for i obj
    using store3_cases [OF that] by (auto simp: parent_ids_def operation_refs_def policy_refs_def)
  then have P: "?P = {}" by (auto simp: visible_parents_def o)
  have len: "length (ms_objects store3) \<le> usize_max" by (simp add: o store3_length usize_max_def)
  have "acyclic (leading_to ?P sample_operation_id)" unfolding P by (simp add: leading_to_def acyclic_def)
  with store_ancestry_exact [OF run4 len parent_role_simps(2) v v] v obtain g where
    "store_is_reachable sample_operation_id sample_operation_id store3 = Some (Inr True)"
    "store_generation sample_operation_id store3 = Some (Inr g)" "\<exists>r. (r, sample_operation_id) \<in> ?P ^^ unat g"
    unfolding P by auto
  moreover have "g = 0" using calculation(3) unfolding P by (cases "unat g") (auto simp: unat_eq_zero)
  ultimately show ?thesis using v by simp
qed

section \<open>Returning\<close>

lemma length_bt_insert: "length (bt_insert k v m) \<le> Suc (length m)"
  by (induction k v m rule: bt_insert.induct) auto

lemma stage_objects_length:
  "try_fold (stage_object X) st pos = Inr t \<Longrightarrow> length (ms_objects t) \<le> length (ms_objects st) + length pos"
proof (induction pos arbitrary: st)
  case (Cons po pos)
  then obtain u where u: "stage_object X st po = Inr u" "try_fold (stage_object X) u pos = Inr t" by auto
  have "length (ms_objects u) \<le> Suc (length (ms_objects st))"
    using u(1) length_bt_insert by (auto simp: stage_object_def split: option.splits if_splits)
  with Cons.IH [OF u(2)] show ?case by simp
qed simp

lemma graph_returns:
  assumes "length m \<le> usize_max"
  shows "\<exists>r. graph m kind = Some r"
proof (cases "parent_role kind")
  case (Inr role)
  have "length (ancestry_nodes m kind role) \<le> usize_max"
    using assms unfolding ancestry_nodes_def by (metis length_filter_le length_map order_trans)
  from build_outcomes [OF this] have "\<exists>r. build (ancestry_nodes m kind role) = Some r"
    by (auto split: if_splits)
  then show ?thesis by (auto simp: graph_nodes [OF Inr])
qed (simp add: graph_def)

lemma closure_length:
  assumes "closure_from st roots = Some (Inr m)" "bt_wf (ms_objects st)"
  shows "length m \<le> length (ms_objects st)"
proof -
  note c = closure_Inr [OF assms(1)]
  have "dom (map_of m) \<subseteq> dom (map_of (ms_objects st))" using c(3) by (auto simp: dom_def)
  then show ?thesis
    by (simp add: length_dom [OF c(1)] length_dom [OF assms(2)] card_mono finite_dom_map_of)
qed

lemma stage_returns:
  assumes inv: "store_inv X st" and len: "length (ms_objects st) + length (pb_objects pub) \<le> usize_max"
  shows "\<exists>r. stage X pub st = Some r"
proof (cases "stage_checked X pub st")
  case (Inr t)
  from Inr have "try_fold (stage_object X) st (pb_objects pub) = Inr t" by (auto simp: stage_checked_def)
  from stage_objects_length [OF this] len have l: "length (ms_objects t) \<le> usize_max" by simp
  have wf: "bt_wf (ms_objects t)"
    using stage_checked_Inr(1) [OF _ Inr] inv by (simp add: store_inv_def stages_from_def objects_ok_def)
  obtain r where r: "closure_from t (publication_roots pub) = Some r" using closure_outcome by blast
  show ?thesis
  proof (cases r)
    case Inl
    with Inr r show ?thesis by (simp add: stage_def)
  next
    case r': (Inr m)
    have "length m \<le> usize_max" using closure_length [OF r [unfolded r'] wf] l by simp
    from graph_returns [OF this] obtain g h where "graph m SnapshotKind = Some g" "graph m OperationKind = Some h" by blast
    then show ?thesis using Inr r r' by (cases g) (auto simp: stage_def validate_affected_graphs_def)
  qed
qed (simp add: stage_def)

text \<open>
  Publication always returns. On every snapshot a store can reach, staging, publishing and
  compare-and-swap end with a result or an error, whatever the publication and the validator; no
  traversal loops and no graph lookup panics.
\<close>

theorem store_publish_returns:
  assumes "store_run X (memory_new, {#}) evs (st, ps)" "length (ms_objects st) + length (pb_objects pub) \<le> usize_max"
  shows "\<exists>r. store_publish X validate pub st = Some r"
proof -
  have "store_inv X st" using reachable_inv [OF assms(1)] by (simp add: world_inv_def)
  from stage_returns [OF this assms(2)] show ?thesis
    by (auto simp: store_publish_def publish_begin_def split: option.splits)
qed

theorem store_publish_returns_witness:
  "length (ms_objects store2) + length (pb_objects first_head) \<le> usize_max \<and>
    (\<exists>r. store_publish SX accept_all first_head store2 = Some r)"
proof -
  have "length (ms_objects store2) \<le> 2" using length_bt_insert by (fastforce simp: store2_sel)
  then have "length (ms_objects store2) + length (pb_objects first_head) \<le> usize_max"
    by (simp add: first_head_def usize_max_def)
  with store_publish_returns [OF run2 this] show ?thesis by blast
qed

section \<open>Bound transitions\<close>

definition action_kind :: "cvalue \<Rightarrow> u64 option" where
  "action_kind action = Option.bind (value_map action) (\<lambda>a. Option.bind (value_field a 0) value_unsigned)"

lemma matched_kind:
  "line_action_matches action state \<Longrightarrow> action_kind action = Some 1"
  "transition_matches action u \<Longrightarrow> action_kind action = Some 0"
  by (auto simp: line_action_matches_def transition_matches_def action_kind_def split: option.splits if_splits)

lemma consume_Inr:
  "consume match actions c = Inr c' \<Longrightarrow> \<exists>i. i < length actions \<and> match (actions ! i) \<and> c' = insert i c"
  by (auto simp: consume_def find_action_def find_Some_iff)

definition consumed_ok :: "cvalue list \<Rightarrow> nat set \<Rightarrow> bool" where
  "consumed_ok actions c \<longleftrightarrow> (\<forall>i \<in> c. i < length actions \<and> action_kind (actions ! i) \<in> {Some 0, Some 1})"

lemma validate_update_consumed:
  assumes "validate_update pub op st actions c u = Inr c'" "consumed_ok actions c"
  shows "consumed_ok actions c'"
  using assms unfolding validate_update_def consumed_ok_def
  by (auto split: reference_key.splits dest!: consume_Inr dest: matched_kind)

lemma validate_operation_kinds:
  assumes "validate_operation pub op st = Inr x" "operation_actions op = Inr actions" "i < length actions"
  shows "action_kind (actions ! i) \<in> {Some 0, Some 1}"
proof -
  from assms obtain c where c: "try_fold (validate_update pub op st actions) {} (pb_updates pub) = Inr c"
      "card c = length actions"
    by (auto simp: validate_operation_def)
  have ok: "consumed_ok actions c"
    by (rule try_fold_invariant [OF c(1)]) (auto simp: consumed_ok_def [of _ "{}"] dest: validate_update_consumed)
  then have "c \<subseteq> {..<length actions}" by (auto simp: consumed_ok_def)
  with c(2) have "c = {..<length actions}" by (intro card_subset_eq) auto
  with ok assms(3) show ?thesis by (auto simp: consumed_ok_def)
qed

text \<open>
  C38: Bound transitions are never published. If the operation of a publication, already stored, has an
  action of kind 2 (the bound reference transition of operation schema 1), every publication under it
  is refused: the matching only ever consumes actions of kinds 0 and 1 and must consume them all.
\<close>

theorem bound_transition_refused:
  assumes "store_run X (memory_new, {#}) evs (st, ps)" "map_of (ms_objects st) (pb_operation pub) = Some op"
    "operation_actions op = Inr actions" "action \<in> set actions" "action_kind action = Some 2"
  shows "\<exists>e. store_publish X validate pub st = Some (Inl e)"
proof (cases "stage_checked X pub st")
  case (Inl e)
  then show ?thesis by (auto simp: store_publish_def publish_begin_def stage_def split: option.splits)
next
  case (Inr t)
  then obtain op' where op': "visible_object t (pb_operation pub) = Inr op'" "validate_operation pub op' t = Inr ()"
    by (auto simp: stage_checked_def)
  have "objects_ok X st" using reachable_inv [OF assms(1)] by (simp add: world_inv_def store_inv_def)
  from stage_checked_Inr(1) [OF this Inr] have "map_of (ms_objects t) (pb_operation pub) = Some op"
    using map_le_Some assms(2) by (auto simp: stages_from_def)
  with op' have "op' = op" by simp
  moreover obtain i where "i < length actions" "actions ! i = action" using assms(4) by (auto simp: in_set_conv_nth)
  ultimately show ?thesis using validate_operation_kinds [OF op'(2), of actions i] assms(3,5) by auto
qed

definition store_bound :: memory_snapshot where
  "store_bound = snd (store_put SX bound_id (enc (Map bound_operation)) memory_new)"

lemma put_bound: "store_put SX bound_id (enc (Map bound_operation)) memory_new = (Inr New, store_bound)"
  by (simp add: store_bound_def store_put_def bound_decode memory_new_def del: enc.simps)

theorem bound_transition_refused_witness:
  "store_run SX (memory_new, {#}) [Stored bound_id (enc (Map bound_operation))] (store_bound, {#}) \<and>
    action_kind bound_action = Some 2 \<and>
    (\<exists>e. store_compare_and_swap SX accept_all (KeyMarker (replicate 16 1)) Absent sample_policy_id bound_id store_bound
       = Some (Inl e))"
proof -
  have run: "store_run SX (memory_new, {#}) [Stored bound_id (enc (Map bound_operation))] (store_bound, {#})"
    using store_run.step [OF store_run.start store_step.put_new [OF put_bound]] by simp
  let ?pub = "cas_publication (KeyMarker (replicate 16 1)) Absent sample_policy_id bound_id"
  have "map_of (ms_objects store_bound) (pb_operation ?pub) = Some stored_bound"
    by (simp add: store_bound_def store_put_def bound_decode memory_new_def cas_publication_def del: enc.simps)
  moreover have "operation_actions stored_bound = Inr [bound_action]"
    by (simp add: operation_actions_def stored_bound_def sample_stored_def bound_operation_def value_map_def
        value_field_def value_array_def)
  moreover have k: "action_kind bound_action = Some 2"
    by (simp add: action_kind_def bound_action_def value_map_def value_field_def)
  ultimately obtain e where "store_publish SX accept_all ?pub store_bound = Some (Inl e)"
    using bound_transition_refused [OF run, of ?pub stored_bound "[bound_action]" bound_action accept_all] by auto
  with run k show ?thesis by (simp add: store_compare_and_swap_def del: enc.simps)
qed

end
