(* ===== verification/Access.thy ===== *)
theory Access
  imports Ordered Ident
begin

text \<open>
  The command-line program's data model and access decisions, \<open>src/main.rs\<close>: policies and actors,
  manifests of files, snapshots, changes, lines and conflicts, the decision whether an actor may
  see something, and the comparison of manifests an actor is shown. A \<open>String\<close> is its bytes;
  \<open>BTreeMap\<close> and \<open>BTreeSet\<close> are ordered lists.
\<close>

section \<open>Data\<close>

datatype redaction = RedactOmit | RedactPlaceholder | RedactMetadataOnly

record access_policy =
  ap_domains :: "bytes list"
  ap_redaction :: redaction

record actor =
  ac_name :: bytes
  ac_domains :: "bytes list"

record path_policy =
  pp_prefix :: bytes
  pp_policy :: access_policy

record working_flags =
  wf_executable :: bool
  wf_symlink :: bool

record file_entry =
  fe_symlink :: bool
  fe_path :: bytes
  fe_executable :: bool
  fe_hash :: bytes
  fe_bytes :: u64
  fe_policy :: access_policy

definition flags :: "file_entry \<Rightarrow> working_flags" where
  "flags self = \<lparr>wf_executable = fe_executable self, wf_symlink = fe_symlink self\<rparr>"

text \<open>The fields of a snapshot that the decisions below read; the imported Git metadata is opaque.\<close>

record 'git cli_snapshot =
  sn_author :: "bytes option"
  sn_git :: "'git option"
  sn_id :: bytes
  sn_change_id :: bytes
  sn_parent_snapshot :: "bytes option"
  sn_merge_parents :: "bytes list"
  sn_message :: bytes
  sn_manifest_hash :: bytes
  sn_files :: "file_entry list"
  sn_policy :: access_policy
  sn_created_at :: u64

record change =
  ch_id :: bytes
  ch_name :: bytes
  ch_base_snapshot :: "bytes option"
  ch_target_line :: bytes
  ch_current_snapshot :: "bytes option"
  ch_policy :: access_policy
  ch_created_at :: u64

definition workspace_base_snapshot_id :: "change \<Rightarrow> bytes option" where
  "workspace_base_snapshot_id self =
     (case ch_current_snapshot self of Some i \<Rightarrow> Some i | None \<Rightarrow> ch_base_snapshot self)"

record cli_line =
  ln_name :: bytes
  ln_head_snapshot :: "bytes option"
  ln_policy :: access_policy
  ln_created_at :: u64

datatype conflict_status = Unresolved | Resolved

datatype tree_conflict_kind = BothModifiedFile | DeleteModifyFile | AddAddFile | FileDirectory

datatype resolution = TakeCustom | TakeBase | TakeLine | TakeIncoming | TakeDelete

record cli_conflict =
  cf_id :: bytes
  cf_line :: bytes
  cf_change_id :: bytes
  cf_base_snapshot :: "bytes option"
  cf_line_snapshot :: "bytes option"
  cf_incoming_snapshot :: bytes
  cf_path :: bytes
  cf_kind :: tree_conflict_kind
  cf_policy :: access_policy
  cf_line_policy :: access_policy
  cf_change_policy :: access_policy
  cf_file_policy :: access_policy
  cf_file_policies :: "access_policy list"
  cf_source_policy :: access_policy
  cf_status :: conflict_status
  cf_resolution :: "resolution option"
  cf_replacement :: "file_entry option"
  cf_created_at :: u64

record pending_conflict =
  pc_path :: bytes
  pc_kind :: tree_conflict_kind
  pc_policy :: access_policy
  pc_file_policies :: "access_policy list"

record tree_plan =
  tp_merged_files :: "file_entry list"
  tp_conflicts :: "pending_conflict list"

section \<open>Policies\<close>

text \<open>The bytes of \<open>public\<close> and \<open>admin\<close>.\<close>

definition PUBLIC_DOMAIN :: bytes where
  "PUBLIC_DOMAIN = [0x70, 0x75, 0x62, 0x6c, 0x69, 0x63]"

definition ADMIN_DOMAIN :: bytes where
  "ADMIN_DOMAIN = [0x61, 0x64, 0x6d, 0x69, 0x6e]"

definition can_access :: "actor \<Rightarrow> access_policy \<Rightarrow> bool" where
  "can_access actor policy \<longleftrightarrow>
     ADMIN_DOMAIN \<in> set (ac_domains actor) \<or>
     (\<exists>domain \<in> set (ap_domains policy). domain \<in> set (ac_domains actor))"

definition public_policy :: access_policy where
  "public_policy = \<lparr>ap_domains = [PUBLIC_DOMAIN], ap_redaction = RedactOmit\<rparr>"

definition admin_policy :: access_policy where
  "admin_policy = \<lparr>ap_domains = [ADMIN_DOMAIN], ap_redaction = RedactPlaceholder\<rparr>"

definition combined_access_policy :: "access_policy list \<Rightarrow> access_policy" where
  "combined_access_policy policies =
     (let domains = btset (concat (map ap_domains policies)) in
      if domains = [] then public_policy
      else \<lparr>ap_domains = domains, ap_redaction = RedactPlaceholder\<rparr>)"

definition integration_metadata_policy :: "access_policy list \<Rightarrow> access_policy" where
  "integration_metadata_policy policies =
     (if list_all (\<lambda>policy. ap_domains policy = [PUBLIC_DOMAIN]) policies then public_policy else admin_policy)"

text \<open>\<open>max_by_key\<close> keeps the last of several greatest elements.\<close>

definition max_by_key :: "('a \<Rightarrow> nat) \<Rightarrow> 'a list \<Rightarrow> 'a option" where
  "max_by_key f xs =
     foldl (\<lambda>best x. case best of None \<Rightarrow> Some x | Some b \<Rightarrow> if f b \<le> f x then Some x else Some b) None xs"

definition starts_with :: "bytes \<Rightarrow> bytes \<Rightarrow> bool" where
  "starts_with p s \<longleftrightarrow> take (length p) s = p"

definition policy_for_path :: "bytes \<Rightarrow> path_policy list \<Rightarrow> access_policy" where
  "policy_for_path path policies =
     (case max_by_key (\<lambda>p. length (pp_prefix p))
         (filter (\<lambda>p. path = pp_prefix p \<or> starts_with (pp_prefix p @ [0x2f]) path) policies) of
        Some p \<Rightarrow> pp_policy p
      | None \<Rightarrow> public_policy)"

definition can_access_conflict :: "actor \<Rightarrow> cli_conflict \<Rightarrow> bool" where
  "can_access_conflict actor conflict \<longleftrightarrow>
     (let file_policies = (if cf_file_policies conflict = [] then [cf_file_policy conflict] else cf_file_policies conflict) in
      can_access actor (cf_line_policy conflict) \<and> can_access actor (cf_change_policy conflict) \<and>
      can_access actor (cf_source_policy conflict) \<and> list_all (can_access actor) file_policies)"

definition can_access_pending_conflict :: "actor \<Rightarrow> pending_conflict \<Rightarrow> bool" where
  "can_access_pending_conflict actor conflict \<longleftrightarrow> list_all (can_access actor) (pc_file_policies conflict)"

definition can_access_merge_inputs :: "actor \<Rightarrow> file_entry list list \<Rightarrow> bool" where
  "can_access_merge_inputs actor file_sets \<longleftrightarrow> list_all (\<lambda>file. can_access actor (fe_policy file)) (concat file_sets)"

definition can_access_merge_sources :: "actor \<Rightarrow> 'git cli_snapshot option list \<Rightarrow> file_entry list list \<Rightarrow> bool" where
  "can_access_merge_sources actor snapshots file_sets \<longleftrightarrow>
     list_all (\<lambda>s. case s of Some s \<Rightarrow> can_access actor (sn_policy s) | None \<Rightarrow> True) snapshots \<and>
     can_access_merge_inputs actor file_sets"

definition merge_source_policy ::
  "access_policy \<Rightarrow> access_policy \<Rightarrow> 'git cli_snapshot \<Rightarrow> 'git cli_snapshot option \<Rightarrow> 'git cli_snapshot option \<Rightarrow> access_policy" where
  "merge_source_policy line_policy change_policy incoming base_snapshot line_snapshot =
     integration_metadata_policy
       [line_policy, change_policy, sn_policy incoming,
        (case base_snapshot of Some s \<Rightarrow> sn_policy s | None \<Rightarrow> line_policy),
        (case line_snapshot of Some s \<Rightarrow> sn_policy s | None \<Rightarrow> line_policy)]"

section \<open>Manifests and what an actor sees of them\<close>

type_synonym manifest = "(bytes \<times> file_entry) list"

definition manifest_map :: "file_entry list \<Rightarrow> manifest" where
  "manifest_map entries = foldl (\<lambda>m entry. bt_insert (fe_path entry) entry m) [] entries"

definition visible_files_with_hidden :: "file_entry list \<Rightarrow> actor \<Rightarrow> file_entry list \<times> nat" where
  "visible_files_with_hidden files actor =
     foldl (\<lambda>(visible, hidden) file.
       if can_access actor (fe_policy file) then (visible @ [file], hidden) else (visible, hidden + 1)) ([], 0) files"

record cli_diff_input =
  cd_visible :: "file_entry list"
  cd_hidden_by_path :: manifest

definition cli_diff_input_of :: "file_entry list \<Rightarrow> actor \<Rightarrow> cli_diff_input" where
  "cli_diff_input_of files actor =
     foldl (\<lambda>d file.
       if can_access actor (fe_policy file) then d\<lparr>cd_visible := cd_visible d @ [file]\<rparr>
       else d\<lparr>cd_hidden_by_path := bt_insert (fe_path file) file (cd_hidden_by_path d)\<rparr>)
     \<lparr>cd_visible = [], cd_hidden_by_path = []\<rparr> files"

definition hidden_changed_paths :: "(bytes \<times> 'v) list \<Rightarrow> (bytes \<times> 'v) list \<Rightarrow> nat" where
  "hidden_changed_paths previous current =
     length (filter (\<lambda>path. map_of previous path \<noteq> map_of current path) (btset (map fst previous @ map fst current)))"

record cli_file_diff =
  df_added :: "bytes list"
  df_modified :: "bytes list"
  df_deleted :: "bytes list"
  df_hidden :: nat

definition diff_path :: "manifest \<Rightarrow> manifest \<Rightarrow> cli_file_diff \<Rightarrow> bytes \<Rightarrow> cli_file_diff" where
  "diff_path previous current acc path =
     (case (map_of previous path, map_of current path) of
        (None, Some _) \<Rightarrow> acc\<lparr>df_added := df_added acc @ [path]\<rparr>
      | (Some _, None) \<Rightarrow> acc\<lparr>df_deleted := df_deleted acc @ [path]\<rparr>
      | (Some before, Some after) \<Rightarrow>
          if before \<noteq> after then acc\<lparr>df_modified := df_modified acc @ [path]\<rparr> else acc
      | (None, None) \<Rightarrow> acc)"

definition diff_files :: "file_entry list \<Rightarrow> file_entry list \<Rightarrow> nat \<Rightarrow> cli_file_diff" where
  "diff_files previous current hidden =
     (let previous_map = manifest_map previous; current_map = manifest_map current in
      foldl (diff_path previous_map current_map)
        \<lparr>df_added = [], df_modified = [], df_deleted = [], df_hidden = hidden\<rparr>
        (btset (map fst previous_map @ map fst current_map)))"

definition permissioned_diff :: "file_entry list \<Rightarrow> file_entry list \<Rightarrow> actor \<Rightarrow> cli_file_diff" where
  "permissioned_diff previous current actor =
     (let previous = cli_diff_input_of previous actor; current = cli_diff_input_of current actor in
      diff_files (cd_visible previous) (cd_visible current)
        (hidden_changed_paths (cd_hidden_by_path previous) (cd_hidden_by_path current)))"

end
