(* ===== verification/Tree_Merge.thy ===== *)
theory Tree_Merge
  imports Access
begin

text \<open>
  The three-way merge of two manifests over their common base, \<open>plan_merge\<close> of \<open>src/main.rs\<close>, and the
  grouping of file/directory conflicts into whole subtrees, \<open>src/tree_conflicts.rs\<close>.
\<close>

section \<open>Per-path merge\<close>

definition same_file :: "file_entry option \<Rightarrow> file_entry option \<Rightarrow> bool" where
  "same_file left right =
     (case (left, right) of
        (None, None) \<Rightarrow> True
      | (Some l, Some r) \<Rightarrow> l = r
      | _ \<Rightarrow> False)"

definition conflict_kind_for_entries ::
  "file_entry option \<Rightarrow> file_entry option \<Rightarrow> file_entry option \<Rightarrow> tree_conflict_kind" where
  "conflict_kind_for_entries base line incoming =
     (case (base, line, incoming) of
        (None, Some _, Some _) \<Rightarrow> AddAddFile
      | (Some _, None, Some _) \<Rightarrow> DeleteModifyFile
      | (Some _, Some _, None) \<Rightarrow> DeleteModifyFile
      | _ \<Rightarrow> BothModifiedFile)"

definition flatten_options :: "'a option list \<Rightarrow> 'a list" where
  "flatten_options xs = List.map_filter id xs"

definition combined_policy ::
  "file_entry option \<Rightarrow> file_entry option \<Rightarrow> file_entry option \<Rightarrow> access_policy" where
  "combined_policy primary secondary fallback =
     (let domains = btset (concat (map (ap_domains \<circ> fe_policy) (flatten_options [primary, secondary, fallback]))) in
      if domains = [] then public_policy
      else \<lparr>ap_domains = domains, ap_redaction = RedactPlaceholder\<rparr>)"

text \<open>A policy is pushed unless the vector contains it.\<close>

definition push_policy_once :: "access_policy list \<Rightarrow> access_policy \<Rightarrow> access_policy list" where
  "push_policy_once policies p = (if p \<in> set policies then policies else policies @ [p])"

definition present_file_policies ::
  "file_entry option \<Rightarrow> file_entry option \<Rightarrow> file_entry option \<Rightarrow> access_policy list" where
  "present_file_policies primary secondary fallback =
     foldl push_policy_once [] (map fe_policy (flatten_options [primary, secondary, fallback]))"

definition push_file :: "tree_plan \<Rightarrow> file_entry option \<Rightarrow> tree_plan" where
  "push_file plan entry =
     (case entry of Some file \<Rightarrow> plan\<lparr>tp_merged_files := tp_merged_files plan @ [file]\<rparr> | None \<Rightarrow> plan)"

definition merge_path :: "manifest \<Rightarrow> manifest \<Rightarrow> manifest \<Rightarrow> tree_plan \<Rightarrow> bytes \<Rightarrow> tree_plan" where
  "merge_path base line incoming plan path =
     (let base_entry = map_of base path; line_entry = map_of line path; incoming_entry = map_of incoming path in
      if same_file line_entry incoming_entry then push_file plan line_entry
      else
        let line_changed = \<not> same_file base_entry line_entry;
            incoming_changed = \<not> same_file base_entry incoming_entry
        in case (line_changed, incoming_changed) of
             (False, True) \<Rightarrow> push_file plan incoming_entry
           | (True, False) \<Rightarrow> push_file plan line_entry
           | (False, False) \<Rightarrow> push_file plan base_entry
           | (True, True) \<Rightarrow>
               plan\<lparr>tp_conflicts := tp_conflicts plan @
                 [\<lparr>pc_path = path, pc_kind = conflict_kind_for_entries base_entry line_entry incoming_entry,
                   pc_policy = combined_policy line_entry incoming_entry base_entry,
                   pc_file_policies = present_file_policies line_entry incoming_entry base_entry\<rparr>]\<rparr>)"

section \<open>tree\_conflicts.rs\<close>

definition contains :: "bytes \<Rightarrow> bytes \<Rightarrow> bool" where
  "contains root path \<longleftrightarrow>
     path = root \<or> (case strip_prefix root path of Some rest \<Rightarrow> starts_with [0x2f] rest | None \<Rightarrow> False)"

text \<open>\<open>path.match_indices('/')\<close> gives the positions of the slashes from the left.\<close>

definition slash_ancestors :: "bytes \<Rightarrow> bytes list" where
  "slash_ancestors path = map (\<lambda>i. take i path) (filter (\<lambda>i. path ! i = 0x2f) [0..<length path])"

definition plan_paths :: "tree_plan \<Rightarrow> bytes list" where
  "plan_paths plan = btset (map fe_path (tp_merged_files plan) @ map pc_path (tp_conflicts plan))"

definition group_roots :: "bytes list \<Rightarrow> bytes list" where
  "group_roots paths = btset (List.map_filter (\<lambda>path. find (\<lambda>a. a \<in> set paths) (slash_ancestors path)) paths)"

definition group_root :: "manifest list \<Rightarrow> tree_plan \<Rightarrow> bytes \<Rightarrow> tree_plan" where
  "group_root sources plan root =
     (let policies = foldl push_policy_once []
            (map fe_policy (filter (\<lambda>file. contains root (fe_path file)) (concat (map (map snd) sources))));
          domains = btset (concat (map ap_domains policies))
      in \<lparr>tp_merged_files = filter (\<lambda>file. \<not> contains root (fe_path file)) (tp_merged_files plan),
          tp_conflicts = filter (\<lambda>c. \<not> contains root (pc_path c)) (tp_conflicts plan) @
            [\<lparr>pc_path = root, pc_kind = FileDirectory,
              pc_policy = \<lparr>ap_domains = domains, ap_redaction = RedactPlaceholder\<rparr>, pc_file_policies = policies\<rparr>]\<rparr>)"

definition group :: "tree_plan \<Rightarrow> manifest list \<Rightarrow> tree_plan" where
  "group plan sources =
     (let plan = foldl (group_root sources) plan (group_roots (plan_paths plan))
      in plan\<lparr>tp_conflicts := sort_key pc_path (tp_conflicts plan)\<rparr>)"

section \<open>The plan\<close>

definition plan_merge :: "file_entry list \<Rightarrow> file_entry list \<Rightarrow> file_entry list \<Rightarrow> tree_plan" where
  "plan_merge base line incoming =
     (let base = manifest_map base; line = manifest_map line; incoming = manifest_map incoming;
          plan = foldl (merge_path base line incoming) \<lparr>tp_merged_files = [], tp_conflicts = []\<rparr>
            (btset (map fst base @ map fst line @ map fst incoming));
          plan = plan\<lparr>tp_merged_files := sort_key fe_path (tp_merged_files plan)\<rparr>
      in group plan [base, line, incoming])"

end
