(* ===== verification/Text_Merge.thy ===== *)
theory Text_Merge
  imports Tree_Merge "HOL-Library.Product_Lexorder"
begin

text \<open>
  Line-based text merging, \<open>src/text_merge.rs\<close>. The diff of the \<open>similar\<close> crate is a parameter: the
  operations it gives for two texts and the lines it splits a text into. A text is its UTF-8 bytes.
  A result \<open>None\<close> of \<open>text_merge\<close> is a slice out of range; \<open>Some None\<close> is the conflict the code reports.
\<close>

definition FILE_LIMIT :: nat where
  "FILE_LIMIT = 1048576"

definition TOTAL_LIMIT :: nat where
  "TOTAL_LIMIT = 64 * 1048576"

section \<open>The diff crate\<close>

datatype diff_tag = TagEqual | TagDelete | TagInsert | TagReplace

record diff_op =
  do_tag :: diff_tag
  do_old :: "nat \<times> nat"
  do_new :: "nat \<times> nat"

record text_differ =
  diff_ops :: "bytes \<Rightarrow> bytes \<Rightarrow> diff_op list"
  tokenize_lines :: "bytes \<Rightarrow> bytes list"

section \<open>Edits\<close>

record edit =
  ed_start :: nat
  ed_end :: nat
  ed_replacement :: bytes

text \<open>A slice \<open>xs[a..b]\<close>.\<close>

definition slice :: "'a list \<Rightarrow> nat \<Rightarrow> nat \<Rightarrow> 'a list option" where
  "slice xs a b = (if a \<le> b \<and> b \<le> length xs then Some (take (b - a) (drop a xs)) else None)"

definition op_edit :: "bytes list \<Rightarrow> diff_op \<Rightarrow> edit option" where
  "op_edit new_slices op =
     map_option (\<lambda>s. \<lparr>ed_start = fst (do_old op), ed_end = snd (do_old op), ed_replacement = concat s\<rparr>)
       (slice new_slices (fst (do_new op)) (snd (do_new op)))"

definition edits :: "text_differ \<Rightarrow> bytes \<Rightarrow> bytes \<Rightarrow> edit list option" where
  "edits T base side =
     opt_all (map (op_edit (tokenize_lines T side)) (filter (\<lambda>op. do_tag op \<noteq> TagEqual) (diff_ops T base side)))"

section \<open>The merge\<close>

definition edit_key :: "edit \<Rightarrow> nat \<times> nat \<times> bytes" where
  "edit_key e = (ed_start e, ed_end e, ed_replacement e)"

definition merged_edits :: "edit list \<Rightarrow> edit list \<Rightarrow> edit list" where
  "merged_edits line incoming = remdups_adj (sort_key edit_key (line @ incoming))"

definition edits_clash :: "edit \<Rightarrow> edit \<Rightarrow> bool" where
  "edits_clash a b \<longleftrightarrow>
     ed_end a > ed_start b \<or> (ed_end a = ed_start b \<and> (ed_start a = ed_end a \<or> ed_start b = ed_end b))"

fun windows_clash :: "edit list \<Rightarrow> bool" where
  "windows_clash (a # b # es) \<longleftrightarrow> edits_clash a b \<or> windows_clash (b # es)"
| "windows_clash _ \<longleftrightarrow> False"

text \<open>The loop that copies the base between the edits.\<close>

fun apply_edits :: "bytes list \<Rightarrow> nat \<Rightarrow> bytes \<Rightarrow> edit list \<Rightarrow> bytes option" where
  "apply_edits lines cursor result [] =
     map_option (\<lambda>rest. result @ concat rest) (slice lines cursor (length lines))"
| "apply_edits lines cursor result (change # changes) =
     Option.bind (slice lines cursor (ed_start change)) (\<lambda>kept.
       apply_edits lines (ed_end change) (result @ concat kept @ ed_replacement change) changes)"

definition text_merge :: "text_differ \<Rightarrow> bytes \<Rightarrow> bytes \<Rightarrow> bytes \<Rightarrow> bytes option option" where
  "text_merge T base line incoming =
     (case (edits T base line, edits T base incoming) of
        (Some ls, Some is) \<Rightarrow>
          (let changes = merged_edits ls is in
           if windows_clash changes then Some None
           else map_option (\<lambda>result. if length result \<le> FILE_LIMIT then Some result else None)
                  (apply_edits (tokenize_lines T base) 0 [] changes))
      | _ \<Rightarrow> None)"

section \<open>Merging the conflicts of a plan\<close>

text \<open>
  \<open>char::is_control\<close> holds of U+0000 to U+001F and of U+007F to U+009F; the latter, above U+007F, are
  encoded with the lead byte \<open>0xC2\<close>. In valid UTF-8 these bytes occur in no other character.
\<close>

fun has_control :: "bytes \<Rightarrow> bool" where
  "has_control [] \<longleftrightarrow> False"
| "has_control (b # bs) \<longleftrightarrow>
     (b < 0x20 \<or> b = 0x7F) \<and> b \<noteq> 0x0A \<and> b \<noteq> 0x0D \<and> b \<noteq> 0x09 \<or>
     b = 0xC2 \<and> (case bs of c # _ \<Rightarrow> 0x80 \<le> c \<and> c \<le> 0x9F | [] \<Rightarrow> False) \<or>
     has_control bs"

datatype 'e text_error = OpenBlob 'e | SourceVerification | GeneratedVerification | ExistingBlob | VerifyManifest 'e

definition read_text ::
  "(bytes \<Rightarrow> (bytes, 'e) result) \<Rightarrow> (bytes \<Rightarrow> bytes) \<Rightarrow> file_entry \<Rightarrow> (bytes option, 'e text_error) result" where
  "read_text open_blob hash_bytes file =
     and_then (map_err OpenBlob (open_blob (fe_hash file))) (\<lambda>content.
       let bytes = take (FILE_LIMIT + 1) content in
       if of_nat (length bytes) \<noteq> fe_bytes file \<or> hash_bytes bytes \<noteq> fe_hash file then Inl SourceVerification
       else Inr (if utf8_valid bytes \<and> \<not> has_control bytes then Some bytes else None))"

record apply_state =
  as_generated :: "(bytes \<times> bytes) list"
  as_total :: nat
  as_unresolved :: "pending_conflict list"
  as_merged :: "file_entry list"

definition eligible :: "pending_conflict \<Rightarrow> file_entry list \<Rightarrow> nat \<Rightarrow> bool" where
  "eligible pending sides used \<longleftrightarrow>
     pc_kind pending = BothModifiedFile \<and> length sides = 3 \<and>
     list_all (\<lambda>file. \<not> fe_symlink file \<and> unat (fe_bytes file) \<le> FILE_LIMIT \<and>
       flags file = flags (sides ! 0) \<and> fe_policy file = fe_policy (sides ! 0)) sides \<and>
     used + FILE_LIMIT \<le> TOTAL_LIMIT"

definition merge_texts :: "text_differ \<Rightarrow> bytes option list \<Rightarrow> bytes option option" where
  "merge_texts T texts =
     (case (texts ! 0, texts ! 1, texts ! 2) of
        (Some base, Some line, Some incoming) \<Rightarrow> text_merge T base line incoming
      | _ \<Rightarrow> Some None)"

definition apply_pending ::
  "text_differ \<Rightarrow> (bytes \<Rightarrow> (bytes, 'e) result) \<Rightarrow> (bytes \<Rightarrow> bytes) \<Rightarrow> manifest list \<Rightarrow> apply_state
    \<Rightarrow> pending_conflict \<Rightarrow> (apply_state, 'e text_error) result option" where
  "apply_pending T open_blob hash_bytes maps s pending =
     (let sides = List.map_filter (\<lambda>m. map_of m (pc_path pending)) maps;
          keep = Some (Inr (s\<lparr>as_unresolved := as_unresolved s @ [pending]\<rparr>)) in
      if \<not> eligible pending sides (as_total s) then keep
      else case collect_results (map (read_text open_blob hash_bytes) sides) of
        Inl e \<Rightarrow> Some (Inl e)
      | Inr texts \<Rightarrow>
          (case merge_texts T texts of
             None \<Rightarrow> None
           | Some None \<Rightarrow> keep
           | Some (Some bytes) \<Rightarrow>
               (let file = (sides ! 0)\<lparr>fe_hash := hash_bytes bytes, fe_bytes := of_nat (length bytes)\<rparr> in
                Some (Inr (s\<lparr>as_total := as_total s + length bytes,
                  as_generated := bt_insert (fe_hash file) bytes (as_generated s),
                  as_merged := as_merged s @ [file]\<rparr>)))))"

primrec apply_all ::
  "(apply_state \<Rightarrow> pending_conflict \<Rightarrow> (apply_state, 'e text_error) result option) \<Rightarrow> apply_state
    \<Rightarrow> pending_conflict list \<Rightarrow> (apply_state, 'e text_error) result option" where
  "apply_all f s [] = Some (Inr s)"
| "apply_all f s (p # ps) =
     (case f s p of None \<Rightarrow> None | Some (Inl e) \<Rightarrow> Some (Inl e) | Some (Inr s) \<Rightarrow> apply_all f s ps)"

definition optional_snapshot_files :: "'git cli_snapshot option \<Rightarrow> file_entry list" where
  "optional_snapshot_files snapshot = (case snapshot of Some s \<Rightarrow> sn_files s | None \<Rightarrow> [])"

text \<open>\<open>apply\<close>: the plan with the conflicts it could merge moved to the files, and the generated contents.\<close>

definition apply_texts ::
  "text_differ \<Rightarrow> (bytes \<Rightarrow> (bytes, 'e) result) \<Rightarrow> (bytes \<Rightarrow> bytes) \<Rightarrow> tree_plan
    \<Rightarrow> 'git cli_snapshot option \<Rightarrow> 'git cli_snapshot option \<Rightarrow> 'git cli_snapshot
    \<Rightarrow> (tree_plan \<times> (bytes \<times> bytes) list, 'e text_error) result option" where
  "apply_texts T open_blob hash_bytes plan base line incoming =
     (let maps = map (manifest_map \<circ> optional_snapshot_files) [base, line, Some incoming] in
      map_option (map_sum id (\<lambda>s.
          (\<lparr>tp_merged_files = sort_key fe_path (as_merged s), tp_conflicts = as_unresolved s\<rparr>, as_generated s)))
        (apply_all (apply_pending T open_blob hash_bytes maps)
          \<lparr>as_generated = [], as_total = 0, as_unresolved = [], as_merged = tp_merged_files plan\<rparr>
          (tp_conflicts plan)))"

text \<open>\<open>verify\<close> before publication; the checks of paths and stored files are parameters.\<close>

definition verify_generated ::
  "(file_entry list \<Rightarrow> (unit, 'e) result) \<Rightarrow> (file_entry \<Rightarrow> (unit, 'e) result) \<Rightarrow> (bytes \<Rightarrow> bytes) \<Rightarrow> tree_plan
    \<Rightarrow> (bytes \<times> bytes) list \<Rightarrow> (unit, 'e text_error) result" where
  "verify_generated verify_manifest_paths verify_file hash_bytes plan generated =
     and_then (map_err VerifyManifest (verify_manifest_paths (tp_merged_files plan))) (\<lambda>_.
       all_ok (map (\<lambda>file.
         case map_of generated (fe_hash file) of
           Some bytes \<Rightarrow>
             if fe_symlink file \<or> of_nat (length bytes) \<noteq> fe_bytes file \<or> hash_bytes bytes \<noteq> fe_hash file
             then Inl GeneratedVerification else Inr ()
         | None \<Rightarrow> map_err VerifyManifest (verify_file file)) (tp_merged_files plan)))"

text \<open>
  \<open>publish\<close> over the blobs stored by name: an existing blob must hold the same bytes. What was published
  before an error stays.
\<close>

fun publish_generated ::
  "(bytes \<times> bytes) list \<Rightarrow> (bytes \<times> bytes) list \<Rightarrow> (bytes \<times> bytes) list \<times> (unit, 'e text_error) result" where
  "publish_generated blobs [] = (blobs, Inr ())"
| "publish_generated blobs ((hash, bytes) # generated) =
     (case map_of blobs hash of
        Some stored \<Rightarrow>
          if take (FILE_LIMIT + 1) stored \<noteq> bytes then (blobs, Inl ExistingBlob) else publish_generated blobs generated
      | None \<Rightarrow> publish_generated (bt_insert hash bytes blobs) generated)"

end
