(* ===== verification/Tree_Merge_Spec.thy ===== *)
theory Tree_Merge_Spec
  imports Tree_Merge "HOL-Library.Sublist"
begin

text \<open>
  Correctness of the manifest merge: it agrees path by path with the three-way rule, groups exactly
  the subtrees in which a file and a directory meet, never emits two outputs of which one lies
  inside the other, and a conflict is shown only to those who may see all its sources.
\<close>

section \<open>Containment of paths\<close>

lemma contains_iff: "contains a q \<longleftrightarrow> q = a \<or> (\<exists>t. q = a @ 0x2f # t)"
proof -
  have "(case strip_prefix a q of Some rest \<Rightarrow> starts_with [0x2f] rest | None \<Rightarrow> False) \<longleftrightarrow> (\<exists>t. q = a @ 0x2f # t)"
  proof
    assume "case strip_prefix a q of Some rest \<Rightarrow> starts_with [0x2f] rest | None \<Rightarrow> False"
    then obtain r where "q = a @ r" "starts_with [0x2f] r" by (auto simp: strip_prefix_Some split: option.splits)
    then show "\<exists>t. q = a @ 0x2f # t" by (cases r) (auto simp: starts_with_def)
  next
    assume "\<exists>t. q = a @ 0x2f # t"
    then obtain t where "strip_prefix a q = Some (0x2f # t)" by (auto simp: strip_prefix_Some)
    then show "case strip_prefix a q of Some rest \<Rightarrow> starts_with [0x2f] rest | None \<Rightarrow> False"
      by (simp add: starts_with_def)
  qed
  then show ?thesis by (auto simp: contains_def)
qed

lemma contains_refl [simp]: "contains a a"
  by (simp add: contains_iff)

lemma contains_trans: "contains a b \<Longrightarrow> contains b c \<Longrightarrow> contains a c"
  by (auto simp: contains_iff)

lemma contains_antisym: "contains a b \<Longrightarrow> contains b a \<Longrightarrow> a = b"
  by (auto simp: contains_iff)

lemma contains_prefix: "contains a b \<Longrightarrow> a \<noteq> b \<Longrightarrow> length a < length b"
  by (auto simp: contains_iff)

text \<open>Two paths around a third are nested.\<close>

lemma contains_linear:
  assumes "contains a q" "contains b q" "length a \<le> length b"
  shows "contains a b"
proof (cases "a = b")
  case False
  have "prefix a q" using assms(1) by (auto simp: contains_iff)
  moreover have "prefix b q" using assms(2) by (auto simp: contains_iff)
  ultimately obtain t where t: "b = a @ t" using assms(3) by (metis prefixE prefix_length_prefix)
  with False have "t \<noteq> []" by simp
  moreover have "q \<noteq> a" using assms(2) t \<open>t \<noteq> []\<close> by (auto simp: contains_iff)
  ultimately have "hd t = 0x2f" using assms(1,2) t by (cases t) (auto simp: contains_iff)
  with \<open>t \<noteq> []\<close> t show ?thesis by (cases t) (auto simp: contains_iff)
qed simp

lemma slash_ancestors_iff: "a \<in> set (slash_ancestors q) \<longleftrightarrow> contains a q \<and> a \<noteq> q"
proof
  assume "a \<in> set (slash_ancestors q)"
  then obtain i where i: "i < length q" "q ! i = 0x2f" "a = take i q" by (auto simp: slash_ancestors_def)
  then have "q = a @ 0x2f # drop (Suc i) q" by (metis id_take_nth_drop)
  then show "contains a q \<and> a \<noteq> q" using i by (auto simp: contains_iff)
next
  assume "contains a q \<and> a \<noteq> q"
  then obtain t where "q = a @ 0x2f # t" by (auto simp: contains_iff)
  then show "a \<in> set (slash_ancestors q)"
    by (auto simp: slash_ancestors_def nth_append intro!: image_eqI [of _ _ "length a"])
qed

lemma slash_ancestors_sorted: "sorted_wrt (\<lambda>a b. length a < length b) (slash_ancestors q)"
proof -
  have "sorted_wrt (<) (filter (\<lambda>i. q ! i = 0x2f) [0..<length q])" by (simp add: sorted_wrt_filter)
  then show ?thesis unfolding slash_ancestors_def sorted_wrt_map
    by (rule sorted_wrt_mono_rel [rotated]) auto
qed

lemma find_sorted:
  assumes "sorted_wrt (\<lambda>a b. f a < (f b :: nat)) xs" "find P xs = Some x" "y \<in> set xs" "P y"
  shows "f x \<le> f y"
  using assms by (induction xs) (auto split: if_splits)

lemma find_first_ancestor:
  "find (\<lambda>a. a \<in> S) (slash_ancestors q) = Some r \<longleftrightarrow>
    r \<in> S \<and> contains r q \<and> r \<noteq> q \<and> (\<forall>a \<in> S. contains a q \<longrightarrow> a \<noteq> q \<longrightarrow> contains r a)"
  (is "?f = Some r \<longleftrightarrow> ?R r")
proof
  assume f: "?f = Some r"
  then have r: "r \<in> S" "r \<in> set (slash_ancestors q)" by (auto simp: find_Some_iff)
  moreover have "contains r a" if "a \<in> S" "contains a q" "a \<noteq> q" for a
    using find_sorted [OF slash_ancestors_sorted f, of a] that r contains_linear [of r q a]
    by (auto simp: slash_ancestors_iff)
  ultimately show "?R r" by (auto simp: slash_ancestors_iff)
next
  assume R: "?R r"
  then have "\<exists>x \<in> set (slash_ancestors q). x \<in> S" by (auto simp: slash_ancestors_iff)
  then obtain r' where f: "?f = Some r'" by (metis find_None_iff option.exhaust)
  then have r': "r' \<in> S" "r' \<in> set (slash_ancestors q)" by (auto simp: find_Some_iff)
  then have "length r' \<le> length r"
    using find_sorted [OF slash_ancestors_sorted f, of r] R by (auto simp: slash_ancestors_iff)
  moreover have "contains r r'" using R r' by (auto simp: slash_ancestors_iff)
  ultimately have "r' = r" using contains_prefix by force
  with f show "?f = Some r" by simp
qed

section \<open>Grouping\<close>

text \<open>The topmost paths that have another path below them.\<close>

definition clash_roots :: "bytes set \<Rightarrow> bytes set" where
  "clash_roots P = {r \<in> P. (\<exists>q \<in> P. contains r q \<and> r \<noteq> q) \<and> (\<forall>a \<in> P. contains a r \<longrightarrow> a = r)}"

lemma set_map_filter: "set (List.map_filter f xs) = {y. \<exists>x \<in> set xs. f x = Some y}"
  by (induction xs) (auto simp: map_filter_simps split: option.splits)

lemma set_group_roots: "set (group_roots paths) = clash_roots (set paths)"
proof -
  have "r \<in> set (group_roots paths) \<longleftrightarrow> (\<exists>q \<in> set paths. find (\<lambda>a. a \<in> set paths) (slash_ancestors q) = Some r)" for r
    by (simp add: group_roots_def set_map_filter)
  moreover have "(\<exists>q \<in> P. r \<in> P \<and> contains r q \<and> r \<noteq> q \<and> (\<forall>a \<in> P. contains a q \<longrightarrow> a \<noteq> q \<longrightarrow> contains r a)) \<longleftrightarrow>
      r \<in> clash_roots P" for r P
  proof
    assume "\<exists>q \<in> P. r \<in> P \<and> contains r q \<and> r \<noteq> q \<and> (\<forall>a \<in> P. contains a q \<longrightarrow> a \<noteq> q \<longrightarrow> contains r a)"
    then obtain q where q: "q \<in> P" "r \<in> P" "contains r q" "r \<noteq> q"
        "\<forall>a \<in> P. contains a q \<longrightarrow> a \<noteq> q \<longrightarrow> contains r a" by blast
    have "a = r" if "a \<in> P" "contains a r" for a
      using that q contains_trans [OF that(2) q(3)] contains_antisym by blast
    with q show "r \<in> clash_roots P" by (auto simp: clash_roots_def)
  next
    assume "r \<in> clash_roots P"
    then obtain q where q: "r \<in> P" "q \<in> P" "contains r q" "r \<noteq> q" "\<forall>a \<in> P. contains a r \<longrightarrow> a = r"
      by (auto simp: clash_roots_def)
    have "contains r a" if "a \<in> P" "contains a q" for a
      using contains_linear [OF q(3) that(2)] contains_linear [OF that(2) q(3)] q(5) that(1) by fastforce
    with q show "\<exists>q \<in> P. r \<in> P \<and> contains r q \<and> r \<noteq> q \<and> (\<forall>a \<in> P. contains a q \<longrightarrow> a \<noteq> q \<longrightarrow> contains r a)" by blast
  qed
  ultimately show ?thesis by (auto simp: find_first_ancestor)
qed

lemma clash_roots_disjoint: "r \<in> clash_roots P \<Longrightarrow> s \<in> clash_roots P \<Longrightarrow> contains r s \<Longrightarrow> r = s"
  by (auto simp: clash_roots_def)

lemma contains_topmost:
  assumes "finite P" "a \<in> P" "b \<in> P" "contains a b" "a \<noteq> b"
  shows "\<exists>r \<in> clash_roots P. contains r a"
proof -
  let ?A = "{r \<in> P. contains r a}"
  obtain r where r: "r \<in> ?A" "\<forall>s \<in> ?A. length r \<le> length s"
    using ex_min_if_finite [of "length ` ?A"] assms(1,2) arg_min_if_finite(1) [of ?A length]
      arg_min_least [of ?A _ length] by (metis (no_types, lifting) contains_refl empty_iff finite_subset mem_Collect_eq subsetI)
  have "s = r" if "s \<in> P" "contains s r" for s
    using that r contains_trans [of s r a] contains_prefix [of s r] by force
  moreover have "r \<noteq> b" using r assms(4,5) contains_antisym by blast
  ultimately have "r \<in> clash_roots P" using r assms contains_trans [of r a b] by (auto simp: clash_roots_def)
  with r show ?thesis by blast
qed

section \<open>Manifests\<close>

definition keyed_manifest :: "manifest \<Rightarrow> bool" where
  "keyed_manifest m \<longleftrightarrow> bt_wf m \<and> (\<forall>p f. map_of m p = Some f \<longrightarrow> fe_path f = p)"

lemma keyed_insert: "keyed_manifest m \<Longrightarrow> keyed_manifest (bt_insert (fe_path e) e m)"
  unfolding keyed_manifest_def by simp

lemma keyed_manifest_map: "keyed_manifest (manifest_map es)"
proof -
  have "keyed_manifest m \<Longrightarrow> keyed_manifest (foldl (\<lambda>m entry. bt_insert (fe_path entry) entry m) m es)" for m
    by (induction es arbitrary: m) (simp_all add: keyed_insert)
  from this [of "[]"] show ?thesis unfolding manifest_map_def by (simp add: keyed_manifest_def [of "[]"])
qed

lemma manifest_values: "keyed_manifest m \<Longrightarrow> f \<in> set (map snd m) \<longleftrightarrow> map_of m (fe_path f) = Some f"
proof -
  assume k: "keyed_manifest m"
  have lk: "map_of m p = Some f \<longleftrightarrow> (p, f) \<in> set m" for p f
    using k by (intro map_of_eq_Some_iff bt_wf_distinct) (simp add: keyed_manifest_def)
  have "f \<in> set (map snd m) \<longleftrightarrow> (\<exists>p. map_of m p = Some f)" unfolding lk by force
  then show ?thesis using k by (auto simp: keyed_manifest_def)
qed

section \<open>The three-way rule\<close>

text \<open>\<open>Inr\<close> is what the merge leaves at a path, \<open>Inl\<close> a conflict.\<close>

definition three_way :: "'f option \<Rightarrow> 'f option \<Rightarrow> 'f option \<Rightarrow> (unit, 'f option) sum" where
  "three_way b l i = (if l = i then Inr l else if b = l then Inr i else if b = i then Inr l else Inl ())"

lemma same_file_eq: "same_file x y \<longleftrightarrow> x = y"
  by (cases x; cases y) (auto simp: same_file_def)

definition rule_at :: "manifest \<Rightarrow> manifest \<Rightarrow> manifest \<Rightarrow> bytes \<Rightarrow> (unit, file_entry option) sum" where
  "rule_at B L I p = three_way (map_of B p) (map_of L p) (map_of I p)"

definition file_conflict :: "manifest \<Rightarrow> manifest \<Rightarrow> manifest \<Rightarrow> bytes \<Rightarrow> pending_conflict" where
  "file_conflict B L I p =
     \<lparr>pc_path = p, pc_kind = conflict_kind_for_entries (map_of B p) (map_of L p) (map_of I p),
      pc_policy = combined_policy (map_of L p) (map_of I p) (map_of B p),
      pc_file_policies = present_file_policies (map_of L p) (map_of I p) (map_of B p)\<rparr>"

definition merged_at :: "manifest \<Rightarrow> manifest \<Rightarrow> manifest \<Rightarrow> bytes \<Rightarrow> file_entry option" where
  "merged_at B L I p = (case rule_at B L I p of Inr f \<Rightarrow> f | Inl _ \<Rightarrow> None)"

definition conflict_at :: "manifest \<Rightarrow> manifest \<Rightarrow> manifest \<Rightarrow> bytes \<Rightarrow> pending_conflict option" where
  "conflict_at B L I p = (case rule_at B L I p of Inl _ \<Rightarrow> Some (file_conflict B L I p) | Inr _ \<Rightarrow> None)"

lemma merge_path_eq:
  "merge_path B L I plan p =
     \<lparr>tp_merged_files = tp_merged_files plan @ (case merged_at B L I p of Some f \<Rightarrow> [f] | None \<Rightarrow> []),
      tp_conflicts = tp_conflicts plan @ (case conflict_at B L I p of Some c \<Rightarrow> [c] | None \<Rightarrow> [])\<rparr>"
  by (auto simp: merge_path_def same_file_eq push_file_def merged_at_def conflict_at_def rule_at_def three_way_def
      file_conflict_def Let_def split: option.splits)

lemma merge_paths_eq:
  "foldl (merge_path B L I) plan ps =
     \<lparr>tp_merged_files = tp_merged_files plan @ List.map_filter (merged_at B L I) ps,
      tp_conflicts = tp_conflicts plan @ List.map_filter (conflict_at B L I) ps\<rparr>"
proof (induction ps arbitrary: plan)
  case Nil
  then show ?case by (simp add: map_filter_simps)
next
  case (Cons p ps)
  then show ?case by (simp add: merge_path_eq map_filter_simps split: option.splits)
qed

definition all_paths :: "manifest \<Rightarrow> manifest \<Rightarrow> manifest \<Rightarrow> bytes list" where
  "all_paths B L I = btset (map fst B @ map fst L @ map fst I)"

lemma set_all_paths: "set (all_paths B L I) = dom (map_of B) \<union> dom (map_of L) \<union> dom (map_of I)"
  by (auto simp: all_paths_def dom_map_of_conv_image_fst)

lemma rule_outside: "p \<notin> set (all_paths B L I) \<Longrightarrow> rule_at B L I p = Inr None"
  by (auto simp: set_all_paths domIff rule_at_def three_way_def)

lemma merged_at_path:
  "keyed_manifest B \<Longrightarrow> keyed_manifest L \<Longrightarrow> keyed_manifest I \<Longrightarrow> merged_at B L I p = Some f \<Longrightarrow> fe_path f = p"
  by (auto simp: merged_at_def rule_at_def three_way_def keyed_manifest_def split: if_splits)

lemma conflict_at_path: "conflict_at B L I p = Some c \<Longrightarrow> pc_path c = p"
  by (auto simp: conflict_at_def file_conflict_def split: sum.splits)

lemma map_filter_key:
  assumes "\<And>x y. f x = Some y \<Longrightarrow> g y = x"
  shows "map g (List.map_filter f xs) = filter (\<lambda>x. f x \<noteq> None) xs"
  using assms by (induction xs) (auto simp: map_filter_simps split: option.splits)

text \<open>The plan before grouping, and the paths it mentions.\<close>

definition plain_plan :: "manifest \<Rightarrow> manifest \<Rightarrow> manifest \<Rightarrow> tree_plan" where
  "plain_plan B L I = \<lparr>tp_merged_files = List.map_filter (merged_at B L I) (all_paths B L I),
     tp_conflicts = List.map_filter (conflict_at B L I) (all_paths B L I)\<rparr>"

definition live :: "manifest \<Rightarrow> manifest \<Rightarrow> manifest \<Rightarrow> bytes set" where
  "live B L I = {p. rule_at B L I p \<noteq> Inr None}"

lemma live_subset: "live B L I \<subseteq> set (all_paths B L I)"
  using rule_outside by (auto simp: live_def)

lemma plain_paths:
  assumes "keyed_manifest B" "keyed_manifest L" "keyed_manifest I"
  shows "map fe_path (tp_merged_files (plain_plan B L I)) = filter (\<lambda>p. merged_at B L I p \<noteq> None) (all_paths B L I)"
    and "map pc_path (tp_conflicts (plain_plan B L I)) = filter (\<lambda>p. conflict_at B L I p \<noteq> None) (all_paths B L I)"
  unfolding plain_plan_def using merged_at_path [OF assms] conflict_at_path
  by (simp_all add: map_filter_key del: not_None_eq)

lemma live_cases: "p \<in> live B L I \<longleftrightarrow> merged_at B L I p \<noteq> None \<or> conflict_at B L I p \<noteq> None"
  by (auto simp: live_def merged_at_def conflict_at_def split: sum.splits)

lemma set_plan_paths:
  assumes "keyed_manifest B" "keyed_manifest L" "keyed_manifest I"
  shows "set (plan_paths (plain_plan B L I)) = live B L I"
  using live_subset [of B L I] unfolding plan_paths_def set_btset set_append plain_paths [OF assms]
  by (auto simp: live_cases)

lemma plan_merge_group:
  fixes b l i
  defines "B \<equiv> manifest_map b" and "L \<equiv> manifest_map l" and "I \<equiv> manifest_map i"
  shows "plan_merge b l i = group (plain_plan B L I) [B, L, I]"
proof -
  have k: "keyed_manifest B" "keyed_manifest L" "keyed_manifest I"
    unfolding B_def L_def I_def by (rule keyed_manifest_map)+
  have "sorted (map fe_path (tp_merged_files (plain_plan B L I)))"
    unfolding plain_paths [OF k] by (simp add: all_paths_def sorted_wrt_filter)
  then have "sort_key fe_path (tp_merged_files (plain_plan B L I)) = tp_merged_files (plain_plan B L I)"
    by (rule sort_key_id_if_sorted)
  then show ?thesis
    by (simp add: plan_merge_def merge_paths_eq plain_plan_def all_paths_def B_def L_def I_def Let_def)
qed

text \<open>The conflict that stands for a whole subtree.\<close>

definition tree_policies :: "manifest list \<Rightarrow> bytes \<Rightarrow> access_policy list" where
  "tree_policies sources root = foldl push_policy_once []
     (map fe_policy (filter (\<lambda>file. contains root (fe_path file)) (concat (map (map snd) sources))))"

definition tree_conflict :: "manifest list \<Rightarrow> bytes \<Rightarrow> pending_conflict" where
  "tree_conflict sources root =
     \<lparr>pc_path = root, pc_kind = FileDirectory,
      pc_policy = \<lparr>ap_domains = btset (concat (map ap_domains (tree_policies sources root))), ap_redaction = RedactPlaceholder\<rparr>,
      pc_file_policies = tree_policies sources root\<rparr>"

definition grouped :: "bytes list \<Rightarrow> bytes \<Rightarrow> bool" where
  "grouped roots p \<longleftrightarrow> (\<exists>r \<in> set roots. contains r p)"

lemma group_root_eq:
  "group_root S plan r =
     \<lparr>tp_merged_files = filter (\<lambda>f. \<not> contains r (fe_path f)) (tp_merged_files plan),
      tp_conflicts = filter (\<lambda>c. \<not> contains r (pc_path c)) (tp_conflicts plan) @ [tree_conflict S r]\<rparr>"
  by (simp add: group_root_def tree_conflict_def tree_policies_def Let_def)

lemma group_roots_fold:
  assumes "distinct rs" "\<forall>r \<in> set rs. \<forall>s \<in> set rs. contains r s \<longrightarrow> r = s"
  shows "foldl (group_root S) plan rs =
     \<lparr>tp_merged_files = filter (\<lambda>f. \<not> grouped rs (fe_path f)) (tp_merged_files plan),
      tp_conflicts = filter (\<lambda>c. \<not> grouped rs (pc_path c)) (tp_conflicts plan) @ map (tree_conflict S) rs\<rparr>"
  using assms
proof (induction rs rule: rev_induct)
  case Nil
  then show ?case by (simp add: grouped_def)
next
  case (snoc r rs)
  have keep: "filter (\<lambda>c. \<not> contains r (pc_path c)) (map (tree_conflict S) rs) = map (tree_conflict S) rs"
    using snoc.prems by (intro filter_True) (auto simp: tree_conflict_def)
  have g: "grouped (rs @ [r]) p \<longleftrightarrow> grouped rs p \<or> contains r p" for p by (auto simp: grouped_def)
  from snoc show ?case
    by (simp add: group_root_eq [of S _ r] keep g conj_commute del: filter_map)
qed

section \<open>The plan\<close>

text \<open>The final plan, as sets of files and conflicts.\<close>

lemma plan_merge_shape:
  fixes b l i
  defines "B \<equiv> manifest_map b" and "L \<equiv> manifest_map l" and "I \<equiv> manifest_map i"
  defines "roots \<equiv> group_roots (plan_paths (plain_plan B L I))"
  shows "tp_merged_files (plan_merge b l i) = filter (\<lambda>f. \<not> grouped roots (fe_path f)) (tp_merged_files (plain_plan B L I))"
    and "tp_conflicts (plan_merge b l i) = sort_key pc_path
      (filter (\<lambda>c. \<not> grouped roots (pc_path c)) (tp_conflicts (plain_plan B L I)) @ map (tree_conflict [B, L, I]) roots)"
    and "set roots = clash_roots (live B L I)" "distinct roots"
proof -
  have k: "keyed_manifest B" "keyed_manifest L" "keyed_manifest I"
    unfolding B_def L_def I_def by (rule keyed_manifest_map)+
  show r: "set roots = clash_roots (live B L I)" unfolding roots_def set_group_roots set_plan_paths [OF k] ..
  show d: "distinct roots" unfolding roots_def group_roots_def by simp
  have f: "foldl (group_root [B, L, I]) (plain_plan B L I) roots =
     \<lparr>tp_merged_files = filter (\<lambda>f. \<not> grouped roots (fe_path f)) (tp_merged_files (plain_plan B L I)),
      tp_conflicts = filter (\<lambda>c. \<not> grouped roots (pc_path c)) (tp_conflicts (plain_plan B L I)) @
        map (tree_conflict [B, L, I]) roots\<rparr>"
    by (rule group_roots_fold [OF d]) (use clash_roots_disjoint r in blast)
  show "tp_merged_files (plan_merge b l i) = filter (\<lambda>f. \<not> grouped roots (fe_path f)) (tp_merged_files (plain_plan B L I))"
    "tp_conflicts (plan_merge b l i) = sort_key pc_path
      (filter (\<lambda>c. \<not> grouped roots (pc_path c)) (tp_conflicts (plain_plan B L I)) @ map (tree_conflict [B, L, I]) roots)"
    unfolding plan_merge_group B_def [symmetric] L_def [symmetric] I_def [symmetric] group_def
    using f by (simp_all add: roots_def Let_def)
qed

text \<open>The paths of the outputs.\<close>

lemma map_filter_comp: "map f (filter (\<lambda>x. P (f x)) xs) = filter P (map f xs)"
  by (simp add: filter_map comp_def)

lemma mset_filter_disjoint:
  "(\<And>x. x \<in> set xs \<Longrightarrow> \<not> (P x \<and> Q x)) \<Longrightarrow>
    mset (filter P xs) + mset (filter Q xs) = mset (filter (\<lambda>x. P x \<or> Q x) xs)"
  by (induction xs) auto

lemma plan_outputs:
  fixes b l i
  defines "B \<equiv> manifest_map b" and "L \<equiv> manifest_map l" and "I \<equiv> manifest_map i"
  defines "roots \<equiv> group_roots (plan_paths (plain_plan B L I))"
  shows "mset (map fe_path (tp_merged_files (plan_merge b l i)) @ map pc_path (tp_conflicts (plan_merge b l i))) =
      mset (filter (\<lambda>p. p \<in> live B L I \<and> \<not> grouped roots p) (all_paths B L I) @ roots)"
proof -
  have k: "keyed_manifest B" "keyed_manifest L" "keyed_manifest I"
    unfolding B_def L_def I_def by (rule keyed_manifest_map)+
  note shape = plan_merge_shape [of b l i, folded B_def L_def I_def, folded roots_def]
  have c: "mset (map pc_path (tp_conflicts (plan_merge b l i))) =
      mset (filter (\<lambda>p. \<not> grouped roots p) (map pc_path (tp_conflicts (plain_plan B L I))) @ roots)"
    unfolding shape(2) by (simp add: tree_conflict_def comp_def multiset.map_comp flip: map_filter_comp)
  have "mset (map fe_path (tp_merged_files (plan_merge b l i)) @ map pc_path (tp_conflicts (plan_merge b l i))) =
      mset (filter (\<lambda>p. \<not> grouped roots p) (filter (\<lambda>p. merged_at B L I p \<noteq> None) (all_paths B L I))) +
      mset (filter (\<lambda>p. \<not> grouped roots p) (filter (\<lambda>p. conflict_at B L I p \<noteq> None) (all_paths B L I))) + mset roots"
    unfolding mset_append c shape(1) map_filter_comp [of fe_path "\<lambda>p. \<not> grouped roots p"] plain_paths [OF k]
    by simp
  also have "\<dots> = mset (filter (\<lambda>p. p \<in> live B L I \<and> \<not> grouped roots p) (all_paths B L I)) + mset roots"
    unfolding filter_filter
    by (subst mset_filter_disjoint)
      (auto simp: live_cases merged_at_def conflict_at_def split: sum.splits intro!: arg_cong [of _ _ mset] filter_cong)
  finally show ?thesis by simp
qed

lemma merged_at_Some: "merged_at B L I p = Some f \<longleftrightarrow> rule_at B L I p = Inr (Some f)"
  by (cases "rule_at B L I p") (auto simp: merged_at_def)

lemma conflict_at_Some: "conflict_at B L I p = Some c \<longleftrightarrow> rule_at B L I p = Inl () \<and> c = file_conflict B L I p"
  by (cases "rule_at B L I p") (auto simp: conflict_at_def)

lemma set_plain_plan:
  "f \<in> set (tp_merged_files (plain_plan B L I)) \<longleftrightarrow> (\<exists>p. rule_at B L I p = Inr (Some f))"
  "c \<in> set (tp_conflicts (plain_plan B L I)) \<longleftrightarrow> (\<exists>p. rule_at B L I p = Inl () \<and> c = file_conflict B L I p)"
proof -
  have "p \<in> set (all_paths B L I)" if "rule_at B L I p \<noteq> Inr None" for p
    using rule_outside that by blast
  then show "f \<in> set (tp_merged_files (plain_plan B L I)) \<longleftrightarrow> (\<exists>p. rule_at B L I p = Inr (Some f))"
    "c \<in> set (tp_conflicts (plain_plan B L I)) \<longleftrightarrow> (\<exists>p. rule_at B L I p = Inl () \<and> c = file_conflict B L I p)"
    by (auto simp: plain_plan_def set_map_filter merged_at_Some conflict_at_Some)
qed

lemma rule_at_path:
  "keyed_manifest B \<Longrightarrow> keyed_manifest L \<Longrightarrow> keyed_manifest I \<Longrightarrow> rule_at B L I p = Inr (Some f) \<Longrightarrow> fe_path f = p"
  using merged_at_path [of B L I p f] by (simp add: merged_at_def)

text \<open>What one conflict's policies say about its sources.\<close>

lemma set_push_policies: "set (foldl push_policy_once ps xs) = set ps \<union> set xs"
  by (induction xs arbitrary: ps) (auto simp: push_policy_once_def)

lemma present_policies: "set (present_file_policies a b c) = fe_policy ` (set_option a \<union> set_option b \<union> set_option c)"
  unfolding present_file_policies_def set_push_policies
  by (cases a; cases b; cases c) (auto simp: flatten_options_def map_filter_simps)

text \<open>The members of the plan.\<close>

lemma plan_members:
  fixes base line incoming
  defines "B \<equiv> manifest_map base" and "L \<equiv> manifest_map line" and "I \<equiv> manifest_map incoming"
  defines "roots \<equiv> clash_roots (live B L I)"
  shows "f \<in> set (tp_merged_files (plan_merge base line incoming)) \<longleftrightarrow>
      rule_at B L I (fe_path f) = Inr (Some f) \<and> (\<nexists>r. r \<in> roots \<and> contains r (fe_path f))"
    and "c \<in> set (tp_conflicts (plan_merge base line incoming)) \<longleftrightarrow>
      rule_at B L I (pc_path c) = Inl () \<and> (\<nexists>r. r \<in> roots \<and> contains r (pc_path c)) \<and> c = file_conflict B L I (pc_path c) \<or>
      pc_path c \<in> roots \<and> c = tree_conflict [B, L, I] (pc_path c)"
proof -
  have k: "keyed_manifest B" "keyed_manifest L" "keyed_manifest I"
    unfolding B_def L_def I_def by (rule keyed_manifest_map)+
  define rs where "rs = group_roots (plan_paths (plain_plan B L I))"
  note shape = plan_merge_shape [of base line incoming, folded B_def L_def I_def, folded rs_def]
  have g: "grouped rs p \<longleftrightarrow> (\<exists>r. r \<in> roots \<and> contains r p)" for p
    unfolding grouped_def shape(3) roots_def by blast
  show "f \<in> set (tp_merged_files (plan_merge base line incoming)) \<longleftrightarrow>
      rule_at B L I (fe_path f) = Inr (Some f) \<and> (\<nexists>r. r \<in> roots \<and> contains r (fe_path f))"
    unfolding shape(1) g [symmetric] using rule_at_path [OF k] by (auto simp: set_plain_plan)
  show "c \<in> set (tp_conflicts (plan_merge base line incoming)) \<longleftrightarrow>
      rule_at B L I (pc_path c) = Inl () \<and> (\<nexists>r. r \<in> roots \<and> contains r (pc_path c)) \<and> c = file_conflict B L I (pc_path c) \<or>
      pc_path c \<in> roots \<and> c = tree_conflict [B, L, I] (pc_path c)"
    unfolding shape(2) g [symmetric] unfolding roots_def shape(3) [symmetric]
    by (auto simp: set_plain_plan file_conflict_def [of B L I] tree_conflict_def)
qed

lemma plan_sorted:
  "sorted (map fe_path (tp_merged_files (plan_merge base line incoming)))"
  "sorted (map pc_path (tp_conflicts (plan_merge base line incoming)))"
proof -
  let ?B = "manifest_map base" and ?L = "manifest_map line" and ?I = "manifest_map incoming"
  note k = keyed_manifest_map [of base] keyed_manifest_map [of line] keyed_manifest_map [of incoming]
  show "sorted (map fe_path (tp_merged_files (plan_merge base line incoming)))"
    unfolding plan_merge_shape(1)
      map_filter_comp [of fe_path "\<lambda>p. \<not> grouped (group_roots (plan_paths (plain_plan ?B ?L ?I))) p"] plain_paths [OF k]
    by (simp add: all_paths_def sorted_wrt_filter)
  show "sorted (map pc_path (tp_conflicts (plan_merge base line incoming)))"
    unfolding plan_merge_shape(2) by simp
qed

section \<open>Properties\<close>

text \<open>
  C39: The outputs of a merge never overlap. No two of the merged files and conflicts have the same
  path, and none lies inside the subtree of another, whatever the three manifests hold: a decision
  on one output can never combine a file with something below it.
\<close>

theorem plan_merge_disjoint:
  "let plan = plan_merge base line incoming;
       outputs = map fe_path (tp_merged_files plan) @ map pc_path (tp_conflicts plan)
   in distinct outputs \<and> (\<forall>x \<in> set outputs. \<forall>y \<in> set outputs. contains x y \<longrightarrow> x = y)"
proof -
  define B where "B = manifest_map base"
  define L where "L = manifest_map line"
  define I where "I = manifest_map incoming"
  define roots where "roots = group_roots (plan_paths (plain_plan B L I))"
  let ?P = "live B L I"
  let ?out = "map fe_path (tp_merged_files (plan_merge base line incoming)) @ map pc_path (tp_conflicts (plan_merge base line incoming))"
  note shape = plan_merge_shape(3,4) [of base line incoming, folded B_def L_def I_def, folded roots_def]
  note m = plan_outputs [of base line incoming, folded B_def L_def I_def, folded roots_def]
  have fin: "finite ?P" by (rule finite_subset [OF live_subset]) simp
  have out: "set ?out = {p \<in> ?P. \<not> grouped roots p} \<union> set roots"
    using mset_eq_setD [OF m] live_subset [of B L I] by auto
  have "distinct (filter (\<lambda>p. p \<in> ?P \<and> \<not> grouped roots p) (all_paths B L I) @ roots)"
    using shape(2) by (auto simp: all_paths_def grouped_def)
  then have "distinct ?out" using m mset_eq_imp_distinct_iff by blast
  moreover have "x = y" if x: "x \<in> set ?out" and y: "y \<in> set ?out" and c: "contains x y" for x y
  proof (rule ccontr)
    assume ne: "x \<noteq> y"
    have mem: "x \<in> ?P" "y \<in> ?P" using x y unfolding out shape(1) by (auto simp: clash_roots_def)
    from contains_topmost [OF fin mem c ne] obtain r where r: "r \<in> set roots" "contains r x" unfolding shape(1) by blast
    with c have "contains r y" using contains_trans by blast
    with r x y have "x \<in> set roots" "y \<in> set roots" unfolding out by (auto simp: grouped_def)
    with c ne clash_roots_disjoint show False unfolding shape(1) by blast
  qed
  ultimately show ?thesis by (simp only: Let_def) blast
qed

definition sample_file :: "bytes \<Rightarrow> bytes \<Rightarrow> bytes list \<Rightarrow> file_entry" where
  "sample_file path hash domains = \<lparr>fe_symlink = False, fe_path = path, fe_executable = False, fe_hash = hash,
     fe_bytes = 1, fe_policy = \<lparr>ap_domains = domains, ap_redaction = RedactOmit\<rparr>\<rparr>"

theorem plan_merge_disjoint_witness:
  "let plan = plan_merge [sample_file [0x61] [1] [[1]]] [sample_file [0x61] [2] [[1]]] [sample_file [0x61, 0x2f, 0x62] [1] [[2]]];
       outputs = map fe_path (tp_merged_files plan) @ map pc_path (tp_conflicts plan)
   in outputs = [[0x61]] \<and> tp_merged_files plan = [] \<and> map pc_kind (tp_conflicts plan) = [FileDirectory] \<and> distinct outputs"
proof -
  let ?p = "plan_merge [sample_file [0x61] [1] [[1]]] [sample_file [0x61] [2] [[1]]] [sample_file [0x61, 0x2f, 0x62] [1] [[2]]]"
  have "map fe_path (tp_merged_files ?p) @ map pc_path (tp_conflicts ?p) = [[0x61]]"
    "tp_merged_files ?p = []" "map pc_kind (tp_conflicts ?p) = [FileDirectory]" by code_simp+
  with plan_merge_disjoint [of "[sample_file [0x61] [1] [[1]]]" "[sample_file [0x61] [2] [[1]]]" "[sample_file [0x61, 0x2f, 0x62] [1] [[2]]]"]
  show ?thesis by (simp add: Let_def)
qed

text \<open>
  C16: The manifest merge is exact. A file is merged at a path exactly when the three-way rule leaves it
  there and the path is in no grouped subtree; the conflicts are the paths the rule cannot decide,
  with the kind and the policies of their sides, and one for each topmost path that has another live
  path below it, for its whole subtree. Both lists are in path order.
\<close>

theorem plan_merge_exact:
  fixes base line incoming
  defines "B \<equiv> manifest_map base" and "L \<equiv> manifest_map line" and "I \<equiv> manifest_map incoming"
  defines "roots \<equiv> clash_roots (live B L I)"
  shows "(f \<in> set (tp_merged_files (plan_merge base line incoming)) \<longleftrightarrow>
      rule_at B L I (fe_path f) = Inr (Some f) \<and> (\<nexists>r. r \<in> roots \<and> contains r (fe_path f))) \<and>
    (c \<in> set (tp_conflicts (plan_merge base line incoming)) \<longleftrightarrow>
      rule_at B L I (pc_path c) = Inl () \<and> (\<nexists>r. r \<in> roots \<and> contains r (pc_path c)) \<and> c = file_conflict B L I (pc_path c) \<or>
      pc_path c \<in> roots \<and> c = tree_conflict [B, L, I] (pc_path c)) \<and>
    sorted (map fe_path (tp_merged_files (plan_merge base line incoming))) \<and>
    sorted (map pc_path (tp_conflicts (plan_merge base line incoming)))"
  unfolding B_def L_def I_def roots_def by (intro conjI plan_members plan_sorted)

theorem plan_merge_exact_witness:
  "let b = sample_file [0x62] [1] [[1]]; l = sample_file [0x62] [2] [[1]]; i = sample_file [0x61] [3] [[1]];
       plan = plan_merge [b] [l] [b, i]
   in tp_merged_files plan = [i, l] \<and> tp_conflicts plan = [] \<and>
      rule_at (manifest_map [b]) (manifest_map [l]) (manifest_map [b, i]) [0x62] = Inr (Some l)"
proof -
  let ?b = "sample_file [0x62] [1] [[1]]" and ?l = "sample_file [0x62] [2] [[1]]" and ?i = "sample_file [0x61] [3] [[1]]"
  have plan: "tp_merged_files (plan_merge [?b] [?l] [?b, ?i]) = [?i, ?l]" "tp_conflicts (plan_merge [?b] [?l] [?b, ?i]) = []"
    by code_simp+
  have "fe_path ?l = [0x62]" by (simp add: sample_file_def)
  with plan plan_merge_exact [of ?l "[?b]" "[?l]" "[?b, ?i]"] show ?thesis by (simp add: Let_def)
qed

lemma set_tree_policies:
  "set (tree_policies sources root) = fe_policy ` {f \<in> \<Union> (set ` map snd ` set sources). contains root (fe_path f)}"
  unfolding tree_policies_def set_push_policies by auto

lemma source_at:
  assumes "keyed_manifest B" "keyed_manifest L" "keyed_manifest I"
  shows "set_option (map_of L p) \<union> set_option (map_of I p) \<union> set_option (map_of B p) =
    {f \<in> set (map snd B @ map snd L @ map snd I). fe_path f = p}"
  unfolding set_append Un_iff manifest_values [OF assms(1)] manifest_values [OF assms(2)] manifest_values [OF assms(3)]
  using assms unfolding keyed_manifest_def by blast+

lemma file_conflict_kind: "pc_kind (file_conflict B L I p) \<noteq> FileDirectory"
  by (auto simp: file_conflict_def conflict_kind_for_entries_def split: option.splits)

text \<open>
  C19: A conflict is shown to an actor exactly when the actor may see every source file it stands
  for: the versions of its path in the three manifests, or, for a file/directory conflict, every
  file of the three manifests in its subtree. One restricted descendant hides the whole conflict.
\<close>

theorem pending_conflict_access:
  assumes "c \<in> set (tp_conflicts (plan_merge base line incoming))"
  shows "can_access_pending_conflict actor c \<longleftrightarrow>
    (\<forall>f \<in> set (map snd (manifest_map base) @ map snd (manifest_map line) @ map snd (manifest_map incoming)).
      (if pc_kind c = FileDirectory then contains (pc_path c) (fe_path f) else fe_path f = pc_path c) \<longrightarrow>
      can_access actor (fe_policy f))"
proof -
  define B where "B = manifest_map base"
  define L where "L = manifest_map line"
  define I where "I = manifest_map incoming"
  have k: "keyed_manifest B" "keyed_manifest L" "keyed_manifest I"
    unfolding B_def L_def I_def by (rule keyed_manifest_map)+
  consider (one) "c = file_conflict B L I (pc_path c)" | (tree) "c = tree_conflict [B, L, I] (pc_path c)"
    using assms plan_members(2) [of c base line incoming] unfolding B_def L_def I_def by blast
  then show ?thesis
  proof cases
    case one
    then have "pc_kind c \<noteq> FileDirectory" by (metis file_conflict_kind)
    moreover have "set (pc_file_policies c) = fe_policy ` {f \<in> set (map snd B @ map snd L @ map snd I). fe_path f = pc_path c}"
      by (subst one) (simp only: file_conflict_def pending_conflict.simps present_policies source_at [OF k])
    ultimately show ?thesis
      unfolding can_access_pending_conflict_def list_all_iff B_def L_def I_def by auto
  next
    case tree
    then have "pc_kind c = FileDirectory" by (metis pending_conflict.select_convs(2) tree_conflict_def)
    moreover have "set (pc_file_policies c) = fe_policy ` {f \<in> set (map snd B @ map snd L @ map snd I). contains (pc_path c) (fe_path f)}"
      by (subst tree) (simp add: tree_conflict_def set_tree_policies Un_assoc)
    ultimately show ?thesis
      unfolding can_access_pending_conflict_def list_all_iff B_def L_def I_def by auto
  qed
qed

theorem pending_conflict_access_witness:
  "let b = sample_file [0x61] [1] [[1]]; l = sample_file [0x61] [2] [[1]]; i = sample_file [0x61, 0x2f, 0x62] [1] [[2]];
       plan = plan_merge [b] [l] [i]; c = hd (tp_conflicts plan)
   in tp_conflicts plan = [c] \<and> pc_kind c = FileDirectory \<and>
      \<not> can_access_pending_conflict \<lparr>ac_name = [1], ac_domains = [[1]]\<rparr> c \<and>
      can_access_pending_conflict \<lparr>ac_name = [1], ac_domains = [[1], [2]]\<rparr> c"
proof -
  let ?b = "sample_file [0x61] [1] [[1]]" and ?l = "sample_file [0x61] [2] [[1]]"
    and ?i = "sample_file [0x61, 0x2f, 0x62] [1] [[2]]"
  let ?plan = "plan_merge [?b] [?l] [?i]"
  let ?c = "hd (tp_conflicts ?plan)"
  have c: "tp_conflicts ?plan = [?c]" "pc_kind ?c = FileDirectory" "pc_path ?c = [0x61]" by code_simp+
  then have "?c \<in> set (tp_conflicts ?plan)" by (metis list.set_intros(1))
  note access = pending_conflict_access [OF this, unfolded c(2,3)]
  have files: "set (map snd (manifest_map [?b]) @ map snd (manifest_map [?l]) @ map snd (manifest_map [?i])) = {?b, ?l, ?i}"
    by (simp add: manifest_map_def)
  have below: "contains [0x61] (fe_path ?b)" "contains [0x61] (fe_path ?l)" "contains [0x61] (fe_path ?i)" by code_simp+
  have seen: "\<not> can_access \<lparr>ac_name = [1], ac_domains = [[1]]\<rparr> (fe_policy ?i)"
    "can_access \<lparr>ac_name = [1], ac_domains = [[1], [2]]\<rparr> (fe_policy ?b)"
    "can_access \<lparr>ac_name = [1], ac_domains = [[1], [2]]\<rparr> (fe_policy ?l)"
    "can_access \<lparr>ac_name = [1], ac_domains = [[1], [2]]\<rparr> (fe_policy ?i)" by code_simp+
  show ?thesis unfolding Let_def access files using c(1,2) below seen by simp
qed

end
