(* ===== verification/Text_Merge_Spec.thy ===== *)
theory Text_Merge_Spec
  imports Text_Merge Tree_Merge_Spec
begin

text \<open>
  Correctness of the text merge over any diff that satisfies the contract of the \<open>similar\<close> crate: it
  succeeds exactly when the edits of the two sides are compatible, it then applies every edit once
  and keeps the other lines, it does not depend on the order of the sides, and a side that changed
  nothing never affects the result.
\<close>

section \<open>The contract of the diff\<close>

text \<open>The operations cover both texts from left to right; equal ranges hold equal lines.\<close>

fun ops_cover :: "bytes list \<Rightarrow> bytes list \<Rightarrow> nat \<Rightarrow> nat \<Rightarrow> diff_op list \<Rightarrow> bool" where
  "ops_cover old new i j [] \<longleftrightarrow> i = length old \<and> j = length new"
| "ops_cover old new i j (op # ops) \<longleftrightarrow>
     fst (do_old op) = i \<and> i \<le> snd (do_old op) \<and> snd (do_old op) \<le> length old \<and>
     fst (do_new op) = j \<and> j \<le> snd (do_new op) \<and> snd (do_new op) \<le> length new \<and>
     (do_tag op = TagEqual \<longrightarrow> i < snd (do_old op) \<and>
        take (snd (do_old op) - i) (drop i old) = take (snd (do_new op) - j) (drop j new)) \<and>
     ops_cover old new (snd (do_old op)) (snd (do_new op)) ops"

definition differ_ok :: "text_differ \<Rightarrow> bool" where
  "differ_ok T \<longleftrightarrow>
     (\<forall>s. concat (tokenize_lines T s) = s) \<and>
     (\<forall>b s. ops_cover (tokenize_lines T b) (tokenize_lines T s) 0 0 (diff_ops T b s)) \<and>
     (\<forall>b s. successively (\<lambda>x y. do_tag x = TagEqual \<or> do_tag y = TagEqual) (diff_ops T b s)) \<and>
     (\<forall>b. \<forall>op \<in> set (diff_ops T b b). do_tag op = TagEqual)"

section \<open>Edits of a covering list of operations\<close>

definition edit_of :: "bytes list \<Rightarrow> diff_op \<Rightarrow> edit" where
  "edit_of new op = \<lparr>ed_start = fst (do_old op), ed_end = snd (do_old op),
     ed_replacement = concat (take (snd (do_new op) - fst (do_new op)) (drop (fst (do_new op)) new))\<rparr>"

definition ops_edits :: "bytes list \<Rightarrow> diff_op list \<Rightarrow> edit list" where
  "ops_edits new ops = map (edit_of new) (filter (\<lambda>op. do_tag op \<noteq> TagEqual) ops)"

lemma ops_edits_simps [simp]:
  "ops_edits new [] = []"
  "ops_edits new (op # ops) = (if do_tag op = TagEqual then ops_edits new ops else edit_of new op # ops_edits new ops)"
  by (simp_all add: ops_edits_def)

lemma ops_cover_edits:
  "ops_cover old new i j ops \<Longrightarrow>
    opt_all (map (op_edit new) (filter (\<lambda>op. do_tag op \<noteq> TagEqual) ops)) = Some (ops_edits new ops) \<and>
    (\<forall>e \<in> set (ops_edits new ops). i \<le> ed_start e \<and> ed_start e \<le> ed_end e \<and> ed_end e \<le> length old)"
  by (induction ops arbitrary: i j) (auto simp: op_edit_def edit_of_def slice_def intro: order_trans)

section \<open>The reference merge\<close>

text \<open>At each position of the base: the edits that start there, and its line unless an edit covers it.\<close>

definition covered :: "edit list \<Rightarrow> nat \<Rightarrow> bool" where
  "covered es k \<longleftrightarrow> (\<exists>e \<in> set es. ed_start e \<le> k \<and> k < ed_end e)"

definition woven_at :: "bytes list \<Rightarrow> edit list \<Rightarrow> nat \<Rightarrow> bytes" where
  "woven_at lines es k =
     concat (map ed_replacement (filter (\<lambda>e. ed_start e = k) es)) @
     (if k < length lines \<and> \<not> covered es k then lines ! k else [])"

definition weave :: "bytes list \<Rightarrow> edit list \<Rightarrow> bytes" where
  "weave lines es = concat (map (woven_at lines es) [0..<Suc (length lines)])"

text \<open>Edits from \<open>c\<close> on, each before the next.\<close>

primrec in_order :: "nat \<Rightarrow> nat \<Rightarrow> edit list \<Rightarrow> bool" where
  "in_order n c [] \<longleftrightarrow> c \<le> n"
| "in_order n c (e # es) \<longleftrightarrow>
     c \<le> ed_start e \<and> ed_start e \<le> ed_end e \<and> (ed_start e = ed_end e \<longrightarrow> (\<forall>x \<in> set es. ed_end e < ed_start x)) \<and>
     in_order n (ed_end e) es"

lemma in_order_bounds: "in_order n c es \<Longrightarrow> c \<le> n \<and> (\<forall>e \<in> set es. c \<le> ed_start e \<and> ed_end e \<le> n)"
  by (induction es arbitrary: c) (force dest: order_trans)+

lemma upt_split: "a \<le> b \<Longrightarrow> b \<le> c \<Longrightarrow> [a..<c] = [a..<b] @ [b..<c]"
  using upt_add_eq_append [of a b "c - b"] by simp

lemma woven_gap:
  assumes "a \<le> b" "b \<le> length lines" "\<forall>e \<in> set es. b \<le> ed_start e"
  shows "concat (map (woven_at lines es) [a..<b]) = concat (take (b - a) (drop a lines))"
proof -
  have "map (woven_at lines es) [a..<b] = map ((!) lines) [a..<b]"
    using assms by (intro map_cong) (auto simp: woven_at_def covered_def filter_empty_conv)
  also have "\<dots> = take (b - a) (drop a lines)"
    using assms by (intro nth_equalityI) auto
  finally show ?thesis by simp
qed

lemma woven_edit:
  assumes "in_order (length lines) (ed_start e) (e # es)"
  shows "concat (map (woven_at lines (e # es)) [ed_start e..<Suc (length lines)]) =
    ed_replacement e @ concat (map (woven_at lines es) [ed_end e..<Suc (length lines)])"
proof -
  let ?n = "Suc (length lines)" and ?s = "ed_start e" and ?t = "ed_end e"
  have b: "?t \<le> length lines" "\<forall>x \<in> set es. ?t \<le> ed_start x" using assms in_order_bounds by auto
  show ?thesis
  proof (cases "?s = ?t")
    case True
    then have *: "\<forall>x \<in> set es. ?t < ed_start x" using assms by simp
    have "woven_at lines (e # es) ?t = ed_replacement e @ woven_at lines es ?t"
      using True * by (auto simp: woven_at_def covered_def)
    moreover have "concat (map (woven_at lines (e # es)) [Suc ?t..<?n]) = concat (map (woven_at lines es) [Suc ?t..<?n])"
      using True by (intro arg_cong [of _ _ concat] map_cong) (auto simp: woven_at_def covered_def)
    moreover have "[?t..<?n] = ?t # [Suc ?t..<?n]" using b by (simp add: upt_conv_Cons)
    ultimately show ?thesis using True by (simp del: upt_Suc)
  next
    case False
    with assms have lt: "?s < ?t" by simp
    have split: "[?s..<?n] = ?s # [Suc ?s..<?t] @ [?t..<?n]"
      using lt b upt_split [of ?s ?t ?n] by (simp add: upt_conv_Cons [of ?s ?t] del: upt_Suc)
    have "woven_at lines (e # es) ?s = ed_replacement e"
      using lt b by (auto simp: woven_at_def covered_def filter_empty_conv)
    moreover have "concat (map (woven_at lines (e # es)) [Suc ?s..<?t]) = []"
      using b by (auto simp: concat_eq_Nil_conv woven_at_def covered_def filter_empty_conv)
    moreover have "concat (map (woven_at lines (e # es)) [?t..<?n]) = concat (map (woven_at lines es) [?t..<?n])"
      using lt by (intro arg_cong [of _ _ concat] map_cong) (auto simp: woven_at_def covered_def)
    ultimately show ?thesis unfolding split by (simp del: upt_Suc)
  qed
qed

lemma apply_edits_weave:
  "in_order (length lines) c es \<Longrightarrow>
    apply_edits lines c result es = Some (result @ concat (map (woven_at lines es) [c..<Suc (length lines)]))"
proof (induction es arbitrary: c result)
  case Nil
  then have "concat (map (woven_at lines []) [c..<length lines]) = concat (take (length lines - c) (drop c lines))"
    by (intro woven_gap) auto
  moreover have "woven_at lines [] (length lines) = []" by (simp add: woven_at_def)
  ultimately show ?case using Nil by (simp add: slice_def)
next
  case (Cons e es)
  have b: "c \<le> ed_start e" "ed_start e \<le> length lines" "\<forall>x \<in> set (e # es). ed_start e \<le> ed_start x"
    using Cons.prems in_order_bounds by (auto, fastforce+)
  have "[c..<Suc (length lines)] = [c..<ed_start e] @ [ed_start e..<Suc (length lines)]"
    using b by (intro upt_split) auto
  moreover have "in_order (length lines) (ed_start e) (e # es)" using Cons.prems by simp
  ultimately show ?case
    using b Cons by (simp add: slice_def woven_edit woven_gap del: upt_Suc)
qed

section \<open>Combining the two sides\<close>

text \<open>
  Two edits are compatible when one lies before the other: there is a line between them, or they are
  adjacent and neither is an insertion. The order of two edits at an insertion point would be arbitrary.
\<close>

definition precedes :: "edit \<Rightarrow> edit \<Rightarrow> bool" where
  "precedes a b \<longleftrightarrow>
     ed_end a < ed_start b \<or> ed_end a = ed_start b \<and> {ed_start a..<ed_end a} \<noteq> {} \<and> {ed_start b..<ed_end b} \<noteq> {}"

definition compatible :: "edit \<Rightarrow> edit \<Rightarrow> bool" where
  "compatible a b \<longleftrightarrow> precedes a b \<or> precedes b a"

lemma clash_precedes:
  "ed_start a \<le> ed_end a \<Longrightarrow> ed_start b \<le> ed_end b \<Longrightarrow> edits_clash a b \<longleftrightarrow> \<not> precedes a b"
  by (auto simp: edits_clash_def precedes_def)

definition all_compatible :: "edit set \<Rightarrow> bool" where
  "all_compatible E \<longleftrightarrow> (\<forall>a \<in> E. \<forall>b \<in> E. a \<noteq> b \<longrightarrow> compatible a b)"

lemma inj_edit_key: "inj_on edit_key S"
  by (auto simp: inj_on_def edit_key_def intro: edit.equality)

lemma set_merged_edits [simp]: "set (merged_edits ls is) = set ls \<union> set is"
  by (simp add: merged_edits_def)

lemma sorted_remdups_adj_strict:
  "sorted (map f xs) \<Longrightarrow> inj_on f (set xs) \<Longrightarrow> sorted_wrt (\<lambda>a b. f a < f b) (remdups_adj xs)"
proof (induction xs rule: remdups_adj.induct)
  case (3 x y xs)
  show ?case
  proof (cases "x = y")
    case False
    have le: "f x \<le> f z" if "z \<in> set (y # xs)" for z using 3(3) that by auto
    have "f y \<le> f z" if "z \<in> set (y # xs)" for z using 3(3) that by auto
    moreover have "f x < f y" using False 3(4) le [of y] by (auto simp: inj_on_def order.strict_iff_order)
    ultimately have "\<forall>z \<in> set (y # xs). f x < f z" using order.strict_trans2 by blast
    moreover have "sorted_wrt (\<lambda>a b. f a < f b) (remdups_adj (y # xs))"
      by (rule 3(2) [OF False]) (use 3(3,4) in \<open>auto simp: inj_on_def\<close>)
    ultimately show ?thesis using False by simp
  qed (use 3 in auto)
qed auto

lemma merged_edits_strict: "sorted_wrt (\<lambda>a b. edit_key a < edit_key b) (merged_edits ls is)"
  unfolding merged_edits_def by (intro sorted_remdups_adj_strict sorted_sort_key inj_edit_key)

lemma merged_edits_unique:
  assumes "sorted_wrt (\<lambda>a b. edit_key a < edit_key b) es" "set es = set ls \<union> set is"
  shows "merged_edits ls is = es"
proof -
  have uniq: "map edit_key xs = sorted_list_of_set (edit_key ` set xs)"
    if "sorted_wrt (\<lambda>a b. edit_key a < edit_key b) xs" for xs
  proof -
    have "sorted_wrt (<) (map edit_key xs)" using that by (simp add: sorted_wrt_map)
    then have "sorted (map edit_key xs)" "distinct (map edit_key xs)" unfolding strict_sorted_iff by blast+
    then show ?thesis using sorted_list_of_set.idem_if_sorted_distinct [of "map edit_key xs"] by simp
  qed
  have "map edit_key (merged_edits ls is) = map edit_key es"
    using uniq [OF merged_edits_strict] uniq [OF assms(1)] assms(2) by simp
  then show ?thesis by (rule map_injective) (metis inj_edit_key)
qed

text \<open>For sorted edits, the check of neighbours decides compatibility and puts them in order.\<close>

lemma no_clash_in_order:
  assumes "sorted_wrt (\<lambda>a b. edit_key a < edit_key b) es" "\<not> windows_clash es"
    "\<forall>e \<in> set es. c \<le> ed_start e \<and> ed_start e \<le> ed_end e \<and> ed_end e \<le> n" "c \<le> n"
  shows "in_order n c es \<and> sorted_wrt (\<lambda>a b. \<not> edits_clash a b) es"
  using assms
proof (induction es arbitrary: c)
  case (Cons e es)
  have step: "ed_end e \<le> ed_start x" "\<not> edits_clash e x" if "x \<in> set es" for x
  proof -
    from that obtain y ys where es: "es = y # ys" by (cases es) auto
    with Cons.prems have nc: "\<not> edits_clash e y" by simp
    have "ed_start y \<le> ed_start x" using Cons.prems(1) that es by (auto simp: edit_key_def less_prod_def)
    with nc show "ed_end e \<le> ed_start x" by (auto simp: edits_clash_def)
    have sorted: "sorted_wrt (\<lambda>a b. \<not> edits_clash a b) es"
      using Cons.IH [of 0] Cons.prems es by auto
    show "\<not> edits_clash e x"
    proof (cases "x = y")
      case False
      with sorted that es have "\<not> edits_clash y x" by auto
      with nc Cons.prems(3) es show ?thesis by (auto simp: edits_clash_def)
    qed (use nc in simp)
  qed
  have "in_order n (ed_end e) es \<and> sorted_wrt (\<lambda>a b. \<not> edits_clash a b) es"
    by (rule Cons.IH) (use Cons.prems step in \<open>cases es; auto\<close>)+
  moreover have "ed_end e < ed_start x" if "ed_start e = ed_end e" "x \<in> set es" for x
    using step [OF that(2)] that(1) by (auto simp: edits_clash_def)
  ultimately show ?case using Cons.prems step by auto
qed simp

lemma windows_clash_iff:
  assumes "sorted_wrt (\<lambda>a b. edit_key a < edit_key b) es"
    "\<forall>e \<in> set es. ed_start e \<le> ed_end e \<and> ed_end e \<le> n"
  shows "\<not> windows_clash es \<longleftrightarrow> all_compatible (set es)"
proof
  assume "\<not> windows_clash es"
  then have "sorted_wrt (\<lambda>a b. \<not> edits_clash a b) es"
    using no_clash_in_order [OF assms(1), of 0 n] assms(2) by auto
  then show "all_compatible (set es)" using assms(2)
    by (induction es) (auto simp: all_compatible_def compatible_def clash_precedes)
next
  assume "all_compatible (set es)"
  with assms show "\<not> windows_clash es"
  proof (induction es rule: windows_clash.induct)
    case (1 a b es)
    have "a \<noteq> b" "ed_start a \<le> ed_start b" using 1(2) by (auto simp: edit_key_def less_prod_def)
    moreover have "edits_clash b a \<or> \<not> edits_clash a b"
      if "ed_start a \<le> ed_start b" "edit_key a < edit_key b"
      using that 1(3) by (auto simp: edits_clash_def edit_key_def less_prod_def)
    moreover have "edit_key a < edit_key b" using 1(2) by simp
    ultimately have "\<not> edits_clash a b" using 1(3,4) by (auto simp: all_compatible_def compatible_def clash_precedes)
    moreover have "\<not> windows_clash (b # es)" using 1 by (auto simp: all_compatible_def)
    ultimately show ?case by simp
  qed auto
qed

lemma text_merge_weave:
  assumes "edits T base line = Some ls" "edits T base incoming = Some is"
    "\<forall>e \<in> set ls \<union> set is. ed_start e \<le> ed_end e \<and> ed_end e \<le> length (tokenize_lines T base)"
  shows "text_merge T base line incoming =
    Some (let r = weave (tokenize_lines T base) (merged_edits ls is) in
      if all_compatible (set ls \<union> set is) \<and> length r \<le> FILE_LIMIT then Some r else None)"
proof -
  let ?es = "merged_edits ls is" and ?n = "length (tokenize_lines T base)"
  have iff: "\<not> windows_clash ?es \<longleftrightarrow> all_compatible (set ls \<union> set is)"
    using windows_clash_iff [OF merged_edits_strict, of ls "is" ?n] assms(3) by simp
  have "apply_edits (tokenize_lines T base) 0 [] ?es = Some (weave (tokenize_lines T base) ?es)" if "\<not> windows_clash ?es"
    using no_clash_in_order [OF merged_edits_strict that, of 0 ?n] assms(3) by (simp add: apply_edits_weave weave_def)
  with iff assms(1,2) show ?thesis by (auto simp: text_merge_def Let_def)
qed

section \<open>One changed side\<close>

text \<open>The edits of a diff are apart from each other, and applying them gives the other text.\<close>

lemma ops_edits_apart:
  "ops_cover old new i j ops \<Longrightarrow> successively (\<lambda>x y. do_tag x = TagEqual \<or> do_tag y = TagEqual) ops \<Longrightarrow>
    in_order (length old) i (ops_edits new ops) \<and>
    sorted_wrt (\<lambda>a b. ed_end a < ed_start b) (ops_edits new ops) \<and>
    (ops \<noteq> [] \<longrightarrow> do_tag (hd ops) = TagEqual \<longrightarrow> (\<forall>e \<in> set (ops_edits new ops). i < ed_start e))"
proof (induction ops arbitrary: i j)
  case (Cons op ops)
  then have IH: "in_order (length old) (snd (do_old op)) (ops_edits new ops)"
    "sorted_wrt (\<lambda>a b. ed_end a < ed_start b) (ops_edits new ops)"
    "ops \<noteq> [] \<longrightarrow> do_tag (hd ops) = TagEqual \<longrightarrow> (\<forall>e \<in> set (ops_edits new ops). snd (do_old op) < ed_start e)"
    by (auto simp: successively_Cons)
  note ge = in_order_bounds [OF IH(1)]
  show ?case
  proof (cases "do_tag op = TagEqual")
    case True
    with Cons.prems have lt: "i < snd (do_old op)" by simp
    have "in_order (length old) i (ops_edits new ops)"
      using IH(1) lt by (cases "ops_edits new ops") auto
    with True IH(2) ge lt show ?thesis by fastforce
  next
    case False
    then have "ops \<noteq> [] \<Longrightarrow> do_tag (hd ops) = TagEqual" using Cons.prems(2) by (auto simp: successively_Cons)
    with IH(3) have "\<forall>e \<in> set (ops_edits new ops). snd (do_old op) < ed_start e" by (cases ops) auto
    with False IH Cons.prems(1) show ?thesis by (auto simp: edit_of_def)
  qed
qed simp

lemma ops_edits_weave:
  "ops_cover old new i j ops \<Longrightarrow> successively (\<lambda>x y. do_tag x = TagEqual \<or> do_tag y = TagEqual) ops \<Longrightarrow>
    concat (map (woven_at old (ops_edits new ops)) [i..<Suc (length old)]) = concat (drop j new)"
proof (induction ops arbitrary: i j)
  case Nil
  then show ?case by (simp add: woven_at_def)
next
  case (Cons op ops)
  let ?i = "snd (do_old op)" and ?j = "snd (do_new op)"
  have r: "i \<le> ?i" "?i \<le> length old" "j \<le> ?j" "fst (do_new op) = j" "fst (do_old op) = i"
    and rest: "ops_cover old new ?i ?j ops"
    "successively (\<lambda>x y. do_tag x = TagEqual \<or> do_tag y = TagEqual) ops"
    using Cons.prems by (auto simp: successively_Cons)
  note IH = Cons.IH [OF rest]
  note ord = ops_edits_apart [OF rest]
  have new: "concat (drop j new) = concat (take (?j - j) (drop j new)) @ concat (drop ?j new)"
    using r(3) by (metis append_take_drop_id concat_append drop_drop le_add_diff_inverse2)
  show ?case
  proof (cases "do_tag op = TagEqual")
    case True
    have "concat (map (woven_at old (ops_edits new ops)) [i..<?i]) = concat (take (?i - i) (drop i old))"
      by (rule woven_gap) (use r ord in_order_bounds in auto)
    with True IH Cons.prems(1) upt_split [of i ?i "Suc (length old)"] r new show ?thesis by (simp del: upt_Suc)
  next
    case False
    have "in_order (length old) i (ops_edits new (op # ops))"
      using ops_edits_apart [OF Cons.prems] by blast
    with False r have "concat (map (woven_at old (ops_edits new (op # ops))) [i..<Suc (length old)]) =
        ed_replacement (edit_of new op) @ concat (map (woven_at old (ops_edits new ops)) [?i..<Suc (length old)])"
      using woven_edit [of old "edit_of new op" "ops_edits new ops"] by (simp add: edit_of_def)
    with IH new r show ?thesis by (simp add: edit_of_def)
  qed
qed

lemma differ_edits:
  fixes T and b s :: bytes
  assumes "differ_ok T"
  defines "es \<equiv> \<lambda>b s. ops_edits (tokenize_lines T s) (diff_ops T b s)"
  shows "edits T b s = Some (es b s)"
    and "\<forall>e \<in> set (es b s). ed_start e \<le> ed_end e \<and> ed_end e \<le> length (tokenize_lines T b)"
    and "sorted_wrt (\<lambda>a b. ed_end a < ed_start b) (es b s)"
    and "weave (tokenize_lines T b) (es b s) = s" and "es b b = []"
proof -
  have c: "ops_cover (tokenize_lines T b) (tokenize_lines T s) 0 0 (diff_ops T b s)"
    and a: "successively (\<lambda>x y. do_tag x = TagEqual \<or> do_tag y = TagEqual) (diff_ops T b s)"
    and t: "concat (tokenize_lines T s) = s"
    and e: "\<forall>op \<in> set (diff_ops T b b). do_tag op = TagEqual"
    using assms(1) by (auto simp: differ_ok_def)
  show "edits T b s = Some (es b s)"
    "\<forall>e \<in> set (es b s). ed_start e \<le> ed_end e \<and> ed_end e \<le> length (tokenize_lines T b)"
    using ops_cover_edits [OF c] unfolding edits_def es_def by auto
  show "sorted_wrt (\<lambda>a b. ed_end a < ed_start b) (es b s)"
    unfolding es_def using ops_edits_apart [OF c a] by blast
  show "weave (tokenize_lines T b) (es b s) = s"
    unfolding weave_def es_def ops_edits_weave [OF c a] using t by simp
  show "es b b = []" using e by (simp add: es_def ops_edits_def filter_empty_conv)
qed

lemma apart_compatible: "sorted_wrt (\<lambda>a b. ed_end a < ed_start b) es \<Longrightarrow> all_compatible (set es)"
proof (induction es)
  case (Cons e es)
  then have "all_compatible (set es)" "\<forall>x \<in> set es. precedes e x" by (auto simp: precedes_def)
  then show ?case unfolding all_compatible_def compatible_def by (metis set_ConsD)
qed (simp add: all_compatible_def)

lemma one_side_merge:
  assumes "differ_ok T" "length side \<le> FILE_LIMIT"
  shows "text_merge T base base side = Some (Some side) \<and> text_merge T base side base = Some (Some side) \<and>
    text_merge T base side side = Some (Some side)"
proof -
  let ?es = "ops_edits (tokenize_lines T side) (diff_ops T base side)"
  note d = differ_edits [OF assms(1), where b = base]
  have sorted: "sorted_wrt (\<lambda>a b. edit_key a < edit_key b) ?es"
    using d(3) [of side] by (rule sorted_wrt_mono_rel [rotated]) (use d(2) [of side] in \<open>force simp: edit_key_def less_prod_def\<close>)
  have compat: "all_compatible (set ?es)"
    using d(3) [of side] by (rule apart_compatible)
  have "text_merge T base line incoming = Some (Some side)"
    if "edits T base line = Some ls" "edits T base incoming = Some is" "set ls \<union> set is = set ?es" for line incoming ls "is"
    using text_merge_weave [OF that(1,2)] that(3) merged_edits_unique [OF sorted that(3) [symmetric]] compat assms(2) d(2,4) [of side]
    by (simp add: Let_def)
  from this [of base "[]" side ?es] this [of side ?es base "[]"] this [of side ?es side ?es] d(1) d(5)
  show ?thesis by simp
qed

lemma text_merge_outcome:
  assumes "differ_ok T"
  shows "\<exists>ls is es. edits T base line = Some ls \<and> edits T base incoming = Some is \<and>
    weave (tokenize_lines T base) ls = line \<and> weave (tokenize_lines T base) is = incoming \<and>
    set es = set ls \<union> set is \<and>
    sorted_wrt (\<lambda>a b. (ed_start a, ed_end a, ed_replacement a) < (ed_start b, ed_end b, ed_replacement b)) es \<and>
    text_merge T base line incoming =
      Some (let r = weave (tokenize_lines T base) es in
        if all_compatible (set ls \<union> set is) \<and> length r \<le> FILE_LIMIT then Some r else None)"
proof -
  let ?ls = "ops_edits (tokenize_lines T line) (diff_ops T base line)"
    and ?is = "ops_edits (tokenize_lines T incoming) (diff_ops T base incoming)"
  note d = differ_edits [OF assms, where b = base]
  have "\<forall>e \<in> set ?ls \<union> set ?is. ed_start e \<le> ed_end e \<and> ed_end e \<le> length (tokenize_lines T base)"
    using d(2) by blast
  from text_merge_weave [OF d(1) d(1) this] d(1,4) merged_edits_strict [of ?ls ?is, unfolded edit_key_def]
  show ?thesis by (intro exI [of _ ?ls] exI [of _ ?is] exI [of _ "merged_edits ?ls ?is"]) simp
qed

section \<open>Properties\<close>

text \<open>
  C18: The text merge is exact. It never reads a line out of range. The edits of a side are those that turn
  the base into it. The merge refuses exactly when, of two different edits of the two sides, neither lies
  before the other (adjacent edits are in order unless one is an insertion), or the result exceeds the
  limit; and its result has, at every position of the base, the edits of either side that start there,
  once and in order, and the base line unless an edit covers it.
\<close>

theorem text_merge_exact:
  assumes "differ_ok T"
  shows "\<exists>ls is es. edits T base line = Some ls \<and> edits T base incoming = Some is \<and>
    weave (tokenize_lines T base) ls = line \<and> weave (tokenize_lines T base) is = incoming \<and>
    set es = set ls \<union> set is \<and>
    sorted_wrt (\<lambda>a b. (ed_start a, ed_end a, ed_replacement a) < (ed_start b, ed_end b, ed_replacement b)) es \<and>
    text_merge T base line incoming =
      Some (let r = weave (tokenize_lines T base) es in
        if all_compatible (set ls \<union> set is) \<and> length r \<le> FILE_LIMIT then Some r else None)"
  by (rule text_merge_outcome [OF assms])

text \<open>
  The text merge does not depend on which side is the line and which is the incoming snapshot.
\<close>

theorem text_merge_symmetric: "text_merge T base line incoming = text_merge T base incoming line"
proof -
  have "merged_edits ls is = merged_edits is ls" for ls "is"
    by (rule merged_edits_unique [OF merged_edits_strict]) auto
  then show ?thesis by (auto simp: text_merge_def split: option.splits)
qed

text \<open>
  A side that changed nothing has no effect, and an edit made on both sides is applied once: merging
  a text with the base, in either order, or with itself gives that text, up to the size limit.
\<close>

theorem text_merge_sides:
  assumes "differ_ok T" "length side \<le> FILE_LIMIT"
  shows "text_merge T base base side = Some (Some side) \<and> text_merge T base side base = Some (Some side) \<and>
    text_merge T base side side = Some (Some side)"
  using one_side_merge [OF assms, of base] by blast

text \<open>A differ that satisfies the contract: one line per text, replaced as a whole.\<close>

definition sample_differ :: text_differ where
  "sample_differ = \<lparr>diff_ops = \<lambda>b s.
       if b = s then (if b = [] then [] else [\<lparr>do_tag = TagEqual, do_old = (0, 1), do_new = (0, 1)\<rparr>])
       else [\<lparr>do_tag = TagReplace, do_old = (0, if b = [] then 0 else 1), do_new = (0, if s = [] then 0 else 1)\<rparr>],
     tokenize_lines = \<lambda>s. if s = [] then [] else [s]\<rparr>"

lemma sample_differ_ok: "differ_ok sample_differ"
  unfolding differ_ok_def sample_differ_def by simp

theorem text_merge_exact_witness:
  "let e = \<lambda>r. \<lparr>ed_start = 0, ed_end = 1, ed_replacement = r\<rparr> in
   text_merge sample_differ [1] [2] [3] = Some None \<and> \<not> compatible (e [2]) (e [3]) \<and>
   text_merge sample_differ [1] [2] [1] = Some (Some [2]) \<and> (\<exists>es. set es = {e [2]} \<and> weave [[1]] es = [2])"
proof -
  have e: "edits sample_differ [1] [2] = Some [\<lparr>ed_start = 0, ed_end = 1, ed_replacement = [2]\<rparr>]"
    "edits sample_differ [1] [1] = Some []" "tokenize_lines sample_differ [1] = [[1]]" by code_simp+
  have m: "text_merge sample_differ [1] [2] [3] = Some None" "text_merge sample_differ [1] [2] [1] = Some (Some [2])"
    by code_simp (simp add: one_side_merge [OF sample_differ_ok] FILE_LIMIT_def)
  have "\<exists>es. set es = {\<lparr>ed_start = 0, ed_end = 1, ed_replacement = [2]\<rparr>} \<and> weave [[1]] es = [2]"
    using text_merge_exact [OF sample_differ_ok, of "[1]" "[2]" "[1]"] e m(2) by (auto simp: Let_def split: if_splits)
  with m show ?thesis by (simp add: compatible_def precedes_def)
qed

theorem text_merge_sides_witness:
  "text_merge sample_differ [1] [1] [2] = Some (Some [2]) \<and> text_merge sample_differ [1] [2] [1] = Some (Some [2]) \<and>
   text_merge sample_differ [1] [2] [2] = Some (Some [2])"
  by (rule text_merge_sides [OF sample_differ_ok]) (simp add: FILE_LIMIT_def)

section \<open>Merging the conflicts of a plan\<close>

text \<open>A text in the sense of the merge: only tabs, line feeds and carriage returns of the control characters.\<close>

definition plain_text :: "bytes \<Rightarrow> bool" where
  "plain_text t \<longleftrightarrow> utf8_valid t \<and> (\<forall>b \<in> set t. b \<in> {0x09, 0x0A, 0x0D} \<or> 0x20 \<le> b \<and> b \<noteq> 0x7F) \<and>
     (\<forall>p c q. t = p @ 0xC2 # c # q \<longrightarrow> c < 0x80 \<or> 0x9F < c)"

text \<open>The stored content of a file, whole, of the recorded length and under its hash.\<close>

definition verified_text :: "(bytes \<Rightarrow> (bytes, 'e) result) \<Rightarrow> (bytes \<Rightarrow> bytes) \<Rightarrow> file_entry \<Rightarrow> bytes \<Rightarrow> bool" where
  "verified_text open_blob hash_bytes side t \<longleftrightarrow>
     open_blob (fe_hash side) = Inr t \<and> length t = unat (fe_bytes side) \<and> length t \<le> FILE_LIMIT \<and>
     hash_bytes t = fe_hash side \<and> plain_text t"

text \<open>
  What one merged conflict leaves: the file of its path, at the policy and mode all three sides share,
  whose content is the merge of the three verified texts.
\<close>

definition text_merged ::
  "text_differ \<Rightarrow> (bytes \<Rightarrow> (bytes, 'e) result) \<Rightarrow> (bytes \<Rightarrow> bytes) \<Rightarrow> manifest list \<Rightarrow> (bytes \<times> bytes) list
    \<Rightarrow> pending_conflict \<Rightarrow> file_entry \<Rightarrow> bool" where
  "text_merged T open_blob hash_bytes maps generated c f \<longleftrightarrow>
     pc_kind c = BothModifiedFile \<and> fe_path f = pc_path c \<and> \<not> fe_symlink f \<and> map_of generated (fe_hash f) \<noteq> None \<and>
     (\<exists>b l i content.
        list_all2 (\<lambda>m t. \<exists>side. map_of m (pc_path c) = Some side \<and> fe_policy side = fe_policy f \<and> flags side = flags f \<and>
          verified_text open_blob hash_bytes side t) maps [b, l, i] \<and>
        text_merge T b l i = Some (Some content) \<and>
        fe_hash f = hash_bytes content \<and> fe_bytes f = of_nat (length content))"

definition applied ::
  "text_differ \<Rightarrow> (bytes \<Rightarrow> (bytes, 'e) result) \<Rightarrow> (bytes \<Rightarrow> bytes) \<Rightarrow> manifest list \<Rightarrow> file_entry list
    \<Rightarrow> pending_conflict list \<Rightarrow> apply_state \<Rightarrow> bool" where
  "applied T open_blob hash_bytes maps files0 handled s \<longleftrightarrow>
     bt_wf (as_generated s) \<and> (\<forall>x \<in> set (as_generated s). hash_bytes (snd x) = fst x) \<and>
     (\<exists>merged files. as_merged s = files0 @ files \<and> mset handled = mset merged + mset (as_unresolved s) \<and>
        list_all2 (text_merged T open_blob hash_bytes maps (as_generated s)) merged files) \<and>
     sum_list (map (length \<circ> snd) (as_generated s)) \<le> as_total s \<and> as_total s \<le> TOTAL_LIMIT"

lemma text_merge_limit: "text_merge T b l i = Some (Some r) \<Longrightarrow> length r \<le> FILE_LIMIT"
  by (auto simp: text_merge_def Let_def split: option.splits if_splits)

lemma sum_bt_insert: "sum_list (map (length \<circ> snd) (bt_insert k v m)) \<le> sum_list (map (length \<circ> snd) m) + length v"
  by (induction k v m rule: bt_insert.induct) auto

lemma collect_results_map: "collect_results rs = Inr xs \<longleftrightarrow> rs = map Inr xs"
  by (induction rs arbitrary: xs) (auto simp: Cons_eq_map_conv)

lemma map_filter_full:
  "length (List.map_filter f xs) = length xs \<Longrightarrow> list_all2 (\<lambda>x y. f x = Some y) xs (List.map_filter f xs)"
proof (induction xs)
  case (Cons x xs)
  have "length (List.map_filter f xs) \<le> length xs" by (induction xs) (auto simp: map_filter_simps split: option.splits)
  with Cons show ?case by (auto simp: map_filter_simps split: option.splits)
qed (simp add: map_filter_simps)

lemma has_control_iff:
  "\<not> has_control t \<longleftrightarrow> (\<forall>b \<in> set t. b \<in> {0x09, 0x0A, 0x0D} \<or> 0x20 \<le> b \<and> b \<noteq> 0x7F) \<and>
     (\<forall>p c q. t = p @ 0xC2 # c # q \<longrightarrow> c < 0x80 \<or> 0x9F < c)"
proof (induction t)
  case (Cons b t)
  let ?lead = "case t of c # _ \<Rightarrow> c < 0x80 \<or> 0x9F < c | [] \<Rightarrow> True"
  have pairs: "(\<forall>p c q. b # t = p @ 0xC2 # c # q \<longrightarrow> c < 0x80 \<or> 0x9F < c) \<longleftrightarrow>
      (b = 0xC2 \<longrightarrow> ?lead) \<and> (\<forall>p c q. t = p @ 0xC2 # c # q \<longrightarrow> c < 0x80 \<or> 0x9F < c)"
    unfolding Cons_eq_append_conv by (cases t) auto
  have "(case t of c # _ \<Rightarrow> 0x80 \<le> c \<and> c \<le> 0x9F | [] \<Rightarrow> False) \<longleftrightarrow> \<not> ?lead"
    by (cases t) (simp_all add: not_less)
  moreover have "(b < 0x20 \<or> b = 0x7F) \<and> b \<noteq> 0x0A \<and> b \<noteq> 0x0D \<and> b \<noteq> 0x09 \<longleftrightarrow>
      \<not> (b \<in> {0x09, 0x0A, 0x0D} \<or> 0x20 \<le> b \<and> b \<noteq> 0x7F)"
    unfolding not_le [symmetric] by blast
  ultimately show ?case using Cons unfolding has_control.simps pairs by (simp del: insert_iff) blast
qed simp

lemma read_text_verified:
  assumes "read_text ob h side = Inr (Some t)" "unat (fe_bytes side) \<le> FILE_LIMIT"
  shows "verified_text ob h side t"
proof -
  obtain content where c: "ob (fe_hash side) = Inr content" "t = take (FILE_LIMIT + 1) content"
      "of_nat (length t) = fe_bytes side" "h t = fe_hash side" "utf8_valid t" "\<not> has_control t"
    using assms(1) by (auto simp: read_text_def and_then_Inr map_err_Inr Let_def split: if_splits)
  have "length t < 2 ^ 64" using c(2) by (simp add: FILE_LIMIT_def)
  then have n: "length t = unat (fe_bytes side)" unfolding c(3) [symmetric] by (simp add: unat_of_nat take_bit_nat_eq_self)
  then have "t = content" using c(2) assms(2) by simp
  with c n assms(2) show ?thesis unfolding verified_text_def plain_text_def has_control_iff [symmetric] by simp
qed

lemma apply_pending_applied:
  assumes inv: "applied T ob h maps files0 handled s" and len: "length maps = 3" and keyed: "\<forall>m \<in> set maps. keyed_manifest m"
    and step: "apply_pending T ob h maps s c = Some (Inr s')"
  shows "applied T ob h maps files0 (handled @ [c]) s'"
proof -
  define sides where "sides = List.map_filter (\<lambda>m. map_of m (pc_path c)) maps"
  obtain merged files where m: "as_merged s = files0 @ files" "mset handled = mset merged + mset (as_unresolved s)"
      "list_all2 (text_merged T ob h maps (as_generated s)) merged files"
    using inv by (auto simp: applied_def)
  consider (keep) "s' = s\<lparr>as_unresolved := as_unresolved s @ [c]\<rparr>"
    | (merge) texts content f where "eligible c sides (as_total s)"
        "collect_results (map (read_text ob h) sides) = Inr texts" "merge_texts T texts = Some (Some content)"
        "f = (sides ! 0)\<lparr>fe_hash := h content, fe_bytes := of_nat (length content)\<rparr>"
        "s' = s\<lparr>as_total := as_total s + length content, as_generated := bt_insert (h content) content (as_generated s),
          as_merged := as_merged s @ [f]\<rparr>"
    using step by (auto simp: apply_pending_def Let_def sides_def split: if_splits sum.splits option.splits)
  then show ?thesis
  proof cases
    case keep
    with m inv show ?thesis unfolding applied_def by auto
  next
    case merge
    let ?g = "bt_insert (h content) content (as_generated s)"
    have n: "length sides = 3" using merge(1) by (simp add: eligible_def)
    have all: "list_all2 (\<lambda>m side. map_of m (pc_path c) = Some side) maps sides"
      unfolding sides_def by (rule map_filter_full) (use n len sides_def in simp)
    obtain b l i where t: "texts = [Some b, Some l, Some i]" "text_merge T b l i = Some (Some content)"
      using merge(2,3) n arg_cong [of _ _ length, OF merge(2) [unfolded collect_results_map]]
      by (auto simp: merge_texts_def numeral_3_eq_3 length_Suc_conv split: option.splits)
    have read: "list_all2 (\<lambda>side t. read_text ob h side = Inr (Some t)) sides [b, l, i]"
      using merge(2) unfolding t(1) collect_results_map by (auto simp: map_eq_Cons_conv)
    have "unat (fe_bytes side) \<le> FILE_LIMIT" if "side \<in> set sides" for side
      using merge(1) that by (simp add: eligible_def list_all_iff)
    then have verified: "list_all2 (verified_text ob h) sides [b, l, i]"
      by (intro list.rel_mono_strong [OF read] read_text_verified)
    have "flags f = flags (sides ! 0)" "fe_policy f = fe_policy (sides ! 0)" unfolding merge(4) by (simp_all add: flags_def)
    then have side: "side \<in> set sides \<Longrightarrow> fe_policy side = fe_policy f \<and> flags side = flags f \<and> \<not> fe_symlink side" for side
      using merge(1) unfolding eligible_def list_all_iff by metis
    have f: "text_merged T ob h maps ?g c f"
      unfolding text_merged_def
    proof (intro conjI exI)
      have "maps ! 0 \<in> set maps" "map_of (maps ! 0) (pc_path c) = Some (sides ! 0)"
        using list_all2_nthD [OF all, of 0] len by simp_all
      then show "fe_path f = pc_path c" using keyed merge(4) by (auto simp: keyed_manifest_def)
      have "sides ! 0 \<in> set sides" using n by simp
      with side merge(4) show "\<not> fe_symlink f" by simp
      show "list_all2 (\<lambda>m t. \<exists>side. map_of m (pc_path c) = Some side \<and> fe_policy side = fe_policy f \<and> flags side = flags f \<and>
          verified_text ob h side t) maps [b, l, i]"
        using all verified side by (fastforce simp: list_all2_conv_all_nth)
    qed (use merge t in \<open>auto simp: eligible_def lookup_insert\<close>)
    moreover have "list_all2 (text_merged T ob h maps ?g) merged files"
      using m(3) by (rule list_all2_mono) (auto simp: text_merged_def lookup_insert)
    moreover have "sum_list (map (length \<circ> snd) ?g) \<le> as_total s + length content"
      using inv sum_bt_insert [of "h content" content "as_generated s"] by (auto simp: applied_def)
    moreover have "as_total s + length content \<le> TOTAL_LIMIT"
      using merge(1) text_merge_limit [OF t(2)] by (simp add: eligible_def)
    ultimately show ?thesis using inv m merge(5) unfolding applied_def
      by (auto simp: set_bt_insert intro!: exI [of _ "merged @ [c]"] exI [of _ "files @ [f]"] list_all2_appendI)
  qed
qed

lemma apply_all_applied:
  assumes "applied T ob h maps files0 handled s" "length maps = 3" "\<forall>m \<in> set maps. keyed_manifest m"
    "apply_all (apply_pending T ob h maps) s ps = Some (Inr s')"
  shows "applied T ob h maps files0 (handled @ ps) s'"
  using assms
proof (induction ps arbitrary: s handled)
  case (Cons p ps)
  then obtain t where "apply_pending T ob h maps s p = Some (Inr t)" "apply_all (apply_pending T ob h maps) t ps = Some (Inr s')"
    by (auto split: option.splits sum.splits)
  with Cons.IH [OF apply_pending_applied [OF Cons.prems(1-3)]] Cons.prems(2,3) show ?case by simp
qed simp

lemma map_sum_Inr: "map_sum f g r = Inr y \<longleftrightarrow> (\<exists>x. r = Inr x \<and> y = g x)"
  by (cases r) auto

text \<open>Over a differ that satisfies its contract, the conflicts of a plan are always worked through.\<close>

lemma apply_texts_returns:
  assumes "differ_ok T"
  shows "apply_texts T open_blob hash_bytes plan base line incoming \<noteq> None"
proof -
  have one: "apply_pending T open_blob hash_bytes maps s p \<noteq> None" for maps s p
    using text_merge_outcome [OF assms]
    by (auto simp: apply_pending_def merge_texts_def Let_def split: sum.splits option.splits) (metis option.distinct(1))
  have "apply_all (apply_pending T open_blob hash_bytes maps) s ps \<noteq> None" for maps s ps
    by (induction ps arbitrary: s) (use one in \<open>auto split: option.splits sum.splits\<close>)
  then show ?thesis by (simp add: apply_texts_def Let_def)
qed

text \<open>
  C40: Merging the texts of a plan is conservative. Every conflict is either kept or replaced by one file
  at its path, which only happens when all three sides exist with one mode and one access policy that
  the file keeps, and whose content is the merge of the three verified texts. Generated contents are
  stored under their hashes and together stay within the limit.
\<close>

theorem apply_texts_conservative:
  assumes "apply_texts T open_blob hash_bytes plan base line incoming = Some (Inr (plan', generated))"
  shows "(\<exists>merged files. mset (tp_conflicts plan) = mset merged + mset (tp_conflicts plan') \<and>
      mset (tp_merged_files plan') = mset (tp_merged_files plan) + mset files \<and>
      list_all2 (text_merged T open_blob hash_bytes
        [manifest_map (optional_snapshot_files base), manifest_map (optional_snapshot_files line), manifest_map (sn_files incoming)]
        generated) merged files) \<and>
    (\<forall>x \<in> set generated. hash_bytes (snd x) = fst x) \<and> sum_list (map (length \<circ> snd) generated) \<le> TOTAL_LIMIT"
proof -
  let ?maps = "[manifest_map (optional_snapshot_files base), manifest_map (optional_snapshot_files line), manifest_map (sn_files incoming)]"
  let ?s = "\<lparr>as_generated = [], as_total = 0, as_unresolved = [], as_merged = tp_merged_files plan\<rparr>"
  obtain s where s: "apply_all (apply_pending T open_blob hash_bytes ?maps) ?s (tp_conflicts plan) = Some (Inr s)"
      "plan' = \<lparr>tp_merged_files = sort_key fe_path (as_merged s), tp_conflicts = as_unresolved s\<rparr>" "generated = as_generated s"
    using assms by (auto simp: apply_texts_def optional_snapshot_files_def [of "Some incoming"] map_sum_Inr)
  have "applied T open_blob hash_bytes ?maps (tp_merged_files plan) ([] @ tp_conflicts plan) s"
    by (rule apply_all_applied [OF _ _ _ s(1)]) (auto simp: applied_def keyed_manifest_map)
  then show ?thesis unfolding applied_def s(2,3) by (auto simp: ac_simps) (metis mset_append)
qed

definition sample_text_snapshot :: "file_entry \<Rightarrow> unit cli_snapshot" where
  "sample_text_snapshot f = \<lparr>sn_author = None, sn_git = None, sn_id = [1], sn_change_id = [], sn_parent_snapshot = None,
     sn_merge_parents = [], sn_message = [], sn_manifest_hash = [], sn_files = [f],
     sn_policy = public_policy, sn_created_at = 0\<rparr>"

theorem apply_texts_conservative_witness:
  "let old = sample_file [0x70] [0x61] [[1]]; new = sample_file [0x70] [0x62] [[1]];
       c = \<lparr>pc_path = [0x70], pc_kind = BothModifiedFile, pc_policy = fe_policy old, pc_file_policies = []\<rparr>;
       plan' = \<lparr>tp_merged_files = [new], tp_conflicts = []\<rparr>
   in apply_texts sample_differ (Inr :: _ \<Rightarrow> (_, unit) result) id \<lparr>tp_merged_files = [], tp_conflicts = [c]\<rparr>
        (Some (sample_text_snapshot old)) (Some (sample_text_snapshot new)) (sample_text_snapshot old) =
        Some (Inr (plan', [([0x62], [0x62])])) \<and>
      text_merged sample_differ (Inr :: _ \<Rightarrow> (_, unit) result) id [[([0x70], old)], [([0x70], new)], [([0x70], old)]] [([0x62], [0x62])] c new"
proof -
  let ?old = "sample_file [0x70] [0x61] [[1]]" and ?new = "sample_file [0x70] [0x62] [[1]]"
  let ?c = "\<lparr>pc_path = [0x70], pc_kind = BothModifiedFile, pc_policy = fe_policy ?old, pc_file_policies = []\<rparr>"
  have m: "text_merge sample_differ [0x61] [0x62] [0x61] = Some (Some [0x62])"
    "text_merge sample_differ [0x61] [0x61] [0x62] = Some (Some [0x62])"
    using one_side_merge [OF sample_differ_ok, of "[0x62]" "[0x61]"] by (simp_all add: FILE_LIMIT_def)
  have run: "apply_texts sample_differ (Inr :: _ \<Rightarrow> (_, unit) result) id \<lparr>tp_merged_files = [], tp_conflicts = [?c]\<rparr>
      (Some (sample_text_snapshot ?old)) (Some (sample_text_snapshot ?new)) (sample_text_snapshot ?old) =
      Some (Inr (\<lparr>tp_merged_files = [?new], tp_conflicts = []\<rparr>, [([0x62], [0x62])]))"
    by (simp add: apply_texts_def apply_pending_def eligible_def read_text_def sample_file_def sample_text_snapshot_def manifest_map_def
        optional_snapshot_files_def map_filter_simps flags_def FILE_LIMIT_def TOTAL_LIMIT_def merge_texts_def m)
  show ?thesis
    using run apply_texts_conservative [OF run]
    by (simp add: Let_def list_all2_Cons2 optional_snapshot_files_def sample_text_snapshot_def manifest_map_def)
      (auto simp: sample_file_def)
qed

end
