(* ===== verification/Ancestry.thy ===== *)
theory Ancestry
  imports Access Worklist
begin

text \<open>
  Snapshot ancestry, \<open>src/ancestry.rs\<close>: the validation of a graph of snapshots by a depth-first
  search with colours, the ancestors of a snapshot, and the merge base of two snapshots. Reading a
  snapshot of the repository is the parameter \<open>read_snapshot\<close>; the other errors are the messages of
  the code. A result \<open>None\<close> is a run that does not return, because it does not end or panics.
\<close>

datatype 'e ancestry_error =
    ReadSnapshot 'e
  | AncestryCycle
  | MissingSnapshotParent
  | DuplicateParents
  | MultipleMergeBases

type_synonym 'git snapshot_graph = "(bytes \<times> 'git cli_snapshot) list"

definition parents :: "'git cli_snapshot \<Rightarrow> bytes list" where
  "parents snapshot = (case sn_parent_snapshot snapshot of Some p \<Rightarrow> [p] | None \<Rightarrow> []) @ sn_merge_parents snapshot"

section \<open>Validation\<close>

text \<open>
  The inner loop. The stack is a list with its top first, and the colours are 1 for a snapshot that
  is being visited and 2 for a finished one. The first measure counts the snapshots without either.
\<close>

definition uncoloured :: "'git snapshot_graph \<Rightarrow> (bytes \<times> nat) list \<Rightarrow> bytes set" where
  "uncoloured graph colors = {x \<in> fst ` set graph. map_of colors x \<noteq> Some 1 \<and> map_of colors x \<noteq> Some 2}"

lemma uncoloured_leave:
  "card (uncoloured graph (bt_insert x 2 colors)) < card (uncoloured graph colors) \<or>
    card (uncoloured graph (bt_insert x 2 colors)) = card (uncoloured graph colors)"
  by (intro le_imp_less_or_eq card_mono) (auto simp: uncoloured_def lookup_insert)

lemma uncoloured_visit:
  assumes "map_of graph x = Some s" "map_of colors x \<noteq> Some 1" "map_of colors x \<noteq> Some 2"
  shows "card (uncoloured graph (bt_insert x 1 colors)) < card (uncoloured graph colors)"
proof (intro psubset_card_mono)
  have "x \<in> uncoloured graph colors" using assms weak_map_of_SomeI by (force simp: uncoloured_def image_iff dest: map_of_SomeD)
  then show "uncoloured graph (bt_insert x 1 colors) \<subset> uncoloured graph colors"
    by (auto simp: uncoloured_def lookup_insert)
qed (simp add: uncoloured_def)

function visit_stack ::
  "'git snapshot_graph \<Rightarrow> (bytes \<times> bool) list \<Rightarrow> (bytes \<times> nat) list \<Rightarrow> ((bytes \<times> nat) list, 'e ancestry_error) result" where
  "visit_stack graph [] colors = Inr colors"
| "visit_stack graph ((x, leaving) # stack) colors =
     (if leaving then visit_stack graph stack (bt_insert x 2 colors)
      else if map_of colors x = Some 2 then visit_stack graph stack colors
      else if map_of colors x = Some 1 then Inl AncestryCycle
      else case map_of graph x of
        None \<Rightarrow> Inl MissingSnapshotParent
      | Some snapshot \<Rightarrow>
          if length (btset (parents snapshot)) \<noteq> length (parents snapshot) then Inl DuplicateParents
          else visit_stack graph (rev (map (\<lambda>parent. (parent, False)) (parents snapshot)) @ (x, True) # stack)
                 (bt_insert x 1 colors))"
  by pat_completeness auto

termination visit_stack
  by (relation "inv_image (less_than <*lex*> less_than)
      (\<lambda>(graph, stack, colors). (card (uncoloured graph colors), length stack))")
    (use uncoloured_leave in \<open>auto simp: uncoloured_visit simp del: One_nat_def\<close>)

definition validate_graph :: "'git snapshot_graph \<Rightarrow> (unit, 'e ancestry_error) result" where
  "validate_graph snapshots =
     discard (try_fold (\<lambda>colors root. visit_stack snapshots [(root, False)] colors) [] (map fst snapshots))"

section \<open>Ancestors\<close>

text \<open>\<open>graph[\&id]\<close> panics when the snapshot is not in the graph.\<close>

function ancestors_from ::
  "'git snapshot_graph \<Rightarrow> bytes list \<Rightarrow> bytes list \<Rightarrow> bytes list option" where
  "ancestors_from graph visited pending =
     (if pending = [] then Some visited
      else let x = last pending; pending = butlast pending in
        if x \<in> set visited then ancestors_from graph visited pending
        else case map_of graph x of
          None \<Rightarrow> None
        | Some snapshot \<Rightarrow> ancestors_from graph (btset (x # visited)) (pending @ parents snapshot))"
  by pat_completeness auto

lemma unvisited_card:
  assumes "map_of graph x = Some s" "x \<notin> set visited"
  shows "card (fst ` set graph - set (btset (x # visited))) < card (fst ` set graph - set visited)"
  using assms by (intro psubset_card_mono) (force dest: map_of_SomeD)+

termination ancestors_from
  by (relation "inv_image (less_than <*lex*> less_than)
      (\<lambda>(graph, visited, pending). (card (fst ` set graph - set visited), length pending))")
    (auto dest: unvisited_card)

declare ancestors_from.simps [simp del]

definition ancestors :: "bytes \<Rightarrow> 'git snapshot_graph \<Rightarrow> bytes list option" where
  "ancestors root graph = ancestors_from graph [] [root]"

section \<open>Merge base\<close>

partial_function (option) collect_graph ::
  "(bytes \<Rightarrow> ('git cli_snapshot, 'e) result) \<Rightarrow> bytes list \<Rightarrow> 'git snapshot_graph
    \<Rightarrow> ('git snapshot_graph, 'e ancestry_error) result option" where
  [code]: "collect_graph read_snapshot pending graph =
     (if pending = [] then Some (Inr graph)
      else if map_of graph (last pending) \<noteq> None then collect_graph read_snapshot (butlast pending) graph
      else case read_snapshot (last pending) of
        Inl e \<Rightarrow> Some (Inl (ReadSnapshot e))
      | Inr snapshot \<Rightarrow>
          collect_graph read_snapshot (butlast pending @ parents snapshot) (bt_insert (last pending) snapshot graph))"

text \<open>The common ancestors less the parents of any of them.\<close>

definition best_common :: "'git snapshot_graph \<Rightarrow> bytes list \<Rightarrow> bytes list option" where
  "best_common graph common =
     map_option (\<lambda>snapshots. foldl (\<lambda>best parent. filter (\<lambda>x. x \<noteq> parent) best) common (concat (map parents snapshots)))
       (opt_all (map (map_of graph) common))"

definition merge_base ::
  "(bytes \<Rightarrow> ('git cli_snapshot, 'e) result) \<Rightarrow> bytes option \<Rightarrow> 'git cli_snapshot \<Rightarrow> bytes option
    \<Rightarrow> ('git cli_snapshot option, 'e ancestry_error) result option" where
  "merge_base read_snapshot line incoming legacy_base =
     (case line of
        None \<Rightarrow> Some (Inr None)
      | Some line \<Rightarrow>
          (case collect_graph read_snapshot [line, sn_id incoming] [] of
             None \<Rightarrow> None
           | Some (Inl e) \<Rightarrow> Some (Inl e)
           | Some (Inr graph) \<Rightarrow>
               (case validate_graph graph of
                  Inl e \<Rightarrow> Some (Inl e)
                | Inr _ \<Rightarrow>
                    (case (ancestors line graph, ancestors (sn_id incoming) graph) of
                       (Some left, Some right) \<Rightarrow>
                         (case best_common graph (filter (\<lambda>x. x \<in> set right) left) of
                            None \<Rightarrow> None
                          | Some best \<Rightarrow>
                              if length best > 1 then Some (Inl MultipleMergeBases)
                              else case best of
                                x # _ \<Rightarrow> map_option (\<lambda>s. Inr (Some s)) (map_of graph x)
                              | [] \<Rightarrow>
                                  (case legacy_base of
                                     None \<Rightarrow> Some (Inr None)
                                   | Some x \<Rightarrow>
                                       Some (map_err ReadSnapshot (and_then (read_snapshot x) (\<lambda>s. Inr (Some s))))))
                     | _ \<Rightarrow> None))))"

end
