(* ===== verification/Ancestry_Spec.thy ===== *)
theory Ancestry_Spec
  imports Ancestry
begin

text \<open>
  Correctness of the ancestry code: validation accepts exactly the graphs in which every snapshot
  has distinct parents that are all present and no snapshot is its own ancestor, and the merge
  base is the greatest common ancestor, with an error when there are several maximal ones.
\<close>

section \<open>Sound graphs\<close>

definition parent_rel :: "'git snapshot_graph \<Rightarrow> (bytes \<times> bytes) set" where
  "parent_rel g = {(x, p). \<exists>s. map_of g x = Some s \<and> p \<in> set (parents s)}"

definition parents_distinct :: "'git snapshot_graph \<Rightarrow> bytes \<Rightarrow> bool" where
  "parents_distinct g x \<longleftrightarrow> (\<exists>s. map_of g x = Some s \<and> distinct (parents s))"

definition sound_graph :: "'git snapshot_graph \<Rightarrow> bool" where
  "sound_graph g \<longleftrightarrow> (\<forall>x \<in> dom (map_of g). parents_distinct g x) \<and>
     Range (parent_rel g) \<subseteq> dom (map_of g) \<and> acyclic (parent_rel g)"

lemma length_btset: "length (btset xs) = length xs \<longleftrightarrow> distinct xs"
  by (simp add: btset_eq card_distinct distinct_card [symmetric] eq_commute [of "length xs"])
    (metis card_distinct distinct_card)

section \<open>The depth-first search\<close>

definition black :: "(bytes \<times> nat) list \<Rightarrow> bytes set" where
  "black colors = {x. map_of colors x = Some 2}"

text \<open>An entry was pushed for a parent of the nearest snapshot below it that is being visited.\<close>

primrec chained :: "'git snapshot_graph \<Rightarrow> bytes \<Rightarrow> (bytes \<times> bool) list \<Rightarrow> bool" where
  "chained g root [] \<longleftrightarrow> True"
| "chained g root (e # stack) \<longleftrightarrow>
     (case find snd stack of Some t \<Rightarrow> (fst t, fst e) \<in> parent_rel g | None \<Rightarrow> fst e = root) \<and> chained g root stack"

text \<open>A parent of a snapshot that is being visited is finished or above it on the stack.\<close>

primrec awaited :: "'git snapshot_graph \<Rightarrow> bytes set \<Rightarrow> (bytes \<times> bool) list \<Rightarrow> bool" where
  "awaited g acc [] \<longleftrightarrow> True"
| "awaited g acc (e # stack) \<longleftrightarrow>
     (snd e \<longrightarrow> parents_distinct g (fst e) \<and> parent_rel g `` {fst e} \<subseteq> acc) \<and> awaited g (insert (fst e) acc) stack"

definition searching :: "'git snapshot_graph \<Rightarrow> bytes \<Rightarrow> (bytes \<times> bool) list \<Rightarrow> (bytes \<times> nat) list \<Rightarrow> bool" where
  "searching g root stack colors \<longleftrightarrow>
     {x. map_of colors x = Some 1} = {x. (x, True) \<in> set stack} \<and>
     distinct (map fst (filter snd stack)) \<and>
     chained g root stack \<and> awaited g (black colors) stack \<and>
     (\<forall>x \<in> black colors. parents_distinct g x) \<and> parent_rel g `` black colors \<subseteq> black colors \<and>
     acyclic (parent_rel g \<inter> black colors \<times> UNIV) \<and>
     (root \<in> black colors \<or> root \<in> fst ` set stack)"

lemma black_insert: "black (bt_insert x c colors) = (if c = 2 then insert x (black colors) else black colors - {x})"
  by (auto simp: black_def lookup_insert)

lemma awaited_mono: "awaited g acc stack \<Longrightarrow> acc \<subseteq> acc' \<Longrightarrow> awaited g acc' stack"
proof (induction stack arbitrary: acc acc')
  case (Cons e stack)
  then have "awaited g (insert (fst e) acc') stack" using insert_mono [of acc acc' "fst e"] by auto
  with Cons.prems show ?case by auto
qed simp

lemma awaited_append_False:
  "awaited g acc (map (\<lambda>p. (p, False)) ps @ stack) \<longleftrightarrow> awaited g (set ps \<union> acc) stack"
  by (induction ps arbitrary: acc) simp_all

lemma find_append_False [simp]: "find snd (map (\<lambda>p. (p, False)) ps @ stack) = find snd stack"
  by (induction ps) simp_all

lemma chained_append_False:
  "chained g root (map (\<lambda>p. (p, False)) ps @ (x, True) # stack) \<longleftrightarrow>
    (\<forall>p \<in> set ps. (x, p) \<in> parent_rel g) \<and> chained g root ((x, True) # stack)"
  by (induction ps) (auto split: option.splits)

lemma chained_path:
  "chained g root stack \<Longrightarrow> (x, True) \<in> set stack \<Longrightarrow>
    \<exists>t. find snd stack = Some (t, True) \<and> (x, t) \<in> (parent_rel g)\<^sup>*"
proof (induction stack)
  case (Cons e stack)
  obtain y b where e: "e = (y, b)" by (cases e)
  show ?case
  proof (cases "e = (x, True)")
    case False
    with Cons obtain t where t: "find snd stack = Some (t, True)" "(x, t) \<in> (parent_rel g)\<^sup>*" by auto
    then have "(t, y) \<in> parent_rel g" using Cons.prems(1) e by simp
    with t e show ?thesis by auto
  qed simp
qed simp

text \<open>The three steps that go on.\<close>

lemma searching_leave:
  assumes "searching g root ((x, True) # stack) colors"
  shows "searching g root stack (bt_insert x 2 colors)"
proof -
  let ?R = "parent_rel g" and ?b = "black colors"
  from assms have px: "?R `` {x} \<subseteq> ?b" "parents_distinct g x" by (auto simp: searching_def)
  have "acyclic (?R \<inter> insert x ?b \<times> UNIV)"
  proof (rule acyclicI, intro allI notI)
    fix y assume c: "(y, y) \<in> (?R \<inter> insert x ?b \<times> UNIV)\<^sup>+"
    have closed: "?R `` insert x ?b \<subseteq> ?b" using px assms unfolding searching_def by blast
    have stay: "d \<in> ?b \<and> (a \<in> ?b \<longrightarrow> (a, d) \<in> (?R \<inter> ?b \<times> UNIV)\<^sup>+)"
      if "(a, d) \<in> (?R \<inter> insert x ?b \<times> UNIV)\<^sup>+" for a d
      using that
    proof (induction rule: trancl_induct)
      case (base y)
      with closed show ?case by auto
    next
      case (step y z)
      then have "(y, z) \<in> ?R \<inter> ?b \<times> UNIV" by blast
      with step closed show ?case by (blast intro: trancl.trancl_into_trancl)
    qed
    from stay [OF c] have "(y, y) \<in> (?R \<inter> ?b \<times> UNIV)\<^sup>+" by blast
    with assms show False unfolding searching_def acyclic_def by blast
  qed
  moreover have "{y. map_of (bt_insert x 2 colors) y = Some 1} = {y. (y, True) \<in> set stack}"
    using assms by (auto simp: searching_def lookup_insert image_iff set_eq_iff)
  ultimately show ?thesis using assms px unfolding searching_def black_insert by auto
qed

lemma searching_skip:
  assumes "searching g root ((x, False) # stack) colors" "x \<in> black colors"
  shows "searching g root stack colors"
  using assms unfolding searching_def by (auto simp: insert_absorb)

lemma searching_push:
  assumes "searching g root ((x, False) # stack) colors" "map_of g x = Some s" "distinct (parents s)"
    "map_of colors x \<noteq> Some 1" "map_of colors x \<noteq> Some 2"
  shows "searching g root (rev (map (\<lambda>p. (p, False)) (parents s)) @ (x, True) # stack) (bt_insert x 1 colors)"
proof -
  let ?ps = "rev (parents s)"
  have b: "black (bt_insert x 1 colors) = black colors" using assms(5) by (auto simp: black_def lookup_insert)
  have r: "parent_rel g `` {x} = set (parents s)" using assms(2) by (auto simp: parent_rel_def)
  have "awaited g (black colors) (map (\<lambda>p. (p, False)) ?ps @ (x, True) # stack)"
    using assms(1-3) r unfolding awaited_append_False
    by (auto simp: searching_def parents_distinct_def intro: awaited_mono)
  moreover have "chained g root (map (\<lambda>p. (p, False)) ?ps @ (x, True) # stack)"
    using assms(1) r unfolding chained_append_False by (auto simp: searching_def split: option.splits)
  moreover have "{y. map_of (bt_insert x 1 colors) y = Some 1} = {y. (y, True) \<in> set (map (\<lambda>p. (p, False)) ?ps @ (x, True) # stack)}"
    using assms(1) by (auto simp: searching_def lookup_insert set_eq_iff)
  moreover have "x \<notin> set (map fst (filter snd stack))" using assms(1,4) by (force simp: searching_def)
  ultimately show ?thesis using assms(1) unfolding searching_def b rev_map [symmetric]
    by (auto simp: filter_False)
qed

text \<open>What each error means.\<close>

fun blamed :: "'git snapshot_graph \<Rightarrow> 'e ancestry_error \<Rightarrow> bool" where
  "blamed g AncestryCycle \<longleftrightarrow> \<not> acyclic (parent_rel g)"
| "blamed g MissingSnapshotParent \<longleftrightarrow> \<not> Range (parent_rel g) \<subseteq> dom (map_of g)"
| "blamed g DuplicateParents \<longleftrightarrow> (\<exists>x \<in> dom (map_of g). \<not> parents_distinct g x)"
| "blamed g _ \<longleftrightarrow> False"

lemma visit_stack_correct:
  assumes "searching g root stack colors" "root \<in> dom (map_of g)"
  shows "case visit_stack g stack colors of
      Inr colors' \<Rightarrow> searching g root [] colors' \<and> black colors \<subseteq> black colors'
    | Inl e \<Rightarrow> blamed g e"
  using assms
proof (induction g stack colors rule: visit_stack.induct)
  case (2 g x leaving stack colors)
  consider (leave) leaving | (skip) "\<not> leaving" "map_of colors x = Some 2" | (cycle) "\<not> leaving" "map_of colors x = Some 1"
    | (missing) "\<not> leaving" "map_of colors x \<noteq> Some 1" "map_of colors x \<noteq> Some 2" "map_of g x = None"
    | (visit) s where "\<not> leaving" "map_of colors x \<noteq> Some 1" "map_of colors x \<noteq> Some 2" "map_of g x = Some s"
    by fastforce
  then show ?case
  proof cases
    case leave
    then have "searching g root stack (bt_insert x 2 colors)" using 2(4) searching_leave by fastforce
    from 2(1) [OF leave this 2(5)] leave show ?thesis by (auto simp: black_insert split: sum.splits)
  next
    case skip
    then have "searching g root stack colors" using 2(4) searching_skip by (fastforce simp: black_def)
    from 2(2) [OF skip this 2(5)] skip show ?thesis by simp
  next
    case cycle
    then have "(x, True) \<in> set stack" "chained g root ((x, False) # stack)" using 2(4) by (auto simp: searching_def)
    with chained_path [of g root stack x] have "(x, x) \<in> (parent_rel g)\<^sup>+" by (auto intro: rtrancl_into_trancl1)
    with cycle show ?thesis by (auto simp: acyclic_def)
  next
    case missing
    then have "x \<in> Range (parent_rel g)" using 2(4,5) by (auto simp: searching_def domIff split: option.splits)
    with missing show ?thesis by auto
  next
    case visit
    show ?thesis
    proof (cases "distinct (parents s)")
      case True
      note push = searching_push [OF _ visit(4) True visit(2,3)]
      have "searching g root (rev (map (\<lambda>p. (p, False)) (parents s)) @ (x, True) # stack) (bt_insert x 1 colors)"
        using push 2(4) visit(1) by simp
      from 2(3) [OF visit(1,3,2,4) _ this 2(5)] True visit show ?thesis
        by (auto simp: length_btset black_def lookup_insert split: sum.splits)
    next
      case False
      with visit have "\<not> parents_distinct g x" "x \<in> dom (map_of g)" by (auto simp: parents_distinct_def)
      with False visit show ?thesis by (auto simp: length_btset)
    qed
  qed
qed (simp add: searching_def)

declare visit_stack.simps(2) [simp del]

text \<open>Between two roots nothing is being visited.\<close>

definition settled :: "'git snapshot_graph \<Rightarrow> (bytes \<times> nat) list \<Rightarrow> bool" where
  "settled g colors \<longleftrightarrow> (\<forall>x. map_of colors x \<noteq> Some 1) \<and> (\<forall>x \<in> black colors. parents_distinct g x) \<and>
     parent_rel g `` black colors \<subseteq> black colors \<and> acyclic (parent_rel g \<inter> black colors \<times> UNIV)"

lemma searching_start: "settled g colors \<Longrightarrow> searching g root [(root, False)] colors"
  by (auto simp: settled_def searching_def)

lemma searching_end: "searching g root [] colors \<Longrightarrow> settled g colors \<and> root \<in> black colors"
  by (auto simp: settled_def searching_def)

lemma visit_roots_correct:
  fixes g :: "'git snapshot_graph"
  assumes "settled g colors" "set roots \<subseteq> dom (map_of g)"
  shows "case try_fold (\<lambda>colors root. visit_stack g [(root, False)] colors) colors roots :: ((bytes \<times> nat) list, 'e ancestry_error) result of
      Inr colors' \<Rightarrow> settled g colors' \<and> black colors \<union> set roots \<subseteq> black colors'
    | Inl e \<Rightarrow> blamed g e"
  using assms
proof (induction roots arbitrary: colors)
  case (Cons r roots)
  have v: "case visit_stack g [(r, False)] colors :: ((bytes \<times> nat) list, 'e ancestry_error) result of
      Inr colors' \<Rightarrow> searching g r [] colors' \<and> black colors \<subseteq> black colors' | Inl e \<Rightarrow> blamed g e"
    using Cons.prems by (intro visit_stack_correct searching_start) auto
  show ?case
  proof (cases "visit_stack g [(r, False)] colors :: ((bytes \<times> nat) list, 'e ancestry_error) result")
    case (Inr c)
    with v have "settled g c" "r \<in> black c" "black colors \<subseteq> black c" using searching_end by auto
    with Cons.IH [of c] Cons.prems Inr show ?thesis by (auto split: sum.splits)
  qed (use v in simp)
qed simp

lemma blamed_unsound: "blamed g e \<Longrightarrow> \<not> sound_graph g"
  by (cases e) (auto simp: sound_graph_def)

lemma validate_graph_cases: "case validate_graph g :: (unit, 'e ancestry_error) result of Inr _ \<Rightarrow> sound_graph g | Inl e \<Rightarrow> blamed g e"
proof -
  let ?v = "try_fold (\<lambda>colors root. visit_stack g [(root, False)] colors) [] (map fst g) :: ((bytes \<times> nat) list, 'e ancestry_error) result"
  have d: "set (map fst g) = dom (map_of g)" by (simp add: dom_map_of_conv_image_fst)
  have v: "case ?v of Inr c \<Rightarrow> settled g c \<and> black [] \<union> set (map fst g) \<subseteq> black c | Inl e \<Rightarrow> blamed g e"
    by (rule visit_roots_correct) (simp_all add: settled_def black_def acyclic_def dom_map_of_conv_image_fst)
  show ?thesis
  proof (cases ?v)
    case (Inr c)
    with v have s: "settled g c" "dom (map_of g) \<subseteq> black c" unfolding d by auto
    moreover from this have "black c = dom (map_of g)" by (auto simp: settled_def parents_distinct_def)
    moreover have "Domain (parent_rel g) \<subseteq> dom (map_of g)" by (auto simp: parent_rel_def)
    ultimately have "parent_rel g \<inter> black c \<times> UNIV = parent_rel g" by auto
    moreover from this s \<open>black c = _\<close> have "Range (parent_rel g) \<subseteq> dom (map_of g)" unfolding settled_def by blast
    ultimately have "sound_graph g" using s \<open>black c = _\<close> by (simp add: settled_def sound_graph_def)
    with Inr show ?thesis by (simp add: validate_graph_def discard_def)
  qed (use v in \<open>simp add: validate_graph_def discard_def\<close>)
qed

text \<open>
  C23: Ancestry validation is exact. It always ends; it accepts a graph of snapshots if and only if
  every snapshot has distinct parents, every parent is in the graph and no snapshot is its own
  ancestor; and when it refuses, the error it reports is one the graph has.
\<close>

theorem validate_graph_exact:
  fixes e :: "'e ancestry_error"
  shows "(validate_graph g = (Inr () :: (unit, 'e ancestry_error) result) \<longleftrightarrow> sound_graph g) \<and>
    (validate_graph g = Inl e \<longrightarrow> blamed g e)"
  using validate_graph_cases [of g, where 'e = 'e] blamed_unsound [of g, where 'b = 'e]
  by (cases "validate_graph g :: (unit, 'e ancestry_error) result") auto

definition sample_snapshot :: "bytes \<Rightarrow> bytes list \<Rightarrow> unit cli_snapshot" where
  "sample_snapshot x ps = \<lparr>sn_author = None, sn_git = None, sn_id = x, sn_change_id = [], sn_parent_snapshot = None,
     sn_merge_parents = ps, sn_message = [], sn_manifest_hash = [], sn_files = [],
     sn_policy = public_policy, sn_created_at = 0\<rparr>"

theorem validate_graph_exact_witness:
  "validate_graph [([1], sample_snapshot [1] [[2]]), ([2], sample_snapshot [2] [[1]])] = (Inl AncestryCycle :: (unit, unit ancestry_error) result) \<and>
   \<not> acyclic (parent_rel [([1], sample_snapshot [1] [[2]]), ([2], sample_snapshot [2] [[1]])]) \<and>
   sound_graph [([1], sample_snapshot [1] [[2], [3]]), ([2], sample_snapshot [2] [[3]]), ([3], sample_snapshot [3] [])]"
proof -
  have "validate_graph [([1], sample_snapshot [1] [[2]]), ([2], sample_snapshot [2] [[1]])] = (Inl AncestryCycle :: (unit, unit ancestry_error) result)"
    by code_simp
  moreover have "validate_graph [([1], sample_snapshot [1] [[2], [3]]), ([2], sample_snapshot [2] [[3]]), ([3], sample_snapshot [3] [])] =
      (Inr () :: (unit, unit ancestry_error) result)" by code_simp
  ultimately show ?thesis
    using validate_graph_exact [of "[([1], sample_snapshot [1] [[2]]), ([2], sample_snapshot [2] [[1]])]" "AncestryCycle :: unit ancestry_error"]
      validate_graph_exact [of "[([1], sample_snapshot [1] [[2], [3]]), ([2], sample_snapshot [2] [[3]]), ([3], sample_snapshot [3] [])]"
        "AncestryCycle :: unit ancestry_error"]
    by simp
qed

section \<open>Ancestors\<close>

lemma ancestors_from_correct:
  assumes "Range (parent_rel g) \<subseteq> dom (map_of g)" "root \<in> dom (map_of g)"
    "set visited \<union> set pending \<subseteq> (parent_rel g)\<^sup>* `` {root}" "root \<in> set visited \<union> set pending"
    "parent_rel g `` set visited \<subseteq> set visited \<union> set pending" "distinct visited"
  shows "\<exists>vs. ancestors_from g visited pending = Some vs \<and> set vs = (parent_rel g)\<^sup>* `` {root} \<and> distinct vs"
  using assms
proof (induction g visited pending rule: ancestors_from.induct)
  case (1 g visited pending)
  let ?R = "parent_rel g"
  show ?case
  proof (cases "pending = []")
    case True
    have "x \<in> set visited" if "(root, x) \<in> ?R\<^sup>*" for x
      using that by induction (use True 1(6,7) in auto)
    with True 1(5,8) have "set visited = ?R\<^sup>* `` {root}" by auto
    with True 1(8) show ?thesis by (simp add: ancestors_from.simps [of g visited])
  next
    case False
    define x ps where "x = last pending" and "ps = butlast pending"
    have set: "set pending = insert x (set ps)" unfolding x_def ps_def using False
      by (metis append_butlast_last_id list.simps(15) rotate1.simps(2) set_rotate1)
    show ?thesis
    proof (cases "x \<in> set visited")
      case True
      have "\<exists>vs. ancestors_from g visited ps = Some vs \<and> set vs = ?R\<^sup>* `` {root} \<and> distinct vs"
        by (rule 1(1) [OF False x_def ps_def True 1(3,4)]) (use 1(5-8) set True in auto)
      with False True show ?thesis unfolding x_def ps_def by (subst ancestors_from.simps) (simp add: Let_def)
    next
      case nv: False
      have reach: "(root, x) \<in> ?R\<^sup>*" using 1(5) set by blast
      then have "x \<in> dom (map_of g)" using 1(3,4) by (cases rule: rtrancl.cases) auto
      then obtain s where s: "map_of g x = Some s" by blast
      then have R: "?R `` {x} = set (parents s)" by (auto simp: parent_rel_def)
      have "\<exists>vs. ancestors_from g (btset (x # visited)) (ps @ parents s) = Some vs \<and> set vs = ?R\<^sup>* `` {root} \<and> distinct vs"
      proof (rule 1(2) [OF False x_def ps_def nv s 1(3,4)])
        show "set (btset (x # visited)) \<union> set (ps @ parents s) \<subseteq> ?R\<^sup>* `` {root}"
          using 1(5) set reach R by (auto intro: rtrancl_into_rtrancl)
        show "parent_rel g `` set (btset (x # visited)) \<subseteq> set (btset (x # visited)) \<union> set (ps @ parents s)"
          using 1(7) set R by auto
      qed (use 1(6) set in \<open>auto simp: btset_def\<close>)
      with False nv s show ?thesis unfolding x_def ps_def by (subst ancestors_from.simps) (simp add: Let_def)
    qed
  qed
qed

lemma ancestors_correct:
  assumes "Range (parent_rel g) \<subseteq> dom (map_of g)" "root \<in> dom (map_of g)"
  shows "\<exists>vs. ancestors root g = Some vs \<and> set vs = (parent_rel g)\<^sup>* `` {root} \<and> distinct vs"
  unfolding ancestors_def by (rule ancestors_from_correct [OF assms]) auto

section \<open>The graph above two snapshots\<close>

definition read_rel :: "(bytes \<Rightarrow> ('git cli_snapshot, 'e) result) \<Rightarrow> (bytes \<times> bytes) set" where
  "read_rel read = {(x, p). \<exists>s. read x = Inr s \<and> p \<in> set (parents s)}"

definition lineage :: "(bytes \<Rightarrow> ('git cli_snapshot, 'e) result) \<Rightarrow> bytes \<Rightarrow> bytes set" where
  "lineage read x = (read_rel read)\<^sup>* `` {x}"

definition common_ancestors :: "(bytes \<Rightarrow> ('git cli_snapshot, 'e) result) \<Rightarrow> bytes \<Rightarrow> bytes \<Rightarrow> bytes set" where
  "common_ancestors read x y = lineage read x \<inter> lineage read y"

text \<open>One visit of the collection, for the traversal shared with the graph index and the store.\<close>

definition read_visit ::
  "(bytes \<Rightarrow> ('git cli_snapshot, 'e) result) \<Rightarrow> bytes \<Rightarrow> (bytes \<times> 'git cli_snapshot \<times> bytes list, 'e ancestry_error) result" where
  "read_visit read x = (case read x of Inl e \<Rightarrow> Inl (ReadSnapshot e) | Inr s \<Rightarrow> Inr (x, s, parents s))"

lemma read_visit_Inr: "read_visit read x = Inr (k, s, nx) \<longleftrightarrow> k = x \<and> read x = Inr s \<and> nx = parents s"
  by (auto simp: read_visit_def split: sum.splits)

lemma read_worklist: "finite {x. \<exists>s. read x = Inr s} \<Longrightarrow> worklist (read_visit read) {x. \<exists>s. read x = Inr s}"
  by unfold_locales (auto simp: read_visit_Inr)

lemma bt_insert_same: "bt_wf m \<Longrightarrow> map_of m k = Some v \<Longrightarrow> bt_insert k v m = m"
  by (intro bt_eqI) (auto simp: fun_upd_idem)

lemma reached_lineage: "reached (read_visit read) roots x \<longleftrightarrow> (\<exists>r \<in> roots. x \<in> lineage read r)"
proof
  assume "reached (read_visit read) roots x"
  then show "\<exists>r \<in> roots. x \<in> lineage read r"
  proof induction
    case (succ e k v nx e')
    then have "(e, e') \<in> read_rel read" by (auto simp: read_visit_Inr read_rel_def)
    with succ.IH show ?case unfolding lineage_def by (auto intro: rtrancl_into_rtrancl)
  qed (auto simp: lineage_def)
next
  assume "\<exists>r \<in> roots. x \<in> lineage read r"
  then obtain r where r: "r \<in> roots" "(r, x) \<in> (read_rel read)\<^sup>*" by (auto simp: lineage_def)
  from r(2,1) show "reached (read_visit read) roots x"
  proof induction
    case (step y z)
    then show ?case by (auto simp: read_rel_def read_visit_Inr intro!: reached.succ [of _ _ y y])
  qed (rule reached.root)
qed

lemma collect_graph_walk:
  assumes fin: "finite {x. \<exists>s. read x = Inr s}"
  shows "bt_wf seen \<Longrightarrow> (\<forall>k s. map_of seen k = Some s \<longrightarrow> read k = Inr s) \<Longrightarrow>
    collect_graph read pending seen = walk (read_visit read) pending seen"
proof (induction "(card ({x. \<exists>s. read x = Inr s} - dom (map_of seen)), length pending)" arbitrary: pending seen
    rule: wf_induct_rule [OF wf_lex_prod [OF wf_less_than wf_less_than]])
  case 1
  let ?x = "last pending" and ?K = "{x. \<exists>s. read x = Inr s}"
  show ?case
  proof (cases "pending = []")
    case True
    then show ?thesis by (simp add: collect_graph.simps [of read] walk.simps [of "read_visit read"])
  next
    case ne: False
    show ?thesis
    proof (cases "read ?x")
      case (Inl e)
      then have "map_of seen ?x = None" using 1(3) by (metis not_None_eq sum.distinct(1))
      with ne Inl show ?thesis
        by (simp add: collect_graph.simps [of read] walk.simps [of "read_visit read"] read_visit_def)
    next
      case (Inr s)
      then have v: "read_visit read ?x = Inr (?x, s, parents s)" by (simp add: read_visit_Inr)
      show ?thesis
      proof (cases "map_of seen ?x")
        case (Some s')
        then have "s' = s" using 1(3) Inr by force
        with Some 1(2) have "bt_insert ?x s seen = seen" by (simp add: bt_insert_same)
        moreover have "collect_graph read (butlast pending) seen = walk (read_visit read) (butlast pending) seen"
          by (rule 1(1)) (use ne 1(2,3) in auto)
        ultimately show ?thesis using ne Some v
          by (subst collect_graph.simps, subst walk.simps) simp
      next
        case None
        let ?seen = "bt_insert ?x s seen"
        have "?K - dom (map_of ?seen) \<subset> ?K - dom (map_of seen)" using 1(2) None Inr by auto
        then have "card (?K - dom (map_of ?seen)) < card (?K - dom (map_of seen))"
          by (intro psubset_card_mono) (use fin in auto)
        then have "collect_graph read (butlast pending @ parents s) ?seen = walk (read_visit read) (butlast pending @ parents s) ?seen"
          by (intro 1(1)) (use 1(2,3) Inr in \<open>auto split: if_splits\<close>)
        with ne None v Inr show ?thesis by (subst collect_graph.simps, subst walk.simps) simp
      qed
    qed
  qed
qed

lemma collect_graph_correct:
  fixes read and roots
  assumes fin: "finite {x. \<exists>s. read x = Inr s}"
  defines "S \<equiv> \<Union> (lineage read ` set roots)"
  shows "(\<exists>g. collect_graph read roots [] = Some (Inr g) \<and> bt_wf g \<and> (\<forall>x \<in> S. \<exists>s. read x = Inr s) \<and>
        (\<forall>x s. map_of g x = Some s \<longleftrightarrow> x \<in> S \<and> read x = Inr s)) \<or>
    (\<exists>x e. collect_graph read roots [] = Some (Inl (ReadSnapshot e)) \<and> x \<in> S \<and> read x = Inl e)"
proof -
  have eq: "collect_graph read roots [] = walk (read_visit read) roots []" by (rule collect_graph_walk [OF fin]) simp_all
  note w = read_worklist [OF fin]
  have S: "reached (read_visit read) (set roots) x \<longleftrightarrow> x \<in> S" for x by (auto simp: reached_lineage S_def)
  have r: "(\<exists>y. read_visit read x = Inr y) \<longleftrightarrow> (\<exists>s. read x = Inr s)" for x by (auto simp: read_visit_def split: sum.splits)
  show ?thesis
    using worklist.walk_correct [OF w worklist.traversing_start [OF w, of roots]]
    unfolding eq worklist.complete_def [OF w] S r
    by (auto simp: read_visit_Inr) (auto simp: read_visit_def split: sum.splits)
qed

section \<open>The greatest common ancestor\<close>

lemma best_common_filter:
  assumes "set common \<subseteq> dom (map_of g)"
  shows "best_common g common = Some (filter (\<lambda>x. x \<notin> parent_rel g `` set common) common)"
proof -
  have all: "opt_all (map (map_of g) common) = Some (map (the \<circ> map_of g) common)"
    using assms by (auto simp: opt_all_Some)
  have drop: "foldl (\<lambda>best parent. filter (\<lambda>x. x \<noteq> parent) best) xs ps = filter (\<lambda>x. x \<notin> set ps) xs" for xs ps :: "bytes list"
    by (induction ps arbitrary: xs) (auto intro: filter_cong)
  have "set (concat (map parents (map (the \<circ> map_of g) common))) = parent_rel g `` set common"
    using assms by (force simp: parent_rel_def Image_def)
  then show ?thesis unfolding best_common_def all option.map drop by simp
qed

lemma maximal_above:
  assumes "wf R" "c \<in> C"
  shows "\<exists>b \<in> C. b \<notin> R `` C \<and> (b, c) \<in> R\<^sup>*"
  using assms
proof (induction c rule: wf_induct_rule)
  case (less c)
  show ?case
  proof (cases "c \<in> R `` C")
    case True
    then obtain y where "y \<in> C" "(y, c) \<in> R" by blast
    with less.IH [of y] show ?thesis by (meson rtrancl.rtrancl_into_rtrancl)
  qed (use less.prems in blast)
qed

lemma greatest_unique_maximal:
  assumes wf: "wf R" and closed: "R `` C \<subseteq> C"
  shows "(\<exists>b. C - R `` C = {b}) \<longleftrightarrow> (\<exists>b \<in> C. C \<subseteq> R\<^sup>* `` {b})"
    and "b \<in> C \<Longrightarrow> C \<subseteq> R\<^sup>* `` {b} \<Longrightarrow> C - R `` C = {b}"
    and "C - R `` C = {b} \<Longrightarrow> b \<in> C \<and> C \<subseteq> R\<^sup>* `` {b}"
    and "C - R `` C = {} \<longleftrightarrow> C = {}"
proof -
  show one: "C - R `` C = {b}" if b: "b \<in> C" "C \<subseteq> R\<^sup>* `` {b}" for b
  proof -
    have "x = b" if "x \<in> C - R `` C" for x
    proof (rule ccontr)
      assume "x \<noteq> b"
      moreover have "(b, x) \<in> R\<^sup>*" using b that by blast
      ultimately obtain y where y: "(b, y) \<in> R\<^sup>*" "(y, x) \<in> R" by (metis rtranclE)
      from y(1) b(1) closed have "y \<in> C" by induction auto
      with y that show False by blast
    qed
    moreover have "C - R `` C \<noteq> {}" using maximal_above [OF wf b(1)] by blast
    ultimately show ?thesis by blast
  qed
  show two: "b \<in> C \<and> C \<subseteq> R\<^sup>* `` {b}" if b: "C - R `` C = {b}" for b
  proof (intro conjI subsetI)
    fix c assume "c \<in> C"
    from maximal_above [OF wf this] obtain b' where "b' \<in> C - R `` C" "(b', c) \<in> R\<^sup>*" by auto
    then show "c \<in> R\<^sup>* `` {b}" unfolding b by simp
  qed (use b in blast)
  show "(\<exists>b. C - R `` C = {b}) \<longleftrightarrow> (\<exists>b \<in> C. C \<subseteq> R\<^sup>* `` {b})" using one two by blast
  show "C - R `` C = {} \<longleftrightarrow> C = {}" using maximal_above [OF wf] by blast
qed

text \<open>Lineages that can be read, without a repeated parent and without a cycle.\<close>

definition sound_lineage :: "(bytes \<Rightarrow> ('git cli_snapshot, 'e) result) \<Rightarrow> bytes set \<Rightarrow> bool" where
  "sound_lineage read S \<longleftrightarrow> (\<forall>x \<in> S. \<exists>s. read x = Inr s \<and> distinct (parents s)) \<and> acyclic (read_rel read \<inter> S \<times> UNIV)"

definition legacy_result ::
  "(bytes \<Rightarrow> ('git cli_snapshot, 'e) result) \<Rightarrow> bytes option \<Rightarrow> ('git cli_snapshot option, 'e ancestry_error) result" where
  "legacy_result read legacy =
     (case legacy of None \<Rightarrow> Inr None | Some x \<Rightarrow> (case read x of Inl e \<Rightarrow> Inl (ReadSnapshot e) | Inr s \<Rightarrow> Inr (Some s)))"

lemma collected_rel:
  assumes "\<forall>x s. map_of g x = Some s \<longleftrightarrow> x \<in> S \<and> read x = Inr s"
  shows "parent_rel g = read_rel read \<inter> S \<times> UNIV"
  unfolding parent_rel_def read_rel_def using assms by blast

lemma closed_star:
  assumes "R `` S \<subseteq> S" "x \<in> S"
  shows "(R \<inter> S \<times> UNIV)\<^sup>* `` {x} = R\<^sup>* `` {x}" "R\<^sup>* `` {x} \<subseteq> S"
proof -
  have both: "(x, y) \<in> (R \<inter> S \<times> UNIV)\<^sup>* \<and> y \<in> S" if "(x, y) \<in> R\<^sup>*" for y
    using that by induction (use assms in \<open>auto intro: rtrancl_into_rtrancl\<close>)
  moreover have "(R \<inter> S \<times> UNIV)\<^sup>* \<subseteq> R\<^sup>*" by (rule rtrancl_mono) blast
  ultimately show "(R \<inter> S \<times> UNIV)\<^sup>* `` {x} = R\<^sup>* `` {x}" by blast
  show "R\<^sup>* `` {x} \<subseteq> S" using both by blast
qed

lemma collected_sound:
  assumes g: "\<forall>x s. map_of g x = Some s \<longleftrightarrow> x \<in> S \<and> read x = Inr s"
    and all: "\<forall>x \<in> S. \<exists>s. read x = Inr s" and closed: "read_rel read `` S \<subseteq> S"
  shows "sound_graph g \<longleftrightarrow> sound_lineage read S"
proof -
  have d: "dom (map_of g) = S" using g all by (auto simp: dom_def)
  have "Range (parent_rel g) \<subseteq> dom (map_of g)" unfolding collected_rel [OF g] d using closed by blast
  moreover have "parents_distinct g x \<longleftrightarrow> (\<exists>s. read x = Inr s \<and> distinct (parents s))" if "x \<in> S" for x
    using g that by (auto simp: parents_distinct_def)
  ultimately show ?thesis unfolding sound_graph_def sound_lineage_def collected_rel [OF g] d by auto
qed

text \<open>The result on a collected, validated graph.\<close>

lemma base_of_graph:
  assumes g: "\<forall>x s. map_of g x = Some s \<longleftrightarrow> x \<in> S \<and> read x = Inr s"
    and all: "\<forall>x \<in> S. \<exists>s. read x = Inr s" and closed: "read_rel read `` S \<subseteq> S"
    and sound: "sound_graph g" and xy: "x \<in> S" "y \<in> S"
  defines "C \<equiv> common_ancestors read x y"
  obtains left right best where "ancestors x g = Some left" "ancestors y g = Some right"
    "best_common g (filter (\<lambda>z. z \<in> set right) left) = Some best" "distinct best"
    "set best = C - read_rel read `` C" "C \<subseteq> S"
    "set best = {} \<longleftrightarrow> C = {}" "\<And>b. set best = {b} \<longleftrightarrow> b \<in> C \<and> C \<subseteq> lineage read b"
proof -
  let ?R = "parent_rel g"
  have d: "dom (map_of g) = S" using g all by (auto simp: dom_def)
  note rel = collected_rel [OF g]
  have range: "Range ?R \<subseteq> dom (map_of g)" "acyclic ?R" using sound by (auto simp: sound_graph_def)
  have star: "?R\<^sup>* `` {z} = lineage read z" "lineage read z \<subseteq> S" if "z \<in> S" for z
    unfolding rel lineage_def using closed_star [OF closed that] by auto
  have "?R \<subseteq> dom (map_of g) \<times> dom (map_of g)" using range(1) by (auto simp: parent_rel_def)
  then have "finite ?R" by (rule finite_subset) (simp add: finite_dom_map_of)
  then have wf: "wf ?R" using range(2) by (rule finite_acyclic_wf)
  obtain left where left: "ancestors x g = Some left" "set left = lineage read x" "distinct left"
    using ancestors_correct [OF range(1), of x] xy d star by auto
  obtain right where right: "ancestors y g = Some right" "set right = lineage read y"
    using ancestors_correct [OF range(1), of y] xy d star by auto
  let ?common = "filter (\<lambda>z. z \<in> set right) left"
  have C: "set ?common = C" "C \<subseteq> S" using left right star(2) [OF xy(1)] by (auto simp: C_def common_ancestors_def)
  have R: "?R `` C = read_rel read `` C" unfolding rel using C(2) by blast
  have cl: "?R `` C \<subseteq> C"
    unfolding R unfolding C_def common_ancestors_def lineage_def by (auto intro: rtrancl_into_rtrancl)
  let ?best = "filter (\<lambda>z. z \<notin> ?R `` C) ?common"
  have best: "best_common g ?common = Some ?best" unfolding best_common_filter [OF C(2) [unfolded d [symmetric], folded C(1)]] C(1) ..
  have set: "set ?best = C - ?R `` C" using C(1) by auto
  note max = greatest_unique_maximal [OF wf cl]
  show ?thesis
  proof (rule that [OF left(1) right(1) best])
    show "set ?best = {b} \<longleftrightarrow> b \<in> C \<and> C \<subseteq> lineage read b" for b
      unfolding set using max(2,3) [of b] star(1) [of b] C(2) by (metis subsetD)
    show "set ?best = {} \<longleftrightarrow> C = {}" unfolding set by (rule max(4))
    show "set ?best = C - read_rel read `` C" using set unfolding R .
  qed (simp_all add: left(3) C(2))
qed

lemma lineage_closed: "read_rel read `` \<Union> (lineage read ` X) \<subseteq> \<Union> (lineage read ` X)"
  unfolding lineage_def by (auto intro: rtrancl_into_rtrancl)

lemma distinct_small: "distinct xs \<Longrightarrow> \<not> 1 < length xs \<longleftrightarrow> set xs = {} \<or> (\<exists>b. set xs = {b})"
  by (cases xs; cases "tl xs") auto

lemma distinct_singleton: "distinct xs \<Longrightarrow> set xs = {b} \<Longrightarrow> xs = [b]"
  by (cases xs; cases "tl xs") auto

lemma merge_base_outcome:
  fixes read :: "bytes \<Rightarrow> ('git cli_snapshot, 'e) result"
  assumes fin: "finite {x. \<exists>s. read x = Inr s}"
  shows "\<exists>r. merge_base read (Some line) incoming legacy = Some r \<and>
    (let C = common_ancestors read line (sn_id incoming) in
     if sound_lineage read (lineage read line \<union> lineage read (sn_id incoming))
     then (C = {} \<and> r = legacy_result read legacy) \<or>
          (\<exists>b s. b \<in> C \<and> C \<subseteq> lineage read b \<and> read b = Inr s \<and> r = Inr (Some s)) \<or>
          (C \<noteq> {} \<and> (\<nexists>b. b \<in> C \<and> C \<subseteq> lineage read b) \<and> r = Inl MultipleMergeBases)
     else \<exists>e. r = Inl e)"
proof -
  let ?y = "sn_id incoming"
  define C where "C = common_ancestors read line ?y"
  define S where "S = lineage read line \<union> lineage read ?y"
  have S: "\<Union> (lineage read ` set [line, ?y]) = S" by (auto simp: S_def)
  consider (fail) x e where "collect_graph read [line, ?y] [] = Some (Inl (ReadSnapshot e))" "x \<in> S" "read x = Inl e"
    | (graph) g where "collect_graph read [line, ?y] [] = Some (Inr g)" "\<forall>x \<in> S. \<exists>s. read x = Inr s"
        "\<forall>x s. map_of g x = Some s \<longleftrightarrow> x \<in> S \<and> read x = Inr s"
    using collect_graph_correct [OF fin, of "[line, ?y]"] unfolding S by blast
  then show ?thesis
  proof cases
    case fail
    then have "\<not> sound_lineage read S" by (force simp: sound_lineage_def)
    with fail show ?thesis by (auto simp: merge_base_def S_def Let_def)
  next
    case graph
    have closed: "read_rel read `` S \<subseteq> S" using lineage_closed [of read "set [line, ?y]"] unfolding S .
    note sound = collected_sound [OF graph(3,2) closed]
    show ?thesis
    proof (cases "sound_graph g")
      case False
      then obtain e :: "'e ancestry_error" where "validate_graph g = Inl e" using validate_graph_cases [of g, where 'e = 'e] by (auto split: sum.splits)
      with False graph(1) sound show ?thesis by (auto simp: merge_base_def S_def Let_def)
    next
      case True
      then have valid: "validate_graph g = (Inr () :: (unit, 'e ancestry_error) result)"
        using validate_graph_cases [of g, where 'e = 'e] blamed_unsound by (auto split: sum.splits)
      have xy: "line \<in> S" "?y \<in> S" by (auto simp: S_def lineage_def)
      obtain left right best where b: "ancestors line g = Some left" "ancestors ?y g = Some right"
        "best_common g (filter (\<lambda>z. z \<in> set right) left) = Some best" "distinct best"
        "set best = C - read_rel read `` C" "C \<subseteq> S" "set best = {} \<longleftrightarrow> C = {}"
        "\<And>b. set best = {b} \<longleftrightarrow> b \<in> C \<and> C \<subseteq> lineage read b"
        by (rule base_of_graph [OF graph(3,2) closed True xy, folded C_def]) blast
      consider (none) "C = {}" "best = []" | (one) b where "best = [b]" "b \<in> C" "C \<subseteq> lineage read b"
        | (many) "1 < length best" "C \<noteq> {}" "\<nexists>b. b \<in> C \<and> C \<subseteq> lineage read b"
        using distinct_small [OF b(4)] b(4,7,8) distinct_singleton by (metis set_empty)
      then show ?thesis
      proof cases
        case one
        then obtain s where s: "map_of g b = Some s" "read b = Inr s" using b(6) graph(2,3) by blast
        from one b(1-3) s graph(1) valid True sound show ?thesis
          unfolding C_def [symmetric] S_def [symmetric] by (auto simp: merge_base_def)
      qed (use b(1-3) graph(1) valid True sound in
          \<open>auto simp: merge_base_def legacy_result_def C_def [symmetric] S_def [symmetric] split: option.splits sum.splits\<close>)
    qed
  qed
qed

lemma merge_base_returns:
  assumes "finite {x. \<exists>s. read x = Inr s}"
  shows "merge_base read line incoming legacy \<noteq> None"
  using merge_base_outcome [OF assms, of _ incoming legacy] by (cases line) (auto simp: merge_base_def [of _ None])

text \<open>
  C17: The merge base is the greatest common ancestor. Over a repository with finitely many snapshots
  the computation always returns. It reports an error when a lineage of the two snapshots cannot be
  read, repeats a parent or has a cycle. Otherwise, with common ancestors, the result is the one
  of which all the others are ancestors, and an error exactly when there is no such one; without any,
  it is the legacy base.
\<close>

theorem merge_base_greatest:
  fixes read :: "bytes \<Rightarrow> ('git cli_snapshot, 'e) result"
  assumes fin: "finite {x. \<exists>s. read x = Inr s}"
  shows "\<exists>r. merge_base read (Some line) incoming legacy = Some r \<and>
    (let C = common_ancestors read line (sn_id incoming) in
     if sound_lineage read (lineage read line \<union> lineage read (sn_id incoming))
     then (C = {} \<and> r = legacy_result read legacy) \<or>
          (\<exists>b s. b \<in> C \<and> C \<subseteq> lineage read b \<and> read b = Inr s \<and> r = Inr (Some s)) \<or>
          (C \<noteq> {} \<and> (\<nexists>b. b \<in> C \<and> C \<subseteq> lineage read b) \<and> r = Inl MultipleMergeBases)
     else \<exists>e. r = Inl e)"
  by (rule merge_base_outcome [OF fin])

definition sample_read :: "bytes \<Rightarrow> (unit cli_snapshot, unit) result" where
  "sample_read x =
     (if x = [1] \<or> x = [2] then Inr (sample_snapshot x [[3]]) else if x = [3] then Inr (sample_snapshot x []) else Inl ())"

theorem merge_base_greatest_witness:
  "merge_base sample_read (Some [1]) (sample_snapshot [2] [[3]]) None = Some (Inr (Some (sample_snapshot [3] []))) \<and>
   (\<exists>b. b \<in> common_ancestors sample_read [1] [2] \<and> common_ancestors sample_read [1] [2] \<subseteq> lineage sample_read b \<and>
      sample_read b = Inr (sample_snapshot [3] []))"
proof -
  have "{x. \<exists>s. sample_read x = Inr s} \<subseteq> {[1], [2], [3]}" by (auto simp: sample_read_def split: if_splits)
  then have fin: "finite {x. \<exists>s. sample_read x = Inr s}" by (rule finite_subset) simp
  have run: "merge_base sample_read (Some [1]) (sample_snapshot [2] [[3]]) None = Some (Inr (Some (sample_snapshot [3] [])))"
    by code_simp
  have "sn_id (sample_snapshot [2] [[3]]) = [2]" by (simp add: sample_snapshot_def)
  with run merge_base_greatest [OF fin, of "[1]" "sample_snapshot [2] [[3]]" None] show ?thesis
    by (auto simp: Let_def legacy_result_def split: if_splits)
qed

end
