(* ===== verification/Names.thy ===== *)
theory Names
  imports Access Paths Ident
begin

text \<open>
  Names and identifiers of the command-line program's records: identifiers of objects, names of
  actors and lines and the file names they are stored under, keys of working files, symbolic link
  targets, access domains and author identities. From \<open>src/main.rs\<close>, \<open>src/transaction.rs\<close> and
  \<open>src/git_bridge.rs\<close>, for a Unix host. A \<open>String\<close> is its UTF-8 bytes; an error is its message.
\<close>

type_synonym message = string

definition is_hex :: "u8 \<Rightarrow> bool" where
  "is_hex b \<longleftrightarrow> 0x30 \<le> b \<and> b \<le> 0x39 \<or> 0x61 \<le> b \<and> b \<le> 0x66"

section \<open>Object identifiers\<close>

definition validate_object_id :: "bytes \<Rightarrow> bytes \<Rightarrow> (unit, message) result" where
  "validate_object_id i prefix =
     (let suffix = (case strip_prefix prefix i of Some s \<Rightarrow> s | None \<Rightarrow> []) in
      if \<not> (length suffix = 12 \<or> length suffix = 32) \<or> \<not> list_all is_hex suffix
      then Inl ''invalid object identifier'' else Inr ())"

section \<open>Names of actors and lines\<close>

text \<open>\<open>char::is_control\<close> over UTF-8: U+0000 to U+001F, U+007F and, with the lead byte \<open>0xC2\<close>, U+0080 to U+009F.\<close>

fun any_control :: "bytes \<Rightarrow> bool" where
  "any_control [] \<longleftrightarrow> False"
| "any_control (b # bs) \<longleftrightarrow>
     b < 0x20 \<or> b = 0x7F \<or> b = 0xC2 \<and> (case bs of c # _ \<Rightarrow> 0x80 \<le> c \<and> c \<le> 0x9F | [] \<Rightarrow> False) \<or> any_control bs"

definition file_name :: "bytes \<Rightarrow> bytes" where
  "file_name name = concat (map (\<lambda>b. if b = 0x2f then [0x5f, 0x5f] else [b]) name)"

definition before_dot :: "bytes \<Rightarrow> bytes" where
  "before_dot component = takeWhile (\<lambda>b. b \<noteq> 0x2e) component"

text \<open>The superscript digits one, two and three are \<open>0xC2\<close> followed by \<open>0xB9\<close>, \<open>0xB2\<close>, \<open>0xB3\<close>.\<close>

fun replace_superscripts :: "bytes \<Rightarrow> bytes" where
  "replace_superscripts (b # c # bs) =
     (if b = 0xC2 \<and> c = 0xB9 then 0x31 # replace_superscripts bs
      else if b = 0xC2 \<and> c = 0xB2 then 0x32 # replace_superscripts bs
      else if b = 0xC2 \<and> c = 0xB3 then 0x33 # replace_superscripts bs
      else b # replace_superscripts (c # bs))"
| "replace_superscripts bs = bs"

definition ends_in_dot_or_space :: "bytes \<Rightarrow> bool" where
  "ends_in_dot_or_space component \<longleftrightarrow> component \<noteq> [] \<and> (last component = 0x2e \<or> last component = 0x20)"

text \<open>\<open>CON\<close>, \<open>PRN\<close>, \<open>AUX\<close>, \<open>NUL\<close>, and \<open>COM\<close> or \<open>LPT\<close> with a digit from 1 to 9.\<close>

definition reserved_device :: "bytes \<Rightarrow> bool" where
  "reserved_device stem \<longleftrightarrow>
     stem \<in> {[0x43, 0x4f, 0x4e], [0x50, 0x52, 0x4e], [0x41, 0x55, 0x58], [0x4e, 0x55, 0x4c]} \<or>
     (length stem = 4 \<and> (starts_with [0x43, 0x4f, 0x4d] stem \<or> starts_with [0x4c, 0x50, 0x54] stem) \<and>
      0x31 \<le> stem ! 3 \<and> stem ! 3 \<le> 0x39)"

definition bad_component :: "bytes \<Rightarrow> bool" where
  "bad_component component \<longleftrightarrow>
     component = [] \<or> ends_in_dot_or_space component \<or>
     reserved_device (replace_superscripts (map ascii_upper (before_dot component))) \<or>
     any_control component \<or>
     (\<exists>b \<in> set component. b \<in> {0x5c, 0x3a, 0x3c, 0x3e, 0x22, 0x7c, 0x3f, 0x2a})"

definition validate_named_key :: "bytes \<Rightarrow> (unit, message) result" where
  "validate_named_key name =
     (if name = [] \<or> length (file_name name) > 200 \<or> (\<exists>c \<in> set (split_slash name). bad_component c)
      then Inl ''invalid actor or line name'' else Inr ())"

section \<open>Host paths\<close>

datatype path_component = RootDir | CurDir | ParentDir | Normal bytes

text \<open>\<open>Path::components\<close> on Unix: repeated separators and inner dots are skipped.\<close>

definition components :: "bytes \<Rightarrow> path_component list" where
  "components p =
     (if starts_with [0x2f] p then [RootDir] else if hd (split_slash p) = [0x2e] then [CurDir] else []) @
     map (\<lambda>c. if c = [0x2e, 0x2e] then ParentDir else Normal c)
       (filter (\<lambda>c. c \<noteq> [] \<and> c \<noteq> [0x2e]) (split_slash p))"

definition is_normal :: "path_component \<Rightarrow> bool" where
  "is_normal c \<longleftrightarrow> (case c of Normal _ \<Rightarrow> True | _ \<Rightarrow> False)"

text \<open>No part may be empty, \<open>.\<close>, \<open>..\<close>, or \<open>.git\<close> or \<open>.rgit\<close> in any ASCII case.\<close>

definition bad_part :: "bytes \<Rightarrow> bool" where
  "bad_part part \<longleftrightarrow>
     part = [] \<or> part = [0x2e] \<or> part = [0x2e, 0x2e] \<or>
     map ascii_lower part \<in> {[0x2e, 0x67, 0x69, 0x74], [0x2e, 0x72, 0x67, 0x69, 0x74]}"

definition validate_working_key :: "bytes \<Rightarrow> (unit, message) result" where
  "validate_working_key key =
     (if key = [] \<or> list_ex (\<lambda>c. \<not> is_normal c) (components key) \<or> list_ex bad_part (split_slash key)
      then Inl ''unsafe snapshot path'' else Inr ())"

definition validate_link :: "bytes \<Rightarrow> (unit, message) result" where
  "validate_link bytes =
     (if bytes = [] \<or> 0 \<in> set bytes then Inl ''symlink target must be nonempty and contain no NUL'' else Inr ())"

definition repository_relative_path :: "bytes \<Rightarrow> (bytes, message) result" where
  "repository_relative_path path =
     and_then (try_fold (\<lambda>segments c.
         case c of
           CurDir \<Rightarrow> Inr segments
         | Normal name \<Rightarrow> if utf8_valid name then Inr (segments @ [name]) else Inl ''non-UTF-8 paths are not supported''
         | _ \<Rightarrow> Inl ''path must be a nonempty repository-relative path without parent traversal'')
       [] (components path))
       (\<lambda>segments. if segments = [] then Inl ''path must be a nonempty repository-relative path without parent traversal''
         else Inr (join_slash segments))"

section \<open>Domains\<close>

text \<open>The UTF-8 forms of the \<open>White_Space\<close> characters that \<open>str::trim\<close> removes.\<close>

definition white_space :: "bytes list" where
  "white_space =
     [[0x09], [0x0a], [0x0b], [0x0c], [0x0d], [0x20], [0xc2, 0x85], [0xc2, 0xa0], [0xe1, 0x9a, 0x80],
      [0xe2, 0x80, 0x80], [0xe2, 0x80, 0x81], [0xe2, 0x80, 0x82], [0xe2, 0x80, 0x83], [0xe2, 0x80, 0x84],
      [0xe2, 0x80, 0x85], [0xe2, 0x80, 0x86], [0xe2, 0x80, 0x87], [0xe2, 0x80, 0x88], [0xe2, 0x80, 0x89],
      [0xe2, 0x80, 0x8a], [0xe2, 0x80, 0xa8], [0xe2, 0x80, 0xa9], [0xe2, 0x80, 0xaf], [0xe2, 0x81, 0x9f],
      [0xe3, 0x80, 0x80]]"

definition drop_space :: "bytes list \<Rightarrow> bytes \<Rightarrow> bytes option" where
  "drop_space spaces s = (case List.map_filter (\<lambda>w. if w \<noteq> [] then strip_prefix w s else None) spaces of [] \<Rightarrow> None | r # _ \<Rightarrow> Some r)"

lemma strip_prefix_append: "strip_prefix p (p @ r) = Some r"
  by (simp add: strip_prefix_Some)

lemma drop_space_shorter: "drop_space ws s = Some r \<Longrightarrow> length r < length s"
  by (auto simp: strip_prefix_append drop_space_def map_filter_def filter_eq_Cons_iff strip_prefix_Some split: list.splits if_splits)

function trim_left :: "bytes list \<Rightarrow> bytes \<Rightarrow> bytes" where
  "trim_left spaces s = (case drop_space spaces s of Some r \<Rightarrow> trim_left spaces r | None \<Rightarrow> s)"
  by pat_completeness auto

termination trim_left
  by (relation "measure (\<lambda>(_, s). length s)") (auto dest: drop_space_shorter)

declare trim_left.simps [simp del]

definition trim :: "bytes \<Rightarrow> bytes" where
  "trim s = rev (trim_left (map rev white_space) (rev (trim_left white_space s)))"

definition normalize_domains :: "bytes list \<Rightarrow> bytes list" where
  "normalize_domains domains =
     (let normalized = btset (map trim (filter (\<lambda>d. trim d \<noteq> []) domains)) in
      if normalized = [] then [PUBLIC_DOMAIN] else normalized)"

definition policy_from_domains :: "bytes list \<Rightarrow> access_policy" where
  "policy_from_domains domains = \<lparr>ap_domains = normalize_domains domains, ap_redaction = RedactOmit\<rparr>"

section \<open>Authors\<close>

text \<open>\<open>author.rsplit_once(" <")\<close> splits at the last occurrence.\<close>

fun rsplit_once :: "bytes \<Rightarrow> bytes \<Rightarrow> (bytes \<times> bytes) option" where
  "rsplit_once sep [] = None"
| "rsplit_once sep (b # bs) =
     (case rsplit_once sep bs of
        Some (name, rest) \<Rightarrow> Some (b # name, rest)
      | None \<Rightarrow> map_option (\<lambda>rest. ([], rest)) (strip_prefix sep (b # bs)))"

definition validate_author :: "bytes \<Rightarrow> (unit, message) result" where
  "validate_author author =
     (case rsplit_once [0x20, 0x3c] author of
        None \<Rightarrow> Inl ''author must be Name <email>''
      | Some (name, email) \<Rightarrow>
          if name = [] \<or> email = [] \<or> last email \<noteq> 0x3e \<or> 0x40 \<notin> set email \<or> any_control author \<or>
             0x3c \<in> set name \<or> 0x3e \<in> set name \<or> 0x3c \<in> set (butlast email) \<or> 0x3e \<in> set (butlast email)
          then Inl ''invalid export author identity'' else Inr ())"

end
