(* ===== verification/Repository.thy ===== *)
theory Repository
  imports Names Text_Merge Ancestry
begin

text \<open>
  The commands of the program that change the repository's records: actors, path policies, changes,
  snapshots, lines, integration, conflict resolution and the workspace. The records are kept in
  directories of JSON files; here each directory is a map from file stems to records, and a command
  passes the state with its staged writes, which are visible to its later reads. \<open>run_command\<close> is the
  end of \<open>run\<close>: staged records are committed when the command succeeds or reports a conflict, and
  dropped otherwise, while published blobs stay. Random identifiers, the clock, SHA-256, the JSON
  encoding of a manifest, the diff, the ignore rules and the working tree are parameters.
\<close>

section \<open>Errors and commands\<close>

datatype cli_failure = OperationUnavailable | IntegrationConflicted | StaleSnapshot

text \<open>\<open>Message\<close> is the text of a \<open>bail!\<close> without its arguments; \<open>NoReturn\<close> stands for a call that does not return.\<close>

datatype cli_error = Failure cli_failure | Message message | NoReturn

type_synonym ('s, 'a) cmd = "'s \<Rightarrow> ('a, cli_error) result \<times> 's"

definition ret :: "'a \<Rightarrow> ('s, 'a) cmd" where
  "ret x s = (Inr x, s)"

definition fail :: "cli_error \<Rightarrow> ('s, 'a) cmd" where
  "fail e s = (Inl e, s)"

definition bindc :: "('s, 'a) cmd \<Rightarrow> ('a \<Rightarrow> ('s, 'b) cmd) \<Rightarrow> ('s, 'b) cmd" where
  "bindc m k s = (case m s of (Inl e, s) \<Rightarrow> (Inl e, s) | (Inr x, s) \<Rightarrow> k x s)"

definition ask :: "('s \<Rightarrow> ('a, cli_error) result) \<Rightarrow> ('s, 'a) cmd" where
  "ask f s = (f s, s)"

definition modify :: "('s \<Rightarrow> 's) \<Rightarrow> ('s, unit) cmd" where
  "modify f s = (Inr (), f s)"

definition demand :: "bool \<Rightarrow> cli_error \<Rightarrow> ('s, unit) cmd" where
  "demand c e = (if c then ret () else fail e)"

definition attempt :: "('a, message) result \<Rightarrow> ('s, 'a) cmd" where
  "attempt r = (case r of Inl m \<Rightarrow> fail (Message m) | Inr x \<Rightarrow> ret x)"

section \<open>Records\<close>

record workspace =
  ws_current_change :: "bytes option"
  ws_mode_snapshot :: "bytes option"

datatype operation_kind =
    SetIdentity
  | CreateLine bytes bytes "bytes option"
  | ResetLine bytes bytes bytes
  | BindGitIdentity bytes bytes
  | RetargetChange bytes bytes
  | ImportGit bytes bytes bytes
  | SwitchWorkspace bytes
  | RestoreWorkspace "bytes option"
  | ResolveConflict bytes
  | InitRepo
  | SetActor bytes
  | SetPathPolicy bytes
  | CreateChange bytes
  | CreateSnapshot bytes bytes
  | IntegrateLine bytes bytes bytes
  | CreateConflict bytes bytes

record cli_operation =
  opr_id :: bytes
  opr_kind :: operation_kind
  opr_policy :: access_policy
  opr_private_message :: bytes
  opr_public_message :: "bytes option"
  opr_created_at :: u64

record 'git repo =
  rp_author :: "bytes option"
  rp_workspace :: workspace
  rp_path_policies :: "path_policy list"
  rp_actors :: "(bytes \<times> actor) list"
  rp_changes :: "(bytes \<times> change) list"
  rp_lines :: "(bytes \<times> cli_line) list"
  rp_snapshots :: "'git snapshot_graph"
  rp_conflicts :: "(bytes \<times> cli_conflict) list"
  rp_operations :: "(bytes \<times> cli_operation) list"
  rp_blobs :: "(bytes \<times> bytes) list"
  rp_ticks :: nat

text \<open>
  The working tree: the entries of each directory in the order the walk meets them. What reading a
  file gives is part of the tree.
\<close>

datatype working_node =
    RegularFile "(bytes, message) result" bool
  | SymbolicLink "(bytes, message) result"
  | SpecialEntry
  | Directory working_dir
and working_dir =
    DirEnd
  | DirEntry bytes working_node working_dir
  | DirError message

record cli_env =
  ev_fresh :: "nat \<Rightarrow> bytes"
  ev_now :: "nat \<Rightarrow> (u64, message) result"
  ev_sha256 :: "bytes \<Rightarrow> bytes"
  ev_sha1 :: "bytes \<Rightarrow> bytes"
  ev_manifest_json :: "file_entry list \<Rightarrow> (bytes, message) result"
  ev_differ :: text_differ
  ev_tree :: working_dir
  ev_includes :: "bytes list \<Rightarrow> bytes \<Rightarrow> bool \<Rightarrow> (bool, message) result"
  ev_working :: "bytes \<Rightarrow> ((bytes \<times> working_flags) option, message) result"
  ev_change_available :: "bytes \<Rightarrow> (unit, message) result"
  ev_stage_checkout :: "(bytes \<times> bytes \<times> working_flags) list \<Rightarrow> (bytes \<times> bytes \<times> working_flags) list \<Rightarrow> bool \<Rightarrow> (unit, message) result"

section \<open>Content\<close>

definition hex_digit :: "u8 \<Rightarrow> u8" where
  "hex_digit n = (if n < 10 then 0x30 + n else 0x57 + n)"

primrec hex_encode :: "bytes \<Rightarrow> bytes" where
  "hex_encode [] = []"
| "hex_encode (b # bs) = hex_digit (b div 16) # hex_digit (b mod 16) # hex_encode bs"

definition hash_bytes :: "cli_env \<Rightarrow> bytes \<Rightarrow> bytes" where
  "hash_bytes E bytes = hex_encode (ev_sha256 E bytes)"

definition manifest_hash :: "cli_env \<Rightarrow> file_entry list \<Rightarrow> (bytes, message) result" where
  "manifest_hash E files = and_then (ev_manifest_json E files) (\<lambda>encoded. Inr (hash_bytes E encoded))"

definition blob_name :: "bytes \<Rightarrow> bool" where
  "blob_name hash \<longleftrightarrow> length hash = 64 \<and> list_all is_hex hash"

definition require_that :: "bool \<Rightarrow> message \<Rightarrow> (unit, message) result" where
  "require_that present description = (if \<not> present then Inl description else Inr ())"

definition open_blob :: "(bytes \<times> bytes) list \<Rightarrow> bytes \<Rightarrow> (bytes, message) result" where
  "open_blob blobs hash =
     and_then (require_that (blob_name hash) ''blob identifier'') (\<lambda>_. ok_or (map_of blobs hash) ''failed to open blob'')"

definition verify_file :: "cli_env \<Rightarrow> (bytes \<times> bytes) list \<Rightarrow> file_entry \<Rightarrow> (unit, message) result" where
  "verify_file E blobs file =
     all_ok
       [validate_working_key (fe_path file),
        require_that (blob_name (fe_hash file)) ''blob identifier'',
        and_then (open_blob blobs (fe_hash file)) (\<lambda>bytes.
          all_ok
            ([require_that (of_nat (length bytes) = fe_bytes file \<and> hash_bytes E bytes = fe_hash file) ''blob digest or length''] @
             (if fe_symlink file then [validate_link bytes, require_that (\<not> fe_executable file) ''symlink mode''] else [])))]"

text \<open>
  The paths of a manifest: valid keys, all different, and none below another. The parents of a
  validated key are its prefixes before a slash and the empty path.
\<close>

definition verify_manifest_paths :: "file_entry list \<Rightarrow> (unit, message) result" where
  "verify_manifest_paths files =
     and_then
       (try_fold (\<lambda>paths file.
          and_then (validate_working_key (fe_path file)) (\<lambda>_.
            and_then (require_that (fe_path file \<notin> set paths) ''unique snapshot path'') (\<lambda>_. Inr (btset (fe_path file # paths)))))
          [] files)
       (\<lambda>paths. all_ok (concat (map (\<lambda>path.
          map (\<lambda>parent. require_that (parent \<notin> set paths) ''noncolliding snapshot paths (file/directory collision)'')
            (rev (slash_ancestors path) @ [[]])) paths)))"

definition verify_manifest :: "cli_env \<Rightarrow> (bytes \<times> bytes) list \<Rightarrow> file_entry list \<Rightarrow> (unit, message) result" where
  "verify_manifest E blobs files = and_then (verify_manifest_paths files) (\<lambda>_. all_ok (map (verify_file E blobs) files))"

text \<open>Content that is already stored under its hash must be the same.\<close>

definition publish_blob :: "bytes \<Rightarrow> bytes \<Rightarrow> message \<Rightarrow> ('git repo, unit) cmd" where
  "publish_blob hash bytes mismatch =
     bindc (ask (\<lambda>s. Inr (map_of (rp_blobs s) hash \<noteq> None))) (\<lambda>present.
       if present
       then bindc (ask (\<lambda>s. map_err Message (open_blob (rp_blobs s) hash))) (\<lambda>stored. demand (stored = bytes) (Message mismatch))
       else modify (\<lambda>s. s\<lparr>rp_blobs := bt_insert hash bytes (rp_blobs s)\<rparr>))"

section \<open>Reading records\<close>

text \<open>A record is read by the file name its key gives, and must carry the requested identity.\<close>

definition read_record ::
  "(unit, message) result \<Rightarrow> (bytes \<times> 'r) list \<Rightarrow> bytes \<Rightarrow> ('r \<Rightarrow> bool) \<Rightarrow> ('r, message) result" where
  "read_record valid dir stem same =
     and_then valid (\<lambda>_. and_then (ok_or (map_of dir stem) ''not found'') (\<lambda>value.
       if same value then Inr value else Inl ''stored identity does not match requested identity''))"

definition chg_prefix :: bytes where "chg_prefix = [0x63, 0x68, 0x67, 0x5f]"
definition snap_prefix :: bytes where "snap_prefix = [0x73, 0x6e, 0x61, 0x70, 0x5f]"
definition conf_prefix :: bytes where "conf_prefix = [0x63, 0x6f, 0x6e, 0x66, 0x5f]"
definition op_prefix :: bytes where "op_prefix = [0x6f, 0x70, 0x5f]"

definition read_actor :: "bytes \<Rightarrow> 'git repo \<Rightarrow> (actor, message) result" where
  "read_actor name s = read_record (validate_named_key name) (rp_actors s) (file_name name) (\<lambda>a. ac_name a = name)"

definition read_change :: "bytes \<Rightarrow> 'git repo \<Rightarrow> (change, message) result" where
  "read_change i s = read_record (validate_object_id i chg_prefix) (rp_changes s) i (\<lambda>c. ch_id c = i)"

definition read_snapshot :: "bytes \<Rightarrow> 'git repo \<Rightarrow> ('git cli_snapshot, message) result" where
  "read_snapshot i s = read_record (validate_object_id i snap_prefix) (rp_snapshots s) i (\<lambda>x. sn_id x = i)"

definition read_line :: "bytes \<Rightarrow> 'git repo \<Rightarrow> (cli_line, message) result" where
  "read_line name s = read_record (validate_named_key name) (rp_lines s) (file_name name) (\<lambda>l. ln_name l = name)"

definition read_conflict :: "bytes \<Rightarrow> 'git repo \<Rightarrow> (cli_conflict, message) result" where
  "read_conflict i s = read_record (validate_object_id i conf_prefix) (rp_conflicts s) i (\<lambda>c. cf_id c = i)"

definition read_optional_snapshot :: "bytes option \<Rightarrow> 'git repo \<Rightarrow> ('git cli_snapshot option, message) result" where
  "read_optional_snapshot i s =
     (case i of None \<Rightarrow> Inr None | Some i \<Rightarrow> and_then (read_snapshot i s) (\<lambda>x. Inr (Some x)))"

definition fetch :: "('s \<Rightarrow> ('a, message) result) \<Rightarrow> ('s, 'a) cmd" where
  "fetch f = ask (\<lambda>s. map_err Message (f s))"

section \<open>Writing records\<close>

definition put_actor :: "bytes \<Rightarrow> actor \<Rightarrow> ('git repo, unit) cmd" where
  "put_actor name v = bindc (attempt (validate_named_key name)) (\<lambda>_. modify (\<lambda>s. s\<lparr>rp_actors := bt_insert (file_name name) v (rp_actors s)\<rparr>))"

definition put_line :: "bytes \<Rightarrow> cli_line \<Rightarrow> ('git repo, unit) cmd" where
  "put_line name v = bindc (attempt (validate_named_key name)) (\<lambda>_. modify (\<lambda>s. s\<lparr>rp_lines := bt_insert (file_name name) v (rp_lines s)\<rparr>))"

definition put_change :: "bytes \<Rightarrow> change \<Rightarrow> ('git repo, unit) cmd" where
  "put_change i v = bindc (attempt (validate_object_id i chg_prefix)) (\<lambda>_. modify (\<lambda>s. s\<lparr>rp_changes := bt_insert i v (rp_changes s)\<rparr>))"

definition put_snapshot :: "bytes \<Rightarrow> 'git cli_snapshot \<Rightarrow> ('git repo, unit) cmd" where
  "put_snapshot i v = bindc (attempt (validate_object_id i snap_prefix)) (\<lambda>_. modify (\<lambda>s. s\<lparr>rp_snapshots := bt_insert i v (rp_snapshots s)\<rparr>))"

definition put_conflict :: "bytes \<Rightarrow> cli_conflict \<Rightarrow> ('git repo, unit) cmd" where
  "put_conflict i v = bindc (attempt (validate_object_id i conf_prefix)) (\<lambda>_. modify (\<lambda>s. s\<lparr>rp_conflicts := bt_insert i v (rp_conflicts s)\<rparr>))"

definition put_operation :: "bytes \<Rightarrow> cli_operation \<Rightarrow> ('git repo, unit) cmd" where
  "put_operation i v = bindc (attempt (validate_object_id i op_prefix)) (\<lambda>_. modify (\<lambda>s. s\<lparr>rp_operations := bt_insert i v (rp_operations s)\<rparr>))"

definition put_workspace :: "workspace \<Rightarrow> ('git repo, unit) cmd" where
  "put_workspace w = modify (\<lambda>s. s\<lparr>rp_workspace := w\<rparr>)"

text \<open>Each random identifier is used once.\<close>

definition new_id :: "cli_env \<Rightarrow> bytes \<Rightarrow> ('git repo, bytes) cmd" where
  "new_id E prefix s = (Inr (prefix @ ev_fresh E (rp_ticks s)), s\<lparr>rp_ticks := rp_ticks s + 1\<rparr>)"

definition now :: "cli_env \<Rightarrow> ('git repo, u64) cmd" where
  "now E = fetch (\<lambda>s. ev_now E (rp_ticks s))"

definition record_operation ::
  "cli_env \<Rightarrow> operation_kind \<Rightarrow> access_policy \<Rightarrow> bytes \<Rightarrow> bytes option \<Rightarrow> ('git repo, unit) cmd" where
  "record_operation E kind policy private_message public_message =
     bindc (new_id E op_prefix) (\<lambda>i. bindc (now E) (\<lambda>t.
       put_operation i \<lparr>opr_id = i, opr_kind = kind, opr_policy = policy, opr_private_message = private_message,
         opr_public_message = public_message, opr_created_at = t\<rparr>))"

definition configured :: "'git repo \<Rightarrow> (bytes option, message) result" where
  "configured s =
     (case rp_author s of
        Some author \<Rightarrow> and_then (validate_author author) (\<lambda>_. Inr (Some author))
      | None \<Rightarrow> Inr None)"

end
