(* ===== verification/Working_Tree.thy ===== *)
theory Working_Tree
  imports Repository
begin

text \<open>
  The scan of the working tree for a snapshot, \<open>scan_working_tree\<close> of \<open>src/main.rs\<close> with the capture of
  \<open>src/capture.rs\<close>, as it runs on Unix. The walk visits the entries of a directory in the order of the
  tree, does not enter what the metadata names or the ignore rules exclude, and stores the content
  of every file under its hash.
\<close>

definition should_scan :: "bytes \<Rightarrow> bool" where
  "should_scan name \<longleftrightarrow> \<not> utf8_valid name \<or>
     map ascii_lower name \<notin> {[0x2e, 0x67, 0x69, 0x74], [0x2e, 0x72, 0x67, 0x69, 0x74]}"

fun is_dir :: "working_node \<Rightarrow> bool" where
  "is_dir (Directory _) \<longleftrightarrow> True"
| "is_dir _ \<longleftrightarrow> False"

text \<open>The entry of a file, with its content stored. A link is checked after it was stored.\<close>

definition capture_file ::
  "cli_env \<Rightarrow> path_policy list \<Rightarrow> bytes list \<Rightarrow> (bytes, message) result \<Rightarrow> working_flags \<Rightarrow> ('git repo, file_entry list) cmd" where
  "capture_file E policies names content fl =
     bindc (attempt (repository_relative_path (join_slash names))) (\<lambda>relative_path.
     bindc (attempt content) (\<lambda>bytes.
     let hash = hash_bytes E bytes in
     bindc (publish_blob hash bytes ''stored blob failed verification; snapshot was not published'') (\<lambda>_.
     bindc (attempt (if wf_symlink fl then validate_link bytes else Inr ())) (\<lambda>_.
     ret [\<lparr>fe_symlink = wf_symlink fl, fe_path = relative_path, fe_executable = wf_executable fl, fe_hash = hash,
       fe_bytes = of_nat (length bytes), fe_policy = policy_for_path relative_path policies\<rparr>]))))"

text \<open>Whether the walk keeps an entry: the ignore rules are only consulted for a name that may be scanned.\<close>

definition kept_entry :: "cli_env \<Rightarrow> bytes list \<Rightarrow> bytes list \<Rightarrow> bytes \<Rightarrow> bool \<Rightarrow> (bool, message) result" where
  "kept_entry E tracked names name directory =
     (if should_scan name
      then and_then (repository_relative_path (join_slash names)) (\<lambda>relative. ev_includes E tracked relative directory)
      else Inr False)"

primrec scan_node ::
    "cli_env \<Rightarrow> path_policy list \<Rightarrow> bytes list \<Rightarrow> bytes list \<Rightarrow> working_node \<Rightarrow> ('git repo, file_entry list) cmd"
  and scan_dir ::
    "cli_env \<Rightarrow> path_policy list \<Rightarrow> bytes list \<Rightarrow> bytes list \<Rightarrow> working_dir \<Rightarrow> ('git repo, file_entry list) cmd" where
  "scan_node E policies tracked names (RegularFile content executable) =
     capture_file E policies names content \<lparr>wf_executable = executable, wf_symlink = False\<rparr>"
| "scan_node E policies tracked names (SymbolicLink target) =
     capture_file E policies names target \<lparr>wf_executable = False, wf_symlink = True\<rparr>"
| "scan_node E policies tracked names SpecialEntry = fail (Message ''unsupported special filesystem entry'')"
| "scan_node E policies tracked names (Directory entries) = scan_dir E policies tracked names entries"
| "scan_dir E policies tracked names DirEnd = ret []"
| "scan_dir E policies tracked names (DirError e) = fail (Message e)"
| "scan_dir E policies tracked names (DirEntry name node entries) =
     bindc (attempt (kept_entry E tracked (names @ [name]) name (is_dir node))) (\<lambda>kept.
     bindc (if kept then scan_node E policies tracked (names @ [name]) node else ret []) (\<lambda>files.
     bindc (scan_dir E policies tracked names entries) (\<lambda>rest.
     ret (files @ rest))))"

text \<open>The paths of the snapshots that the working tree was taken from stay tracked.\<close>

definition tracked_paths :: "'git repo \<Rightarrow> (bytes list, message) result" where
  "tracked_paths s =
     and_then (case ws_current_change (rp_workspace s) of
         None \<Rightarrow> Inr None
       | Some i \<Rightarrow> and_then (read_change i s) (\<lambda>change. read_optional_snapshot (workspace_base_snapshot_id change) s)) (\<lambda>baseline.
     and_then (read_optional_snapshot (ws_mode_snapshot (rp_workspace s)) s) (\<lambda>materialized.
     Inr (btset (map fe_path (optional_snapshot_files baseline @ optional_snapshot_files materialized)))))"

definition scan_working_tree :: "cli_env \<Rightarrow> ('git repo, file_entry list) cmd" where
  "scan_working_tree E =
     bindc (ask (\<lambda>s. Inr (rp_path_policies s))) (\<lambda>policies.
     bindc (fetch tracked_paths) (\<lambda>tracked.
     bindc (scan_dir E policies tracked [] (ev_tree E)) (\<lambda>files.
     ret (sort_key fe_path files))))"

end
