(* ===== verification/Commands.thy ===== *)
theory Commands
  imports Working_Tree
begin

text \<open>
  The commands over the repository's records: \<open>src/main.rs\<close> (actors, path policies, changes, snapshots,
  integration and its conflicts), \<open>src/lines.rs\<close>, \<open>src/identity.rs\<close>, \<open>src/resolution.rs\<close>, the choice of a
  side in \<open>src/tree_conflicts.rs\<close>, \<open>src/checkout.rs\<close>, and the retargeting of \<open>src/git_remotes.rs\<close>. Printing is left out.
\<close>

text \<open>The bytes of a string literal.\<close>

definition ascii_text :: "string \<Rightarrow> bytes" where
  "ascii_text s = map of_char s"

definition quoted :: "bytes \<Rightarrow> bytes" where
  "quoted s = [0x60] @ s @ [0x60]"

section \<open>Configuration\<close>

definition set_actor :: "cli_env \<Rightarrow> bytes \<Rightarrow> bytes list \<Rightarrow> ('git repo, unit) cmd" where
  "set_actor E name domains =
     bindc (attempt (validate_named_key name)) (\<lambda>_.
     bindc (ask (\<lambda>s. Inr (map_of (rp_actors s) (file_name name) \<noteq> None))) (\<lambda>present.
     bindc (if present then bindc (fetch (read_actor name)) (\<lambda>_. ret ()) else ret ()) (\<lambda>_.
     let actor = \<lparr>ac_name = name, ac_domains = normalize_domains domains\<rparr> in
     bindc (put_actor name actor) (\<lambda>_.
     record_operation E (SetActor (ac_name actor)) admin_policy (ascii_text ''set actor '' @ quoted (ac_name actor)) None))))"

definition set_path_policy :: "cli_env \<Rightarrow> bytes \<Rightarrow> bytes list \<Rightarrow> ('git repo, unit) cmd" where
  "set_path_policy E prefix domains =
     bindc (ask (\<lambda>s. Inr (rp_path_policies s))) (\<lambda>policies.
     bindc (attempt (repository_relative_path prefix)) (\<lambda>normalized_prefix.
     let policy = \<lparr>ap_domains = normalize_domains domains, ap_redaction = RedactPlaceholder\<rparr>;
         policies = filter (\<lambda>item. pp_prefix item \<noteq> normalized_prefix) policies;
         policies = sort_key pp_prefix (policies @ [\<lparr>pp_prefix = normalized_prefix, pp_policy = policy\<rparr>]) in
     bindc (modify (\<lambda>s. s\<lparr>rp_path_policies := policies\<rparr>)) (\<lambda>_.
     record_operation E (SetPathPolicy normalized_prefix) admin_policy (ascii_text ''set path policy '' @ quoted normalized_prefix) None)))"

definition set_identity :: "cli_env \<Rightarrow> bytes \<Rightarrow> bytes \<Rightarrow> ('git repo, unit) cmd" where
  "set_identity E name email =
     bindc (demand (trim name \<noteq> [] \<and> \<not> list_ex (\<lambda>i. drop_space white_space (drop i email) \<noteq> None) [0..<length email])
       (Message ''identity requires a name and an email without whitespace'')) (\<lambda>_.
     let author = trim name @ ascii_text '' <'' @ email @ ascii_text ''>'' in
     bindc (attempt (validate_author author)) (\<lambda>_.
     bindc (modify (\<lambda>s. s\<lparr>rp_author := Some author\<rparr>)) (\<lambda>_.
     record_operation E SetIdentity admin_policy (ascii_text ''configured author '' @ quoted author @ ascii_text '' for future snapshots'') None)))"

section \<open>Changes and snapshots\<close>

definition create_change :: "cli_env \<Rightarrow> bytes \<Rightarrow> bytes \<Rightarrow> access_policy \<Rightarrow> ('git repo, unit) cmd" where
  "create_change E name target_line policy =
     bindc (fetch (read_line target_line)) (\<lambda>target.
     bindc (new_id E chg_prefix) (\<lambda>i.
     bindc (now E) (\<lambda>t.
     let change = \<lparr>ch_id = i, ch_name = name, ch_base_snapshot = ln_head_snapshot target, ch_target_line = ln_name target,
           ch_current_snapshot = None, ch_policy = policy, ch_created_at = t\<rparr> in
     bindc (ask (\<lambda>s. Inr (rp_workspace s))) (\<lambda>w.
     bindc (case (ws_mode_snapshot w, ws_current_change w) of
         (None, Some c) \<Rightarrow> bindc (fetch (read_change c)) (\<lambda>previous. ret (workspace_base_snapshot_id previous))
       | (m, _) \<Rightarrow> ret m) (\<lambda>mode.
     bindc (put_change i change) (\<lambda>_.
     bindc (put_workspace \<lparr>ws_current_change = Some i, ws_mode_snapshot = mode\<rparr>) (\<lambda>_.
     record_operation E (CreateChange i) policy (ascii_text ''created change '' @ quoted name) None)))))))"

definition current_change_id :: "message \<Rightarrow> ('git repo, bytes) cmd" where
  "current_change_id missing =
     bindc (ask (\<lambda>s. Inr (ws_current_change (rp_workspace s)))) (\<lambda>c.
       case c of None \<Rightarrow> fail (Message missing) | Some i \<Rightarrow> ret i)"

definition no_current_change :: message where
  "no_current_change = ''workspace has no current change; run `rgit change new <name>` first''"

definition create_snapshot :: "cli_env \<Rightarrow> bytes \<Rightarrow> access_policy \<Rightarrow> ('git repo, unit) cmd" where
  "create_snapshot E message requested_policy =
     bindc (current_change_id no_current_change) (\<lambda>change_id.
     bindc (fetch (read_change change_id)) (\<lambda>change.
     let snapshot_policy = (if ap_domains requested_policy = [PUBLIC_DOMAIN] then ch_policy change else requested_policy) in
     bindc (scan_working_tree E) (\<lambda>files.
     bindc (attempt (manifest_hash E files)) (\<lambda>hash.
     bindc (fetch configured) (\<lambda>author.
     bindc (new_id E snap_prefix) (\<lambda>i.
     bindc (now E) (\<lambda>t.
     let snapshot = \<lparr>sn_author = author, sn_git = None, sn_id = i, sn_change_id = ch_id change,
           sn_parent_snapshot = workspace_base_snapshot_id change, sn_merge_parents = [], sn_message = message,
           sn_manifest_hash = hash, sn_files = files, sn_policy = snapshot_policy, sn_created_at = t\<rparr> in
     bindc (ask (\<lambda>s. Inr (rp_workspace s))) (\<lambda>w.
     bindc (put_workspace (w\<lparr>ws_mode_snapshot := Some i\<rparr>)) (\<lambda>_.
     bindc (put_snapshot i snapshot) (\<lambda>_.
     bindc (put_change (ch_id change) (change\<lparr>ch_current_snapshot := Some i\<rparr>)) (\<lambda>_.
     record_operation E (CreateSnapshot (ch_id change) i) snapshot_policy
       (ascii_text ''created snapshot for '' @ quoted (ch_name change)) None)))))))))))"

definition retarget :: "cli_env \<Rightarrow> bytes \<Rightarrow> bytes \<Rightarrow> ('git repo, unit) cmd" where
  "retarget E target actor_name =
     bindc (fetch (read_actor actor_name)) (\<lambda>actor.
     bindc (current_change_id ''workspace has no current change'') (\<lambda>i.
     bindc (fetch (read_change i)) (\<lambda>change.
     bindc (fetch (read_line target)) (\<lambda>line.
     bindc (demand (can_access actor (ch_policy change) \<and> can_access actor (ln_policy line)) (Failure OperationUnavailable)) (\<lambda>_.
     bindc (put_change i (change\<lparr>ch_target_line := target\<rparr>)) (\<lambda>_.
     record_operation E (RetargetChange i target) admin_policy
       (ascii_text ''retargeted change '' @ quoted i @ ascii_text '' to '' @ quoted target) None))))))"

section \<open>Lines\<close>

definition verify_target :: "cli_env \<Rightarrow> 'git cli_snapshot \<Rightarrow> 'git repo \<Rightarrow> (unit, message) result" where
  "verify_target E snapshot s =
     and_then (manifest_hash E (sn_files snapshot)) (\<lambda>h.
       and_then (require_that (h = sn_manifest_hash snapshot) ''line target manifest failed verification'') (\<lambda>_.
         all_ok (map (verify_file E (rp_blobs s)) (sn_files snapshot))))"

text \<open>The policy of a line made from another, once its head was found accessible and intact.\<close>

definition created_line_policy :: "cli_env \<Rightarrow> actor \<Rightarrow> cli_line \<Rightarrow> ('git repo, access_policy) cmd" where
  "created_line_policy E actor source =
     (case ln_head_snapshot source of
        None \<Rightarrow> ret (ln_policy source)
      | Some i \<Rightarrow>
          bindc (fetch (read_snapshot i)) (\<lambda>snapshot.
          bindc (fetch (read_change (sn_change_id snapshot))) (\<lambda>owner.
          bindc (demand (can_access actor (sn_policy snapshot) \<and> can_access actor (ch_policy owner)) (Failure OperationUnavailable)) (\<lambda>_.
          bindc (fetch (verify_target E snapshot)) (\<lambda>_.
          ret (if ln_policy source \<noteq> sn_policy snapshot \<or> ln_policy source \<noteq> ch_policy owner then admin_policy else ln_policy source))))))"

definition line_create :: "cli_env \<Rightarrow> bytes \<Rightarrow> bytes \<Rightarrow> bytes \<Rightarrow> ('git repo, unit) cmd" where
  "line_create E name from_line actor_name =
     bindc (fetch (read_actor actor_name)) (\<lambda>actor.
     bindc (fetch (read_line from_line)) (\<lambda>source.
     bindc (demand (can_access actor (ln_policy source)) (Failure OperationUnavailable)) (\<lambda>_.
     bindc (attempt (validate_named_key name)) (\<lambda>_.
     bindc (ask (\<lambda>s. if map_of (rp_lines s) (file_name name) \<noteq> None then Inl (Message ''line already exists'') else Inr ())) (\<lambda>_.
     bindc (created_line_policy E actor source) (\<lambda>policy.
     bindc (now E) (\<lambda>t.
     bindc (put_line name \<lparr>ln_name = name, ln_head_snapshot = ln_head_snapshot source, ln_policy = policy, ln_created_at = t\<rparr>) (\<lambda>_.
     record_operation E (CreateLine name from_line (ln_head_snapshot source)) admin_policy
       (ascii_text ''created line '' @ quoted name @ ascii_text '' from '' @ quoted from_line) None))))))))"

definition line_reset :: "cli_env \<Rightarrow> bytes \<Rightarrow> bytes \<Rightarrow> bytes \<Rightarrow> bytes \<Rightarrow> ('git repo, unit) cmd" where
  "line_reset E name to_id expected actor_name =
     bindc (fetch (read_actor actor_name)) (\<lambda>actor.
     bindc (fetch (read_line name)) (\<lambda>line.
     bindc (fetch (read_snapshot to_id)) (\<lambda>snapshot.
     bindc (fetch (read_change (sn_change_id snapshot))) (\<lambda>owner.
     bindc (demand (can_access actor (ln_policy line) \<and> can_access actor (sn_policy snapshot) \<and> can_access actor (ch_policy owner))
       (Failure OperationUnavailable)) (\<lambda>_.
     bindc (attempt (validate_object_id expected snap_prefix)) (\<lambda>_.
     bindc (demand (ln_head_snapshot line = Some expected) (Message ''line head changed; inspect the current head before retrying reset'')) (\<lambda>_.
     if expected = to_id then ret ()
     else
       bindc (fetch (verify_target E snapshot)) (\<lambda>_.
       let policy = (if ln_policy line \<noteq> sn_policy snapshot \<or> ln_policy line \<noteq> ch_policy owner then admin_policy else ln_policy line) in
       bindc (put_line name (line\<lparr>ln_policy := policy, ln_head_snapshot := Some to_id\<rparr>)) (\<lambda>_.
       record_operation E (ResetLine name expected to_id) admin_policy
         (ascii_text ''reset line '' @ quoted name @ ascii_text '' from '' @ quoted expected @ ascii_text '' to '' @ quoted to_id) None)))))))))"

section \<open>Resolved conflicts\<close>

definition matches_sources :: "cli_conflict \<Rightarrow> cli_line \<Rightarrow> change \<Rightarrow> 'git cli_snapshot \<Rightarrow> bool" where
  "matches_sources conflict line change incoming \<longleftrightarrow>
     cf_line conflict = ln_name line \<and> cf_change_id conflict = ch_id change \<and>
     cf_base_snapshot conflict = ch_base_snapshot change \<and> cf_line_snapshot conflict = ln_head_snapshot line \<and>
     cf_incoming_snapshot conflict = sn_id incoming"

text \<open>The base, line and incoming snapshots of a conflict.\<close>

definition conflict_snapshots :: "cli_conflict \<Rightarrow> 'git repo \<Rightarrow> ('git cli_snapshot option list, message) result" where
  "conflict_snapshots conflict s =
     and_then (read_optional_snapshot (cf_base_snapshot conflict) s) (\<lambda>base.
       and_then (read_optional_snapshot (cf_line_snapshot conflict) s) (\<lambda>line.
         and_then (read_snapshot (cf_incoming_snapshot conflict) s) (\<lambda>incoming.
           Inr [base, line, Some incoming])))"

definition sources_visible :: "actor \<Rightarrow> 'git cli_snapshot option list \<Rightarrow> file_entry list \<Rightarrow> bool" where
  "sources_visible actor snapshots files \<longleftrightarrow>
     list_all (\<lambda>s. case s of Some s \<Rightarrow> can_access actor (sn_policy s) | None \<Rightarrow> True) snapshots \<and>
     list_all (\<lambda>file. can_access actor (fe_policy file)) files"

text \<open>Choosing content keeps a restriction that any side had.\<close>

definition guarded_policy :: "file_entry list \<Rightarrow> file_entry \<Rightarrow> file_entry" where
  "guarded_policy sides file =
     (if list_ex (\<lambda>side. fe_policy side \<noteq> fe_policy file) sides then file\<lparr>fe_policy := admin_policy\<rparr> else file)"

definition resolved_tree ::
  "cli_env \<Rightarrow> actor \<Rightarrow> cli_conflict \<Rightarrow> resolution \<Rightarrow> 'git repo \<Rightarrow> (file_entry list, cli_error) result" where
  "resolved_tree E actor conflict decision s =
     (if decision = TakeCustom
      then Inl (Message ''file/directory conflicts require --take base, line, incoming, or delete; edit and snapshot a side for custom content'')
      else and_then (map_err Message (conflict_snapshots conflict s)) (\<lambda>snapshots.
        let sides = map (\<lambda>sn. filter (\<lambda>file. contains (cf_path conflict) (fe_path file)) (optional_snapshot_files sn)) snapshots in
        if \<not> sources_visible actor snapshots (concat sides) then Inl (Failure OperationUnavailable)
        else
          let chosen = (case decision of
                TakeBase \<Rightarrow> sides ! 0 | TakeLine \<Rightarrow> sides ! 1 | TakeIncoming \<Rightarrow> sides ! 2 | _ \<Rightarrow> []);
              chosen = map (guarded_policy (concat sides)) chosen
          in and_then (map_err Message (verify_manifest E (rp_blobs s) chosen)) (\<lambda>_. Inr chosen)))"

definition resolved_file ::
  "cli_env \<Rightarrow> actor \<Rightarrow> cli_conflict \<Rightarrow> resolution \<Rightarrow> 'git repo \<Rightarrow> (file_entry option, cli_error) result" where
  "resolved_file E actor conflict decision s =
     and_then (map_err Message (conflict_snapshots conflict s)) (\<lambda>snapshots.
       let sides = map (\<lambda>sn. find (\<lambda>f. fe_path f = cf_path conflict) (optional_snapshot_files sn)) snapshots in
       if \<not> sources_visible actor snapshots (flatten_options sides) then Inl (Failure OperationUnavailable)
       else and_then
         (case decision of
            TakeBase \<Rightarrow> Inr (sides ! 0) | TakeLine \<Rightarrow> Inr (sides ! 1) | TakeIncoming \<Rightarrow> Inr (sides ! 2) | TakeDelete \<Rightarrow> Inr None
          | TakeCustom \<Rightarrow>
              and_then (ok_or (cf_replacement conflict) (Message ''custom resolution content missing'')) (\<lambda>file.
              and_then (map_err Message (verify_file E (rp_blobs s) file)) (\<lambda>_.
              if fe_path file \<noteq> cf_path conflict then Inl (Message ''custom resolution path mismatch'')
              else if \<not> can_access actor (fe_policy file) then Inl (Failure OperationUnavailable)
              else Inr (Some file))))
         (\<lambda>chosen. Inr (map_option (guarded_policy (flatten_options sides)) chosen)))"

definition resolved_files ::
  "cli_env \<Rightarrow> actor \<Rightarrow> cli_conflict \<Rightarrow> resolution \<Rightarrow> 'git repo \<Rightarrow> (file_entry list, cli_error) result" where
  "resolved_files E actor conflict decision s =
     (if cf_kind conflict = FileDirectory then resolved_tree E actor conflict decision s
      else and_then (resolved_file E actor conflict decision s) (\<lambda>f. Inr (case f of Some file \<Rightarrow> [file] | None \<Rightarrow> [])))"

definition ancestry_failure :: "message ancestry_error \<Rightarrow> cli_error" where
  "ancestry_failure e =
     Message (case e of
       ReadSnapshot m \<Rightarrow> m
     | AncestryCycle \<Rightarrow> ''snapshot ancestry contains a cycle''
     | MissingSnapshotParent \<Rightarrow> ''missing snapshot parent''
     | DuplicateParents \<Rightarrow> ''snapshot has duplicate parents''
     | MultipleMergeBases \<Rightarrow> ''multiple merge bases require recursive merging; integration was not published'')"

definition find_merge_base ::
  "bytes option \<Rightarrow> 'git cli_snapshot \<Rightarrow> bytes option \<Rightarrow> 'git repo \<Rightarrow> ('git cli_snapshot option, cli_error) result" where
  "find_merge_base line incoming legacy_base s =
     (case merge_base (\<lambda>i. read_snapshot i s) line incoming legacy_base of
        None \<Rightarrow> Inl NoReturn
      | Some r \<Rightarrow> map_err ancestry_failure r)"

text \<open>The content of a custom resolution, published as a blob.\<close>

definition custom_replacement :: "cli_env \<Rightarrow> actor \<Rightarrow> cli_conflict \<Rightarrow> ('git repo, file_entry option) cmd" where
  "custom_replacement E actor conflict =
     bindc (ask (\<lambda>s. Inr (policy_for_path (cf_path conflict) (rp_path_policies s)))) (\<lambda>policy.
     bindc (demand (can_access actor policy) (Failure OperationUnavailable)) (\<lambda>_.
     bindc (attempt (validate_working_key (cf_path conflict))) (\<lambda>_.
     bindc (attempt (ev_working E (cf_path conflict))) (\<lambda>file.
     case file of
       None \<Rightarrow> fail (Message ''custom resolution file is missing; use --take delete to resolve a deletion'')
     | Some (bytes, fl) \<Rightarrow>
         bindc (attempt (if wf_symlink fl then validate_link bytes else Inr ())) (\<lambda>_.
         let hash = hash_bytes E bytes in
         bindc (publish_blob hash bytes ''custom resolution blob failed verification'') (\<lambda>_.
         ret (Some \<lparr>fe_symlink = wf_symlink fl, fe_path = cf_path conflict, fe_executable = wf_executable fl, fe_hash = hash,
           fe_bytes = of_nat (length bytes), fe_policy = policy\<rparr>)))))))"

definition resolve_conflict :: "cli_env \<Rightarrow> bytes \<Rightarrow> resolution \<Rightarrow> bytes \<Rightarrow> ('git repo, unit) cmd" where
  "resolve_conflict E i decision actor_name =
     bindc (fetch (read_actor actor_name)) (\<lambda>actor.
     bindc (ask (\<lambda>s. map_err (\<lambda>_. Failure OperationUnavailable) (read_conflict i s))) (\<lambda>conflict.
     bindc (demand (can_access_conflict actor conflict) (Failure OperationUnavailable)) (\<lambda>_.
     bindc (fetch (read_change (cf_change_id conflict))) (\<lambda>change.
     bindc (fetch (read_line (cf_line conflict))) (\<lambda>line.
     bindc (fetch (read_snapshot (cf_incoming_snapshot conflict))) (\<lambda>incoming.
     bindc (demand (can_access actor (ch_policy change) \<and> can_access actor (ln_policy line)) (Failure OperationUnavailable)) (\<lambda>_.
     bindc (ask (find_merge_base (ln_head_snapshot line) incoming (ch_base_snapshot change))) (\<lambda>base.
     let change = change\<lparr>ch_base_snapshot := map_option sn_id base\<rparr> in
     bindc (demand (matches_sources conflict line change incoming \<and> ch_current_snapshot change = Some (sn_id incoming))
       (Message ''conflict sources changed; integrate again to obtain current conflicts'')) (\<lambda>_.
     bindc (ask (resolved_files E actor conflict TakeIncoming)) (\<lambda>_.
     bindc (demand (\<not> (cf_kind conflict = FileDirectory \<and> decision = TakeCustom))
       (Message ''file/directory conflicts require --take base, line, incoming, or delete; edit and snapshot a side for custom content'')) (\<lambda>_.
     bindc (if decision = TakeCustom then custom_replacement E actor conflict else ret None) (\<lambda>replacement.
     let conflict = conflict\<lparr>cf_replacement := replacement\<rparr> in
     bindc (if decision = TakeCustom then ask (resolved_file E actor conflict decision)
       else bindc (ask (resolved_files E actor conflict decision)) (\<lambda>_. ret replacement)) (\<lambda>replacement.
     bindc (put_conflict i (conflict\<lparr>cf_replacement := replacement, cf_status := Resolved, cf_resolution := Some decision\<rparr>)) (\<lambda>_.
     record_operation E (ResolveConflict i) admin_policy (ascii_text ''resolved conflict '' @ quoted i) None))))))))))))))"

primrec resolve_all ::
  "cli_env \<Rightarrow> actor \<Rightarrow> cli_line \<Rightarrow> change \<Rightarrow> 'git cli_snapshot \<Rightarrow> 'git repo \<Rightarrow> tree_plan
    \<Rightarrow> pending_conflict list \<Rightarrow> (tree_plan, cli_error) result" where
  "resolve_all E actor line change incoming s plan [] = Inr plan"
| "resolve_all E actor line change incoming s plan (pending # ps) =
     (let found = filter (\<lambda>c. cf_status c = Resolved \<and> cf_path c = pc_path pending \<and> cf_kind c = pc_kind pending \<and>
            matches_sources c line change incoming) (map snd (rp_conflicts s)) in
      if length found > 1 then Inl (Message ''multiple resolutions match the same conflict sources'')
      else case found of
        [] \<Rightarrow> resolve_all E actor line change incoming s (plan\<lparr>tp_conflicts := tp_conflicts plan @ [pending]\<rparr>) ps
      | conflict # _ \<Rightarrow>
          if \<not> can_access_conflict actor conflict then Inl (Failure OperationUnavailable)
          else and_then (ok_or (cf_resolution conflict) (Message ''resolved conflict has no decision'')) (\<lambda>decision.
            and_then (resolved_files E actor conflict decision s) (\<lambda>files.
              resolve_all E actor line change incoming s (plan\<lparr>tp_merged_files := tp_merged_files plan @ files\<rparr>) ps)))"

definition apply_resolutions ::
  "cli_env \<Rightarrow> actor \<Rightarrow> cli_line \<Rightarrow> change \<Rightarrow> 'git cli_snapshot \<Rightarrow> tree_plan \<Rightarrow> 'git repo \<Rightarrow> (tree_plan, cli_error) result" where
  "apply_resolutions E actor line change incoming plan s =
     (if tp_conflicts plan = [] then Inr plan
      else and_then (resolve_all E actor line change incoming s (plan\<lparr>tp_conflicts := []\<rparr>) (tp_conflicts plan)) (\<lambda>plan.
        Inr (plan\<lparr>tp_merged_files := sort_key fe_path (tp_merged_files plan)\<rparr>)))"

section \<open>Stored conflicts\<close>

definition refresh_conflict ::
  "cli_conflict \<Rightarrow> change \<Rightarrow> 'git cli_snapshot \<Rightarrow> access_policy \<Rightarrow> pending_conflict \<Rightarrow> cli_conflict" where
  "refresh_conflict conflict change incoming source_policy pending =
     conflict\<lparr>cf_incoming_snapshot := sn_id incoming, cf_kind := pc_kind pending,
       cf_policy := combined_access_policy [pc_policy pending, ch_policy change, cf_line_policy conflict],
       cf_change_policy := ch_policy change, cf_file_policy := pc_policy pending,
       cf_file_policies := pc_file_policies pending, cf_source_policy := source_policy\<rparr>"

definition find_existing_unresolved_conflict ::
  "cli_line \<Rightarrow> change \<Rightarrow> bytes \<Rightarrow> 'git repo \<Rightarrow> cli_conflict option" where
  "find_existing_unresolved_conflict line change path s =
     find (\<lambda>c. cf_status c = Unresolved \<and> cf_line c = ln_name line \<and> cf_change_id c = ch_id change \<and>
       cf_base_snapshot c = ch_base_snapshot change \<and> cf_line_snapshot c = ln_head_snapshot line \<and> cf_path c = path)
       (map snd (rp_conflicts s))"

definition new_conflict ::
  "cli_line \<Rightarrow> change \<Rightarrow> 'git cli_snapshot \<Rightarrow> access_policy \<Rightarrow> pending_conflict \<Rightarrow> bytes \<Rightarrow> u64 \<Rightarrow> cli_conflict" where
  "new_conflict line change incoming source_policy pending i t =
     \<lparr>cf_id = i, cf_line = ln_name line, cf_change_id = ch_id change, cf_base_snapshot = ch_base_snapshot change,
      cf_line_snapshot = ln_head_snapshot line, cf_incoming_snapshot = sn_id incoming, cf_path = pc_path pending,
      cf_kind = pc_kind pending,
      cf_policy = combined_access_policy [pc_policy pending, ch_policy change, ln_policy line],
      cf_line_policy = ln_policy line, cf_change_policy = ch_policy change, cf_file_policy = pc_policy pending,
      cf_file_policies = pc_file_policies pending, cf_source_policy = source_policy, cf_status = Unresolved,
      cf_resolution = None, cf_replacement = None, cf_created_at = t\<rparr>"

definition store_conflict ::
  "cli_env \<Rightarrow> cli_line \<Rightarrow> change \<Rightarrow> 'git cli_snapshot \<Rightarrow> access_policy \<Rightarrow> pending_conflict \<Rightarrow> ('git repo, cli_conflict) cmd" where
  "store_conflict E line change incoming source_policy pending =
     bindc (ask (\<lambda>s. Inr (find_existing_unresolved_conflict line change (pc_path pending) s))) (\<lambda>existing.
     case existing of
       Some existing \<Rightarrow>
         (let refreshed = refresh_conflict existing change incoming source_policy pending in
          bindc (put_conflict (cf_id refreshed) refreshed) (\<lambda>_. ret refreshed))
     | None \<Rightarrow>
         bindc (new_id E conf_prefix) (\<lambda>i.
         bindc (now E) (\<lambda>t.
         let conflict = new_conflict line change incoming source_policy pending i t in
         bindc (put_conflict i conflict) (\<lambda>_.
         bindc (record_operation E (CreateConflict i (ch_id change)) admin_policy (ascii_text ''created merge conflict '' @ quoted i) None) (\<lambda>_.
         ret conflict)))))"

primrec store_conflicts ::
  "cli_env \<Rightarrow> cli_line \<Rightarrow> change \<Rightarrow> 'git cli_snapshot \<Rightarrow> access_policy \<Rightarrow> pending_conflict list \<Rightarrow> ('git repo, cli_conflict list) cmd" where
  "store_conflicts E line change incoming source_policy [] = ret []"
| "store_conflicts E line change incoming source_policy (pending # ps) =
     bindc (store_conflict E line change incoming source_policy pending) (\<lambda>c.
     bindc (store_conflicts E line change incoming source_policy ps) (\<lambda>cs. ret (c # cs)))"

section \<open>Integration\<close>

definition text_failure :: "message text_error \<Rightarrow> cli_error" where
  "text_failure e =
     Message (case e of
       OpenBlob m \<Rightarrow> m
     | SourceVerification \<Rightarrow> ''text merge source blob failed verification''
     | GeneratedVerification \<Rightarrow> ''generated merge content failed verification''
     | ExistingBlob \<Rightarrow> ''existing merge blob failed verification''
     | VerifyManifest m \<Rightarrow> m)"

definition merge_plan_texts ::
  "cli_env \<Rightarrow> tree_plan \<Rightarrow> 'git cli_snapshot option \<Rightarrow> 'git cli_snapshot option \<Rightarrow> 'git cli_snapshot
    \<Rightarrow> 'git repo \<Rightarrow> (tree_plan \<times> (bytes \<times> bytes) list, cli_error) result" where
  "merge_plan_texts E plan base line incoming s =
     (case apply_texts (ev_differ E) (open_blob (rp_blobs s)) (hash_bytes E) plan base line incoming of
        None \<Rightarrow> Inl NoReturn
      | Some r \<Rightarrow> map_err text_failure r)"

definition publish_texts :: "(bytes \<times> bytes) list \<Rightarrow> ('git repo, unit) cmd" where
  "publish_texts generated s =
     (case publish_generated (rp_blobs s) generated of
        (blobs, r) \<Rightarrow> (map_err text_failure r, s\<lparr>rp_blobs := blobs\<rparr>))"

text \<open>The snapshot that integrates a change, and the line that points at it.\<close>

definition publish_integration ::
  "cli_env \<Rightarrow> cli_line \<Rightarrow> change \<Rightarrow> 'git cli_snapshot \<Rightarrow> access_policy \<Rightarrow> file_entry list \<Rightarrow> ('git repo, unit) cmd" where
  "publish_integration E line change incoming integrated_policy files =
     bindc (fetch configured) (\<lambda>author.
     bindc (new_id E snap_prefix) (\<lambda>i.
     bindc (attempt (manifest_hash E files)) (\<lambda>hash.
     bindc (now E) (\<lambda>t.
     bindc (put_snapshot i
       \<lparr>sn_author = author, sn_git = None, sn_id = i, sn_change_id = ch_id change, sn_parent_snapshot = ln_head_snapshot line,
        sn_merge_parents = (if ln_head_snapshot line = Some (sn_id incoming) then [] else [sn_id incoming]),
        sn_message = ascii_text ''merge '' @ ch_name change @ ascii_text '' into '' @ ln_name line, sn_manifest_hash = hash,
        sn_files = files, sn_policy = integrated_policy, sn_created_at = t\<rparr>) (\<lambda>_.
     bindc (put_line (ln_name line) (line\<lparr>ln_head_snapshot := Some i\<rparr>)) (\<lambda>_.
     record_operation E (IntegrateLine (ln_name line) (ch_id change) i) integrated_policy
       (ascii_text ''integrated change '' @ quoted (ch_name change) @ ascii_text '' ('' @ ch_id change @ ascii_text '') into '' @ quoted (ln_name line))
       (if ap_domains integrated_policy = [PUBLIC_DOMAIN] then Some (ascii_text ''integrated change into '' @ quoted (ln_name line)) else None)))))))"

text \<open>The merge of a change into a line, from the point where its sources are known.\<close>

definition integrate_sources ::
  "cli_env \<Rightarrow> actor \<Rightarrow> cli_line \<Rightarrow> change \<Rightarrow> 'git cli_snapshot \<Rightarrow> 'git cli_snapshot option \<Rightarrow> 'git cli_snapshot option
    \<Rightarrow> ('git repo, unit) cmd" where
  "integrate_sources E actor line change incoming base_snapshot line_snapshot =
     (let source_policy = merge_source_policy (ln_policy line) (ch_policy change) incoming base_snapshot line_snapshot;
          base_files = optional_snapshot_files base_snapshot;
          line_files = optional_snapshot_files line_snapshot;
          incoming_files = sn_files incoming in
      bindc (demand (can_access_merge_sources actor [base_snapshot, line_snapshot, Some incoming] [base_files, line_files, incoming_files])
        (Failure OperationUnavailable)) (\<lambda>_.
      if (case base_snapshot of Some base \<Rightarrow> sn_id base = sn_id incoming | None \<Rightarrow> False) then ret ()
      else
        bindc (ask (apply_resolutions E actor line change incoming (plan_merge base_files line_files incoming_files))) (\<lambda>plan.
        bindc (ask (merge_plan_texts E plan base_snapshot line_snapshot incoming)) (\<lambda>(plan, generated).
        if tp_conflicts plan \<noteq> [] then
          bindc (store_conflicts E line change incoming source_policy (tp_conflicts plan)) (\<lambda>_. fail (Failure IntegrationConflicted))
        else
          bindc (ask (\<lambda>s. map_err text_failure
            (verify_generated verify_manifest_paths (verify_file E (rp_blobs s)) (hash_bytes E) plan generated))) (\<lambda>_.
          bindc (publish_texts generated) (\<lambda>_.
          publish_integration E line change incoming source_policy (tp_merged_files plan)))))))"

definition integrate_line :: "cli_env \<Rightarrow> bytes \<Rightarrow> bytes \<Rightarrow> ('git repo, unit) cmd" where
  "integrate_line E line_name actor_name =
     bindc (fetch (read_actor actor_name)) (\<lambda>actor.
     bindc (current_change_id no_current_change) (\<lambda>change_id.
     bindc (fetch (read_change change_id)) (\<lambda>change.
     bindc (fetch (read_line line_name)) (\<lambda>line.
     bindc (demand (can_access actor (ln_policy line) \<and> can_access actor (ch_policy change)) (Failure OperationUnavailable)) (\<lambda>_.
     bindc (case ch_current_snapshot change of
         None \<Rightarrow> fail (Message ''change has no snapshot; run `rgit snapshot` first'')
       | Some i \<Rightarrow> fetch (read_snapshot i)) (\<lambda>incoming.
     bindc (demand (ch_target_line change = ln_name line) (Message ''change targets another line; use `change retarget` to change its target first'')) (\<lambda>_.
     bindc (ask (find_merge_base (ln_head_snapshot line) incoming (ch_base_snapshot change))) (\<lambda>base_snapshot.
     bindc (fetch (read_optional_snapshot (ln_head_snapshot line))) (\<lambda>line_snapshot.
     integrate_sources E actor line (change\<lparr>ch_base_snapshot := map_option sn_id base_snapshot\<rparr>) incoming base_snapshot line_snapshot)))))))))"

section \<open>The workspace\<close>

definition change_snapshot :: "actor \<Rightarrow> 'git repo \<Rightarrow> ('git cli_snapshot option, cli_error) result" where
  "change_snapshot actor s =
     (case ws_current_change (rp_workspace s) of
        None \<Rightarrow> Inr None
      | Some i \<Rightarrow>
          and_then (map_err Message (read_change i s)) (\<lambda>change.
            if \<not> can_access actor (ch_policy change) then Inl (Failure OperationUnavailable)
            else map_err Message (read_optional_snapshot (workspace_base_snapshot_id change) s)))"

definition current_snapshot :: "actor \<Rightarrow> 'git repo \<Rightarrow> ('git cli_snapshot option, cli_error) result" where
  "current_snapshot actor s =
     and_then (change_snapshot actor s) (\<lambda>logical.
       case ws_mode_snapshot (rp_workspace s) of
         Some i \<Rightarrow> and_then (map_err Message (read_snapshot i s)) (\<lambda>x. Inr (Some x))
       | None \<Rightarrow> Inr logical)"

definition verified_entry ::
  "cli_env \<Rightarrow> (bytes \<times> bytes) list \<Rightarrow> (bytes \<times> bytes \<times> working_flags) list \<Rightarrow> file_entry
    \<Rightarrow> ((bytes \<times> bytes \<times> working_flags) list, message) result" where
  "verified_entry E blobs files file =
     and_then (validate_working_key (fe_path file)) (\<lambda>_.
     and_then (require_that (blob_name (fe_hash file)) ''invalid blob identifier'') (\<lambda>_.
     and_then (ok_or (map_of blobs (fe_hash file)) ''stored blob is unsafe'') (\<lambda>bytes.
     and_then (require_that (of_nat (length bytes) = fe_bytes file \<and> hash_bytes E bytes = fe_hash file) ''stored blob failed verification'') (\<lambda>_.
     and_then (if fe_symlink file
         then and_then (validate_link bytes) (\<lambda>_. require_that (\<not> fe_executable file) ''symlink cannot be executable'')
         else Inr ()) (\<lambda>_.
     if map_of files (fe_path file) \<noteq> None then Inl ''snapshot contains duplicate paths''
     else Inr (bt_insert (fe_path file) (bytes, flags file) files))))))"

definition verified_files ::
  "cli_env \<Rightarrow> actor \<Rightarrow> 'git cli_snapshot option \<Rightarrow> 'git repo \<Rightarrow> ((bytes \<times> bytes \<times> working_flags) list, cli_error) result" where
  "verified_files E actor snapshot s =
     (case snapshot of
        None \<Rightarrow> Inr []
      | Some snapshot \<Rightarrow>
          if \<not> can_access actor (sn_policy snapshot) \<or> list_ex (\<lambda>file. \<not> can_access actor (fe_policy file)) (sn_files snapshot)
          then Inl (Failure OperationUnavailable)
          else map_err Message
            (and_then (manifest_hash E (sn_files snapshot)) (\<lambda>h.
             and_then (require_that (h = sn_manifest_hash snapshot) ''snapshot manifest failed verification'') (\<lambda>_.
             and_then (try_fold (verified_entry E (rp_blobs s)) [] (sn_files snapshot)) (\<lambda>files.
             and_then (all_ok (concat (map (\<lambda>path. map (\<lambda>parent.
                 require_that (map_of files parent = None) ''snapshot contains a file/directory path collision'')
               (rev (slash_ancestors path) @ [[]])) (map fst files)))) (\<lambda>_. Inr files))))))"

definition guard_restored_changes :: "cli_env \<Rightarrow> actor \<Rightarrow> 'git repo \<Rightarrow> (unit, cli_error) result" where
  "guard_restored_changes E actor s =
     and_then (change_snapshot actor s) (\<lambda>logical.
     and_then (current_snapshot actor s) (\<lambda>materialized.
     if map_option sn_id logical = map_option sn_id materialized then Inr ()
     else
       and_then (verified_files E actor logical s) (\<lambda>logical.
       and_then (verified_files E actor materialized s) (\<lambda>materialized.
       if logical \<noteq> materialized
       then Inl (Message ''workspace contains restored changes; snapshot them or use workspace restore --discard-changes before switching'')
       else Inr ()))))"

definition stage_checkout ::
  "cli_env \<Rightarrow> actor \<Rightarrow> 'git cli_snapshot option \<Rightarrow> 'git cli_snapshot option \<Rightarrow> bool \<Rightarrow> 'git repo \<Rightarrow> (unit, cli_error) result" where
  "stage_checkout E actor old_snapshot new_snapshot discard_changes s =
     and_then (verified_files E actor old_snapshot s) (\<lambda>old_files.
     and_then (verified_files E actor new_snapshot s) (\<lambda>new_files.
     map_err Message (ev_stage_checkout E old_files new_files discard_changes)))"

definition workspace_start :: "cli_env \<Rightarrow> bytes \<Rightarrow> bytes \<Rightarrow> bytes \<Rightarrow> ('git repo, unit) cmd" where
  "workspace_start E name line_name actor_name =
     bindc (fetch (read_actor actor_name)) (\<lambda>actor.
     bindc (fetch (read_line line_name)) (\<lambda>line.
     bindc (demand (can_access actor (ln_policy line)) (Failure OperationUnavailable)) (\<lambda>_.
     bindc (ask (guard_restored_changes E actor)) (\<lambda>_.
     bindc (ask (current_snapshot actor)) (\<lambda>old_snapshot.
     bindc (fetch (read_optional_snapshot (ln_head_snapshot line))) (\<lambda>new_snapshot.
     bindc (ask (stage_checkout E actor old_snapshot new_snapshot False)) (\<lambda>_.
     bindc (create_change E name line_name (ln_policy line)) (\<lambda>_.
     bindc (ask (\<lambda>s. Inr (rp_workspace s))) (\<lambda>w.
     bindc (current_change_id ''new change is missing'') (\<lambda>i.
     bindc (fetch (read_change i)) (\<lambda>change.
     bindc (put_change (ch_id change) (change\<lparr>ch_base_snapshot := ln_head_snapshot line\<rparr>)) (\<lambda>_.
     bindc (put_workspace (w\<lparr>ws_mode_snapshot := map_option sn_id new_snapshot\<rparr>)) (\<lambda>_.
     record_operation E (SwitchWorkspace i) admin_policy (ascii_text ''started change at line '' @ quoted line_name) None)))))))))))))"

definition workspace_switch :: "cli_env \<Rightarrow> bytes \<Rightarrow> bytes \<Rightarrow> ('git repo, unit) cmd" where
  "workspace_switch E i actor_name =
     bindc (fetch (read_actor actor_name)) (\<lambda>actor.
     bindc (fetch (read_change i)) (\<lambda>change.
     bindc (demand (can_access actor (ch_policy change)) (Failure OperationUnavailable)) (\<lambda>_.
     bindc (attempt (ev_change_available E i)) (\<lambda>_.
     bindc (ask (guard_restored_changes E actor)) (\<lambda>_.
     bindc (ask (current_snapshot actor)) (\<lambda>old_snapshot.
     bindc (fetch (read_optional_snapshot (workspace_base_snapshot_id change))) (\<lambda>new_snapshot.
     bindc (ask (stage_checkout E actor old_snapshot new_snapshot False)) (\<lambda>_.
     bindc (put_workspace \<lparr>ws_current_change = Some i, ws_mode_snapshot = map_option sn_id new_snapshot\<rparr>) (\<lambda>_.
     record_operation E (SwitchWorkspace i) admin_policy (ascii_text ''switched workspace to '' @ quoted i) None)))))))))"

definition workspace_restore :: "cli_env \<Rightarrow> bytes option \<Rightarrow> bool \<Rightarrow> bytes \<Rightarrow> ('git repo, unit) cmd" where
  "workspace_restore E from_id discard_changes actor_name =
     bindc (fetch (read_actor actor_name)) (\<lambda>actor.
     bindc (if discard_changes then ret () else ask (guard_restored_changes E actor)) (\<lambda>_.
     bindc (ask (current_snapshot actor)) (\<lambda>old_snapshot.
     bindc (case from_id of
         Some i \<Rightarrow> bindc (fetch (read_snapshot i)) (\<lambda>x. ret (Some x))
       | None \<Rightarrow> ask (change_snapshot actor)) (\<lambda>new_snapshot.
     bindc (demand (new_snapshot \<noteq> None) (Message ''workspace has no snapshot to restore'')) (\<lambda>_.
     bindc (ask (stage_checkout E actor old_snapshot new_snapshot discard_changes)) (\<lambda>_.
     bindc (ask (\<lambda>s. Inr (rp_workspace s))) (\<lambda>w.
     bindc (put_workspace (w\<lparr>ws_mode_snapshot := map_option sn_id new_snapshot\<rparr>)) (\<lambda>_.
     record_operation E (RestoreWorkspace (map_option sn_id new_snapshot)) admin_policy (ascii_text ''restored working files'') None))))))))"

section \<open>Initialization\<close>

definition repo_prefix :: bytes where "repo_prefix = [0x72, 0x65, 0x70, 0x6f, 0x5f]"

definition DEFAULT_LINE :: bytes where "DEFAULT_LINE = [0x6d, 0x61, 0x69, 0x6e]"

definition empty_repo :: "'git repo" where
  "empty_repo = \<lparr>rp_author = None, rp_workspace = \<lparr>ws_current_change = None, ws_mode_snapshot = None\<rparr>, rp_path_policies = [],
     rp_actors = [], rp_changes = [], rp_lines = [], rp_snapshots = [], rp_conflicts = [], rp_operations = [], rp_blobs = [], rp_ticks = 0\<rparr>"

text \<open>The records of a new repository. The identifier of the repository itself is drawn and not kept here.\<close>

definition initialize :: "cli_env \<Rightarrow> ('git repo, unit) cmd" where
  "initialize E =
     bindc (new_id E repo_prefix) (\<lambda>_.
     bindc (now E) (\<lambda>_.
     bindc (now E) (\<lambda>t.
     bindc (modify (\<lambda>s. s\<lparr>rp_author := None\<rparr>)) (\<lambda>_.
     bindc (put_workspace \<lparr>ws_current_change = None, ws_mode_snapshot = None\<rparr>) (\<lambda>_.
     bindc (modify (\<lambda>s. s\<lparr>rp_path_policies := []\<rparr>)) (\<lambda>_.
     bindc (put_actor PUBLIC_DOMAIN \<lparr>ac_name = PUBLIC_DOMAIN, ac_domains = [PUBLIC_DOMAIN]\<rparr>) (\<lambda>_.
     bindc (put_actor ADMIN_DOMAIN \<lparr>ac_name = ADMIN_DOMAIN, ac_domains = [PUBLIC_DOMAIN, ADMIN_DOMAIN]\<rparr>) (\<lambda>_.
     bindc (put_line DEFAULT_LINE \<lparr>ln_name = DEFAULT_LINE, ln_head_snapshot = None, ln_policy = public_policy, ln_created_at = t\<rparr>) (\<lambda>_.
     record_operation E InitRepo public_policy (ascii_text ''initialized repository'') None)))))))))"

section \<open>Running a command\<close>

datatype command =
    ActorSet bytes "bytes list"
  | AccessPath bytes "bytes list"
  | IdentitySet bytes bytes
  | ChangeNew bytes bytes "bytes list"
  | ChangeRetarget bytes bytes
  | SnapshotNew bytes "bytes list"
  | LineCreate bytes bytes bytes
  | LineReset bytes bytes bytes bytes
  | LineIntegrate bytes bytes
  | ConflictResolve bytes resolution bytes
  | WorkspaceStart bytes bytes bytes
  | WorkspaceSwitch bytes bytes
  | WorkspaceRestore "bytes option" bool bytes

fun execute :: "cli_env \<Rightarrow> command \<Rightarrow> ('git repo, unit) cmd" where
  "execute E (ActorSet name domains) = set_actor E name domains"
| "execute E (AccessPath path domains) = set_path_policy E path domains"
| "execute E (IdentitySet name email) = set_identity E name email"
| "execute E (ChangeNew name target domains) = create_change E name target (policy_from_domains domains)"
| "execute E (ChangeRetarget line as_actor) = retarget E line as_actor"
| "execute E (SnapshotNew message domains) = create_snapshot E message (policy_from_domains domains)"
| "execute E (LineCreate name from_line as_actor) = line_create E name from_line as_actor"
| "execute E (LineReset line to_id expected as_actor) = line_reset E line to_id expected as_actor"
| "execute E (LineIntegrate line as_actor) = integrate_line E line as_actor"
| "execute E (ConflictResolve i decision as_actor) = resolve_conflict E i decision as_actor"
| "execute E (WorkspaceStart name target as_actor) = workspace_start E name target as_actor"
| "execute E (WorkspaceSwitch i as_actor) = workspace_switch E i as_actor"
| "execute E (WorkspaceRestore from_id discard_changes as_actor) = workspace_restore E from_id discard_changes as_actor"

definition commits :: "(unit, cli_error) result \<Rightarrow> bool" where
  "commits r \<longleftrightarrow> r = Inr () \<or> r = Inl (Failure IntegrationConflicted)"

definition run_command :: "cli_env \<Rightarrow> command \<Rightarrow> 'git repo \<Rightarrow> (unit, cli_error) result \<times> 'git repo" where
  "run_command E c s =
     (case execute E c s of (r, s') \<Rightarrow>
        (r, if commits r then s' else s\<lparr>rp_blobs := rp_blobs s', rp_ticks := rp_ticks s'\<rparr>))"

end
