(* ===== verification/Git_Objects.thy ===== *)
theory Git_Objects
  imports Repository
begin

text \<open>
  Git commits and trees as \<open>src/git_objects.rs\<close> reads and builds them: the provenance of an imported
  snapshot is a raw commit whose headers are parsed, and the tree of a manifest is encoded the way Git
  does, to compare identifiers. SHA-1 and SHA-256 are parameters of the environment.
\<close>

section \<open>Bytes\<close>

fun split_byte :: "u8 \<Rightarrow> bytes \<Rightarrow> bytes list" where
  "split_byte sep [] = [[]]"
| "split_byte sep (b # bs) =
     (if b = sep then [] # split_byte sep bs
      else case split_byte sep bs of [] \<Rightarrow> [[b]] | x # xs \<Rightarrow> (b # x) # xs)"

fun join_byte :: "u8 \<Rightarrow> bytes list \<Rightarrow> bytes" where
  "join_byte sep [] = []"
| "join_byte sep [x] = x"
| "join_byte sep (x # xs) = x @ sep # join_byte sep xs"

function decimal :: "nat \<Rightarrow> bytes" where
  "decimal n = (if n < 10 then [of_nat (0x30 + n)] else decimal (n div 10) @ [of_nat (0x30 + n mod 10)])"
  by pat_completeness auto

termination decimal
  by (relation "measure id") auto

declare decimal.simps [simp del]

definition hex_value :: "u8 \<Rightarrow> u8 option" where
  "hex_value b =
     (if 0x30 \<le> b \<and> b \<le> 0x39 then Some (b - 0x30)
      else if 0x61 \<le> b \<and> b \<le> 0x66 then Some (b - 0x57)
      else if 0x41 \<le> b \<and> b \<le> 0x46 then Some (b - 0x37) else None)"

fun hex_decode :: "bytes \<Rightarrow> (bytes, message) result" where
  "hex_decode [] = Inr []"
| "hex_decode [_] = Inl ''odd number of digits''"
| "hex_decode (a # b # bs) =
     (case (hex_value a, hex_value b) of
        (Some x, Some y) \<Rightarrow> and_then (hex_decode bs) (\<lambda>rest. Inr ((16 * x + y) # rest))
      | _ \<Rightarrow> Inl ''invalid character'')"

text \<open>\<open>str::parse\<close> for \<open>i64\<close>: an optional sign, digits, and no overflow.\<close>

definition digits_value :: "bytes \<Rightarrow> int option" where
  "digits_value ds =
     (if ds = [] \<or> list_ex (\<lambda>b. \<not> (0x30 \<le> b \<and> b \<le> 0x39)) ds then None
      else Some (foldl (\<lambda>n b. 10 * n + uint (b - 0x30)) 0 ds))"

definition parse_i64 :: "bytes \<Rightarrow> (int, message) result" where
  "parse_i64 s =
     (let value = (case s of
            b # ds \<Rightarrow> if b = 0x2d then map_option uminus (digits_value ds) else if b = 0x2b then digits_value ds else digits_value s
          | [] \<Rightarrow> None)
      in case value of
           None \<Rightarrow> Inl ''invalid digit found in string''
         | Some n \<Rightarrow> if - (2 ^ 63) \<le> n \<and> n < 2 ^ 63 then Inr n else Inl ''number too large to fit in target type'')"

text \<open>\<open>String::from_utf8_lossy\<close>: every maximal part of an invalid sequence becomes U+FFFD.\<close>

definition replacement :: bytes where "replacement = [0xEF, 0xBF, 0xBD]"

definition second_ok :: "u8 \<Rightarrow> u8 \<Rightarrow> bool" where
  "second_ok a b \<longleftrightarrow>
     (if a = 0xE0 then 0xA0 \<le> b \<and> b \<le> 0xBF else if a = 0xED then 0x80 \<le> b \<and> b \<le> 0x9F
      else if a = 0xF0 then 0x90 \<le> b \<and> b \<le> 0xBF else if a = 0xF4 then 0x80 \<le> b \<and> b \<le> 0x8F
      else cont_byte b)"

function utf8_lossy :: "bytes \<Rightarrow> bytes" where
  "utf8_lossy s =
     (case s of
        [] \<Rightarrow> []
      | a # bs \<Rightarrow>
          if a \<le> 0x7F then a # utf8_lossy bs
          else if 0xC2 \<le> a \<and> a \<le> 0xDF then
            (case bs of b # cs \<Rightarrow> if cont_byte b then a # b # utf8_lossy cs else replacement @ utf8_lossy bs
             | [] \<Rightarrow> replacement)
          else if 0xE0 \<le> a \<and> a \<le> 0xEF then
            (case bs of
               b # cs \<Rightarrow>
                 if \<not> second_ok a b then replacement @ utf8_lossy bs
                 else (case cs of c # ds \<Rightarrow> if cont_byte c then a # b # c # utf8_lossy ds else replacement @ utf8_lossy cs
                       | [] \<Rightarrow> replacement)
             | [] \<Rightarrow> replacement)
          else if 0xF0 \<le> a \<and> a \<le> 0xF4 then
            (case bs of
               b # cs \<Rightarrow>
                 if \<not> second_ok a b then replacement @ utf8_lossy bs
                 else (case cs of
                         c # ds \<Rightarrow>
                           if \<not> cont_byte c then replacement @ utf8_lossy cs
                           else (case ds of d # es \<Rightarrow> if cont_byte d then a # b # c # d # utf8_lossy es else replacement @ utf8_lossy ds
                                 | [] \<Rightarrow> replacement)
                       | [] \<Rightarrow> replacement)
             | [] \<Rightarrow> replacement)
          else replacement @ utf8_lossy bs)"
  by pat_completeness auto

termination utf8_lossy
  by (relation "measure length") auto

declare utf8_lossy.simps [simp del]

section \<open>Commits\<close>

record commit_metadata =
  cm_object_id :: bytes
  cm_object_format :: bytes
  cm_raw_commit :: bytes

record parsed_commit =
  gc_tree :: bytes
  gc_parents :: "bytes list"
  gc_message :: bytes
  gc_timestamp :: u64
  gc_native_snapshot :: "bytes option"
  gc_author_identity :: "bytes option"

definition sha1_format :: bytes where "sha1_format = [0x73, 0x68, 0x61, 0x31]"
definition sha256_format :: bytes where "sha256_format = [0x73, 0x68, 0x61, 0x32, 0x35, 0x36]"

definition parse_id :: "bytes \<Rightarrow> bytes \<Rightarrow> (bytes, message) result" where
  "parse_id bytes format =
     and_then (if format = sha1_format then Inr 40 else if format = sha256_format then Inr 64 else Inl ''unsupported Git object format'')
       (\<lambda>n. if length bytes \<noteq> n \<or> \<not> list_all is_hex bytes then Inl ''invalid Git object identifier'' else Inr bytes)"

definition git_digest :: "cli_env \<Rightarrow> bytes \<Rightarrow> bytes \<Rightarrow> (bytes, message) result" where
  "git_digest E format bytes =
     (if format = sha1_format then Inr (hex_encode (ev_sha1 E bytes))
      else if format = sha256_format then Inr (hex_encode (ev_sha256 E bytes))
      else Inl ''unsupported Git object format'')"

definition git_object_id :: "cli_env \<Rightarrow> bytes \<Rightarrow> bytes \<Rightarrow> bytes \<Rightarrow> (bytes, message) result" where
  "git_object_id E kind bytes format = git_digest E format (kind @ [0x20] @ decimal (length bytes) @ [0] @ bytes)"

text \<open>The position of the first empty line.\<close>

fun header_end :: "bytes \<Rightarrow> nat option" where
  "header_end (a # b # bs) = (if a = 0x0a \<and> b = 0x0a then Some 0 else map_option Suc (header_end (b # bs)))"
| "header_end _ = None"

record commit_headers =
  hd_tree :: "bytes option"
  hd_parents :: "bytes list"
  hd_timestamp :: "u64 option"
  hd_native :: "bytes option"
  hd_author :: "bytes option"

definition header_author :: "commit_headers \<Rightarrow> bytes \<Rightarrow> (commit_headers, message) result" where
  "header_author h line =
     (case strip_prefix [0x61, 0x75, 0x74, 0x68, 0x6f, 0x72, 0x20] line of
        None \<Rightarrow> Inr h
      | Some author \<Rightarrow>
          (let parts = split_byte 0x20 author in
           if length parts < 3 then Inl ''Git author timestamp missing''
           else if hd_author h \<noteq> None then Inl ''duplicate Git author header''
           else Inr (h\<lparr>hd_author := Some (join_byte 0x20 (take (length parts - 2) parts))\<rparr>)))"

definition header_tree :: "bytes \<Rightarrow> commit_headers \<Rightarrow> bytes \<Rightarrow> (commit_headers, message) result" where
  "header_tree format h line =
     (case strip_prefix [0x74, 0x72, 0x65, 0x65, 0x20] line of
        None \<Rightarrow> Inr h
      | Some i \<Rightarrow>
          if hd_tree h \<noteq> None then Inl ''duplicate Git tree header''
          else and_then (parse_id i format) (\<lambda>i. Inr (h\<lparr>hd_tree := Some i\<rparr>)))"

definition header_native :: "commit_headers \<Rightarrow> bytes \<Rightarrow> (commit_headers, message) result" where
  "header_native h line =
     (case strip_prefix [0x72, 0x67, 0x69, 0x74, 0x2d, 0x73, 0x6e, 0x61, 0x70, 0x73, 0x68, 0x6f, 0x74, 0x20] line of
        None \<Rightarrow> Inr h
      | Some i \<Rightarrow>
          if \<not> utf8_valid i then Inl ''invalid utf-8''
          else and_then (validate_object_id i snap_prefix) (\<lambda>_.
            if hd_native h \<noteq> None then Inl ''duplicate native snapshot header'' else Inr (h\<lparr>hd_native := Some i\<rparr>)))"

definition header_parent :: "bytes \<Rightarrow> commit_headers \<Rightarrow> bytes \<Rightarrow> (commit_headers, message) result" where
  "header_parent format h line =
     (case strip_prefix [0x70, 0x61, 0x72, 0x65, 0x6e, 0x74, 0x20] line of
        None \<Rightarrow> Inr h
      | Some i \<Rightarrow> and_then (parse_id i format) (\<lambda>i. Inr (h\<lparr>hd_parents := hd_parents h @ [i]\<rparr>)))"

definition header_committer :: "commit_headers \<Rightarrow> bytes \<Rightarrow> (commit_headers, message) result" where
  "header_committer h line =
     (case strip_prefix [0x63, 0x6f, 0x6d, 0x6d, 0x69, 0x74, 0x74, 0x65, 0x72, 0x20] line of
        None \<Rightarrow> Inr h
      | Some committer \<Rightarrow>
          (let parts = split_byte 0x20 committer in
           if length parts < 2 then Inl ''Git committer timestamp missing''
           else let stamp = parts ! (length parts - 2) in
             if \<not> utf8_valid stamp then Inl ''invalid utf-8''
             else and_then (parse_i64 stamp) (\<lambda>n. Inr (h\<lparr>hd_timestamp := Some (of_int (max n 0))\<rparr>))))"

definition header_line :: "bytes \<Rightarrow> commit_headers \<Rightarrow> bytes \<Rightarrow> (commit_headers, message) result" where
  "header_line format h line =
     and_then (header_author h line) (\<lambda>h.
     and_then (header_tree format h line) (\<lambda>h.
     and_then (header_native h line) (\<lambda>h.
     and_then (header_parent format h line) (\<lambda>h.
     header_committer h line))))"

definition commit_kind :: bytes where "commit_kind = [0x63, 0x6f, 0x6d, 0x6d, 0x69, 0x74]"

definition parse_commit :: "cli_env \<Rightarrow> commit_metadata \<Rightarrow> (parsed_commit, message) result" where
  "parse_commit E m =
     and_then (git_object_id E commit_kind (cm_raw_commit m) (cm_object_format m)) (\<lambda>i.
     if i \<noteq> cm_object_id m then Inl ''Git commit provenance digest mismatch''
     else
       and_then (ok_or (header_end (cm_raw_commit m)) ''Git commit has no header terminator'') (\<lambda>split.
       and_then (try_fold (header_line (cm_object_format m))
           \<lparr>hd_tree = None, hd_parents = [], hd_timestamp = None, hd_native = None, hd_author = None\<rparr>
           (split_byte 0x0a (take split (cm_raw_commit m)))) (\<lambda>h.
       and_then (ok_or (hd_tree h) ''Git tree header missing'') (\<lambda>tree.
       and_then (ok_or (hd_timestamp h) ''Git committer missing'') (\<lambda>timestamp.
       Inr \<lparr>gc_tree = tree, gc_parents = hd_parents h, gc_message = drop (split + 2) (cm_raw_commit m), gc_timestamp = timestamp,
         gc_native_snapshot = hd_native h, gc_author_identity = hd_author h\<rparr>)))))"

section \<open>Trees\<close>

record git_object =
  go_id :: bytes
  go_kind :: bytes
  go_bytes :: bytes

text \<open>A directory is a map from names to entries, sorted by name.\<close>

datatype git_entry = GitFile bytes bytes | GitDirectory git_dir
and git_dir = GitEmpty | GitNode bytes git_entry git_dir

primrec git_lookup :: "bytes \<Rightarrow> git_dir \<Rightarrow> git_entry option" where
  "git_lookup name GitEmpty = None"
| "git_lookup name (GitNode n e d) = (if n = name then Some e else git_lookup name d)"

primrec git_put :: "bytes \<Rightarrow> git_entry \<Rightarrow> git_dir \<Rightarrow> git_dir" where
  "git_put name v GitEmpty = GitNode name v GitEmpty"
| "git_put name v (GitNode n e d) =
     (if name < n then GitNode name v (GitNode n e d) else if name = n then GitNode name v d else GitNode n e (git_put name v d))"

fun git_insert :: "git_dir \<Rightarrow> bytes list \<Rightarrow> bytes \<Rightarrow> bytes \<Rightarrow> (git_dir, message) result" where
  "git_insert directory [] i mode = Inl ''index out of bounds''"
| "git_insert directory [name] i mode =
     (if git_lookup name directory \<noteq> None then Inl ''duplicate Git tree path'' else Inr (git_put name (GitFile i mode) directory))"
| "git_insert directory (name # parts) i mode =
     (case git_lookup name directory of
        Some (GitFile _ _) \<Rightarrow> Inl ''Git tree path collision''
      | Some (GitDirectory child) \<Rightarrow>
          and_then (git_insert child parts i mode) (\<lambda>child. Inr (git_put name (GitDirectory child) directory))
      | None \<Rightarrow>
          and_then (git_insert GitEmpty parts i mode) (\<lambda>child. Inr (git_put name (GitDirectory child) directory)))"

definition tree_kind :: bytes where "tree_kind = [0x74, 0x72, 0x65, 0x65]"
definition blob_kind :: bytes where "blob_kind = [0x62, 0x6c, 0x6f, 0x62]"
definition directory_mode :: bytes where "directory_mode = [0x34, 0x30, 0x30, 0x30, 0x30]"

text \<open>An entry of a tree: its sort key, name, mode and identifier.\<close>

type_synonym tree_row = "bytes \<times> bytes \<times> bytes \<times> bytes"

definition encode_rows :: "cli_env \<Rightarrow> bytes \<Rightarrow> tree_row list \<Rightarrow> git_object list \<Rightarrow> (bytes \<times> git_object list, message) result" where
  "encode_rows E format rows objects =
     and_then (try_fold (\<lambda>bytes (_, name, mode, i).
         and_then (hex_decode i) (\<lambda>raw. Inr (bytes @ mode @ [0x20] @ name @ [0] @ raw))) [] (sort_key fst rows)) (\<lambda>bytes.
     and_then (git_object_id E tree_kind bytes format) (\<lambda>i.
     Inr (i, objects @ [\<lparr>go_id = i, go_kind = tree_kind, go_bytes = bytes\<rparr>])))"

primrec encode_entry ::
    "cli_env \<Rightarrow> bytes \<Rightarrow> git_entry \<Rightarrow> bytes \<Rightarrow> git_object list \<Rightarrow> (tree_row \<times> git_object list, message) result"
  and encode_dir ::
    "cli_env \<Rightarrow> bytes \<Rightarrow> git_dir \<Rightarrow> git_object list \<Rightarrow> (tree_row list \<times> git_object list, message) result" where
  "encode_entry E format (GitFile i mode) name objects = Inr ((name, name, mode, i), objects)"
| "encode_entry E format (GitDirectory d) name objects =
     and_then (encode_dir E format d objects) (\<lambda>(rows, objects).
     and_then (encode_rows E format rows objects) (\<lambda>(i, objects).
     Inr ((name @ [0x2f], name, directory_mode, i), objects)))"
| "encode_dir E format GitEmpty objects = Inr ([], objects)"
| "encode_dir E format (GitNode name e d) objects =
     and_then (encode_entry E format e name objects) (\<lambda>(row, objects).
     and_then (encode_dir E format d objects) (\<lambda>(rows, objects).
     Inr (row # rows, objects)))"

definition encode_tree :: "cli_env \<Rightarrow> bytes \<Rightarrow> git_dir \<Rightarrow> git_object list \<Rightarrow> (bytes \<times> git_object list, message) result" where
  "encode_tree E format directory objects =
     and_then (encode_dir E format directory objects) (\<lambda>(rows, objects). encode_rows E format rows objects)"

definition git_mode :: "file_entry \<Rightarrow> bytes" where
  "git_mode file =
     (if fe_symlink file then [0x31, 0x32, 0x30, 0x30, 0x30, 0x30]
      else if fe_executable file then [0x31, 0x30, 0x30, 0x37, 0x35, 0x35]
      else [0x31, 0x30, 0x30, 0x36, 0x34, 0x34])"

definition blob_id :: "cli_env \<Rightarrow> (bytes \<times> bytes) list \<Rightarrow> file_entry \<Rightarrow> bytes \<Rightarrow> (bytes, message) result" where
  "blob_id E blobs file format =
     and_then (git_digest E format []) (\<lambda>_.
     and_then (open_blob blobs (fe_hash file)) (\<lambda>bytes.
     if hash_bytes E bytes \<noteq> fe_hash file \<or> of_nat (length bytes) \<noteq> fe_bytes file
     then Inl ''blob changed while verifying Git tree''
     else git_digest E format (blob_kind @ [0x20] @ decimal (unat (fe_bytes file)) @ [0] @ bytes)))"

definition git_blob ::
  "cli_env \<Rightarrow> (bytes \<times> bytes) list \<Rightarrow> bytes \<Rightarrow> bool \<Rightarrow> file_entry \<Rightarrow> (bytes \<times> bytes option, message) result" where
  "git_blob E blobs format include_blobs file =
     (if include_blobs
      then and_then (open_blob blobs (fe_hash file)) (\<lambda>bytes.
        if hash_bytes E bytes \<noteq> fe_hash file \<or> of_nat (length bytes) \<noteq> fe_bytes file
        then Inl ''blob changed while building Git tree''
        else and_then (git_object_id E blob_kind bytes format) (\<lambda>i. Inr (i, Some bytes)))
      else and_then (blob_id E blobs file format) (\<lambda>i. Inr (i, None)))"

definition add_file ::
  "cli_env \<Rightarrow> (bytes \<times> bytes) list \<Rightarrow> bytes \<Rightarrow> bool \<Rightarrow> git_dir \<times> git_object list \<Rightarrow> file_entry
    \<Rightarrow> (git_dir \<times> git_object list, message) result" where
  "add_file E blobs format include_blobs acc file =
     (case acc of (directory, objects) \<Rightarrow>
        and_then (validate_working_key (fe_path file)) (\<lambda>_.
        let parts = split_slash (fe_path file) in
        if length parts > 256 then Inl ''Git path nesting exceeds supported depth''
        else
          and_then (git_blob E blobs format include_blobs file) (\<lambda>(i, content).
          and_then (git_insert directory parts i (git_mode file)) (\<lambda>directory.
          Inr (directory, case content of Some bytes \<Rightarrow> objects @ [\<lparr>go_id = i, go_kind = blob_kind, go_bytes = bytes\<rparr>] | None \<Rightarrow> objects)))))"

definition build_tree ::
  "cli_env \<Rightarrow> (bytes \<times> bytes) list \<Rightarrow> file_entry list \<Rightarrow> bytes \<Rightarrow> bool \<Rightarrow> (bytes \<times> git_object list, message) result" where
  "build_tree E blobs files format include_blobs =
     and_then (try_fold (add_file E blobs format include_blobs) (GitEmpty, []) files) (\<lambda>(directory, objects).
       encode_tree E format directory objects)"

definition tree_id :: "cli_env \<Rightarrow> (bytes \<times> bytes) list \<Rightarrow> file_entry list \<Rightarrow> bytes \<Rightarrow> (bytes, message) result" where
  "tree_id E blobs files format = and_then (build_tree E blobs files format False) (\<lambda>(i, _). Inr i)"

end
