(* ===== verification/Verify.thy ===== *)
theory Verify
  imports Commands Git_Objects
begin

text \<open>
  Verification of a whole repository, \<open>src/verify.rs\<close>: every record is stored under its identity, every
  reference leads to a record, manifests and blobs match their hashes, and the snapshots form a sound
  graph. The provenance of an imported snapshot is checked against its Git commit. Parsing of the JSON
  files, the Git remotes of the configuration and the other worktrees of a repository are not part of the model.
\<close>

definition check_identity :: "bytes \<Rightarrow> bytes \<Rightarrow> bytes \<Rightarrow> (unit, message) result" where
  "check_identity key i prefix =
     and_then (validate_object_id i prefix) (\<lambda>_. require_that (key = i) ''record filename and identifier differ'')"

definition has_line :: "bytes \<Rightarrow> 'git repo \<Rightarrow> bool" where
  "has_line name s \<longleftrightarrow> name \<in> set (map (\<lambda>(_, l). ln_name l) (rp_lines s))"

definition has_change :: "bytes \<Rightarrow> 'git repo \<Rightarrow> bool" where
  "has_change i s \<longleftrightarrow> map_of (rp_changes s) i \<noteq> None"

definition has_conflict :: "bytes \<Rightarrow> 'git repo \<Rightarrow> bool" where
  "has_conflict i s \<longleftrightarrow> map_of (rp_conflicts s) i \<noteq> None"

definition snapshot_reference :: "bytes option \<Rightarrow> 'git repo \<Rightarrow> (unit, message) result" where
  "snapshot_reference i s =
     (case i of None \<Rightarrow> Inr () | Some i \<Rightarrow> require_that (map_of (rp_snapshots s) i \<noteq> None) ''snapshot reference'')"

text \<open>\<open>snapshots[id].change_id == change_id\<close>, after the reference was found.\<close>

definition owned_by :: "bytes \<Rightarrow> bytes \<Rightarrow> 'git repo \<Rightarrow> bool" where
  "owned_by change_id i s \<longleftrightarrow> (case map_of (rp_snapshots s) i of Some x \<Rightarrow> sn_change_id x = change_id | None \<Rightarrow> False)"

definition check_author :: "bytes option \<Rightarrow> (unit, message) result" where
  "check_author author = (case author of Some a \<Rightarrow> validate_author a | None \<Rightarrow> Inr ())"

definition check_line_name :: "bytes \<times> cli_line \<Rightarrow> (unit, message) result" where
  "check_line_name r = (case r of (key, line) \<Rightarrow>
     and_then (validate_named_key (ln_name line)) (\<lambda>_. require_that (key = file_name (ln_name line)) ''line identity''))"

definition check_actor_name :: "bytes \<times> actor \<Rightarrow> (unit, message) result" where
  "check_actor_name r = (case r of (key, a) \<Rightarrow>
     and_then (validate_named_key (ac_name a)) (\<lambda>_. require_that (key = file_name (ac_name a)) ''actor identity''))"

definition check_snapshot :: "cli_env \<Rightarrow> 'git repo \<Rightarrow> bytes \<times> 'git cli_snapshot \<Rightarrow> (unit, message) result" where
  "check_snapshot E s r = (case r of (key, x) \<Rightarrow> all_ok
     [check_identity key (sn_id x) snap_prefix, check_author (sn_author x),
      require_that (has_change (sn_change_id x) s) ''snapshot owning change'',
      and_then (manifest_hash E (sn_files x)) (\<lambda>h. require_that (h = sn_manifest_hash x) ''manifest hash''),
      verify_manifest E (rp_blobs s) (sn_files x)])"

definition check_change :: "'git repo \<Rightarrow> bytes \<times> change \<Rightarrow> (unit, message) result" where
  "check_change s r = (case r of (_, c) \<Rightarrow> all_ok
     [require_that (has_line (ch_target_line c) s) ''change target line'',
      snapshot_reference (ch_base_snapshot c) s, snapshot_reference (ch_current_snapshot c) s,
      (case ch_current_snapshot c of
         Some i \<Rightarrow> require_that (owned_by (ch_id c) i s) ''current snapshot ownership''
       | None \<Rightarrow> Inr ())])"

definition check_workspace :: "'git repo \<Rightarrow> (unit, message) result" where
  "check_workspace s = all_ok
     [snapshot_reference (ws_mode_snapshot (rp_workspace s)) s,
      (case ws_current_change (rp_workspace s) of
         Some i \<Rightarrow> require_that (has_change i s) ''workspace change''
       | None \<Rightarrow> Inr ())]"

definition check_conflict :: "cli_env \<Rightarrow> 'git repo \<Rightarrow> bytes \<times> cli_conflict \<Rightarrow> (unit, message) result" where
  "check_conflict E s r = (case r of (key, c) \<Rightarrow> all_ok
     [check_identity key (cf_id c) conf_prefix,
      require_that (has_change (cf_change_id c) s \<and> has_line (cf_line c) s) ''conflict source'',
      snapshot_reference (cf_base_snapshot c) s, snapshot_reference (cf_line_snapshot c) s,
      snapshot_reference (Some (cf_incoming_snapshot c)) s,
      require_that ((cf_status c = Resolved) = (cf_resolution c \<noteq> None)) ''conflict resolution state'',
      require_that ((cf_resolution c = Some TakeCustom) = (cf_replacement c \<noteq> None)) ''custom resolution state'',
      validate_working_key (cf_path c),
      require_that (cf_kind c \<noteq> FileDirectory \<or> cf_resolution c \<noteq> Some TakeCustom) ''file/directory resolution kind'',
      (case cf_replacement c of
         Some file \<Rightarrow>
           and_then (require_that (fe_path file = cf_path c) ''custom resolution path'') (\<lambda>_. verify_file E (rp_blobs s) file)
       | None \<Rightarrow> Inr ())])"

text \<open>The recorded Git commit of an imported snapshot describes the snapshot.\<close>

definition parent_commit :: "commit_metadata repo \<Rightarrow> bytes \<Rightarrow> (bytes, message) result" where
  "parent_commit s i =
     ok_or (Option.bind (map_of (rp_snapshots s) i) (\<lambda>x. map_option cm_object_id (sn_git x))) ''Git parent provenance missing''"

definition check_provenance :: "cli_env \<Rightarrow> commit_metadata repo \<Rightarrow> commit_metadata cli_snapshot \<Rightarrow> (unit, message) result" where
  "check_provenance E s x =
     (case sn_git x of
        None \<Rightarrow> Inr ()
      | Some m \<Rightarrow>
          and_then (parse_commit E m) (\<lambda>parsed.
          and_then (case sn_author x of
              Some author \<Rightarrow> require_that (gc_author_identity parsed = Some author) ''Git provenance author''
            | None \<Rightarrow> Inr ()) (\<lambda>_.
          and_then (require_that (sn_message x = utf8_lossy (gc_message parsed)) ''Git provenance message'') (\<lambda>_.
          and_then (require_that (gc_timestamp parsed = sn_created_at x div 1000) ''Git provenance timestamp'') (\<lambda>_.
          and_then (tree_id E (rp_blobs s) (sn_files x) (cm_object_format m)) (\<lambda>tree.
          and_then (require_that (tree = gc_tree parsed) ''Git provenance tree'') (\<lambda>_.
          and_then (collect_results (map (parent_commit s) (parents x))) (\<lambda>ps.
          require_that (ps = gc_parents parsed) ''Git provenance parents''))))))))"

definition check_owned :: "'git repo \<Rightarrow> bytes \<Rightarrow> bytes \<Rightarrow> (unit, message) result" where
  "check_owned s change_id i = all_ok
     [require_that (has_change change_id s) ''operation change'', snapshot_reference (Some i) s,
      require_that (owned_by change_id i s) ''operation snapshot owner'']"

fun check_kind :: "commit_metadata repo \<Rightarrow> operation_kind \<Rightarrow> (unit, message) result" where
  "check_kind s (CreateLine line source_line i) =
     and_then (require_that (has_line line s \<and> has_line source_line s) ''create line operation'') (\<lambda>_. snapshot_reference i s)"
| "check_kind s (ResetLine line previous i) = all_ok
     [require_that (has_line line s) ''reset line operation'', snapshot_reference (Some previous) s, snapshot_reference (Some i) s]"
| "check_kind s (BindGitIdentity i object_id) =
     and_then (snapshot_reference (Some i) s) (\<lambda>_.
       require_that (parent_commit s i = Inr object_id) ''Git identity operation'')"
| "check_kind s (RetargetChange c line) = require_that (has_change c s \<and> has_line line s) ''retarget operation source''"
| "check_kind s InitRepo = Inr ()"
| "check_kind s SetIdentity = Inr ()"
| "check_kind s (SetPathPolicy _) = Inr ()"
| "check_kind s (SetActor a) = discard (read_actor a s)"
| "check_kind s (CreateChange c) = require_that (has_change c s) ''operation change''"
| "check_kind s (SwitchWorkspace c) = require_that (has_change c s) ''operation change''"
| "check_kind s (CreateSnapshot c i) = check_owned s c i"
| "check_kind s (ImportGit line c i) = and_then (check_owned s c i) (\<lambda>_. require_that (has_line line s) ''operation line'')"
| "check_kind s (IntegrateLine line c i) = and_then (check_owned s c i) (\<lambda>_. require_that (has_line line s) ''operation line'')"
| "check_kind s (CreateConflict x c) = require_that (has_conflict x s \<and> has_change c s) ''operation conflict''"
| "check_kind s (ResolveConflict x) = require_that (has_conflict x s) ''resolution operation conflict''"
| "check_kind s (RestoreWorkspace i) = snapshot_reference i s"

definition check_operation :: "commit_metadata repo \<Rightarrow> bytes \<times> cli_operation \<Rightarrow> (unit, message) result" where
  "check_operation s r = (case r of (key, x) \<Rightarrow>
     and_then (check_identity key (opr_id x) op_prefix) (\<lambda>_. check_kind s (opr_kind x)))"

definition check_blob :: "cli_env \<Rightarrow> bytes \<times> bytes \<Rightarrow> (unit, message) result" where
  "check_blob E r = (case r of (name, content) \<Rightarrow> all_ok
     [require_that (blob_name name) ''blob filename'', require_that (hash_bytes E content = name) ''blob digest''])"

definition verify_records :: "cli_env \<Rightarrow> commit_metadata repo \<Rightarrow> (unit, message) result" where
  "verify_records E s = all_ok
     ([check_author (rp_author s)] @
      map (\<lambda>(key, c). check_identity key (ch_id c) chg_prefix) (rp_changes s) @
      map check_line_name (rp_lines s) @
      map check_actor_name (rp_actors s) @
      map (check_snapshot E s) (rp_snapshots s) @
      map (check_change s) (rp_changes s) @
      map (\<lambda>(_, l). snapshot_reference (ln_head_snapshot l) s) (rp_lines s) @
      [check_workspace s,
       map_err (\<lambda>e. case ancestry_failure e of Message m \<Rightarrow> m | _ \<Rightarrow> []) (validate_graph (rp_snapshots s))] @
      map (\<lambda>(_, x). check_provenance E s x) (rp_snapshots s) @
      map (check_conflict E s) (rp_conflicts s) @
      map (check_operation s) (rp_operations s) @
      map (check_blob E) (rp_blobs s))"

definition verify_repository :: "cli_env \<Rightarrow> bytes \<Rightarrow> commit_metadata repo \<Rightarrow> (unit, cli_error) result" where
  "verify_repository E actor_name s =
     and_then (map_err Message (read_actor actor_name s)) (\<lambda>actor.
       if ADMIN_DOMAIN \<notin> set (ac_domains actor) then Inl (Failure OperationUnavailable)
       else map_err Message (verify_records E s))"

end
