(* ===== verification/Repository_Spec.thy ===== *)
theory Repository_Spec
  imports Verify Text_Merge_Spec Ancestry_Spec
begin

text \<open>
  Every command keeps a verified repository verified, whether it succeeds, reports conflicts or fails.
  The proof has two parts: how a command ends when it commits, from the composition of its steps, and
  that checks stay valid when records and blobs are only added.
\<close>

section \<open>Successful steps\<close>

named_theorems cmd_simps \<open>when a command succeeds, and in which state\<close>

lemma bindc_Inr [cmd_simps]: "bindc m k s = (Inr y, s') \<longleftrightarrow> (\<exists>x t. m s = (Inr x, t) \<and> k x t = (Inr y, s'))"
  by (auto simp: bindc_def split: prod.splits sum.splits)

lemma ask_Inr [cmd_simps]: "ask f s = (Inr x, t) \<longleftrightarrow> f s = Inr x \<and> t = s"
  by (auto simp: ask_def)

lemma fetch_Inr [cmd_simps]: "fetch f s = (Inr x, t) \<longleftrightarrow> f s = Inr x \<and> t = s"
  by (auto simp: fetch_def ask_def)

lemma ret_Inr [cmd_simps]: "ret x s = (Inr y, t) \<longleftrightarrow> y = x \<and> t = s"
  by (auto simp: ret_def)

lemma fail_Inr [cmd_simps]: "fail e s = (Inr x, t) \<longleftrightarrow> False"
  by (simp add: fail_def)

lemma modify_Inr [cmd_simps]: "modify f s = (Inr x, t) \<longleftrightarrow> t = f s"
  by (auto simp: modify_def)

lemma demand_Inr [cmd_simps]: "demand c e s = (Inr x, t) \<longleftrightarrow> c \<and> t = s"
  by (auto simp: demand_def ret_def fail_def)

lemma attempt_Inr [cmd_simps]: "attempt r s = (Inr x, t) \<longleftrightarrow> r = Inr x \<and> t = s"
  by (auto simp: attempt_def ret_def fail_def split: sum.splits)

lemma new_id_Inr [cmd_simps]:
  "new_id E p s = (Inr i, t) \<longleftrightarrow> i = p @ ev_fresh E (rp_ticks s) \<and> t = s\<lparr>rp_ticks := rp_ticks s + 1\<rparr>"
  by (auto simp: new_id_def)

lemma now_Inr [cmd_simps]: "now E s = (Inr x, t) \<longleftrightarrow> ev_now E (rp_ticks s) = Inr x \<and> t = s"
  by (simp add: now_def fetch_Inr)

lemma current_change_id_Inr [cmd_simps]:
  "current_change_id m s = (Inr i, t) \<longleftrightarrow> ws_current_change (rp_workspace s) = Some i \<and> t = s"
  by (auto simp: current_change_id_def bindc_Inr ask_Inr cmd_simps split: option.splits)

text \<open>How a command ends in any case.\<close>

named_theorems cmd_any \<open>the outcome of a command and its state\<close>

lemma bindc_any [cmd_any]:
  "bindc m k s = (r, t) \<longleftrightarrow> (\<exists>e. r = Inl e \<and> m s = (Inl e, t)) \<or> (\<exists>x u. m s = (Inr x, u) \<and> k x u = (r, t))"
  by (auto simp: bindc_def split: prod.splits sum.splits)

lemma steps_any [cmd_any]:
  "ask f s = (r, t) \<longleftrightarrow> f s = r \<and> t = s"
  "fetch g s = (r', t) \<longleftrightarrow> map_err Message (g s) = r' \<and> t = s"
  "ret x s = (r'', t) \<longleftrightarrow> r'' = Inr x \<and> t = s"
  "fail e s = (r3, t) \<longleftrightarrow> r3 = Inl e \<and> t = s"
  "modify h s = (r4, t) \<longleftrightarrow> r4 = Inr () \<and> t = h s"
  "demand c e s = (r4, t) \<longleftrightarrow> (if c then Inr () else Inl e) = r4 \<and> t = s"
  "attempt v s = (r5, t) \<longleftrightarrow> map_err Message v = r5 \<and> t = s"
  by (auto simp: ask_def fetch_def ret_def fail_def modify_def demand_def attempt_def split: sum.splits)

lemma ids_any [cmd_any]:
  "new_id E p s = (r, t) \<longleftrightarrow> r = Inr (p @ ev_fresh E (rp_ticks s)) \<and> t = s\<lparr>rp_ticks := rp_ticks s + 1\<rparr>"
  "now E s = (r', t) \<longleftrightarrow> map_err Message (ev_now E (rp_ticks s)) = r' \<and> t = s"
  by (auto simp: new_id_def now_def steps_any)

text \<open>The state in which an operation has been recorded.\<close>

definition logged :: "cli_env \<Rightarrow> operation_kind \<Rightarrow> 'git repo \<Rightarrow> 'git repo \<Rightarrow> bool" where
  "logged E kind s t \<longleftrightarrow> (\<exists>x. opr_kind x = kind \<and> opr_id x = op_prefix @ ev_fresh E (rp_ticks s) \<and>
     validate_object_id (opr_id x) op_prefix = Inr () \<and>
     t = s\<lparr>rp_ticks := rp_ticks s + 1, rp_operations := bt_insert (opr_id x) x (rp_operations s)\<rparr>)"

lemma record_operation_Inr: "record_operation E kind p m pm s = (Inr u, t) \<Longrightarrow> logged E kind s t"
proof -
  assume "record_operation E kind p m pm s = (Inr u, t)"
  then obtain time where v: "validate_object_id (op_prefix @ ev_fresh E (rp_ticks s)) op_prefix = Inr ()"
    and t: "t = s\<lparr>rp_ticks := rp_ticks s + 1, rp_operations := bt_insert (op_prefix @ ev_fresh E (rp_ticks s))
      \<lparr>opr_id = op_prefix @ ev_fresh E (rp_ticks s), opr_kind = kind, opr_policy = p, opr_private_message = m,
       opr_public_message = pm, opr_created_at = time\<rparr> (rp_operations s)\<rparr>"
    unfolding record_operation_def put_operation_def by (auto simp: cmd_simps)
  show ?thesis unfolding logged_def
    by (rule exI [of _ "\<lparr>opr_id = op_prefix @ ev_fresh E (rp_ticks s), opr_kind = kind, opr_policy = p, opr_private_message = m,
       opr_public_message = pm, opr_created_at = time\<rparr>"]) (simp add: v t)
qed

section \<open>Checks\<close>

lemma require_that_Inr [simp, result_simps]: "require_that c m = Inr u \<longleftrightarrow> c"
  by (simp add: require_that_def)

lemma check_identity_Inr [result_simps]:
  "check_identity key i p = Inr u \<longleftrightarrow> validate_object_id i p = Inr () \<and> key = i"
  by (auto simp: check_identity_def)

lemma snapshot_reference_Inr:
  "snapshot_reference i s = Inr u \<longleftrightarrow> (\<forall>x. i = Some x \<longrightarrow> map_of (rp_snapshots s) x \<noteq> None)"
  by (cases i) (simp_all add: snapshot_reference_def)

text \<open>All the maps are sorted.\<close>

definition repo_wf :: "'git repo \<Rightarrow> bool" where
  "repo_wf s \<longleftrightarrow> bt_wf (rp_actors s) \<and> bt_wf (rp_changes s) \<and> bt_wf (rp_lines s) \<and> bt_wf (rp_snapshots s) \<and>
     bt_wf (rp_conflicts s) \<and> bt_wf (rp_operations s) \<and> bt_wf (rp_blobs s)"

definition each :: "('k \<times> 'v \<Rightarrow> bool) \<Rightarrow> ('k \<times> 'v) list \<Rightarrow> bool" where
  "each P m \<longleftrightarrow> (\<forall>k v. map_of m k = Some v \<longrightarrow> P (k, v))"

lemma each_set: "bt_wf m \<Longrightarrow> (\<forall>x \<in> set m. P x) \<longleftrightarrow> each P m"
  unfolding each_def using map_of_eq_Some_iff [OF bt_wf_distinct] by (metis prod.collapse)

lemma each_insert: "each P (bt_insert k v m) \<longleftrightarrow> P (k, v) \<and> (\<forall>k' v'. map_of m k' = Some v' \<longrightarrow> k' \<noteq> k \<longrightarrow> P (k', v'))"
  by (auto simp: each_def lookup_insert)

definition change_check :: "'git repo \<Rightarrow> bytes \<times> change \<Rightarrow> bool" where
  "change_check s r \<longleftrightarrow> check_identity (fst r) (ch_id (snd r)) chg_prefix = Inr () \<and> check_change s r = Inr ()"

definition line_check :: "'git repo \<Rightarrow> bytes \<times> cli_line \<Rightarrow> bool" where
  "line_check s r \<longleftrightarrow> check_line_name r = Inr () \<and> snapshot_reference (ln_head_snapshot (snd r)) s = Inr ()"

definition snapshot_check :: "cli_env \<Rightarrow> commit_metadata repo \<Rightarrow> bytes \<times> commit_metadata cli_snapshot \<Rightarrow> bool" where
  "snapshot_check E s r \<longleftrightarrow> check_snapshot E s r = Inr () \<and> check_provenance E s (snd r) = Inr ()"

definition verified :: "cli_env \<Rightarrow> commit_metadata repo \<Rightarrow> bool" where
  "verified E s \<longleftrightarrow> check_author (rp_author s) = Inr () \<and> each (change_check s) (rp_changes s) \<and> each (line_check s) (rp_lines s) \<and>
     each (\<lambda>r. check_actor_name r = Inr ()) (rp_actors s) \<and> each (snapshot_check E s) (rp_snapshots s) \<and>
     check_workspace s = Inr () \<and> sound_graph (rp_snapshots s) \<and> each (\<lambda>r. check_conflict E s r = Inr ()) (rp_conflicts s) \<and>
     each (\<lambda>r. check_operation s r = Inr ()) (rp_operations s) \<and> each (\<lambda>r. check_blob E r = Inr ()) (rp_blobs s)"

lemma validate_graph_Inr: "validate_graph g = (Inr () :: (unit, 'e ancestry_error) result) \<longleftrightarrow> sound_graph g"
  using validate_graph_cases [of g, where 'e = 'e] blamed_unsound [of g, where 'b = 'e]
  by (cases "validate_graph g :: (unit, 'e ancestry_error) result") auto

lemma verify_records_Inr:
  assumes "repo_wf s"
  shows "verify_records E s = Inr () \<longleftrightarrow> verified E s"
proof -
  have wf: "bt_wf (rp_actors s)" "bt_wf (rp_changes s)" "bt_wf (rp_lines s)" "bt_wf (rp_snapshots s)"
    "bt_wf (rp_conflicts s)" "bt_wf (rp_operations s)" "bt_wf (rp_blobs s)"
    using assms by (auto simp: repo_wf_def)
  show ?thesis
    unfolding verify_records_def all_ok_Inr verified_def each_set [OF wf(1), symmetric] each_set [OF wf(2), symmetric]
      each_set [OF wf(3), symmetric] each_set [OF wf(4), symmetric] each_set [OF wf(5), symmetric]
      each_set [OF wf(6), symmetric] each_set [OF wf(7), symmetric]
    by (simp add: validate_graph_Inr change_check_def line_check_def snapshot_check_def ball_Un ball_conj_distrib split_beta) argo
qed

section \<open>Checks stay valid in a growing repository\<close>

definition grows :: "'git repo \<Rightarrow> 'git repo \<Rightarrow> bool" where
  "grows s t \<longleftrightarrow> (\<forall>i. has_change i s \<longrightarrow> has_change i t) \<and> (\<forall>n. has_line n s \<longrightarrow> has_line n t) \<and>
     (\<forall>i. has_conflict i s \<longrightarrow> has_conflict i t) \<and> (\<forall>n. discard (read_actor n s) = Inr () \<longrightarrow> discard (read_actor n t) = Inr ()) \<and>
     map_of (rp_snapshots s) \<subseteq>\<^sub>m map_of (rp_snapshots t) \<and> map_of (rp_blobs s) \<subseteq>\<^sub>m map_of (rp_blobs t)"

lemma grows_refl: "grows s s"
  by (simp add: grows_def)

lemma map_le_lookup: "m \<subseteq>\<^sub>m m' \<Longrightarrow> m k = Some v \<Longrightarrow> m' k = Some v"
  by (metis domI map_le_def)

lemma verify_file_mono:
  "verify_file E b f = Inr () \<Longrightarrow> map_of b \<subseteq>\<^sub>m map_of b' \<Longrightarrow> verify_file E b' f = Inr ()"
  by (auto simp: verify_file_def open_blob_def all_ok_Inr ok_or_Inr dest: map_le_lookup)

lemma verify_manifest_mono:
  "verify_manifest E b fs = Inr () \<Longrightarrow> map_of b \<subseteq>\<^sub>m map_of b' \<Longrightarrow> verify_manifest E b' fs = Inr ()"
  by (auto simp: verify_manifest_def all_ok_Inr dest: verify_file_mono)

lemma grows_records:
  assumes "grows s t"
  shows "has_change i s \<Longrightarrow> has_change i t" "has_line n s \<Longrightarrow> has_line n t" "has_conflict i s \<Longrightarrow> has_conflict i t"
    "discard (read_actor n s) = Inr () \<Longrightarrow> discard (read_actor n t) = Inr ()"
    "map_of (rp_snapshots s) i = Some x \<Longrightarrow> map_of (rp_snapshots t) i = Some x"
    "map_of (rp_blobs s) \<subseteq>\<^sub>m map_of (rp_blobs t)"
  using assms unfolding grows_def by (blast, blast, blast, blast, metis map_le_lookup, blast)

lemma snapshot_reference_mono:
  assumes g: "grows s t"
  shows "snapshot_reference i s = Inr u \<Longrightarrow> snapshot_reference i t = Inr u"
  using grows_records(5) [OF g] by (fastforce simp: snapshot_reference_Inr)

lemma owned_by_mono:
  assumes g: "grows s t"
  shows "owned_by c i s \<Longrightarrow> owned_by c i t"
  using grows_records(5) [OF g] by (force simp: owned_by_def split: option.splits)

lemma check_owned_mono:
  assumes g: "grows s t"
  shows "check_owned s c i = Inr () \<Longrightarrow> check_owned t c i = Inr ()"
  using grows_records(1) [OF g] snapshot_reference_mono [OF g] owned_by_mono [OF g] by (simp add: check_owned_def all_ok_Inr)

lemma parent_commit_mono:
  assumes g: "grows s t"
  shows "parent_commit s i = Inr p \<Longrightarrow> parent_commit t i = Inr p"
  using grows_records(5) [OF g] by (auto simp: parent_commit_def bind_eq_Some_conv)

lemma check_kind_mono:
  assumes g: "grows s t"
  shows "check_kind s k = Inr () \<Longrightarrow> check_kind t k = Inr ()"
  using grows_records(1-4) [OF g] snapshot_reference_mono [OF g] check_owned_mono [OF g] parent_commit_mono [OF g]
  by (cases k) (auto simp: all_ok_Inr simp del: discard_Inr)

lemma check_operation_mono:
  assumes g: "grows s t"
  shows "check_operation s r = Inr () \<Longrightarrow> check_operation t r = Inr ()"
  using check_kind_mono [OF g] by (cases r) (simp add: check_operation_def)

lemma check_change_mono:
  assumes g: "grows s t"
  shows "check_change s r = Inr () \<Longrightarrow> check_change t r = Inr ()"
  using grows_records(2) [OF g] snapshot_reference_mono [OF g] owned_by_mono [OF g]
  by (cases r) (simp add: check_change_def all_ok_Inr split: option.splits)

lemma check_snapshot_mono:
  assumes g: "grows s t"
  shows "check_snapshot E s r = Inr () \<Longrightarrow> check_snapshot E t r = Inr ()"
  using grows_records(1) [OF g] verify_manifest_mono [OF _ grows_records(6) [OF g]]
  by (cases r) (simp add: check_snapshot_def all_ok_Inr)

lemma try_fold_mono:
  "(\<And>a x r. f a x = Inr r \<Longrightarrow> g a x = Inr r) \<Longrightarrow> try_fold f a xs = Inr r \<Longrightarrow> try_fold g a xs = Inr r"
  by (induction xs arbitrary: a) auto

lemma tree_id_mono:
  assumes b: "map_of b \<subseteq>\<^sub>m map_of b'"
  shows "tree_id E b files format = Inr i \<Longrightarrow> tree_id E b' files format = Inr i"
proof -
  have open_mono: "open_blob b h = Inr x \<Longrightarrow> open_blob b' h = Inr x" for h x
    using b by (auto simp: open_blob_def dest: map_le_lookup)
  have blob: "git_blob E b format False f = Inr r \<Longrightarrow> git_blob E b' format False f = Inr r" for f r
    by (fastforce simp: git_blob_def blob_id_def split: if_splits dest: open_mono)
  have "add_file E b' format False acc f = Inr r" if run: "add_file E b format False acc f = Inr r" for acc f r
  proof -
    obtain d os where acc: "acc = (d, os)" by (cases acc)
    obtain y where "git_blob E b format False f = Inr y" using run unfolding acc add_file_def Let_def by (auto split: if_splits)
    then have same: "git_blob E b' format False f = git_blob E b format False f" using blob by simp
    show ?thesis using run unfolding add_file_def same .
  qed
  then have fold: "try_fold (add_file E b format False) a files = Inr r \<Longrightarrow> try_fold (add_file E b' format False) a files = Inr r" for a r
    by (rule try_fold_mono)
  assume run: "tree_id E b files format = Inr i"
  then obtain y where "try_fold (add_file E b format False) (GitEmpty, []) files = Inr y"
    unfolding tree_id_def build_tree_def and_then_Inr by blast
  then have same: "try_fold (add_file E b' format False) (GitEmpty, []) files = try_fold (add_file E b format False) (GitEmpty, []) files"
    using fold by simp
  show "tree_id E b' files format = Inr i" using run unfolding tree_id_def build_tree_def same .
qed

lemma check_provenance_mono:
  assumes g: "grows s t"
  shows "check_provenance E s x = Inr () \<Longrightarrow> check_provenance E t x = Inr ()"
proof -
  have "collect_results (map (parent_commit s) is) = Inr ps \<Longrightarrow> collect_results (map (parent_commit t) is) = Inr ps" for "is" ps
    by (induction "is" arbitrary: ps) (auto dest: parent_commit_mono [OF g])
  then show "check_provenance E s x = Inr () \<Longrightarrow> check_provenance E t x = Inr ()"
    using tree_id_mono [OF grows_records(6) [OF g]] by (auto simp: check_provenance_def split: option.splits)
qed

lemma snapshot_check_mono: "grows s t \<Longrightarrow> snapshot_check E s r \<Longrightarrow> snapshot_check E t r"
  using check_snapshot_mono [of s t E r] check_provenance_mono [of s t E "snd r"] by (simp add: snapshot_check_def)

lemma check_conflict_mono:
  assumes g: "grows s t"
  shows "check_conflict E s r = Inr () \<Longrightarrow> check_conflict E t r = Inr ()"
  using grows_records(1,2) [OF g] snapshot_reference_mono [OF g] verify_file_mono [OF _ grows_records(6) [OF g]]
  by (cases r) (auto simp: check_conflict_def all_ok_Inr split: option.splits)

lemma change_check_mono: "grows s t \<Longrightarrow> change_check s r \<Longrightarrow> change_check t r"
  using check_change_mono [of s t r] by (simp add: change_check_def)

lemma line_check_mono: "grows s t \<Longrightarrow> line_check s r \<Longrightarrow> line_check t r"
  using snapshot_reference_mono [of s t] by (simp add: line_check_def)

lemma check_workspace_mono:
  assumes g: "grows s t" "rp_workspace t = rp_workspace s"
  shows "check_workspace s = Inr () \<Longrightarrow> check_workspace t = Inr ()"
  using grows_records(1) [OF g(1)] snapshot_reference_mono [OF g(1)] g(2)
  by (simp add: check_workspace_def all_ok_Inr split: option.splits)

text \<open>A verified repository that grew is verified when what is new in it is.\<close>

definition fresh_ok :: "('k \<times> 'v \<Rightarrow> bool) \<Rightarrow> ('k \<times> 'v) list \<Rightarrow> ('k \<times> 'v) list \<Rightarrow> bool" where
  "fresh_ok P m m' \<longleftrightarrow> (\<forall>k v. map_of m' k = Some v \<longrightarrow> map_of m k = Some v \<or> P (k, v))"

lemma fresh_ok_same [simp]: "fresh_ok P m m"
  by (simp add: fresh_ok_def)

lemma fresh_ok_insert: "P (k, v) \<Longrightarrow> fresh_ok P m (bt_insert k v m)"
  by (simp add: fresh_ok_def lookup_insert)

lemma each_fresh: "each P m \<Longrightarrow> (\<And>r. P r \<Longrightarrow> Q r) \<Longrightarrow> fresh_ok Q m m' \<Longrightarrow> each Q m'"
  unfolding each_def fresh_ok_def by blast

lemma verified_grows:
  assumes v: "verified E s" and g: "grows s t"
    and new: "check_author (rp_author t) = Inr ()" "check_workspace t = Inr ()" "sound_graph (rp_snapshots t)"
      "fresh_ok (change_check t) (rp_changes s) (rp_changes t)" "fresh_ok (line_check t) (rp_lines s) (rp_lines t)"
      "fresh_ok (\<lambda>r. check_actor_name r = Inr ()) (rp_actors s) (rp_actors t)"
      "fresh_ok (snapshot_check E t) (rp_snapshots s) (rp_snapshots t)"
      "fresh_ok (\<lambda>r. check_conflict E t r = Inr ()) (rp_conflicts s) (rp_conflicts t)"
      "fresh_ok (\<lambda>r. check_operation t r = Inr ()) (rp_operations s) (rp_operations t)"
      "fresh_ok (\<lambda>r. check_blob E r = Inr ()) (rp_blobs s) (rp_blobs t)"
  shows "verified E t"
proof -
  note old = v [unfolded verified_def]
  have "each (change_check t) (rp_changes t)" by (rule each_fresh [OF _ change_check_mono [OF g] new(4)]) (use old in blast)
  moreover have "each (line_check t) (rp_lines t)" by (rule each_fresh [OF _ line_check_mono [OF g] new(5)]) (use old in blast)
  moreover have "each (\<lambda>r. check_actor_name r = Inr ()) (rp_actors t)" by (rule each_fresh [OF _ _ new(6)]) (use old in blast)+
  moreover have "each (snapshot_check E t) (rp_snapshots t)"
    by (rule each_fresh [OF _ snapshot_check_mono [OF g] new(7)]) (use old in blast)
  moreover have "each (\<lambda>r. check_conflict E t r = Inr ()) (rp_conflicts t)"
    by (rule each_fresh [OF _ check_conflict_mono [OF g] new(8)]) (use old in blast)
  moreover have "each (\<lambda>r. check_operation t r = Inr ()) (rp_operations t)"
    by (rule each_fresh [OF _ check_operation_mono [OF g] new(9)]) (use old in blast)
  moreover have "each (\<lambda>r. check_blob E r = Inr ()) (rp_blobs t)" by (rule each_fresh [OF _ _ new(10)]) (use old in blast)+
  ultimately show ?thesis using new(1-3) unfolding verified_def by blast
qed

section \<open>The invariant and its steps\<close>

text \<open>Identifiers that are still to be drawn are not in use by a snapshot, as long as they are valid.\<close>

definition fresh_id :: "cli_env \<Rightarrow> nat \<Rightarrow> bool" where
  "fresh_id E n \<longleftrightarrow> validate_object_id (snap_prefix @ ev_fresh E n) snap_prefix = Inr ()"

definition fresh_from :: "cli_env \<Rightarrow> 'git repo \<Rightarrow> bool" where
  "fresh_from E s \<longleftrightarrow> (\<forall>n \<ge> rp_ticks s. fresh_id E n \<longrightarrow> map_of (rp_snapshots s) (snap_prefix @ ev_fresh E n) = None)"

definition repo_inv :: "cli_env \<Rightarrow> commit_metadata repo \<Rightarrow> bool" where
  "repo_inv E s \<longleftrightarrow> repo_wf s \<and> verified E s \<and> fresh_from E s"

lemmas grow_defs = grows_def has_change_def has_line_def has_conflict_def read_actor_def lookup_insert

lemma inv_grows:
  assumes i: "repo_inv E s" and g: "grows s t" and t: "repo_wf t" "fresh_from E t"
    and author: "rp_author t = rp_author s \<or> check_author (rp_author t) = Inr ()"
    and workspace: "rp_workspace t = rp_workspace s \<or> check_workspace t = Inr ()"
    and graph: "rp_snapshots t = rp_snapshots s \<or> sound_graph (rp_snapshots t)"
    and new: "fresh_ok (change_check t) (rp_changes s) (rp_changes t)" "fresh_ok (line_check t) (rp_lines s) (rp_lines t)"
      "fresh_ok (\<lambda>r. check_actor_name r = Inr ()) (rp_actors s) (rp_actors t)"
      "fresh_ok (snapshot_check E t) (rp_snapshots s) (rp_snapshots t)"
      "fresh_ok (\<lambda>r. check_conflict E t r = Inr ()) (rp_conflicts s) (rp_conflicts t)"
      "fresh_ok (\<lambda>r. check_operation t r = Inr ()) (rp_operations s) (rp_operations t)"
      "fresh_ok (\<lambda>r. check_blob E r = Inr ()) (rp_blobs s) (rp_blobs t)"
  shows "repo_inv E t"
proof -
  have v: "verified E s" using i by (simp add: repo_inv_def)
  have "verified E t"
    by (rule verified_grows [OF v g _ _ _ new])
      (use v author workspace graph check_workspace_mono [OF g] in \<open>auto simp: verified_def\<close>)
  with t show ?thesis by (simp add: repo_inv_def)
qed

lemma inv_parts: "repo_inv E s \<Longrightarrow> repo_wf s \<and> fresh_from E s"
  by (simp add: repo_inv_def)

lemma step_ticks: "repo_inv E s \<Longrightarrow> rp_ticks s \<le> n \<Longrightarrow> repo_inv E (s\<lparr>rp_ticks := n\<rparr>)"
  by (rule inv_grows) (auto simp: grow_defs repo_wf_def fresh_from_def dest!: inv_parts)

lemma step_change:
  assumes i: "repo_inv E s" and c: "change_check s (k, c)"
    and m: "m = rp_changes s"
  shows "repo_inv E (s\<lparr>rp_changes := bt_insert k c m\<rparr>)"
proof -
  let ?m = "bt_insert k c (rp_changes s)"
  let ?t = "s\<lparr>rp_changes := ?m\<rparr>"
  have g: "grows s ?t" by (auto simp: grow_defs)
  show ?thesis unfolding m
    by (rule inv_grows [OF i g])
      (use inv_parts [OF i] change_check_mono [OF g c] in \<open>auto simp: repo_wf_def fresh_from_def fresh_ok_insert\<close>)
qed

lemma has_line_lookup: "bt_wf (rp_lines s) \<Longrightarrow> has_line n s \<longleftrightarrow> (\<exists>k l. map_of (rp_lines s) k = Some l \<and> ln_name l = n)"
proof -
  assume wf: "bt_wf (rp_lines s)"
  show ?thesis unfolding has_line_def map_of_eq_Some_iff [OF bt_wf_distinct [OF wf]] by force
qed

lemma has_line_insert:
  assumes wf: "bt_wf (rp_lines s)" and line: "has_line n s"
    and same: "\<And>l0. map_of (rp_lines s) (file_name (ln_name l)) = Some l0 \<Longrightarrow> ln_name l0 = ln_name l"
  shows "has_line n (s\<lparr>rp_lines := bt_insert (file_name (ln_name l)) l (rp_lines s)\<rparr>)" (is "has_line n (s\<lparr>rp_lines := ?m\<rparr>)")
proof -
  obtain k l0 where k: "map_of (rp_lines s) k = Some l0" "ln_name l0 = n" using line wf by (auto simp: has_line_lookup)
  have "map_of ?m k = Some (if k = file_name (ln_name l) then l else l0)" using k(1) by (simp add: lookup_insert)
  moreover have "ln_name (if k = file_name (ln_name l) then l else l0) = n" using k same by auto
  ultimately show ?thesis using wf by (auto simp: has_line_lookup)
qed

lemma step_line:
  assumes i: "repo_inv E s" and l: "line_check s (file_name (ln_name l), l)"
    and same: "\<And>l0. map_of (rp_lines s) (file_name (ln_name l)) = Some l0 \<Longrightarrow> ln_name l0 = ln_name l"
    and k: "k = file_name (ln_name l)" and m: "m = rp_lines s"
  shows "repo_inv E (s\<lparr>rp_lines := bt_insert k l m\<rparr>)"
proof -
  let ?m = "bt_insert (file_name (ln_name l)) l (rp_lines s)"
  let ?t = "s\<lparr>rp_lines := ?m\<rparr>"
  have "has_line n ?t" if "has_line n s" for n
    using inv_parts [OF i] that same by (intro has_line_insert) (simp_all add: repo_wf_def)
  then have g: "grows s ?t" by (simp add: grows_def has_change_def has_conflict_def read_actor_def)
  show ?thesis unfolding m k
    by (rule inv_grows [OF i g])
      (use inv_parts [OF i] line_check_mono [OF g l] in \<open>auto simp: repo_wf_def fresh_from_def fresh_ok_insert\<close>)
qed

lemma step_actor:
  assumes i: "repo_inv E s" and a: "validate_named_key (ac_name a) = Inr ()"
    and same: "\<And>a0. map_of (rp_actors s) (file_name (ac_name a)) = Some a0 \<Longrightarrow> ac_name a0 = ac_name a"
    and k: "k = file_name (ac_name a)" and m: "m = rp_actors s"
  shows "repo_inv E (s\<lparr>rp_actors := bt_insert k a m\<rparr>)"
proof -
  let ?m = "bt_insert (file_name (ac_name a)) a (rp_actors s)"
  let ?t = "s\<lparr>rp_actors := ?m\<rparr>"
  have "discard (read_actor n ?t) = Inr ()" if read: "discard (read_actor n s) = Inr ()" for n
  proof -
    obtain a0 where a0: "validate_named_key n = Inr ()" "map_of (rp_actors s) (file_name n) = Some a0" "ac_name a0 = n"
      using read by (auto simp: read_actor_def read_record_def split: if_splits)
    have "map_of ?m (file_name n) = Some (if file_name n = file_name (ac_name a) then a else a0)"
      using a0(2) by (simp add: lookup_insert)
    moreover have "ac_name (if file_name n = file_name (ac_name a) then a else a0) = n" using a0 same [of a0] by auto
    ultimately show ?thesis using a0(1) by (simp add: read_actor_def read_record_def)
  qed
  then have g: "grows s ?t" by (simp add: grows_def has_change_def has_line_def has_conflict_def)
  show ?thesis unfolding m k
    by (rule inv_grows [OF i g])
      (use inv_parts [OF i] a in \<open>auto simp: repo_wf_def fresh_from_def check_actor_name_def intro!: fresh_ok_insert\<close>)
qed

lemma step_conflict:
  assumes i: "repo_inv E s" and c: "check_conflict E s (k, c) = Inr ()"
    and m: "m = rp_conflicts s"
  shows "repo_inv E (s\<lparr>rp_conflicts := bt_insert k c m\<rparr>)"
proof -
  let ?m = "bt_insert k c (rp_conflicts s)"
  let ?t = "s\<lparr>rp_conflicts := ?m\<rparr>"
  have g: "grows s ?t" by (auto simp: grow_defs)
  show ?thesis unfolding m
    by (rule inv_grows [OF i g])
      (use inv_parts [OF i] check_conflict_mono [OF g c] in \<open>auto simp: repo_wf_def fresh_from_def intro!: fresh_ok_insert\<close>)
qed

lemma step_workspace:
  assumes i: "repo_inv E s" and w: "snapshot_reference (ws_mode_snapshot w) s = Inr ()"
    "\<And>c. ws_current_change w = Some c \<Longrightarrow> has_change c s"
  shows "repo_inv E (s\<lparr>rp_workspace := w\<rparr>)"
proof -
  have g: "grows s (s\<lparr>rp_workspace := w\<rparr>)" by (auto simp: grow_defs)
  have "check_workspace (s\<lparr>rp_workspace := w\<rparr>) = Inr ()"
    using w snapshot_reference_mono [OF g] grows_records(1) [OF g] by (simp add: check_workspace_def all_ok_Inr split: option.splits)
  then show ?thesis by (intro inv_grows [OF i g]) (use inv_parts [OF i] in \<open>auto simp: repo_wf_def fresh_from_def\<close>)
qed

lemma step_author: "repo_inv E s \<Longrightarrow> validate_author a = Inr () \<Longrightarrow> repo_inv E (s\<lparr>rp_author := Some a\<rparr>)"
  by (rule inv_grows) (auto simp: grow_defs repo_wf_def fresh_from_def check_author_def dest!: inv_parts)

lemma step_policies: "repo_inv E s \<Longrightarrow> repo_inv E (s\<lparr>rp_path_policies := ps\<rparr>)"
  by (rule inv_grows) (auto simp: grow_defs repo_wf_def fresh_from_def dest!: inv_parts)

lemma step_logged:
  assumes i: "repo_inv E s" and l: "logged E k s t" and k: "check_kind s k = Inr ()"
  shows "repo_inv E t"
proof -
  obtain x where x: "opr_kind x = k" "validate_object_id (opr_id x) op_prefix = Inr ()"
    and t: "t = s\<lparr>rp_ticks := rp_ticks s + 1, rp_operations := bt_insert (opr_id x) x (rp_operations s)\<rparr>"
    using l by (auto simp: logged_def)
  have g: "grows s t" by (auto simp: t grow_defs)
  have "check_operation t (opr_id x, x) = Inr ()"
    using x check_kind_mono [OF g k] by (simp add: check_operation_def check_identity_Inr)
  then show ?thesis
    by (intro inv_grows [OF i g]) (use inv_parts [OF i] in \<open>auto simp: t repo_wf_def fresh_from_def intro!: fresh_ok_insert\<close>)
qed

lemma step_recorded:
  assumes i: "repo_inv E s" and k: "check_kind s k = Inr ()" and run: "record_operation E k p m pm s = (r, t)"
  shows "repo_inv E t"
proof (cases r)
  case (Inr u)
  then show ?thesis using run by (intro step_logged [OF i record_operation_Inr k]) simp
next
  case (Inl e)
  then have "t = s\<lparr>rp_ticks := rp_ticks s + 1\<rparr>"
    using run unfolding record_operation_def put_operation_def by (auto simp: cmd_any)
  then show ?thesis using step_ticks [OF i, of "rp_ticks s + 1"] by simp
qed

lemma step_blobs:
  assumes i: "repo_inv E s" and b: "bt_wf b" "map_of (rp_blobs s) \<subseteq>\<^sub>m map_of b" "each (\<lambda>r. check_blob E r = Inr ()) b"
  shows "repo_inv E (s\<lparr>rp_blobs := b\<rparr>)"
proof -
  have g: "grows s (s\<lparr>rp_blobs := b\<rparr>)" using b(2) by (auto simp: grow_defs)
  show ?thesis
    by (rule inv_grows [OF i g]) (use inv_parts [OF i] b in \<open>auto simp: repo_wf_def fresh_from_def fresh_ok_def each_def\<close>)
qed

lemma acyclic_new_source:
  assumes "acyclic R" "i \<notin> Range R" "i \<notin> P"
  shows "acyclic (R \<union> {i} \<times> P)"
proof -
  have old: "(a, b) \<in> R\<^sup>+" if "(a, b) \<in> (R \<union> {i} \<times> P)\<^sup>+" "a \<noteq> i" for a b
    using that
  proof (induction rule: trancl_induct)
    case (step b c)
    then have "b \<noteq> i" using assms(2) by (metis Range.intros tranclE)
    with step show ?case by (auto intro: trancl_into_trancl)
  qed auto
  have "(z, i) \<notin> R \<union> {i} \<times> P" for z using assms(2,3) by auto
  then have "y \<noteq> i" if "(y, y) \<in> (R \<union> {i} \<times> P)\<^sup>+" for y
    using that by (metis tranclE)
  with old assms(1) show ?thesis unfolding acyclic_def by blast
qed

lemma sound_graph_insert:
  assumes g: "sound_graph g" and new: "map_of g i = None"
    and p: "distinct (parents x)" "set (parents x) \<subseteq> dom (map_of g)"
  shows "sound_graph (bt_insert i x g)"
proof -
  have r: "parent_rel (bt_insert i x g) = parent_rel g \<union> {i} \<times> set (parents x)"
    using new by (auto simp: parent_rel_def lookup_insert split: if_splits)
  have "i \<notin> Range (parent_rel g)" "i \<notin> set (parents x)" using g new p(2) by (auto simp: sound_graph_def)
  then have "acyclic (parent_rel (bt_insert i x g))"
    unfolding r using g by (intro acyclic_new_source) (auto simp: sound_graph_def)
  moreover have "parents_distinct (bt_insert i x g) y" if "y \<in> dom (map_of (bt_insert i x g))" for y
    using that g p(1) by (auto simp: parents_distinct_def sound_graph_def lookup_insert split: if_splits)
  ultimately show ?thesis using g p(2) unfolding sound_graph_def by (auto simp: r lookup_insert)
qed

text \<open>No valid random identifier is drawn twice, and SHA-256 digests have 32 bytes.\<close>

definition env_ok :: "cli_env \<Rightarrow> bool" where
  "env_ok E \<longleftrightarrow> (\<forall>m n. fresh_id E n \<longrightarrow> ev_fresh E m = ev_fresh E n \<longrightarrow> m = n) \<and> (\<forall>b. length (ev_sha256 E b) = 32)"

lemma step_snapshot:
  assumes i: "repo_inv E s" and e: "env_ok E" and k: "k = snap_prefix @ ev_fresh E n" "n < rp_ticks s" "map_of (rp_snapshots s) k = None"
    and x: "snapshot_check E s (k, x)" "distinct (parents x)" "set (parents x) \<subseteq> dom (map_of (rp_snapshots s))"
    and m: "m = rp_snapshots s"
  shows "repo_inv E (s\<lparr>rp_snapshots := bt_insert k x m\<rparr>)"
proof -
  let ?m = "bt_insert k x (rp_snapshots s)"
  let ?t = "s\<lparr>rp_snapshots := ?m\<rparr>"
  have g: "grows s ?t" using k(3) by (auto simp: grow_defs map_le_def)
  have "sound_graph ?m" using i k(3) x by (intro sound_graph_insert) (auto simp: repo_inv_def verified_def)
  moreover have "fresh_from E ?t"
    using inv_parts [OF i] e k(1,2) by (force simp: fresh_from_def lookup_insert env_ok_def)
  ultimately show ?thesis unfolding m
    by (intro inv_grows [OF i g])
      (use inv_parts [OF i] snapshot_check_mono [OF g x(1)] in \<open>auto simp: repo_wf_def intro!: fresh_ok_insert\<close>)
qed

section \<open>Hashes\<close>

lemma is_hex_digit: "is_hex (hex_digit (b div 16)) \<and> is_hex (hex_digit (b mod 16))"
proof -
  have "is_hex (hex_digit n)" if "n < 16" for n
  proof -
    have "unat n < 16" using that by (simp add: word_less_nat_alt)
    moreover have "n = of_nat (unat n)" by simp
    ultimately have "n \<in> of_nat ` {..<16}" by (metis imageI lessThan_iff)
    then show ?thesis by (auto simp: is_hex_def hex_digit_def lessThan_nat_numeral lessThan_Suc)
  qed
  moreover have "b div 16 < 16" "b mod 16 < 16"
    by (simp_all add: word_less_nat_alt unat_div unat_mod)
  ultimately show ?thesis by blast
qed

lemma hex_encode_hex: "length (hex_encode bs) = 2 * length bs \<and> list_all is_hex (hex_encode bs)"
  by (induction bs) (auto simp: is_hex_digit)

lemma hash_blob_name: "env_ok E \<Longrightarrow> blob_name (hash_bytes E b)"
  using hex_encode_hex [of "ev_sha256 E b"] by (auto simp: blob_name_def hash_bytes_def env_ok_def)

lemma check_blob_hash: "env_ok E \<Longrightarrow> check_blob E (hash_bytes E b, b) = Inr ()"
  by (simp add: check_blob_def all_ok_Inr hash_blob_name)

section \<open>Reading what is there\<close>

lemma read_record_Inr [result_simps]:
  "read_record v d k P = Inr x \<longleftrightarrow> v = Inr () \<and> map_of d k = Some x \<and> P x"
  by (auto simp: read_record_def)

lemma read_snapshot_Inr: "read_snapshot i s = Inr x \<Longrightarrow> map_of (rp_snapshots s) i = Some x \<and> sn_id x = i"
  by (auto simp: read_snapshot_def read_record_Inr)

lemma read_change_Inr: "read_change i s = Inr c \<Longrightarrow> map_of (rp_changes s) i = Some c \<and> ch_id c = i"
  by (auto simp: read_change_def read_record_Inr)

lemma read_line_Inr:
  "read_line n s = Inr l \<Longrightarrow> map_of (rp_lines s) (file_name n) = Some l \<and> ln_name l = n \<and> validate_named_key n = Inr ()"
  by (auto simp: read_line_def read_record_Inr)

lemma read_optional_Inr:
  "read_optional_snapshot i s = Inr x \<Longrightarrow> map_option sn_id x = i \<and> (\<forall>y. x = Some y \<longrightarrow> map_of (rp_snapshots s) (sn_id y) = Some y)"
  by (auto simp: read_optional_snapshot_def dest: read_snapshot_Inr split: option.splits)

text \<open>What the invariant says about a record that was read.\<close>

lemma inv_change:
  assumes "repo_inv E s" "map_of (rp_changes s) i = Some c"
  shows "change_check s (i, c)" "ch_id c = i" "has_change i s" "has_line (ch_target_line c) s"
    "snapshot_reference (ch_base_snapshot c) s = Inr ()" "snapshot_reference (ch_current_snapshot c) s = Inr ()"
    "snapshot_reference (workspace_base_snapshot_id c) s = Inr ()"
proof -
  show c: "change_check s (i, c)" using assms by (auto simp: repo_inv_def verified_def each_def)
  then show "ch_id c = i" "has_line (ch_target_line c) s" "snapshot_reference (ch_base_snapshot c) s = Inr ()"
    "snapshot_reference (ch_current_snapshot c) s = Inr ()"
    by (auto simp: change_check_def check_change_def check_identity_Inr all_ok_Inr)
  then show "snapshot_reference (workspace_base_snapshot_id c) s = Inr ()"
    by (auto simp: workspace_base_snapshot_id_def split: option.splits)
  show "has_change i s" using assms(2) by (simp add: has_change_def)
qed

lemma inv_line:
  assumes "repo_inv E s" "map_of (rp_lines s) k = Some l"
  shows "line_check s (k, l)" "k = file_name (ln_name l)" "has_line (ln_name l) s" "snapshot_reference (ln_head_snapshot l) s = Inr ()"
proof -
  show l: "line_check s (k, l)" using assms by (auto simp: repo_inv_def verified_def each_def)
  then show "k = file_name (ln_name l)" "snapshot_reference (ln_head_snapshot l) s = Inr ()"
    by (auto simp: line_check_def check_line_name_def)
  show "has_line (ln_name l) s" using assms inv_parts [OF assms(1)] by (auto simp: has_line_lookup repo_wf_def)
qed

lemma inv_snapshot:
  assumes "repo_inv E s" "map_of (rp_snapshots s) i = Some x"
  shows "check_snapshot E s (i, x) = Inr ()" "sn_id x = i" "verify_manifest E (rp_blobs s) (sn_files x) = Inr ()"
    "\<And>f. f \<in> set (sn_files x) \<Longrightarrow> validate_working_key (fe_path f) = Inr ()"
proof -
  show x: "check_snapshot E s (i, x) = Inr ()" using assms by (auto simp: repo_inv_def verified_def each_def snapshot_check_def)
  then show "sn_id x = i" and m: "verify_manifest E (rp_blobs s) (sn_files x) = Inr ()"
    by (auto simp: check_snapshot_def check_identity_Inr all_ok_Inr)
  show "validate_working_key (fe_path f) = Inr ()" if "f \<in> set (sn_files x)" for f
    using m that by (auto simp: verify_manifest_def verify_file_def all_ok_Inr)
qed

lemma inv_conflict: "repo_inv E s \<Longrightarrow> map_of (rp_conflicts s) i = Some c \<Longrightarrow> check_conflict E s (i, c) = Inr ()"
  by (auto simp: repo_inv_def verified_def each_def)

lemma inv_workspace:
  assumes "repo_inv E s"
  shows "snapshot_reference (ws_mode_snapshot (rp_workspace s)) s = Inr ()"
    "ws_current_change (rp_workspace s) = Some c \<Longrightarrow> has_change c s"
  using assms by (auto simp: repo_inv_def verified_def check_workspace_def all_ok_Inr)

lemma reference_Some: "snapshot_reference i s = Inr () \<longleftrightarrow> set_option i \<subseteq> dom (map_of (rp_snapshots s))"
  by (cases i) (auto simp: snapshot_reference_Inr)

text \<open>What the checks look at.\<close>

lemma frame [simp]:
  "has_line n (s\<lparr>rp_ticks := k\<rparr>) = has_line n s" "has_line n (s\<lparr>rp_changes := c\<rparr>) = has_line n s"
  "has_line n (s\<lparr>rp_snapshots := x\<rparr>) = has_line n s" "has_line n (s\<lparr>rp_workspace := w\<rparr>) = has_line n s"
  "has_line n (s\<lparr>rp_blobs := b\<rparr>) = has_line n s" "has_line n (s\<lparr>rp_conflicts := f\<rparr>) = has_line n s"
  "has_change i (s\<lparr>rp_ticks := k\<rparr>) = has_change i s" "has_change i (s\<lparr>rp_workspace := w\<rparr>) = has_change i s"
  "has_change i (s\<lparr>rp_lines := l\<rparr>) = has_change i s" "has_change i (s\<lparr>rp_blobs := b\<rparr>) = has_change i s"
  "has_change i (s\<lparr>rp_snapshots := x\<rparr>) = has_change i s" "has_change i (s\<lparr>rp_conflicts := f\<rparr>) = has_change i s"
  "snapshot_reference j (s\<lparr>rp_ticks := k\<rparr>) = snapshot_reference j s" "snapshot_reference j (s\<lparr>rp_changes := c\<rparr>) = snapshot_reference j s"
  "snapshot_reference j (s\<lparr>rp_lines := l\<rparr>) = snapshot_reference j s" "snapshot_reference j (s\<lparr>rp_workspace := w\<rparr>) = snapshot_reference j s"
  "snapshot_reference j (s\<lparr>rp_blobs := b\<rparr>) = snapshot_reference j s" "snapshot_reference j (s\<lparr>rp_conflicts := f\<rparr>) = snapshot_reference j s"
  "owned_by i' i (s\<lparr>rp_ticks := k\<rparr>) = owned_by i' i s" "owned_by i' i (s\<lparr>rp_changes := c\<rparr>) = owned_by i' i s"
  "owned_by i' i (s\<lparr>rp_workspace := w\<rparr>) = owned_by i' i s" "owned_by i' i (s\<lparr>rp_lines := l\<rparr>) = owned_by i' i s"
  "has_change i (s\<lparr>rp_changes := bt_insert i v m\<rparr>)" "has_conflict i (s\<lparr>rp_conflicts := bt_insert i v' m'\<rparr>)"
  by (simp_all add: has_line_def has_change_def has_conflict_def snapshot_reference_def owned_by_def lookup_insert split: option.split)

end
