(* ===== verification/Commands_Spec.thy ===== *)
theory Commands_Spec
  imports Repository_Spec
begin

text \<open>
  What each command does to the invariant of the repository when it succeeds. Every proof first reads
  off the definition which records the command found and which it wrote, then replays the writes with
  the step lemmas.
\<close>

section \<open>Commands that succeed\<close>

lemma inv_set_actor: "repo_inv E s \<Longrightarrow> set_actor E name ds s = (Inr (), t) \<Longrightarrow> repo_inv E t"
proof -
  assume i: "repo_inv E s" and run: "set_actor E name ds s = (Inr (), t)"
  let ?a = "\<lparr>ac_name = name, ac_domains = normalize_domains ds\<rparr>"
  let ?s = "s\<lparr>rp_actors := bt_insert (file_name name) ?a (rp_actors s)\<rparr>"
  have v: "validate_named_key name = Inr ()" and same: "\<And>a0. map_of (rp_actors s) (file_name name) = Some a0 \<Longrightarrow> ac_name a0 = name"
    and log: "logged E (SetActor name) ?s t"
    using run unfolding set_actor_def put_actor_def
    by (auto simp: cmd_simps Let_def read_actor_def read_record_Inr split: if_splits dest!: record_operation_Inr)
  have "repo_inv E ?s" using v same by (intro step_actor [OF i]) auto
  then show ?thesis
    by (rule step_logged [OF _ log]) (use v in \<open>simp add: read_actor_def read_record_Inr lookup_insert\<close>)
qed

lemma inv_set_path_policy: "repo_inv E s \<Longrightarrow> set_path_policy E p ds s = (Inr (), t) \<Longrightarrow> repo_inv E t"
  unfolding set_path_policy_def
  by (auto simp: cmd_simps Let_def dest!: record_operation_Inr intro: step_logged [OF step_policies])

lemma inv_set_identity: "repo_inv E s \<Longrightarrow> set_identity E n e s = (Inr (), t) \<Longrightarrow> repo_inv E t"
  unfolding set_identity_def
  by (auto simp: cmd_simps Let_def dest!: record_operation_Inr intro: step_logged [OF step_author])

lemma inv_create_change:
  assumes i: "repo_inv E s" and run: "create_change E name target p s = (Inr (), t)"
  shows "repo_inv E t"
proof -
  let ?i = "chg_prefix @ ev_fresh E (rp_ticks s)"
  obtain line time mode where line: "read_line target s = Inr line"
    and mode: "case (ws_mode_snapshot (rp_workspace s), ws_current_change (rp_workspace s)) of
        (None, Some c) \<Rightarrow> \<exists>prev. read_change c s = Inr prev \<and> mode = workspace_base_snapshot_id prev
      | (m, _) \<Rightarrow> mode = m"
    and valid: "validate_object_id ?i chg_prefix = Inr ()"
    and log: "logged E (CreateChange ?i) (s\<lparr>rp_ticks := rp_ticks s + 1,
      rp_changes := bt_insert ?i \<lparr>ch_id = ?i, ch_name = name, ch_base_snapshot = ln_head_snapshot line, ch_target_line = ln_name line,
        ch_current_snapshot = None, ch_policy = p, ch_created_at = time\<rparr> (rp_changes s),
      rp_workspace := \<lparr>ws_current_change = Some ?i, ws_mode_snapshot = mode\<rparr>\<rparr>) t"
    using run unfolding create_change_def put_change_def put_workspace_def
    by (auto simp: cmd_simps Let_def read_change_def read_record_Inr split: option.splits dest!: record_operation_Inr)
  let ?c = "\<lparr>ch_id = ?i, ch_name = name, ch_base_snapshot = ln_head_snapshot line, ch_target_line = ln_name line,
        ch_current_snapshot = None, ch_policy = p, ch_created_at = time\<rparr>"
  let ?s1 = "s\<lparr>rp_ticks := rp_ticks s + 1\<rparr>" and ?m = "bt_insert ?i ?c (rp_changes s)"
  note l = inv_line [OF i conjunct1 [OF read_line_Inr [OF line]]]
  have s1: "repo_inv E ?s1" by (rule step_ticks [OF i]) simp
  have "change_check ?s1 (?i, ?c)"
    using l valid by (simp add: change_check_def check_identity_Inr check_change_def all_ok_Inr snapshot_reference_Inr)
  then have s2: "repo_inv E (?s1\<lparr>rp_changes := ?m\<rparr>)" by (rule step_change [OF s1]) simp
  have "snapshot_reference mode s = Inr ()"
    using mode inv_workspace(1) [OF i] inv_change(7) [OF i] by (auto split: option.splits dest!: read_change_Inr)
  then have "repo_inv E (?s1\<lparr>rp_changes := ?m, rp_workspace := \<lparr>ws_current_change = Some ?i, ws_mode_snapshot = mode\<rparr>\<rparr>)"
    by (intro step_workspace [OF s2]) auto
  then show ?thesis by (rule step_logged [OF _ log]) simp
qed

lemmas change_checks = change_check_def check_identity_Inr check_change_def all_ok_Inr

lemma change_check_base:
  "change_check s (i, c) \<Longrightarrow> snapshot_reference b s = Inr () \<Longrightarrow> change_check s (i, c\<lparr>ch_base_snapshot := b\<rparr>)"
  by (auto simp: change_checks split: option.splits)

lemma change_check_target:
  "change_check s (i, c) \<Longrightarrow> has_line l s \<Longrightarrow> change_check s (i, c\<lparr>ch_target_line := l\<rparr>)"
  by (auto simp: change_checks split: option.splits)

lemma change_check_current:
  "change_check s (i, c) \<Longrightarrow> owned_by i x s \<Longrightarrow> change_check s (i, c\<lparr>ch_current_snapshot := Some x\<rparr>)"
  by (auto simp: change_checks owned_by_def snapshot_reference_Inr split: option.splits)

lemma inv_retarget:
  assumes i: "repo_inv E s" and run: "retarget E target actor s = (Inr (), t)"
  shows "repo_inv E t"
proof -
  obtain k c l where c: "read_change k s = Inr c" and l: "read_line target s = Inr l"
    and log: "logged E (RetargetChange k target) (s\<lparr>rp_changes := bt_insert k (c\<lparr>ch_target_line := target\<rparr>) (rp_changes s)\<rparr>) t"
    using run unfolding retarget_def put_change_def by (auto simp: cmd_simps dest!: record_operation_Inr)
  note c = read_change_Inr [OF c] and l = read_line_Inr [OF l]
  have line: "has_line target s" using inv_line(3) [OF i conjunct1 [OF l]] l by simp
  have "repo_inv E (s\<lparr>rp_changes := bt_insert k (c\<lparr>ch_target_line := target\<rparr>) (rp_changes s)\<rparr>)"
    using inv_change(1) [OF i] c line by (intro step_change [OF i] change_check_target) auto
  then show ?thesis by (rule step_logged [OF _ log]) (use line in simp)
qed

section \<open>Lines\<close>

lemma line_step:
  assumes i: "repo_inv E s" and n: "validate_named_key (ln_name l) = Inr ()" "snapshot_reference (ln_head_snapshot l) s = Inr ()"
    and same: "\<And>l0. map_of (rp_lines s) (file_name (ln_name l)) = Some l0 \<Longrightarrow> ln_name l0 = ln_name l"
  shows "repo_inv E (s\<lparr>rp_lines := bt_insert (file_name (ln_name l)) l (rp_lines s)\<rparr>)"
  by (rule step_line [OF i _ same]) (use n in \<open>auto simp: line_check_def check_line_name_def\<close>)

lemma has_line_inserted: "bt_wf (rp_lines s) \<Longrightarrow> has_line (ln_name l) (s\<lparr>rp_lines := bt_insert k l (rp_lines s)\<rparr>)"
  by (auto simp: has_line_lookup lookup_insert)

lemma created_line_policy_state: "created_line_policy E actor l s = (Inr p, t) \<Longrightarrow> t = s"
  by (auto simp: created_line_policy_def cmd_simps split: option.splits)

lemma inv_line_create:
  assumes i: "repo_inv E s" and run: "line_create E name from_line actor s = (Inr (), t)"
  shows "repo_inv E t"
proof -
  obtain l0 p time where l0: "read_line from_line s = Inr l0" and n: "validate_named_key name = Inr ()"
    and new: "map_of (rp_lines s) (file_name name) = None"
    and log: "logged E (CreateLine name from_line (ln_head_snapshot l0)) (s\<lparr>rp_lines := bt_insert (file_name name)
      \<lparr>ln_name = name, ln_head_snapshot = ln_head_snapshot l0, ln_policy = p, ln_created_at = time\<rparr> (rp_lines s)\<rparr>) t"
    using run unfolding line_create_def put_line_def
    by (auto simp: cmd_simps split: if_splits dest!: record_operation_Inr created_line_policy_state)
  let ?l = "\<lparr>ln_name = name, ln_head_snapshot = ln_head_snapshot l0, ln_policy = p, ln_created_at = time\<rparr>"
  note source = inv_line(3,4) [OF i conjunct1 [OF read_line_Inr [OF l0]]] read_line_Inr [OF l0]
  have wf: "bt_wf (rp_lines s)" using inv_parts [OF i] by (simp add: repo_wf_def)
  have "repo_inv E (s\<lparr>rp_lines := bt_insert (file_name (ln_name ?l)) ?l (rp_lines s)\<rparr>)"
    by (rule line_step [OF i]) (use n source new in auto)
  then show ?thesis
    using has_line_inserted [OF wf, of ?l] has_line_insert [OF wf, of from_line ?l] source new
    by (intro step_logged [OF _ log]) auto
qed

lemma inv_line_reset:
  assumes i: "repo_inv E s" and run: "line_reset E name to_id expected actor s = (Inr (), t)"
  shows "repo_inv E t"
proof (cases "expected = to_id")
  case True
  then show ?thesis using run i unfolding line_reset_def by (auto simp: cmd_simps)
next
  case False
  then obtain l0 x p where l0: "read_line name s = Inr l0" "ln_head_snapshot l0 = Some expected" and x: "read_snapshot to_id s = Inr x"
    and log: "logged E (ResetLine name expected to_id)
      (s\<lparr>rp_lines := bt_insert (file_name name) (l0\<lparr>ln_policy := p, ln_head_snapshot := Some to_id\<rparr>) (rp_lines s)\<rparr>) t"
    using run unfolding line_reset_def put_line_def by (auto simp: cmd_simps Let_def dest!: record_operation_Inr)
  let ?l = "l0\<lparr>ln_policy := p, ln_head_snapshot := Some to_id\<rparr>"
  note source = inv_line(3,4) [OF i conjunct1 [OF read_line_Inr [OF l0(1)]]] read_line_Inr [OF l0(1)]
  have ref: "snapshot_reference (Some to_id) s = Inr ()" using read_snapshot_Inr [OF x] by (auto simp: snapshot_reference_Inr)
  have wf: "bt_wf (rp_lines s)" using inv_parts [OF i] by (simp add: repo_wf_def)
  have n: "ln_name ?l = name" using source by simp
  have "repo_inv E (s\<lparr>rp_lines := bt_insert (file_name (ln_name ?l)) ?l (rp_lines s)\<rparr>)"
    by (rule line_step [OF i]) (use source ref in simp_all)
  then show ?thesis
    unfolding n using has_line_inserted [OF wf, of ?l, unfolded n] source ref l0(2)
    by (intro step_logged [OF _ log]) (simp_all add: all_ok_Inr)
qed

section \<open>The workspace\<close>

lemma references:
  assumes i: "repo_inv E s"
  shows "read_change c s = Inr x \<Longrightarrow> snapshot_reference (workspace_base_snapshot_id x) s = Inr ()"
    "read_snapshot k s = Inr y \<Longrightarrow> snapshot_reference (Some (sn_id y)) s = Inr ()"
    "read_optional_snapshot j s = Inr z \<Longrightarrow> snapshot_reference (map_option sn_id z) s = Inr ()"
    "change_snapshot a s = Inr z \<Longrightarrow> snapshot_reference (map_option sn_id z) s = Inr ()"
proof -
  show "read_change c s = Inr x \<Longrightarrow> snapshot_reference (workspace_base_snapshot_id x) s = Inr ()"
    using inv_change(7) [OF i] by (auto dest: read_change_Inr)
  show "read_snapshot k s = Inr y \<Longrightarrow> snapshot_reference (Some (sn_id y)) s = Inr ()"
    by (auto simp: snapshot_reference_Inr dest: read_snapshot_Inr)
  show o: "read_optional_snapshot j s = Inr z \<Longrightarrow> snapshot_reference (map_option sn_id z) s = Inr ()" for j
    by (auto simp: snapshot_reference_Inr dest: read_optional_Inr)
  show "change_snapshot a s = Inr z \<Longrightarrow> snapshot_reference (map_option sn_id z) s = Inr ()"
    by (auto simp: change_snapshot_def split: option.splits if_splits intro: o) (simp add: snapshot_reference_Inr)
qed

lemma inv_workspace_switch:
  assumes i: "repo_inv E s" and run: "workspace_switch E k actor s = (Inr (), t)"
  shows "repo_inv E t"
proof -
  obtain c new where c: "read_change k s = Inr c" and new: "read_optional_snapshot (workspace_base_snapshot_id c) s = Inr new"
    and log: "logged E (SwitchWorkspace k) (s\<lparr>rp_workspace := \<lparr>ws_current_change = Some k, ws_mode_snapshot = map_option sn_id new\<rparr>\<rparr>) t"
    using run unfolding workspace_switch_def put_workspace_def by (auto simp: cmd_simps dest!: record_operation_Inr)
  have change: "has_change k s" using read_change_Inr [OF c] by (simp add: has_change_def)
  have "repo_inv E (s\<lparr>rp_workspace := \<lparr>ws_current_change = Some k, ws_mode_snapshot = map_option sn_id new\<rparr>\<rparr>)"
    using references(3) [OF i new] change by (intro step_workspace [OF i]) auto
  then show ?thesis by (rule step_logged [OF _ log]) (use change in simp)
qed

lemma inv_workspace_restore:
  assumes i: "repo_inv E s" and run: "workspace_restore E from_id discard_changes actor s = (Inr (), t)"
  shows "repo_inv E t"
proof -
  obtain a new where new: "case from_id of Some k \<Rightarrow> \<exists>y. read_snapshot k s = Inr y \<and> new = Some y | None \<Rightarrow> change_snapshot a s = Inr new"
    and log: "logged E (RestoreWorkspace (map_option sn_id new))
      (s\<lparr>rp_workspace := (rp_workspace s)\<lparr>ws_mode_snapshot := map_option sn_id new\<rparr>\<rparr>) t"
    using run unfolding workspace_restore_def put_workspace_def
    by (cases from_id) (auto 4 3 simp: cmd_simps split: if_splits dest!: record_operation_Inr)
  have ref: "snapshot_reference (map_option sn_id new) s = Inr ()"
    using new references(2,4) [OF i] by (auto split: option.splits)
  have "repo_inv E (s\<lparr>rp_workspace := (rp_workspace s)\<lparr>ws_mode_snapshot := map_option sn_id new\<rparr>\<rparr>)"
    using ref inv_workspace(2) [OF i] by (intro step_workspace [OF i]) auto
  then show ?thesis by (rule step_logged [OF _ log]) (use ref in simp)
qed

lemma create_change_snapshots: "create_change E name target p s = (Inr (), t) \<Longrightarrow> rp_snapshots t = rp_snapshots s"
  unfolding create_change_def put_change_def put_workspace_def
  by (auto simp: cmd_simps Let_def logged_def split: option.splits dest!: record_operation_Inr)

lemma inv_workspace_start:
  assumes i: "repo_inv E s" and run: "workspace_start E name line_name actor s = (Inr (), t)"
  shows "repo_inv E t"
proof -
  obtain l new u k c where l: "read_line line_name s = Inr l" and new: "read_optional_snapshot (ln_head_snapshot l) s = Inr new"
    and change: "create_change E name line_name (ln_policy l) s = (Inr (), u)"
    and c: "ws_current_change (rp_workspace u) = Some k" "read_change k u = Inr c"
    and log: "logged E (SwitchWorkspace k) (u\<lparr>rp_changes := bt_insert (ch_id c) (c\<lparr>ch_base_snapshot := ln_head_snapshot l\<rparr>) (rp_changes u),
      rp_workspace := (rp_workspace u)\<lparr>ws_mode_snapshot := map_option sn_id new\<rparr>\<rparr>) t"
    using run unfolding workspace_start_def put_workspace_def put_change_def
    by (auto simp: cmd_simps dest!: record_operation_Inr)
  note k = conjunct2 [OF read_change_Inr [OF c(2)]]
  have iu: "repo_inv E u" by (rule inv_create_change [OF i change])
  have refs: "snapshot_reference (ln_head_snapshot l) u = Inr ()" "snapshot_reference (map_option sn_id new) u = Inr ()"
    using inv_line(4) [OF i conjunct1 [OF read_line_Inr [OF l]]] references(3) [OF i new] create_change_snapshots [OF change]
    by (simp_all add: snapshot_reference_Inr)
  have cc: "change_check u (k, c)" using inv_change(1) [OF iu] read_change_Inr [OF c(2)] by blast
  have "repo_inv E (u\<lparr>rp_changes := bt_insert k (c\<lparr>ch_base_snapshot := ln_head_snapshot l\<rparr>) (rp_changes u)\<rparr>)"
    by (rule step_change [OF iu change_check_base [OF cc refs(1)]]) simp
  then have "repo_inv E (u\<lparr>rp_changes := bt_insert k (c\<lparr>ch_base_snapshot := ln_head_snapshot l\<rparr>) (rp_changes u),
      rp_workspace := (rp_workspace u)\<lparr>ws_mode_snapshot := map_option sn_id new\<rparr>\<rparr>)"
    by (rule step_workspace) (use refs(2) c(1) in auto)
  then show ?thesis by (intro step_logged [OF _ log [unfolded k]]) simp_all
qed

end
