(* ===== verification/Working_Tree_Spec.thy ===== *)
theory Working_Tree_Spec
  imports Repository_Spec Tree_Merge_Spec "HOL-Library.Sublist"
begin

text \<open>
  What verification asks of a manifest, and that the manifest scanned from any directory tree satisfies
  it. The only facts used about the file system are that the names in a directory are different and
  are names: not empty, without a slash, neither dot nor dot-dot.
\<close>

section \<open>Manifests that verify\<close>

lemma manifest_path_fold:
  "try_fold (\<lambda>paths file.
      and_then (validate_working_key (fe_path file)) (\<lambda>_.
        and_then (require_that (fe_path file \<notin> set paths) m) (\<lambda>_. Inr (btset (fe_path file # paths))))) acc fs = Inr ps \<longleftrightarrow>
   (\<forall>f \<in> set fs. validate_working_key (fe_path f) = Inr () \<and> fe_path f \<notin> set acc) \<and> distinct (map fe_path fs) \<and>
   ps = foldl (\<lambda>paths file. btset (fe_path file # paths)) acc fs"
  by (induction fs arbitrary: acc) (auto, metis imageI)

lemma set_path_fold: "set (foldl (\<lambda>paths file. btset (fe_path file # paths)) acc fs) = set acc \<union> fe_path ` set fs"
  by (induction fs arbitrary: acc) auto

definition paths_apart :: "bytes set \<Rightarrow> bool" where
  "paths_apart ps \<longleftrightarrow> (\<forall>p \<in> ps. \<forall>q \<in> ps. contains p q \<longrightarrow> p = q)"

lemma verify_manifest_paths_Inr:
  "verify_manifest_paths fs = Inr () \<longleftrightarrow>
     (\<forall>f \<in> set fs. validate_working_key (fe_path f) = Inr ()) \<and> distinct (map fe_path fs) \<and> paths_apart (fe_path ` set fs)"
  (is "_ \<longleftrightarrow> ?valid \<and> ?distinct \<and> _")
proof -
  have apart: "paths_apart P \<longleftrightarrow> (\<forall>p \<in> P. [] \<notin> P \<and> (\<forall>a \<in> set (slash_ancestors p). a \<notin> P))" if "[] \<notin> P" for P
    using that unfolding paths_apart_def by (metis slash_ancestors_iff)
  have checks: "all_ok (concat (map (\<lambda>path. map (\<lambda>parent. require_that (parent \<notin> set ps) m) (rev (slash_ancestors path) @ [[]])) ps)) = Inr ()
      \<longleftrightarrow> (\<forall>p \<in> set ps. [] \<notin> set ps \<and> (\<forall>a \<in> set (slash_ancestors p). a \<notin> set ps))" for ps m
    by (auto simp: all_ok_Inr)
  have "[] \<notin> fe_path ` set fs" if ?valid using that by (force simp: validate_working_key_def)
  then show ?thesis
    unfolding verify_manifest_paths_def and_then_Inr manifest_path_fold checks ex_simps simp_thms
    using apart [of "fe_path ` set fs"] by (auto simp: set_path_fold checks simp del: concat_map_singleton)
qed

lemma verify_manifest_Inr:
  "verify_manifest E b fs = Inr () \<longleftrightarrow>
     distinct (map fe_path fs) \<and> paths_apart (fe_path ` set fs) \<and> (\<forall>f \<in> set fs. verify_file E b f = Inr ())"
  by (auto simp: verify_manifest_def verify_manifest_paths_Inr all_ok_Inr verify_file_def)

lemma verify_manifest_sorted: "verify_manifest E b fs = Inr () \<Longrightarrow> verify_manifest E b (sort_key fe_path fs) = Inr ()"
proof -
  have "distinct (map fe_path (sort_key fe_path fs)) \<longleftrightarrow> distinct (map fe_path fs)"
    by (metis mset_eq_imp_distinct_iff mset_map mset_sort)
  then show "verify_manifest E b fs = Inr () \<Longrightarrow> verify_manifest E b (sort_key fe_path fs) = Inr ()"
    by (simp add: verify_manifest_Inr)
qed

section \<open>Storing blobs\<close>

definition blobs_ok :: "cli_env \<Rightarrow> (bytes \<times> bytes) list \<Rightarrow> bool" where
  "blobs_ok E b \<longleftrightarrow> bt_wf b \<and> each (\<lambda>r. check_blob E r = Inr ()) b"

text \<open>Only blobs were added, each under its hash.\<close>

definition blob_step :: "cli_env \<Rightarrow> 'git repo \<Rightarrow> 'git repo \<Rightarrow> bool" where
  "blob_step E s t \<longleftrightarrow> (\<exists>b. t = s\<lparr>rp_blobs := b\<rparr> \<and> map_of (rp_blobs s) \<subseteq>\<^sub>m map_of b \<and> (blobs_ok E (rp_blobs s) \<longrightarrow> blobs_ok E b))"

lemma blob_step_refl: "blob_step E s s"
  unfolding blob_step_def by (rule exI [of _ "rp_blobs s"]) simp

lemma blob_step_trans: "blob_step E s t \<Longrightarrow> blob_step E t u \<Longrightarrow> blob_step E s u"
  unfolding blob_step_def by (elim exE conjE) (auto intro: map_le_trans)

lemma blob_step_blobs: "blob_step E s t \<Longrightarrow> map_of (rp_blobs s) \<subseteq>\<^sub>m map_of (rp_blobs t)"
  by (auto simp: blob_step_def)

lemma blob_step_inv: "repo_inv E s \<Longrightarrow> blob_step E s t \<Longrightarrow> repo_inv E t"
proof -
  assume i: "repo_inv E s" and "blob_step E s t"
  then obtain b where b: "t = s\<lparr>rp_blobs := b\<rparr>" "map_of (rp_blobs s) \<subseteq>\<^sub>m map_of b" "blobs_ok E (rp_blobs s) \<longrightarrow> blobs_ok E b"
    by (auto simp: blob_step_def)
  have "blobs_ok E (rp_blobs s)" using i by (simp add: blobs_ok_def repo_inv_def repo_wf_def verified_def)
  then show ?thesis unfolding b(1) using b(2,3) by (intro step_blobs [OF i]) (simp_all add: blobs_ok_def)
qed

lemma blob_insert_step: "env_ok E \<Longrightarrow> map_of (rp_blobs s) (hash_bytes E b) = None \<Longrightarrow>
    blob_step E s (s\<lparr>rp_blobs := bt_insert (hash_bytes E b) b (rp_blobs s)\<rparr>)"
  unfolding blob_step_def
  by (rule exI [of _ "bt_insert (hash_bytes E b) b (rp_blobs s)"])
    (auto simp: lookup_insert map_le_def blobs_ok_def each_insert check_blob_hash each_def)

lemma publish_blob_step: "env_ok E \<Longrightarrow> blob_step E s (snd (publish_blob (hash_bytes E b) b m s))"
  by (auto simp: publish_blob_def bindc_def ask_def modify_def demand_def ret_def fail_def blob_step_refl blob_insert_step
      split: sum.splits)

lemma publish_blob_any: "env_ok E \<Longrightarrow> publish_blob (hash_bytes E b) b m s = (r, t) \<Longrightarrow> blob_step E s t"
  using publish_blob_step [of E s b m] by simp

lemma publish_blob_Inr: "publish_blob h b m s = (Inr u, t) \<Longrightarrow> map_of (rp_blobs t) h = Some b"
  by (auto simp: publish_blob_def open_blob_def cmd_simps lookup_insert split: if_splits)

section \<open>Names and paths of a directory tree\<close>

definition clean_name :: "bytes \<Rightarrow> bool" where
  "clean_name n \<longleftrightarrow> n \<noteq> [] \<and> 0x2f \<notin> set n \<and> n \<noteq> [0x2e] \<and> n \<noteq> [0x2e, 0x2e]"

primrec dir_names :: "working_dir \<Rightarrow> bytes list" where
  "dir_names DirEnd = []"
| "dir_names (DirEntry n node d) = n # dir_names d"
| "dir_names (DirError e) = []"

primrec node_ok :: "working_node \<Rightarrow> bool" and dir_ok :: "working_dir \<Rightarrow> bool" where
  "node_ok (RegularFile c x) \<longleftrightarrow> True"
| "node_ok (SymbolicLink c) \<longleftrightarrow> True"
| "node_ok SpecialEntry \<longleftrightarrow> True"
| "node_ok (Directory d) \<longleftrightarrow> dir_ok d"
| "dir_ok DirEnd \<longleftrightarrow> True"
| "dir_ok (DirEntry n node d) \<longleftrightarrow> clean_name n \<and> n \<notin> set (dir_names d) \<and> node_ok node \<and> dir_ok d"
| "dir_ok (DirError e) \<longleftrightarrow> True"

primrec node_paths :: "bytes list \<Rightarrow> working_node \<Rightarrow> bytes list list"
  and dir_paths :: "bytes list \<Rightarrow> working_dir \<Rightarrow> bytes list list" where
  "node_paths p (RegularFile c x) = [p]"
| "node_paths p (SymbolicLink c) = [p]"
| "node_paths p SpecialEntry = [p]"
| "node_paths p (Directory d) = dir_paths p d"
| "dir_paths p DirEnd = []"
| "dir_paths p (DirEntry n node d) = node_paths (p @ [n]) node @ dir_paths p d"
| "dir_paths p (DirError e) = []"

lemma tree_paths_below:
  "q \<in> set (node_paths p node) \<Longrightarrow> prefix p q"
  "q \<in> set (dir_paths p d) \<Longrightarrow> \<exists>n \<in> set (dir_names d). prefix (p @ [n]) q"
proof (induction node and d arbitrary: p and p)
  case (Directory d)
  then show ?case by (force dest: append_prefixD)
qed auto

text \<open>No file of the tree is a directory of another.\<close>

definition incomparable :: "'a list \<Rightarrow> 'a list \<Rightarrow> bool" where
  "incomparable p q \<longleftrightarrow> \<not> prefix p q \<and> \<not> prefix q p"

lemma incomparable_below:
  "prefix (p @ [n]) q \<Longrightarrow> prefix (p @ [m]) r \<Longrightarrow> n \<noteq> m \<Longrightarrow> incomparable q r"
  by (auto simp: incomparable_def prefix_def)

lemma tree_paths_incomparable:
  "node_ok node \<Longrightarrow> sorted_wrt incomparable (node_paths p node)"
  "dir_ok d \<Longrightarrow> sorted_wrt incomparable (dir_paths p d)"
proof (induction node and d arbitrary: p and p)
  case (DirEntry n node d)
  then show ?case
    by (auto simp: sorted_wrt_append dest!: tree_paths_below intro: incomparable_below)
qed auto

lemma split_slash_nonempty [simp]: "split_slash x \<noteq> []"
  by (cases x) (auto split: list.splits)

lemma split_slash_concat: "split_slash (x @ 0x2f # y) = split_slash x @ split_slash y"
  by (induction x) (auto split: list.splits)

lemma contains_join:
  assumes "p \<noteq> []" "q \<noteq> []" "\<forall>n \<in> set p \<union> set q. clean_name n" "contains (join_slash p) (join_slash q)"
  shows "prefix p q"
proof -
  have "split_slash (join_slash p) = p" "split_slash (join_slash q) = q"
    using assms by (auto intro!: split_join_slash simp: clean_name_def)
  then show ?thesis using assms(4) by (auto simp: contains_iff split_slash_concat prefix_def)
qed

section \<open>The path of an entry\<close>

lemma components_join:
  assumes "p \<noteq> []" "\<forall>n \<in> set p. clean_name n"
  shows "components (join_slash p) = map Normal p"
proof -
  have s: "split_slash (join_slash p) = p" using assms by (auto intro!: split_join_slash simp: clean_name_def)
  obtain b rest where "join_slash p = b # rest" "b \<noteq> 0x2f"
    using assms by (cases p rule: join_slash.cases; cases "hd p") (auto simp: clean_name_def)
  then have "\<not> starts_with [0x2f] (join_slash p)" by (simp add: starts_with_def)
  moreover have "filter (\<lambda>c. c \<noteq> [] \<and> c \<noteq> [0x2e]) p = p" using assms by (auto simp: filter_id_conv clean_name_def)
  moreover have "hd p \<noteq> [0x2e]" using assms by (cases p) (auto simp: clean_name_def)
  moreover have "map (\<lambda>c. if c = [0x2e, 0x2e] then ParentDir else Normal c) p = map Normal p"
    using assms by (auto simp: clean_name_def)
  ultimately show ?thesis unfolding components_def s by simp
qed

lemma relative_path_fold:
  "try_fold (\<lambda>segments c.
      case c of
        CurDir \<Rightarrow> Inr segments
      | Normal name \<Rightarrow> if utf8_valid name then Inr (segments @ [name]) else Inl m
      | _ \<Rightarrow> Inl m') acc (map Normal p) = Inr ps \<longleftrightarrow> (\<forall>n \<in> set p. utf8_valid n) \<and> ps = acc @ p"
  by (induction p arbitrary: acc) auto

lemma relative_path_join:
  assumes "p \<noteq> []" "\<forall>n \<in> set p. clean_name n"
  shows "repository_relative_path (join_slash p) = Inr r \<longleftrightarrow> (\<forall>n \<in> set p. utf8_valid n) \<and> r = join_slash p"
  using assms(1) unfolding repository_relative_path_def components_join [OF assms] and_then_Inr relative_path_fold by auto

definition metadata_name :: "bytes \<Rightarrow> bool" where
  "metadata_name n \<longleftrightarrow> map ascii_lower n \<in> {[0x2e, 0x67, 0x69, 0x74], [0x2e, 0x72, 0x67, 0x69, 0x74]}"

lemma working_key_join:
  assumes "p \<noteq> []" "\<forall>n \<in> set p. clean_name n \<and> \<not> metadata_name n"
  shows "validate_working_key (join_slash p) = Inr ()"
proof -
  have c: "components (join_slash p) = map Normal p" by (rule components_join) (use assms in blast)+
  have s: "split_slash (join_slash p) = p" by (rule split_join_slash [OF assms(1)]) (use assms(2) clean_name_def in blast)
  have "p \<noteq> [[]]" using assms(2) by (metis clean_name_def list.set_intros(1))
  then have "join_slash p \<noteq> []" using s by (metis split_slash.simps(1))
  moreover have "\<not> bad_part n" if "n \<in> set p" for n
  proof -
    have "clean_name n" "\<not> metadata_name n" using assms(2) that by blast+
    then show ?thesis by (simp add: bad_part_def clean_name_def metadata_name_def)
  qed
  ultimately show ?thesis by (simp add: validate_working_key_def c s list_ex_iff is_normal_def)
qed

section \<open>The scan\<close>

definition good_path :: "bytes list \<Rightarrow> bool" where
  "good_path p \<longleftrightarrow> (\<forall>n \<in> set p. clean_name n \<and> \<not> metadata_name n)"

lemma capture_file_Inr:
  assumes run: "capture_file E pol p content fl s = (Inr files, t)" and e: "env_ok E" and p: "p \<noteq> []" "good_path p"
    and fl: "wf_symlink fl \<longrightarrow> \<not> wf_executable fl"
  shows "blob_step E s t \<and> map fe_path files = [join_slash p] \<and> (\<forall>f \<in> set files. verify_file E (rp_blobs t) f = Inr ())"
proof -
  obtain bytes r where r: "repository_relative_path (join_slash p) = Inr r"
    and pub: "publish_blob (hash_bytes E bytes) bytes ''stored blob failed verification; snapshot was not published'' s = (Inr (), t)"
    and link: "wf_symlink fl \<longrightarrow> validate_link bytes = Inr ()"
    and files: "files = [\<lparr>fe_symlink = wf_symlink fl, fe_path = r, fe_executable = wf_executable fl, fe_hash = hash_bytes E bytes,
       fe_bytes = of_nat (length bytes), fe_policy = policy_for_path r pol\<rparr>]"
    using run unfolding capture_file_def by (auto simp: cmd_simps Let_def split: if_splits)
  have path: "r = join_slash p" using r p relative_path_join [of p r] by (auto simp: good_path_def)
  have "validate_working_key r = Inr ()" unfolding path using p by (intro working_key_join) (auto simp: good_path_def)
  moreover have "blob_step E s t" using publish_blob_step [OF e, of s bytes] pub by (metis snd_conv)
  ultimately show ?thesis
    using publish_blob_Inr [OF pub] link fl hash_blob_name [OF e]
    by (auto simp: files path verify_file_def open_blob_def all_ok_Inr)
qed

definition scanned :: "cli_env \<Rightarrow> bytes list list \<Rightarrow> file_entry list \<Rightarrow> 'git repo \<Rightarrow> 'git repo \<Rightarrow> bool" where
  "scanned E ps files s t \<longleftrightarrow> blob_step E s t \<and> (\<forall>f \<in> set files. verify_file E (rp_blobs t) f = Inr ()) \<and>
     (\<exists>qs. subseq qs ps \<and> map fe_path files = map join_slash qs \<and> (\<forall>q \<in> set qs. good_path q \<and> q \<noteq> []))"

lemma scanned_append:
  assumes "scanned E ps files s t" "scanned E ps' files' t u"
  shows "scanned E (ps @ ps') (files @ files') s u"
proof -
  obtain qs qs' where q: "subseq qs ps" "map fe_path files = map join_slash qs" "\<forall>q \<in> set qs. good_path q \<and> q \<noteq> []"
    "subseq qs' ps'" "map fe_path files' = map join_slash qs'" "\<forall>q \<in> set qs'. good_path q \<and> q \<noteq> []"
    using assms by (auto simp: scanned_def)
  have step: "blob_step E s u" "map_of (rp_blobs t) \<subseteq>\<^sub>m map_of (rp_blobs u)"
    using assms by (auto simp: scanned_def intro: blob_step_trans blob_step_blobs)
  have "subseq (qs @ qs') (ps @ ps')" using q by (intro list_emb_append_mono)
  with q assms step show ?thesis unfolding scanned_def by (auto intro!: exI [of _ "qs @ qs'"] intro: verify_file_mono)
qed

lemma scanned_nothing: "scanned E ps [] s s"
  by (auto simp: scanned_def blob_step_refl intro!: exI [of _ "[]"])

lemma kept_entry_good:
  assumes "kept_entry E tracked (p @ [n]) n d = Inr True" "good_path p" "clean_name n"
  shows "good_path (p @ [n])"
proof -
  obtain r where "should_scan n" "repository_relative_path (join_slash (p @ [n])) = Inr r"
    using assms(1) by (auto simp: kept_entry_def split: if_splits)
  moreover from this(2) have "utf8_valid n" using relative_path_join [of "p @ [n]" r] assms by (auto simp: good_path_def)
  ultimately show ?thesis using assms unfolding good_path_def should_scan_def metadata_name_def by auto
qed

lemma scan_scanned:
  assumes e: "env_ok E"
  shows "scan_node E pol tracked p node s = (Inr files, t) \<Longrightarrow> node_ok node \<Longrightarrow> good_path p \<Longrightarrow> p \<noteq> [] \<Longrightarrow> scanned E (node_paths p node) files s t"
    and "scan_dir E pol tracked p d s = (Inr files, t) \<Longrightarrow> dir_ok d \<Longrightarrow> good_path p \<Longrightarrow> scanned E (dir_paths p d) files s t"
proof (induction node and d arbitrary: p files s t and p files s t)
  case (RegularFile content x)
  then have "blob_step E s t \<and> map fe_path files = [join_slash p] \<and> (\<forall>f \<in> set files. verify_file E (rp_blobs t) f = Inr ())"
    by (intro capture_file_Inr [OF _ e]) auto
  with RegularFile show ?case by (auto simp: scanned_def intro!: exI [of _ "[p]"])
next
  case (SymbolicLink content)
  then have "blob_step E s t \<and> map fe_path files = [join_slash p] \<and> (\<forall>f \<in> set files. verify_file E (rp_blobs t) f = Inr ())"
    by (intro capture_file_Inr [OF _ e]) auto
  with SymbolicLink show ?case by (auto simp: scanned_def intro!: exI [of _ "[p]"])
next
  case (DirEntry n node d)
  then obtain kept fs gs u where kept: "kept_entry E tracked (p @ [n]) n (is_dir node) = Inr kept"
    and node: "(if kept then scan_node E pol tracked (p @ [n]) node else ret []) s = (Inr fs, u)"
    and rest: "scan_dir E pol tracked p d u = (Inr gs, t)" and files: "files = fs @ gs"
    by (auto simp: cmd_simps)
  have "scanned E (node_paths (p @ [n]) node) fs s u"
  proof (cases kept)
    case True
    then show ?thesis using node kept DirEntry.prems by (intro DirEntry.IH(1)) (auto intro: kept_entry_good)
  next
    case False
    then show ?thesis using node by (simp add: ret_Inr scanned_nothing)
  qed
  moreover have "scanned E (dir_paths p d) gs u t" using rest DirEntry.prems by (intro DirEntry.IH(2)) auto
  ultimately show ?case by (simp add: files scanned_append)
qed (auto simp: cmd_simps scanned_nothing)

lemma incomparable_paths:
  assumes "sorted_wrt incomparable qs" "\<forall>q \<in> set qs. good_path q \<and> q \<noteq> []"
  shows "distinct (map join_slash qs) \<and> paths_apart (join_slash ` set qs)"
proof -
  have c: "prefix p q" if "p \<in> set qs" "q \<in> set qs" "contains (join_slash p) (join_slash q)" for p q
    using that assms(2) by (intro contains_join) (auto simp: good_path_def)
  have same: "p = q" if "p \<in> set qs" "q \<in> set qs" "prefix p q" for p q
    using that assms(1) by (induction qs) (auto simp: incomparable_def)
  have "distinct qs" using assms(1) by (induction qs) (auto simp: incomparable_def)
  moreover have "inj_on join_slash (set qs)" using c same by (metis contains_refl inj_onI)
  ultimately show ?thesis using c same by (auto simp: distinct_map paths_apart_def)
qed

lemma sorted_wrt_subseq: "subseq xs ys \<Longrightarrow> sorted_wrt P ys \<Longrightarrow> sorted_wrt P xs"
  by (induction rule: list_emb.induct) (auto elim: list_emb_set)

lemma scan_verifies_manifest:
  assumes "env_ok E" "dir_ok (ev_tree E)" "scan_working_tree E s = (Inr files, t)"
  shows "blob_step E s t \<and> verify_manifest E (rp_blobs t) files = Inr ()"
proof -
  obtain pol tracked fs where scan: "scan_dir E pol tracked [] (ev_tree E) s = (Inr fs, t)" and files: "files = sort_key fe_path fs"
    using assms(3) unfolding scan_working_tree_def by (auto simp: cmd_simps)
  have "scanned E (dir_paths [] (ev_tree E)) fs s t"
    using scan assms by (intro scan_scanned) (auto simp: good_path_def)
  then obtain qs where step: "blob_step E s t" "\<forall>f \<in> set fs. verify_file E (rp_blobs t) f = Inr ()"
    and q: "subseq qs (dir_paths [] (ev_tree E))" "map fe_path fs = map join_slash qs" "\<forall>q \<in> set qs. good_path q \<and> q \<noteq> []"
    by (auto simp: scanned_def)
  have "sorted_wrt incomparable qs"
    using q(1) tree_paths_incomparable(2) [OF assms(2)] by (metis sorted_wrt_subseq)
  then have "distinct (map join_slash qs)" "paths_apart (join_slash ` set qs)" using incomparable_paths q(3) by blast+
  then have "verify_manifest E (rp_blobs t) fs = Inr ()"
    using step(2) q(2) by (simp add: verify_manifest_Inr) (metis set_map)
  with step(1) show ?thesis unfolding files by (simp add: verify_manifest_sorted)
qed

end
