(* ===== verification/Integration_Spec.thy ===== *)
theory Integration_Spec
  imports Commands_Spec Working_Tree_Spec
begin

text \<open>
  The commands that publish snapshots and conflicts keep the invariant of the repository: a snapshot of
  the working tree, the resolution of a conflict, and the integration of a change into a line,
  whether it succeeds or stores conflicts.
\<close>

section \<open>A new snapshot\<close>

lemma configured_author: "configured s = Inr a \<Longrightarrow> check_author a = Inr ()"
  by (auto simp: configured_def check_author_def split: option.splits)

lemma option_list:
  "set (case p of Some x \<Rightarrow> [x] | None \<Rightarrow> []) = set_option p" "distinct (case p of Some x \<Rightarrow> [x] | None \<Rightarrow> [])"
  by (cases p; simp)+

lemma snapshot_step:
  assumes i: "repo_inv E s" and e: "env_ok E" and k: "k = snap_prefix @ ev_fresh E (rp_ticks s)" "validate_object_id k snap_prefix = Inr ()"
    and x: "sn_id x = k" "check_author (sn_author x) = Inr ()" "has_change (sn_change_id x) s"
      "sn_git x = None" "manifest_hash E (sn_files x) = Inr (sn_manifest_hash x)" "verify_manifest E (rp_blobs s) (sn_files x) = Inr ()"
    and p: "distinct (parents x)" "set (parents x) \<subseteq> dom (map_of (rp_snapshots s))"
  shows "repo_inv E (s\<lparr>rp_ticks := rp_ticks s + 1, rp_snapshots := bt_insert k x (rp_snapshots s)\<rparr>)"
proof -
  have new: "map_of (rp_snapshots s) k = None" using inv_parts [OF i] k by (simp add: fresh_from_def fresh_id_def)
  have "repo_inv E (s\<lparr>rp_ticks := rp_ticks s + 1\<rparr>)" by (rule step_ticks [OF i]) simp
  moreover have "snapshot_check E (s\<lparr>rp_ticks := rp_ticks s + 1\<rparr>) (k, x)"
    using k(2) x by (simp add: snapshot_check_def check_provenance_def check_snapshot_def check_identity_Inr all_ok_Inr)
  ultimately show ?thesis
    using new p by (intro step_snapshot [OF _ e k(1)]) simp_all
qed

lemma owned_new: "owned_by (sn_change_id x) k (s\<lparr>rp_snapshots := bt_insert k x m\<rparr>)"
  by (simp add: owned_by_def lookup_insert)

lemma inv_create_snapshot:
  fixes s :: "commit_metadata repo"
  assumes i: "repo_inv E s" and e: "env_ok E" "dir_ok (ev_tree E)" and run: "create_snapshot E message policy s = (Inr (), t)"
  shows "repo_inv E t"
proof -
  obtain c change files u hash author time pol
    where c: "read_change c s = Inr change" and scan: "scan_working_tree E s = (Inr files, u)"
      and hash: "manifest_hash E files = Inr hash" and author: "configured u = Inr author"
      and valid: "validate_object_id (snap_prefix @ ev_fresh E (rp_ticks u)) snap_prefix = Inr ()"
      and log: "let k = snap_prefix @ ev_fresh E (rp_ticks u);
            x = \<lparr>sn_author = author, sn_git = None, sn_id = k, sn_change_id = ch_id change,
           sn_parent_snapshot = workspace_base_snapshot_id change, sn_merge_parents = [], sn_message = message,
           sn_manifest_hash = hash, sn_files = files, sn_policy = pol, sn_created_at = time\<rparr> in
        logged E (CreateSnapshot (ch_id change) k)
          (u\<lparr>rp_ticks := rp_ticks u + 1, rp_workspace := (rp_workspace u)\<lparr>ws_mode_snapshot := Some k\<rparr>,
             rp_snapshots := bt_insert k x (rp_snapshots u),
             rp_changes := bt_insert (ch_id change) (change\<lparr>ch_current_snapshot := Some k\<rparr>) (rp_changes u)\<rparr>) t"
    using run unfolding create_snapshot_def put_workspace_def put_snapshot_def put_change_def
    by (auto simp: cmd_simps Let_def dest!: record_operation_Inr)
  define k where "k = snap_prefix @ ev_fresh E (rp_ticks u)"
  define x :: "commit_metadata cli_snapshot" where "x = \<lparr>sn_author = author, sn_git = None, sn_id = k, sn_change_id = ch_id change,
           sn_parent_snapshot = workspace_base_snapshot_id change, sn_merge_parents = [], sn_message = message,
           sn_manifest_hash = hash, sn_files = files, sn_policy = pol, sn_created_at = time\<rparr>"
  let ?u1 = "u\<lparr>rp_ticks := rp_ticks u + 1, rp_snapshots := bt_insert k x (rp_snapshots u)\<rparr>"
  let ?u2 = "?u1\<lparr>rp_changes := bt_insert (ch_id change) (change\<lparr>ch_current_snapshot := Some k\<rparr>) (rp_changes u)\<rparr>"
  let ?u3 = "?u2\<lparr>rp_workspace := (rp_workspace u)\<lparr>ws_mode_snapshot := Some k\<rparr>\<rparr>"
  have step: "blob_step E s u" and manifest: "verify_manifest E (rp_blobs u) files = Inr ()"
    using scan_verifies_manifest [OF e scan] by auto
  have iu: "repo_inv E u" by (rule blob_step_inv [OF i step])
  have cu: "map_of (rp_changes u) (ch_id change) = Some change"
    using step read_change_Inr [OF c] by (auto simp: blob_step_def)
  note cinv = inv_change [OF iu cu]
  have i1: "repo_inv E ?u1"
    by (rule snapshot_step [OF iu e(1) k_def])
      (use valid configured_author [OF author] hash manifest cinv in
        \<open>simp_all add: k_def [symmetric] x_def parents_def reference_Some option_list\<close>)
  have grow: "change_check ?u1 (ch_id change, change)" using inv_change(1) [OF i1, of "ch_id change" change] cu by simp
  have i2: "repo_inv E ?u2"
    by (rule step_change [OF i1 change_check_current [OF grow]]) (simp_all add: owned_by_def lookup_insert x_def)
  have i3: "repo_inv E ?u3"
    by (rule step_workspace [OF i2])
      (use inv_workspace(2) [OF iu] in \<open>auto simp: snapshot_reference_Inr lookup_insert has_change_def\<close>)
  have eq: "?u3 = u\<lparr>rp_ticks := rp_ticks u + 1, rp_workspace := (rp_workspace u)\<lparr>ws_mode_snapshot := Some k\<rparr>,
             rp_snapshots := bt_insert k x (rp_snapshots u),
             rp_changes := bt_insert (ch_id change) (change\<lparr>ch_current_snapshot := Some k\<rparr>) (rp_changes u)\<rparr>"
    by (rule repo.equality) simp_all
  have log3: "logged E (CreateSnapshot (ch_id change) k) ?u3 t"
    unfolding eq using log unfolding Let_def k_def [symmetric] x_def [symmetric] .
  show ?thesis
    by (rule step_logged [OF i3 log3])
      (simp add: check_owned_def all_ok_Inr snapshot_reference_Inr lookup_insert owned_by_def has_change_def, simp add: x_def)
qed

section \<open>Resolving a conflict\<close>

lemma verify_file_policy [simp]: "verify_file E b (f\<lparr>fe_policy := p\<rparr>) = verify_file E b f"
  by (simp add: verify_file_def cong: if_cong)

lemma guarded_policy_simps [simp]:
  "fe_path (guarded_policy sides f) = fe_path f" "verify_file E b (guarded_policy sides f) = verify_file E b f"
  by (simp_all add: guarded_policy_def)

lemma resolved_custom:
  assumes "resolved_file E a c TakeCustom s = Inr r"
  shows "\<exists>f. r = Some f \<and> fe_path f = cf_path c \<and> verify_file E (rp_blobs s) f = Inr ()"
  using assms by (auto simp: resolved_file_def Let_def split: if_splits)

lemma custom_replacement_step:
  assumes "env_ok E"
  shows "custom_replacement E a c s = (r, t) \<Longrightarrow> blob_step E s t"
  by (auto simp: custom_replacement_def cmd_any Let_def blob_step_refl split: option.splits prod.splits
      dest!: publish_blob_any [OF assms])

lemmas conflict_checks = check_conflict_def check_identity_Inr all_ok_Inr

lemma inv_resolve_conflict:
  assumes i: "repo_inv E s" and e: "env_ok E" and run: "resolve_conflict E k decision actor s = (Inr (), t)"
  shows "repo_inv E t"
proof -
  obtain a c u r0 r where c: "read_conflict k s = Inr c" and dir: "\<not> (cf_kind c = FileDirectory \<and> decision = TakeCustom)"
    and custom: "(if decision = TakeCustom then custom_replacement E a c else ret None) s = (Inr r0, u)"
    and chosen: "(if decision = TakeCustom then resolved_file E a (c\<lparr>cf_replacement := r0\<rparr>) decision u = Inr r else r = r0)"
    and log: "logged E (ResolveConflict k) (u\<lparr>rp_conflicts := bt_insert k
      (c\<lparr>cf_replacement := r, cf_status := Resolved, cf_resolution := Some decision\<rparr>) (rp_conflicts u)\<rparr>) t"
    using run unfolding resolve_conflict_def put_conflict_def
    by (auto simp: cmd_simps Let_def dest!: record_operation_Inr split: if_splits)
  let ?c = "c\<lparr>cf_replacement := r, cf_status := Resolved, cf_resolution := Some decision\<rparr>"
  have step: "blob_step E s u" using custom custom_replacement_step [OF e] by (auto simp: ret_Inr blob_step_refl split: if_splits)
  have iu: "repo_inv E u" by (rule blob_step_inv [OF i step])
  have "map_of (rp_conflicts u) k = Some c"
    using c step by (auto simp: blob_step_def read_conflict_def read_record_Inr)
  then have old: "check_conflict E u (k, c) = Inr ()" by (rule inv_conflict [OF iu])
  have new: "(decision = TakeCustom) = (r \<noteq> None) \<and> (\<forall>f. r = Some f \<longrightarrow> fe_path f = cf_path c \<and> verify_file E (rp_blobs u) f = Inr ())"
    using chosen custom resolved_custom by (fastforce simp: ret_Inr split: if_splits)
  have "check_conflict E u (k, ?c) = Inr ()"
    using old new dir by (auto simp: conflict_checks split: option.splits)
  then have "repo_inv E (u\<lparr>rp_conflicts := bt_insert k ?c (rp_conflicts u)\<rparr>)" by (rule step_conflict [OF iu]) simp
  then show ?thesis by (rule step_logged [OF _ log]) simp
qed

section \<open>Stored conflicts\<close>

definition sources_ok :: "cli_line \<Rightarrow> change \<Rightarrow> 'git cli_snapshot \<Rightarrow> 'git repo \<Rightarrow> bool" where
  "sources_ok line change incoming s \<longleftrightarrow> has_change (ch_id change) s \<and> has_line (ln_name line) s \<and>
     snapshot_reference (ch_base_snapshot change) s = Inr () \<and> snapshot_reference (ln_head_snapshot line) s = Inr () \<and>
     snapshot_reference (Some (sn_id incoming)) s = Inr ()"

lemma sources_ok_frame:
  "rp_changes t = rp_changes s \<Longrightarrow> rp_lines t = rp_lines s \<Longrightarrow> rp_snapshots t = rp_snapshots s \<Longrightarrow>
    sources_ok line change incoming t \<longleftrightarrow> sources_ok line change incoming s"
  by (simp add: sources_ok_def has_change_def has_line_def snapshot_reference_Inr)

lemma sources_ok_updates [simp]:
  "sources_ok line change incoming (s\<lparr>rp_ticks := k\<rparr>) = sources_ok line change incoming s"
  "sources_ok line change incoming (s\<lparr>rp_conflicts := f\<rparr>) = sources_ok line change incoming s"
  "sources_ok line change incoming (s\<lparr>rp_blobs := b\<rparr>) = sources_ok line change incoming s"
  by (simp_all add: sources_ok_def)

lemma conflict_stored:
  assumes "repo_inv E s" "find P (map snd (rp_conflicts s)) = Some c"
  shows "P c" "check_conflict E s (cf_id c, c) = Inr ()"
proof -
  have "c \<in> set (map snd (rp_conflicts s))" and p: "P c"
    using assms(2) by (auto simp: find_Some_iff)
  then obtain k where "(k, c) \<in> set (rp_conflicts s)" by auto
  moreover have "bt_wf (rp_conflicts s)" using inv_parts [OF assms(1)] by (simp add: repo_wf_def)
  ultimately have "map_of (rp_conflicts s) k = Some c" by (simp add: bt_wf_distinct)
  then have "check_conflict E s (k, c) = Inr ()" by (rule inv_conflict [OF assms(1)])
  moreover from this have "k = cf_id c" by (simp add: conflict_checks)
  ultimately show "P c" "check_conflict E s (cf_id c, c) = Inr ()" using p by auto
qed

lemma store_conflict_any:
  assumes i: "repo_inv E s" and ok: "sources_ok line change incoming s" and p: "validate_working_key (pc_path pending) = Inr ()"
    and run: "store_conflict E line change incoming policy pending s = (r, t)"
  shows "repo_inv E t \<and> sources_ok line change incoming t"
proof (cases "find_existing_unresolved_conflict line change (pc_path pending) s")
  case (Some c)
  let ?c = "refresh_conflict c change incoming policy pending"
  have "cf_status c = Unresolved" "check_conflict E s (cf_id c, c) = Inr ()"
    using conflict_stored [OF i Some [unfolded find_existing_unresolved_conflict_def]] by auto
  then have "check_conflict E s (cf_id ?c, ?c) = Inr ()"
    using ok by (auto simp: conflict_checks refresh_conflict_def sources_ok_def split: option.splits)
  then have "repo_inv E (s\<lparr>rp_conflicts := bt_insert (cf_id ?c) ?c (rp_conflicts s)\<rparr>)" by (rule step_conflict [OF i]) simp
  moreover have "t = s \<or> t = s\<lparr>rp_conflicts := bt_insert (cf_id ?c) ?c (rp_conflicts s)\<rparr>"
    using run Some unfolding store_conflict_def put_conflict_def Let_def by (auto simp: cmd_any)
  ultimately show ?thesis using i ok by auto
next
  case None
  let ?k = "conf_prefix @ ev_fresh E (rp_ticks s)" and ?u = "s\<lparr>rp_ticks := rp_ticks s + 1\<rparr>"
  have iu: "repo_inv E ?u" by (rule step_ticks [OF i]) simp
  have frame: "sources_ok line change incoming ?u" using ok by simp
  consider "t = ?u"
    | time m r' where "validate_object_id ?k conf_prefix = Inr ()"
      "record_operation E (CreateConflict ?k (ch_id change)) admin_policy m None
        (?u\<lparr>rp_conflicts := bt_insert ?k (new_conflict line change incoming policy pending ?k time) (rp_conflicts s)\<rparr>) = (r', t)"
    using run None unfolding store_conflict_def put_conflict_def Let_def by (auto simp: cmd_any)
  then show ?thesis
  proof cases
    case 1
    then show ?thesis using iu frame by simp
  next
    case (2 time m r')
    let ?c = "new_conflict line change incoming policy pending ?k time"
    have "check_conflict E ?u (?k, ?c) = Inr ()"
      using 2 frame p by (auto simp: conflict_checks sources_ok_def new_conflict_def)
    then have iv: "repo_inv E (?u\<lparr>rp_conflicts := bt_insert ?k ?c (rp_conflicts s)\<rparr>)" by (rule step_conflict [OF iu]) simp
    have "repo_inv E t" by (rule step_recorded [OF iv _ 2(2)]) (use ok in \<open>simp add: sources_ok_def\<close>)
    moreover have "rp_changes t = rp_changes s" "rp_lines t = rp_lines s" "rp_snapshots t = rp_snapshots s"
      using 2(2) unfolding record_operation_def put_operation_def by (auto simp: cmd_any)
    ultimately show ?thesis using ok sources_ok_frame [of t s] by simp
  qed
qed

lemma store_conflicts_any:
  "repo_inv E s \<Longrightarrow> sources_ok line change incoming s \<Longrightarrow> \<forall>p \<in> set ps. validate_working_key (pc_path p) = Inr () \<Longrightarrow>
    store_conflicts E line change incoming policy ps s = (r, t) \<Longrightarrow> repo_inv E t"
proof (induction ps arbitrary: s r)
  case (Cons p ps)
  then obtain r1 u where u: "store_conflict E line change incoming policy p s = (r1, u)"
    and next_state: "t = u \<or> (\<exists>r2. store_conflicts E line change incoming policy ps u = (r2, t))"
    by (auto simp: cmd_any)
  have "repo_inv E u \<and> sources_ok line change incoming u" using Cons.prems u by (intro store_conflict_any) auto
  with next_state Cons.IH [of u] Cons.prems(3) show ?case by auto
qed (simp add: cmd_any)

section \<open>The plan of an integration\<close>

lemma manifest_map_paths: "dom (map_of (manifest_map es)) = fe_path ` set es"
proof -
  have "dom (map_of (foldl (\<lambda>m e. bt_insert (fe_path e) e m) m es)) = dom (map_of m) \<union> fe_path ` set es" for m
    by (induction es arbitrary: m) (auto simp: lookup_insert)
  from this [of "[]"] show ?thesis by (simp add: manifest_map_def)
qed

lemma plan_conflict_paths:
  assumes "c \<in> set (tp_conflicts (plan_merge b l i))"
  shows "pc_path c \<in> fe_path ` (set b \<union> set l \<union> set i)"
proof -
  let ?B = "manifest_map b" and ?L = "manifest_map l" and ?I = "manifest_map i"
  have "pc_path c \<in> live ?B ?L ?I"
    using assms unfolding plan_members(2) by (auto simp: live_def clash_roots_def)
  then have "pc_path c \<in> set (all_paths ?B ?L ?I)" using live_subset by blast
  then show ?thesis unfolding set_all_paths manifest_map_paths by auto
qed

lemma resolve_all_conflicts:
  "resolve_all E a line change incoming s plan ps = Inr plan' \<Longrightarrow> set (tp_conflicts plan') \<subseteq> set (tp_conflicts plan) \<union> set ps"
  by (induction ps arbitrary: plan) (fastforce simp: Let_def split: if_splits list.splits)+

lemma apply_resolutions_conflicts:
  "apply_resolutions E a line change incoming plan s = Inr plan' \<Longrightarrow> set (tp_conflicts plan') \<subseteq> set (tp_conflicts plan)"
  by (auto simp: apply_resolutions_def split: if_splits dest!: resolve_all_conflicts)

definition generated_ok :: "cli_env \<Rightarrow> (bytes \<times> bytes) list \<Rightarrow> bool" where
  "generated_ok E g \<longleftrightarrow> (\<forall>x \<in> set g. hash_bytes E (snd x) = fst x \<and> length (snd x) \<le> FILE_LIMIT)"

lemma apply_all_limit:
  "apply_all (apply_pending T ob h maps) s ps = Some (Inr s') \<Longrightarrow> bt_wf (as_generated s) \<Longrightarrow>
    \<forall>x \<in> set (as_generated s). length (snd x) \<le> FILE_LIMIT \<Longrightarrow> \<forall>x \<in> set (as_generated s'). length (snd x) \<le> FILE_LIMIT"
proof (induction ps arbitrary: s)
  case (Cons p ps)
  then obtain t where t: "apply_pending T ob h maps s p = Some (Inr t)" "apply_all (apply_pending T ob h maps) t ps = Some (Inr s')"
    by (auto split: option.splits sum.splits)
  have "bt_wf (as_generated t) \<and> (\<forall>x \<in> set (as_generated t). length (snd x) \<le> FILE_LIMIT)"
    using t(1) Cons.prems(2,3)
    by (auto simp: apply_pending_def Let_def merge_texts_def set_bt_insert split: if_splits sum.splits option.splits
        dest!: text_merge_limit)
  with Cons.IH [OF t(2)] show ?case by blast
qed simp

lemma merge_plan_texts_Inr:
  assumes "merge_plan_texts E plan base line incoming s = Inr (plan', g)"
  shows "set (tp_conflicts plan') \<subseteq> set (tp_conflicts plan)" "generated_ok E g" "bt_wf g"
proof -
  let ?maps = "[manifest_map (optional_snapshot_files base), manifest_map (optional_snapshot_files line), manifest_map (sn_files incoming)]"
  let ?s = "\<lparr>as_generated = [], as_total = 0, as_unresolved = [], as_merged = tp_merged_files plan\<rparr>"
  obtain u where u: "apply_all (apply_pending (ev_differ E) (open_blob (rp_blobs s)) (hash_bytes E) ?maps) ?s (tp_conflicts plan) = Some (Inr u)"
      "tp_conflicts plan' = as_unresolved u" "g = as_generated u"
    using assms
    by (auto simp: merge_plan_texts_def apply_texts_def optional_snapshot_files_def [of "Some incoming"] map_sum_Inr split: option.splits)
  have a: "applied (ev_differ E) (open_blob (rp_blobs s)) (hash_bytes E) ?maps (tp_merged_files plan) ([] @ tp_conflicts plan) u"
    by (rule apply_all_applied [OF _ _ _ u(1)]) (auto simp: applied_def keyed_manifest_map)
  then show "set (tp_conflicts plan') \<subseteq> set (tp_conflicts plan)"
    unfolding u(2) applied_def by (metis append_Nil mset_subset_eq_add_right set_mset_mono set_mset_mset)
  show "bt_wf g" using a by (simp add: u(3) applied_def)
  show "generated_ok E g" using a apply_all_limit [OF u(1)] by (simp add: u(3) applied_def generated_ok_def)
qed

lemma publish_generated_ok:
  assumes e: "env_ok E"
  shows "publish_generated b g = (b', r) \<Longrightarrow> generated_ok E g \<Longrightarrow>
    map_of b \<subseteq>\<^sub>m map_of b' \<and> (blobs_ok E b \<longrightarrow> blobs_ok E b') \<and> (r = Inr () \<longrightarrow> (\<forall>(h, c) \<in> set g. map_of b' h = Some c))"
proof (induction g arbitrary: b)
  case (Cons x g)
  obtain h c where x: "x = (h, c)" by (cases x)
  have h: "h = hash_bytes E c" "length c \<le> FILE_LIMIT" "generated_ok E g" using Cons.prems x by (auto simp: generated_ok_def)
  show ?case
  proof (cases "map_of b h")
    case None
    let ?b = "bt_insert h c b"
    have "map_of b \<subseteq>\<^sub>m map_of ?b" "blobs_ok E b \<longrightarrow> blobs_ok E ?b" "map_of ?b h = Some c"
      using None h(1) check_blob_hash [OF e] by (auto simp: map_le_def lookup_insert blobs_ok_def each_insert each_def)
    moreover have "publish_generated ?b g = (b', r)" using Cons.prems(1) x None by simp
    ultimately show ?thesis using Cons.IH [of ?b] h(3) x by (auto intro: map_le_trans map_le_lookup)
  next
    case (Some stored)
    show ?thesis
    proof (cases "take (FILE_LIMIT + 1) stored = c")
      case True
      then have "stored = c" using h(2) by (auto simp: min_def split: if_splits)
      moreover have "publish_generated b g = (b', r)" using Cons.prems(1) x Some True by simp
      ultimately show ?thesis using Cons.IH [of b] h(3) x Some by (auto intro: map_le_lookup)
    next
      case False
      then show ?thesis using Cons.prems(1) x Some by auto
    qed
  qed
qed simp

lemma publish_texts_step:
  assumes "env_ok E" "generated_ok E g" "publish_texts g s = (r, t)"
  shows "blob_step E s t" "r = Inr () \<Longrightarrow> \<forall>(h, c) \<in> set g. map_of (rp_blobs t) h = Some c"
proof -
  obtain b' r' where p: "publish_generated (rp_blobs s) g = (b', r')" and t: "t = s\<lparr>rp_blobs := b'\<rparr>" "r = map_err text_failure r'"
    using assms(3) by (auto simp: publish_texts_def split: prod.splits)
  note ok = publish_generated_ok [OF assms(1) p assms(2)]
  show "blob_step E s t" using ok t(1) by (auto simp: blob_step_def)
  show "r = Inr () \<Longrightarrow> \<forall>(h, c) \<in> set g. map_of (rp_blobs t) h = Some c" using ok t by simp
qed

lemma generated_verified:
  assumes v: "verify_generated verify_manifest_paths (verify_file E (rp_blobs s)) (hash_bytes E) plan g = Inr ()"
    and e: "env_ok E" and g: "bt_wf g" "\<forall>(h, c) \<in> set g. map_of (rp_blobs t) h = Some c"
    and mono: "map_of (rp_blobs s) \<subseteq>\<^sub>m map_of (rp_blobs t)"
  shows "verify_manifest E (rp_blobs t) (tp_merged_files plan) = Inr ()"
proof -
  have paths: "verify_manifest_paths (tp_merged_files plan) = Inr ()" using v by (auto simp: verify_generated_def)
  moreover have "verify_file E (rp_blobs t) f = Inr ()" if f: "f \<in> set (tp_merged_files plan)" for f
  proof (cases "map_of g (fe_hash f)")
    case None
    then have "verify_file E (rp_blobs s) f = Inr ()" using v f by (auto simp: verify_generated_def all_ok_Inr)
    then show ?thesis using mono by (rule verify_file_mono)
  next
    case (Some c)
    then have "\<not> fe_symlink f" "of_nat (length c) = fe_bytes f" "hash_bytes E c = fe_hash f"
      using v f by (force simp: verify_generated_def all_ok_Inr split: if_splits)+
    moreover have "map_of (rp_blobs t) (fe_hash f) = Some c" using Some g(2) by (auto dest: map_of_SomeD)
    moreover have "validate_working_key (fe_path f) = Inr ()" using paths f by (simp add: verify_manifest_paths_Inr)
    ultimately show ?thesis using hash_blob_name [OF e, of c] by (simp add: verify_file_def open_blob_def all_ok_Inr)
  qed
  ultimately show ?thesis by (simp add: verify_manifest_def all_ok_Inr)
qed

section \<open>Integration\<close>

text \<open>The snapshot that an integration publishes.\<close>

definition integrated ::
  "cli_line \<Rightarrow> change \<Rightarrow> 'git cli_snapshot \<Rightarrow> access_policy \<Rightarrow> file_entry list \<Rightarrow> bytes option \<Rightarrow> bytes \<Rightarrow> bytes \<Rightarrow> u64 \<Rightarrow> 'git cli_snapshot" where
  "integrated line change incoming policy files author k hash time =
     \<lparr>sn_author = author, sn_git = None, sn_id = k, sn_change_id = ch_id change, sn_parent_snapshot = ln_head_snapshot line,
      sn_merge_parents = (if ln_head_snapshot line = Some (sn_id incoming) then [] else [sn_id incoming]),
      sn_message = ascii_text ''merge '' @ ch_name change @ ascii_text '' into '' @ ln_name line, sn_manifest_hash = hash,
      sn_files = files, sn_policy = policy, sn_created_at = time\<rparr>"

lemma integrated_parents:
  assumes "sources_ok line change incoming s"
  shows "distinct (parents (integrated line change incoming policy files author k hash time)) \<and>
    set (parents (integrated line change incoming policy files author k hash time)) \<subseteq> dom (map_of (rp_snapshots s))"
  using assms by (auto simp: parents_def integrated_def sources_ok_def reference_Some split: option.splits)

lemma publish_integration_any:
  fixes s :: "commit_metadata repo"
  assumes i: "repo_inv E s" and e: "env_ok E" and ok: "sources_ok line change incoming s"
    and line: "read_line name s = Inr line" and files: "verify_manifest E (rp_blobs s) files = Inr ()"
    and run: "publish_integration E line change incoming policy files s = (r, t)"
  shows "repo_inv E t"
proof -
  define k where "k = snap_prefix @ ev_fresh E (rp_ticks s)"
  let ?x = "integrated line change incoming policy files"
  let ?u = "s\<lparr>rp_ticks := rp_ticks s + 1\<rparr>"
  let ?v = "\<lambda>a h time. ?u\<lparr>rp_snapshots := bt_insert k (?x a k h time) (rp_snapshots s)\<rparr>"
  let ?l = "line\<lparr>ln_head_snapshot := Some k\<rparr>"
  let ?w = "\<lambda>a h time. ?v a h time\<lparr>rp_lines := bt_insert (file_name (ln_name line)) ?l (rp_lines s)\<rparr>"
  have iu: "repo_inv E ?u" by (rule step_ticks [OF i]) simp
  note l = read_line_Inr [OF line]
  have valid: "validate_named_key (ln_name line) = Inr ()" using l by simp
  consider "t = s" | "t = ?u"
    | a h time m pm r' where "configured s = Inr a" "validate_object_id k snap_prefix = Inr ()" "manifest_hash E files = Inr h"
      "record_operation E (IntegrateLine (ln_name line) (ch_id change) k) policy m pm (?w a h time) = (r', t)"
    using run valid unfolding publish_integration_def put_snapshot_def put_line_def integrated_def k_def
    by (auto simp: cmd_any)
  then show ?thesis
  proof cases
    case (3 a h time m pm r')
    have parents: "distinct (parents (?x a k h time))" "set (parents (?x a k h time)) \<subseteq> dom (map_of (rp_snapshots s))"
      using integrated_parents [OF ok] by blast+
    have iv: "repo_inv E (?v a h time)"
      by (rule snapshot_step [OF i e k_def 3(2) _ _ _ _ _ _ parents])
        (use ok files 3(3) configured_author [OF 3(1)] in \<open>simp_all add: integrated_def sources_ok_def\<close>)
    have ref: "snapshot_reference (Some k) (?v a h time) = Inr ()" by (simp add: snapshot_reference_Inr lookup_insert)
    have iw: "repo_inv E (?w a h time)"
      by (rule step_line [OF iv]) (use l ref valid in \<open>simp_all add: line_check_def check_line_name_def\<close>)
    have "has_line (ln_name ?l) (?w a h time)"
      using has_line_inserted [of "?v a h time" ?l] inv_parts [OF iv] by (simp add: repo_wf_def)
    then show ?thesis
      using ok by (intro step_recorded [OF iw _ 3(4)])
        (simp add: check_owned_def all_ok_Inr snapshot_reference_Inr owned_by_def lookup_insert integrated_def has_change_def sources_ok_def)
  qed (use i iu in auto)
qed

lemma verified_paths:
  assumes i: "repo_inv E s" and x: "\<And>y. x = Some y \<Longrightarrow> map_of (rp_snapshots s) (sn_id y) = Some y"
  shows "\<forall>f \<in> set (optional_snapshot_files x). validate_working_key (fe_path f) = Inr ()"
  using inv_snapshot(4) [OF i x] by (auto simp: optional_snapshot_files_def split: option.splits)

lemma integrate_sources_any:
  assumes i: "repo_inv E s" and e: "env_ok E" and ok: "sources_ok line change incoming s" and line: "read_line name s = Inr line"
    and snaps: "\<And>y. base = Some y \<or> tip = Some y \<or> Some incoming = Some y \<Longrightarrow> map_of (rp_snapshots s) (sn_id y) = Some y"
    and run: "integrate_sources E a line change incoming base tip s = (r, t)"
  shows "repo_inv E t"
proof -
  let ?plan = "plan_merge (optional_snapshot_files base) (optional_snapshot_files tip) (sn_files incoming)"
  let ?policy = "merge_source_policy (ln_policy line) (ch_policy change) incoming base tip"
  consider "t = s"
    | plan1 plan g r' where "apply_resolutions E a line change incoming ?plan s = Inr plan1"
      "merge_plan_texts E plan1 base tip incoming s = Inr (plan, g)"
      "store_conflicts E line change incoming ?policy (tp_conflicts plan) s = (r', t)"
    | plan1 plan g r' u where "merge_plan_texts E plan1 base tip incoming s = Inr (plan, g)"
      "verify_generated verify_manifest_paths (verify_file E (rp_blobs s)) (hash_bytes E) plan g = Inr ()"
      "publish_texts g s = (r', u)" "t = u \<or> r' = Inr () \<and> publish_integration E line change incoming ?policy (tp_merged_files plan) u = (r, t)"
    using run unfolding integrate_sources_def Let_def by (auto simp: cmd_any split: if_splits prod.splits)
  then show ?thesis
  proof cases
    case 2
    have files: "\<forall>f \<in> set (optional_snapshot_files base) \<union> set (optional_snapshot_files tip) \<union> set (sn_files incoming).
        validate_working_key (fe_path f) = Inr ()"
      using verified_paths [OF i, of base] verified_paths [OF i, of tip] verified_paths [OF i, of "Some incoming"] snaps
      by (auto simp: optional_snapshot_files_def [of "Some incoming"])
    have "validate_working_key (pc_path p) = Inr ()" if "p \<in> set (tp_conflicts plan)" for p
      using that merge_plan_texts_Inr(1) [OF 2(2)] apply_resolutions_conflicts [OF 2(1)] files
      by (auto dest!: subsetD plan_conflict_paths)
    with store_conflicts_any [OF i ok _ 2(3)] show ?thesis by blast
  next
    case (3 plan1 plan g r' u)
    note g = merge_plan_texts_Inr [OF 3(1)] and step = publish_texts_step [OF e _ 3(3)]
    have iu: "repo_inv E u" by (rule blob_step_inv [OF i step(1) [OF g(2)]])
    show ?thesis
    proof (cases "t = u")
      case False
      then have r: "r' = Inr ()" "publish_integration E line change incoming ?policy (tp_merged_files plan) u = (r, t)" using 3(4) by auto
      have frame: "sources_ok line change incoming u" "read_line name u = Inr line"
        using ok line step(1) [OF g(2)] by (auto simp: blob_step_def read_line_def)
      have "verify_manifest E (rp_blobs u) (tp_merged_files plan) = Inr ()"
        by (rule generated_verified [OF 3(2) e g(3) step(2) [OF g(2) r(1)] blob_step_blobs [OF step(1) [OF g(2)]]])
      then show ?thesis by (rule publish_integration_any [OF iu e frame _ r(2)])
    qed (use iu in simp)
  qed (use i in simp)
qed

lemma merge_base_read:
  assumes fin: "finite {x. \<exists>y. read x = Inr y}" and base: "merge_base read l incoming b = Some (Inr (Some y))"
  shows "\<exists>x. read x = Inr y"
proof -
  have "\<exists>x. read x = Inr y" if "collect_graph read roots [] = Some (Inr g)" "map_of g k = Some y" for roots g k
    using collect_graph_correct [OF fin, of roots] that by auto
  then show ?thesis
    using base by (auto simp: merge_base_def split: option.splits sum.splits if_splits list.splits)
qed

lemma find_merge_base_stored:
  assumes "find_merge_base l incoming b s = Inr (Some y)"
  shows "map_of (rp_snapshots s) (sn_id y) = Some y"
proof -
  have "{x. \<exists>y. read_snapshot x s = Inr y} \<subseteq> dom (map_of (rp_snapshots s))" by (auto dest: read_snapshot_Inr)
  then have fin: "finite {x. \<exists>y. read_snapshot x s = Inr y}" by (rule finite_subset) (rule finite_dom_map_of)
  have "merge_base (\<lambda>i. read_snapshot i s) l incoming b = Some (Inr (Some y))"
    using assms by (auto simp: find_merge_base_def split: option.splits)
  from merge_base_read [OF fin this] obtain x where "read_snapshot x s = Inr y" by blast
  then show ?thesis using read_snapshot_Inr by metis
qed

lemma inv_integrate_line:
  assumes i: "repo_inv E s" and e: "env_ok E" and run: "integrate_line E name actor s = (r, t)"
  shows "repo_inv E t"
proof -
  consider "t = s"
    | a c change line j incoming base tip where "read_change c s = Inr change" "read_line name s = Inr line" "read_snapshot j s = Inr incoming"
      "find_merge_base (ln_head_snapshot line) incoming (ch_base_snapshot change) s = Inr base"
      "read_optional_snapshot (ln_head_snapshot line) s = Inr tip"
      "integrate_sources E a line (change\<lparr>ch_base_snapshot := map_option sn_id base\<rparr>) incoming base tip s = (r, t)"
    using run unfolding integrate_line_def current_change_id_def
    by (auto simp: cmd_any split: if_splits option.splits)
  then show ?thesis
  proof cases
    case (2 a c change line j incoming base tip)
    note c = read_change_Inr [OF 2(1)] and l = read_line_Inr [OF 2(2)] and x = read_snapshot_Inr [OF 2(3)]
    have stored: "map_of (rp_snapshots s) (sn_id y) = Some y" if "base = Some y \<or> tip = Some y \<or> Some incoming = Some y" for y
      using that find_merge_base_stored 2(4) read_optional_Inr [OF 2(5)] x by auto
    have "sources_ok line (change\<lparr>ch_base_snapshot := map_option sn_id base\<rparr>) incoming s"
      using inv_change(3) [OF i conjunct1 [OF c]] inv_line(3,4) [OF i conjunct1 [OF l]] c stored
      by (auto simp: sources_ok_def snapshot_reference_Inr)
    then show ?thesis by (rule integrate_sources_any [OF i e _ 2(2) stored 2(6)])
  qed (use i in simp)
qed

end
