(* ===== verification/Repository_Props.thy ===== *)
theory Repository_Props
  imports Integration_Spec
begin

text \<open>
  The commands together: a command that fails leaves at most blobs behind, so that every command, however
  it ends, keeps a verified repository verified; and every repository that commands reach from an
  initialized one verifies.
\<close>

section \<open>What a failed command leaves\<close>

text \<open>
  A command is safe when it only adds blobs, each under its hash. This is preserved by composition; a
  step that reads the state may hand on what it found.
\<close>

definition harmless :: "cli_env \<Rightarrow> 'git repo \<Rightarrow> 'git repo \<Rightarrow> bool" where
  "harmless E s t \<longleftrightarrow> map_of (rp_blobs s) \<subseteq>\<^sub>m map_of (rp_blobs t) \<and> (blobs_ok E (rp_blobs s) \<longrightarrow> blobs_ok E (rp_blobs t)) \<and>
     rp_ticks s \<le> rp_ticks t"

definition safe :: "cli_env \<Rightarrow> ('git repo, 'a) cmd \<Rightarrow> bool" where
  "safe E m \<longleftrightarrow> (\<forall>s r t. m s = (r, t) \<longrightarrow> harmless E s t)"

named_theorems safe_rules \<open>how safe commands are composed\<close>

lemma harmless_refl: "harmless E s s"
  by (simp add: harmless_def)

lemma harmless_trans: "harmless E s t \<Longrightarrow> harmless E t u \<Longrightarrow> harmless E s u"
  by (auto simp: harmless_def intro: map_le_trans)

lemma blob_step_harmless: "blob_step E s t \<Longrightarrow> harmless E s t"
  by (auto simp: blob_step_def harmless_def)

lemma safe_ask_bind [safe_rules]: "(\<And>s x. f s = Inr x \<Longrightarrow> safe E (k x)) \<Longrightarrow> safe E (bindc (ask f) k)"
  by (auto simp: safe_def cmd_any harmless_refl)

lemma safe_bindc [safe_rules]: "safe E m \<Longrightarrow> (\<And>x. safe E (k x)) \<Longrightarrow> safe E (bindc m k)"
  by (auto simp: safe_def cmd_any intro: harmless_trans) (metis harmless_trans)

lemma safe_steps [safe_rules]:
  "safe E (ask f)" "safe E (fetch g)" "safe E (ret x)" "safe E (fail e)" "safe E (demand c e)" "safe E (attempt v)"
  "safe E (new_id E' p)" "safe E (now E')"
  by (auto simp: safe_def cmd_any harmless_refl) (auto simp: harmless_def)

lemma safe_branches [safe_rules]:
  "safe E m \<Longrightarrow> safe E n \<Longrightarrow> safe E (if c then m else n)"
  "safe E m \<Longrightarrow> (\<And>x. safe E (k x)) \<Longrightarrow> safe E (case v of None \<Rightarrow> m | Some x \<Rightarrow> k x)"
  "(\<And>x y. w = (x, y) \<Longrightarrow> safe E (k' x y)) \<Longrightarrow> safe E (case w of (x, y) \<Rightarrow> k' x y)"
  by (auto split: option.splits prod.splits)

lemma safe_modify [safe_rules]:
  "safe E (modify (\<lambda>s. s\<lparr>rp_author := f s\<rparr>))" "safe E (modify (\<lambda>s. s\<lparr>rp_path_policies := f' s\<rparr>))"
  by (auto simp: safe_def cmd_any harmless_def)

lemma safe_puts [safe_rules]:
  "safe E (put_actor n a)" "safe E (put_line n l)" "safe E (put_change i c)" "safe E (put_snapshot i x)"
  "safe E (put_conflict i f)" "safe E (put_operation i q)" "safe E (put_workspace w)"
  by (auto simp: safe_def put_actor_def put_line_def put_change_def put_snapshot_def put_conflict_def put_operation_def
      put_workspace_def cmd_any harmless_def)

lemma safe_shared [safe_rules]:
  "safe E (record_operation E' k p m pm)" "safe E (current_change_id msg)"
  unfolding record_operation_def current_change_id_def by (intro safe_rules)+

lemma safe_publish_blob [safe_rules]: "env_ok E \<Longrightarrow> safe E (publish_blob (hash_bytes E b) b m)"
  by (auto simp: safe_def intro: blob_step_harmless publish_blob_any)

lemma safe_publish_texts [safe_rules]: "env_ok E \<Longrightarrow> generated_ok E g \<Longrightarrow> safe E (publish_texts g)"
  by (auto simp: safe_def intro: blob_step_harmless publish_texts_step(1))

lemma safe_capture: "env_ok E \<Longrightarrow> safe E (capture_file E pol names content fl)"
  unfolding capture_file_def Let_def by (intro safe_rules)

lemma safe_scan:
  assumes "env_ok E"
  shows "safe E (scan_node E pol tracked names node :: ('git repo, file_entry list) cmd)"
    and "safe E (scan_dir E pol tracked names' d :: ('git repo, file_entry list) cmd)"
proof (induction node and d arbitrary: names and names')
  case (DirEntry n node d)
  then show ?case unfolding scan_dir.simps by (intro safe_rules)
qed (auto intro: safe_rules safe_capture [OF assms])

lemma safe_store_conflicts: "safe E (store_conflicts E' line change incoming policy ps)"
proof (induction ps)
  case (Cons p ps)
  have "safe E (store_conflict E' line change incoming policy p)" unfolding store_conflict_def Let_def by (intro safe_rules)
  with Cons show ?case by (auto intro!: safe_rules)
qed (simp add: safe_rules)

lemma safe_integrate_sources: "env_ok E \<Longrightarrow> safe E (integrate_sources E a line change incoming base tip)"
  unfolding integrate_sources_def Let_def publish_integration_def
  by (intro safe_rules safe_store_conflicts) (auto intro: merge_plan_texts_Inr)

lemma safe_execute: "env_ok E \<Longrightarrow> safe E (execute E c)"
proof (cases c)
  case (SnapshotNew m ds)
  assume e: "env_ok E"
  show ?thesis unfolding SnapshotNew execute.simps create_snapshot_def scan_working_tree_def Let_def
    by (intro safe_rules safe_scan [OF e])
next
  case (LineIntegrate l a)
  assume e: "env_ok E"
  show ?thesis unfolding LineIntegrate execute.simps integrate_line_def by (intro safe_rules safe_integrate_sources [OF e])
next
  case (ConflictResolve i d a)
  assume e: "env_ok E"
  show ?thesis unfolding ConflictResolve execute.simps resolve_conflict_def custom_replacement_def Let_def
    by (intro safe_rules e)
qed (auto simp: set_actor_def set_path_policy_def set_identity_def create_change_def retarget_def line_create_def created_line_policy_def
    line_reset_def workspace_start_def workspace_switch_def workspace_restore_def Let_def intro!: safe_rules)

section \<open>Every command keeps the invariant\<close>

lemma rollback:
  assumes i: "repo_inv E s" and h: "harmless E s t"
  shows "repo_inv E (s\<lparr>rp_blobs := rp_blobs t, rp_ticks := rp_ticks t\<rparr>)"
proof -
  have "blobs_ok E (rp_blobs s)" using i by (simp add: blobs_ok_def repo_inv_def repo_wf_def verified_def)
  with h have "blob_step E s (s\<lparr>rp_blobs := rp_blobs t\<rparr>)" by (auto simp: blob_step_def harmless_def)
  then have "repo_inv E (s\<lparr>rp_blobs := rp_blobs t\<rparr>)" by (rule blob_step_inv [OF i])
  then show ?thesis by (rule step_ticks) (use h in \<open>simp add: harmless_def\<close>)
qed

lemma execute_inv:
  assumes i: "repo_inv E s" and e: "env_ok E" "dir_ok (ev_tree E)" and run: "execute E c s = (Inr (), t)"
  shows "repo_inv E t"
  using run
  by (cases c)
    (auto intro: i e inv_set_actor inv_set_path_policy inv_set_identity inv_create_change inv_retarget inv_create_snapshot inv_line_create
      inv_line_reset inv_integrate_line inv_resolve_conflict inv_workspace_start inv_workspace_switch inv_workspace_restore)

text \<open>
  Errors that most commands never end with: not returning, and, where \<open>c\<close> holds, the report of conflicts, which
  only an integration makes.
\<close>

fun loud :: "bool \<Rightarrow> cli_error \<Rightarrow> bool" where
  "loud c (Failure f) \<longleftrightarrow> c \<and> f = IntegrationConflicted"
| "loud c (Message m) \<longleftrightarrow> False"
| "loud c NoReturn \<longleftrightarrow> True"

definition quiet :: "bool \<Rightarrow> ('git repo, 'a) cmd \<Rightarrow> bool" where
  "quiet c m \<longleftrightarrow> (\<forall>s e t. m s = (Inl e, t) \<longrightarrow> \<not> loud c e)"

lemma quietD: "quiet c m \<Longrightarrow> m s = (Inl e, t) \<Longrightarrow> \<not> loud c e"
  by (auto simp: quiet_def)

named_theorems quiet_rules \<open>commands that end with no loud error\<close>

lemma quiet_ask [quiet_rules]: "(\<And>s e. f s = Inl e \<Longrightarrow> \<not> loud c e) \<Longrightarrow> quiet c (ask f)"
  by (simp add: quiet_def cmd_any)

lemma quiet_bindc [quiet_rules]: "quiet c m \<Longrightarrow> (\<And>x. quiet c (k x)) \<Longrightarrow> quiet c (bindc m k)"
  unfolding quiet_def cmd_any by blast

lemma map_err_Inl: "map_err g r = Inl e \<longleftrightarrow> (\<exists>x. r = Inl x \<and> e = g x)"
  by (cases r) auto

lemma quiet_steps [quiet_rules]:
  "quiet c (fetch f)" "quiet c (ret x)" "\<not> loud c e \<Longrightarrow> quiet c (fail e)"
  "\<not> loud c e \<Longrightarrow> quiet c (demand d e)" "quiet c (attempt v)" "quiet c (new_id E p)" "quiet c (now E)" "quiet c (modify h)"
  by (auto simp: quiet_def cmd_any map_err_Inl)

lemma quiet_branches [quiet_rules]:
  "quiet c m \<Longrightarrow> quiet c n \<Longrightarrow> quiet c (if d then m else n)"
  "quiet c m \<Longrightarrow> (\<And>x. quiet c (k x)) \<Longrightarrow> quiet c (case v of None \<Rightarrow> m | Some x \<Rightarrow> k x)"
  "(\<And>x y. quiet c (k' x y)) \<Longrightarrow> quiet c (case w of (x, y) \<Rightarrow> k' x y)"
  by (auto split: option.splits prod.splits)

lemma quiet_shared [quiet_rules]:
  "quiet c (put_actor n a)" "quiet c (put_line n l)" "quiet c (put_change i ch)" "quiet c (put_snapshot i x)"
  "quiet c (put_conflict i f)" "quiet c (put_operation i q)" "quiet c (put_workspace w)"
  "quiet c (record_operation E k p m pm)" "quiet c (current_change_id msg)" "quiet c (publish_blob h b m')"
  unfolding put_actor_def put_line_def put_change_def put_snapshot_def put_conflict_def put_operation_def put_workspace_def
    record_operation_def current_change_id_def publish_blob_def
  by (intro quiet_rules; auto simp: map_err_Inl)+

lemma finite_snapshots: "finite {x. \<exists>y. read_snapshot x s = Inr y}"
proof (rule finite_subset)
  show "{x. \<exists>y. read_snapshot x s = Inr y} \<subseteq> dom (map_of (rp_snapshots s))"
    by (auto simp: read_snapshot_def read_record_def and_then_Inr ok_or_Inr)
qed (rule finite_dom_map_of)

lemma loud_reads:
  "change_snapshot a s = Inl e \<Longrightarrow> \<not> loud c e" "current_snapshot a s = Inl e \<Longrightarrow> \<not> loud c e"
  "verified_files E a x s = Inl e \<Longrightarrow> \<not> loud c e" "guard_restored_changes E a s = Inl e \<Longrightarrow> \<not> loud c e"
  "stage_checkout E a x y d s = Inl e \<Longrightarrow> \<not> loud c e" "resolved_file E a cf r s = Inl e \<Longrightarrow> \<not> loud c e"
  "resolved_files E a cf r s = Inl e \<Longrightarrow> \<not> loud c e" "find_merge_base l i b s = Inl e \<Longrightarrow> \<not> loud c e"
proof -
  show "\<not> loud c e" if "find_merge_base l i b s = Inl e"
    using that merge_base_returns [OF finite_snapshots, of s l i b]
    by (auto simp: find_merge_base_def map_err_Inl ancestry_failure_def)
  show change: "\<not> loud c e" if "change_snapshot a s = Inl e" for e and a :: actor and s :: "'c repo"
    using that by (auto simp: change_snapshot_def and_then_Inl map_err_Inl split: option.splits if_splits)
  show current: "\<not> loud c e" if "current_snapshot a s = Inl e" for e and a :: actor and s :: "'c repo"
    using that by (auto simp: current_snapshot_def and_then_Inl map_err_Inl change split: option.splits)
  show files: "\<not> loud c e" if "verified_files E a x s = Inl e" for e E a x and s :: "'c repo"
    using that by (auto simp: verified_files_def map_err_Inl split: option.splits if_splits)
  show "\<not> loud c e" if "guard_restored_changes E a s = Inl e"
    using that by (auto simp: guard_restored_changes_def and_then_Inl change current files split: if_splits)
  show "\<not> loud c e" if "stage_checkout E a x y d s = Inl e"
    using that by (auto simp: stage_checkout_def and_then_Inl map_err_Inl files)
  show one: "\<not> loud c e" if "resolved_file E a cf r s = Inl e" for e cf r
    using that by (cases r) (auto simp: resolved_file_def and_then_Inl map_err_Inl Let_def split: if_splits elim!: ok_or.elims)
  show "\<not> loud c e" if "resolved_files E a cf r s = Inl e"
    using that by (auto simp: resolved_files_def resolved_tree_def and_then_Inl map_err_Inl Let_def one split: if_splits)
qed

lemma quiet_scan:
  "quiet c (scan_node E pol tracked names node :: ('git repo, file_entry list) cmd)"
  "quiet c (scan_dir E pol tracked names' d :: ('git repo, file_entry list) cmd)"
proof (induction node and d arbitrary: names and names')
  case (DirEntry n node d)
  then show ?case unfolding scan_dir.simps by (intro quiet_rules)
qed (auto simp: capture_file_def Let_def intro!: quiet_rules)

lemma quiet_execute: "(\<And>l a. cmd \<noteq> LineIntegrate l a) \<Longrightarrow> quiet c (execute E cmd)"
proof (cases cmd)
  case (SnapshotNew m ds)
  then show ?thesis unfolding SnapshotNew execute.simps create_snapshot_def scan_working_tree_def Let_def
    by (intro quiet_rules quiet_scan; simp)
next
  case (ConflictResolve i d a)
  then show ?thesis unfolding ConflictResolve execute.simps resolve_conflict_def custom_replacement_def Let_def
    by (intro quiet_rules; auto simp: loud_reads map_err_Inl)
qed (auto simp: set_actor_def set_path_policy_def set_identity_def create_change_def retarget_def line_create_def created_line_policy_def
    line_reset_def workspace_start_def workspace_switch_def workspace_restore_def Let_def loud_reads intro!: quiet_rules split: if_splits)

lemma run_inv:
  assumes i: "repo_inv E s" and e: "env_ok E" "dir_ok (ev_tree E)" and run: "run_command E c s = (r, t)"
  shows "repo_inv E t"
proof -
  obtain u where u: "execute E c s = (r, u)" "t = (if commits r then u else s\<lparr>rp_blobs := rp_blobs u, rp_ticks := rp_ticks u\<rparr>)"
    using run by (auto simp: run_command_def split: prod.splits)
  have "harmless E s u" using safe_execute [OF e(1)] u(1) by (auto simp: safe_def)
  then have "repo_inv E (s\<lparr>rp_blobs := rp_blobs u, rp_ticks := rp_ticks u\<rparr>)" by (rule rollback [OF i])
  moreover have "repo_inv E u" if "r = Inr ()" using execute_inv [OF i e] u(1) that by simp
  moreover have "repo_inv E u" if r: "r = Inl (Failure IntegrationConflicted)"
  proof (cases "\<exists>l a. c = LineIntegrate l a")
    case True
    then show ?thesis using u(1) by (auto intro: inv_integrate_line [OF i e(1)])
  next
    case False
    then have "quiet True (execute E c :: (commit_metadata repo, unit) cmd)" by (auto intro: quiet_execute)
    then show ?thesis using u(1) r by (auto dest: quietD)
  qed
  ultimately show ?thesis using u(2) by (auto simp: commits_def)
qed

lemma repo_inv_verify: "repo_inv E s \<longleftrightarrow> repo_wf s \<and> fresh_from E s \<and> verify_records E s = Inr ()"
  using verify_records_Inr [of s E] by (auto simp: repo_inv_def)

text \<open>
  C3: However a command ends, it leaves a repository that verifies if it found one: it may succeed, report
  conflicts, or fail, when its records are dropped and its blobs stay. The working tree may be any tree
  whose directories hold different proper names, and no valid identifier is drawn twice.
\<close>

theorem command_keeps_verified:
  assumes "env_ok E" "dir_ok (ev_tree E)" "repo_wf s" "fresh_from E s" "verify_records E s = Inr ()" "run_command E c s = (r, t)"
  shows "repo_wf t \<and> fresh_from E t \<and> verify_records E t = Inr ()"
  using assms run_inv [of E s c r t] by (simp add: repo_inv_verify)

section \<open>Every command returns\<close>

lemma loud_texts:
  assumes "differ_ok (ev_differ E)" "merge_plan_texts E plan x y z s = Inl e"
  shows "\<not> loud c e"
  using apply_texts_returns [OF assms(1), of "open_blob (rp_blobs s)" "hash_bytes E" plan x y z] assms(2)
  by (auto simp: merge_plan_texts_def map_err_Inl text_failure_def)

lemma loud_resolutions: "apply_resolutions E a line change incoming plan s = Inl e \<Longrightarrow> \<not> loud c e"
proof -
  have "\<not> loud c e" if "resolve_all E a line change incoming s plan ps = Inl e" for plan ps
    using that
    by (induction ps arbitrary: plan)
      (auto simp: and_then_Inl loud_reads Let_def split: list.splits if_splits elim!: ok_or.elims)
  then show "apply_resolutions E a line change incoming plan s = Inl e \<Longrightarrow> \<not> loud c e"
    by (auto simp: apply_resolutions_def and_then_Inl split: if_splits)
qed

lemma quiet_store_conflicts: "quiet c (store_conflicts E line change incoming policy ps)"
proof (induction ps)
  case (Cons p ps)
  have "quiet c (store_conflict E line change incoming policy p)" unfolding store_conflict_def Let_def by (intro quiet_rules) simp
  with Cons show ?case by (auto intro!: quiet_rules)
qed (simp add: quiet_rules)

lemma quiet_publish_texts: "quiet c (publish_texts g)"
  by (auto simp: quiet_def publish_texts_def map_err_Inl text_failure_def split: prod.splits)

lemma quiet_integrate: "differ_ok (ev_differ E) \<Longrightarrow> quiet False (integrate_line E l a)"
  unfolding integrate_line_def integrate_sources_def publish_integration_def Let_def
  by (intro quiet_rules quiet_store_conflicts quiet_publish_texts)
    (auto simp: loud_reads loud_texts loud_resolutions map_err_Inl text_failure_def)

lemma execute_returns:
  assumes "differ_ok (ev_differ E)" "execute E c s = (Inl e, t)"
  shows "e \<noteq> NoReturn \<and> (e = Failure IntegrationConflicted \<longrightarrow> (\<exists>l a. c = LineIntegrate l a))"
proof (cases "\<exists>l a. c = LineIntegrate l a")
  case True
  then obtain l a where c: "c = LineIntegrate l a" by blast
  with assms(2) have "integrate_line E l a s = (Inl e, t)" by simp
  then have "\<not> loud False e" by (rule quietD [OF quiet_integrate [OF assms(1)]])
  with c show ?thesis by auto
next
  case False
  then have "quiet True (execute E c)" by (auto intro: quiet_execute)
  with assms(2) show ?thesis by (auto dest: quietD)
qed

text \<open>
  C8: Every command returns, in any repository, verified or not: the walks over snapshots end even where the
  ancestry has cycles or gaps, and no line is read out of range when texts are merged. Only an integration
  ends by reporting conflicts.
\<close>

theorem command_returns:
  assumes "differ_ok (ev_differ E)"
  shows "\<exists>r t. run_command E c s = (r, t) \<and> r \<noteq> Inl NoReturn \<and>
    (r = Inl (Failure IntegrationConflicted) \<longrightarrow> (\<exists>line actor. c = LineIntegrate line actor))"
  using execute_returns [OF assms, of c s] by (cases "execute E c s"; cases "fst (execute E c s)") (auto simp: run_command_def)

section \<open>Reachable repositories\<close>

lemma empty_inv: "repo_inv E empty_repo"
  by (simp add: repo_inv_def repo_wf_def verified_def fresh_from_def empty_repo_def each_def check_author_def check_workspace_def
      all_ok_Inr snapshot_reference_def sound_graph_def parent_rel_def acyclic_def)

lemma default_names:
  "validate_named_key PUBLIC_DOMAIN = Inr ()" "validate_named_key ADMIN_DOMAIN = Inr ()" "validate_named_key DEFAULT_LINE = Inr ()"
  "file_name PUBLIC_DOMAIN \<noteq> file_name ADMIN_DOMAIN"
  by code_simp+

lemma initialize_inv:
  assumes run: "initialize E empty_repo = (Inr (), s)"
  shows "repo_inv E s"
proof -
  let ?public = "\<lparr>ac_name = PUBLIC_DOMAIN, ac_domains = [PUBLIC_DOMAIN]\<rparr>"
  let ?admin = "\<lparr>ac_name = ADMIN_DOMAIN, ac_domains = [PUBLIC_DOMAIN, ADMIN_DOMAIN]\<rparr>"
  let ?actors = "bt_insert (file_name ADMIN_DOMAIN) ?admin (bt_insert (file_name PUBLIC_DOMAIN) ?public [])"
  let ?line = "\<lambda>t. \<lparr>ln_name = DEFAULT_LINE, ln_head_snapshot = None, ln_policy = public_policy, ln_created_at = t\<rparr>"
  let ?start = "empty_repo\<lparr>rp_ticks := 1\<rparr>"
  obtain t where log: "logged E InitRepo (?start\<lparr>rp_actors := ?actors, rp_lines := bt_insert (file_name DEFAULT_LINE) (?line t) []\<rparr>) s"
    using run unfolding initialize_def put_workspace_def put_actor_def put_line_def
    by (auto simp: cmd_simps empty_repo_def dest!: record_operation_Inr)
  have "repo_inv E ?start" by (rule step_ticks [OF empty_inv]) (simp add: empty_repo_def)
  then have "repo_inv E (?start\<lparr>rp_actors := bt_insert (file_name PUBLIC_DOMAIN) ?public []\<rparr>)"
    by (rule step_actor) (simp_all add: default_names empty_repo_def)
  then have "repo_inv E (?start\<lparr>rp_actors := bt_insert (file_name PUBLIC_DOMAIN) ?public [], rp_actors := ?actors\<rparr>)"
    by (rule step_actor) (use default_names in \<open>auto split: if_splits\<close>)
  then have a: "repo_inv E (?start\<lparr>rp_actors := ?actors\<rparr>)" by simp
  have "repo_inv E (?start\<lparr>rp_actors := ?actors, rp_lines := bt_insert (file_name DEFAULT_LINE) (?line t) []\<rparr>)"
    by (rule step_line [OF a]) (simp_all add: default_names line_check_def check_line_name_def snapshot_reference_def empty_repo_def)
  then show ?thesis by (rule step_logged [OF _ log]) simp
qed

text \<open>Environments that differ only in the clock, the diff and the working tree.\<close>

definition same_services :: "cli_env \<Rightarrow> cli_env \<Rightarrow> bool" where
  "same_services E E' \<longleftrightarrow> ev_fresh E' = ev_fresh E \<and> ev_sha256 E' = ev_sha256 E \<and> ev_sha1 E' = ev_sha1 E \<and> ev_manifest_json E' = ev_manifest_json E"

lemma services_provenance:
  assumes "same_services E E'"
  shows "check_provenance E' = check_provenance E"
proof -
  have d: "git_digest E' = git_digest E" and h: "hash_bytes E' = hash_bytes E"
    using assms by (auto simp: same_services_def git_digest_def hash_bytes_def fun_eq_iff)
  then have o: "git_object_id E' = git_object_id E" and b: "blob_id E' = blob_id E"
    by (simp_all only: git_object_id_def blob_id_def fun_eq_iff simp_thms)
  have rows: "encode_rows E' = encode_rows E" and p: "parse_commit E' = parse_commit E"
    by (simp_all only: encode_rows_def parse_commit_def o fun_eq_iff simp_thms)
  have dirs: "encode_entry E' f e n os = encode_entry E f e n os" "encode_dir E' f dir os' = encode_dir E f dir os'" for f e n os dir os'
    by (induction e and dir arbitrary: n os and os') (simp_all add: rows)
  have files: "add_file E' = add_file E" by (simp only: add_file_def git_blob_def h o b fun_eq_iff simp_thms)
  have tree: "encode_tree E' = encode_tree E" by (simp only: encode_tree_def rows dirs fun_eq_iff simp_thms)
  have i: "tree_id E' = tree_id E" by (simp only: tree_id_def build_tree_def files tree fun_eq_iff simp_thms)
  show ?thesis by (simp only: check_provenance_def p i fun_eq_iff simp_thms)
qed

lemma services_verify:
  assumes "same_services E E'"
  shows "repo_inv E' s = repo_inv E s" "env_ok E' = env_ok E"
proof -
  have h: "hash_bytes E' = hash_bytes E" "manifest_hash E' = manifest_hash E" "fresh_id E' = fresh_id E"
    using assms by (auto simp: same_services_def hash_bytes_def manifest_hash_def fresh_id_def fun_eq_iff)
  then have v: "verify_file E' = verify_file E" and b: "check_blob E' = check_blob E"
    by (simp_all only: verify_file_def check_blob_def fun_eq_iff simp_thms)
  have "check_snapshot E' = (check_snapshot E :: commit_metadata repo \<Rightarrow> _)" "check_conflict E' = (check_conflict E :: commit_metadata repo \<Rightarrow> _)"
    by (simp_all only: check_snapshot_def check_conflict_def verify_manifest_def h v fun_eq_iff simp_thms)
  then have "snapshot_check E' = snapshot_check E" "check_conflict E' = (check_conflict E :: commit_metadata repo \<Rightarrow> _)"
    by (simp_all add: snapshot_check_def services_provenance [OF assms] fun_eq_iff)
  then show "repo_inv E' s = repo_inv E s"
    using assms h(3) b by (simp add: repo_inv_def verified_def fresh_from_def same_services_def)
  show "env_ok E' = env_ok E" using assms h(3) by (simp add: env_ok_def same_services_def)
qed

inductive reachable :: "cli_env \<Rightarrow> commit_metadata repo \<Rightarrow> bool" for E where
  initialized: "initialize E empty_repo = (Inr (), s) \<Longrightarrow> reachable E s"
| command: "reachable E s \<Longrightarrow> same_services E E' \<Longrightarrow> dir_ok (ev_tree E') \<Longrightarrow> run_command E' c s = (r, t) \<Longrightarrow> reachable E t"

text \<open>
  C6: Every repository that any sequence of commands reaches from an initialized one verifies, whatever the
  working trees were, whatever the clock and the diff gave, and however each command ended.
\<close>

theorem reachable_verified:
  assumes "env_ok E" "reachable E s"
  shows "verify_records E s = Inr ()"
proof -
  have "repo_inv E s" using assms(2)
  proof induction
    case (initialized s)
    then show ?case by (rule initialize_inv)
  next
    case (command s E' c r t)
    note same = services_verify(1) [OF command.hyps(2)]
    have "repo_inv E' s" "env_ok E'" using command.IH assms(1) by (simp_all add: same services_verify(2) [OF command.hyps(2)])
    then have "repo_inv E' t" using command.hyps(3,4) by (rule run_inv)
    then show ?case by (simp add: same)
  qed
  then show ?thesis by (simp add: repo_inv_verify)
qed

section \<open>What the commands publish\<close>

text \<open>
  C20: A scan of any working tree, when it succeeds, gives a manifest that verifies against the stored blobs:
  proper keys, all different, none inside another, every content stored under its hash with its length,
  link targets valid. The entries are sorted and lie in the tree, and the scan changes nothing but blobs,
  of which it removes and replaces none.
\<close>

theorem scan_manifest_verifies:
  assumes "env_ok E" "dir_ok (ev_tree E)" "scan_working_tree E s = (Inr files, t)"
  shows "verify_manifest E (rp_blobs t) files = Inr () \<and> sorted (map fe_path files) \<and>
    fe_path ` set files \<subseteq> join_slash ` set (dir_paths [] (ev_tree E)) \<and>
    t = s\<lparr>rp_blobs := rp_blobs t\<rparr> \<and> map_of (rp_blobs s) \<subseteq>\<^sub>m map_of (rp_blobs t)"
proof -
  note v = scan_verifies_manifest [OF assms]
  obtain pol tracked fs where scan: "scan_dir E pol tracked [] (ev_tree E) s = (Inr fs, t)" and files: "files = sort_key fe_path fs"
    using assms(3) unfolding scan_working_tree_def by (auto simp: cmd_simps)
  have "scanned E (dir_paths [] (ev_tree E)) fs s t"
    using scan assms(1,2) by (intro scan_scanned) (auto simp: good_path_def)
  then obtain qs where q: "subseq qs (dir_paths [] (ev_tree E))" "map fe_path fs = map join_slash qs" by (auto simp: scanned_def)
  have "set qs \<subseteq> set (dir_paths [] (ev_tree E))" using q(1) by (auto elim: list_emb_set)
  moreover have "fe_path ` set files = join_slash ` set qs" unfolding files set_sort using q(2) by (metis list.set_map)
  ultimately have "fe_path ` set files \<subseteq> join_slash ` set (dir_paths [] (ev_tree E))" by auto
  moreover have "t = s\<lparr>rp_blobs := rp_blobs t\<rparr>" "map_of (rp_blobs s) \<subseteq>\<^sub>m map_of (rp_blobs t)"
    using v by (auto simp: blob_step_def)
  ultimately show ?thesis using v by (simp add: files)
qed

lemma quiet_publish_integration: "quiet c (publish_integration E line change incoming policy files)"
  unfolding publish_integration_def by (intro quiet_rules)

lemma store_conflicts_frame:
  "store_conflicts E line change incoming policy ps s = (r, t) \<Longrightarrow> rp_lines t = rp_lines s \<and> rp_snapshots t = rp_snapshots s"
proof (induction ps arbitrary: s r)
  case (Cons p ps)
  have one: "rp_lines u = rp_lines s \<and> rp_snapshots u = rp_snapshots s"
    if "store_conflict E line change incoming policy p s = (r', u)" for r' u
    using that unfolding store_conflict_def put_conflict_def record_operation_def put_operation_def Let_def
    by (auto simp: cmd_any split: option.splits)
  from Cons show ?case by (auto simp: cmd_any dest!: one)
qed (simp add: cmd_any)

lemma publish_integration_records:
  assumes "publish_integration E line change incoming policy files s = (Inr (), t)"
  shows "\<exists>k a h time. rp_snapshots t = bt_insert k (integrated line change incoming policy files a k h time) (rp_snapshots s) \<and>
    rp_lines t = bt_insert (file_name (ln_name line)) (line\<lparr>ln_head_snapshot := Some k\<rparr>) (rp_lines s) \<and> rp_conflicts t = rp_conflicts s \<and>
    (fresh_from E s \<longrightarrow> map_of (rp_snapshots s) k = None)"
proof -
  let ?k = "snap_prefix @ ev_fresh E (rp_ticks s)"
  obtain a h time where "logged E (IntegrateLine (ln_name line) (ch_id change) ?k)
      (s\<lparr>rp_ticks := rp_ticks s + 1, rp_snapshots := bt_insert ?k (integrated line change incoming policy files a ?k h time) (rp_snapshots s),
        rp_lines := bt_insert (file_name (ln_name line)) (line\<lparr>ln_head_snapshot := Some ?k\<rparr>) (rp_lines s)\<rparr>) t"
    "validate_object_id ?k snap_prefix = Inr ()"
    using assms unfolding publish_integration_def put_snapshot_def put_line_def integrated_def
    by (auto simp: cmd_simps dest!: record_operation_Inr split del: if_split)
  then show ?thesis by (intro exI [of _ ?k] exI [of _ a] exI [of _ h] exI [of _ time])
      (auto simp: logged_def fresh_from_def fresh_id_def)
qed

lemma integrated_fields:
  fixes line change incoming policy files a k h time
  defines "x \<equiv> integrated line change incoming policy files a k h time"
  shows "sn_id x = k" "sn_parent_snapshot x = ln_head_snapshot line" "sn_policy x = policy"
    "set (parents x) = set_option (ln_head_snapshot line) \<union> {sn_id incoming}"
  by (auto simp: x_def integrated_def parents_def option_list)

text \<open>
  Access written out: an actor of the administrators sees everything, any other what shares a domain with it.
  An integration is as public as all its sources, and otherwise reserved to the administrators.
\<close>

definition may_see :: "actor \<Rightarrow> access_policy \<Rightarrow> bool" where
  "may_see actor policy \<longleftrightarrow>
     ADMIN_DOMAIN \<in> set (ac_domains actor) \<or> set (ap_domains policy) \<inter> set (ac_domains actor) \<noteq> {}"

lemma can_access_may_see: "can_access actor policy \<longleftrightarrow> may_see actor policy"
  by (auto simp: can_access_def may_see_def)

lemma merge_sources_may_see:
  "can_access_merge_sources a [base, tip, Some incoming] [optional_snapshot_files base, optional_snapshot_files tip, sn_files incoming] \<longleftrightarrow>
    (\<forall>x \<in> set_option base \<union> set_option tip \<union> {incoming}. may_see a (sn_policy x) \<and> (\<forall>f \<in> set (sn_files x). may_see a (fe_policy f)))"
  by (cases base; cases tip) (auto simp: can_access_merge_sources_def can_access_merge_inputs_def optional_snapshot_files_def list_all_iff can_access_may_see)

lemma merge_source_domains:
  "ap_domains (merge_source_policy p q incoming base tip) =
    (if \<forall>x \<in> {p, q} \<union> sn_policy ` (set_option base \<union> set_option tip \<union> {incoming}). ap_domains x = [PUBLIC_DOMAIN]
     then [PUBLIC_DOMAIN] else [ADMIN_DOMAIN])"
  by (cases base; cases tip) (auto simp: merge_source_policy_def integration_metadata_policy_def public_policy_def admin_policy_def)

lemma integrate_sources_outcome:
  assumes run: "integrate_sources E a line change incoming base tip s = (r, t)"
    and changed: "rp_lines t \<noteq> rp_lines s \<or> rp_snapshots t \<noteq> rp_snapshots s \<or> rp_conflicts t \<noteq> rp_conflicts s" and commit: "commits r"
  shows "can_access_merge_sources a [base, tip, Some incoming] [optional_snapshot_files base, optional_snapshot_files tip, sn_files incoming] \<and>
    (r = Inl (Failure IntegrationConflicted) \<and> rp_lines t = rp_lines s \<and> rp_snapshots t = rp_snapshots s \<or>
     r = Inr () \<and> rp_conflicts t = rp_conflicts s \<and>
     (\<exists>k x. rp_snapshots t = bt_insert k x (rp_snapshots s) \<and> (fresh_from E s \<longrightarrow> map_of (rp_snapshots s) k = None) \<and> sn_id x = k \<and> sn_parent_snapshot x = ln_head_snapshot line \<and>
        set (parents x) = set_option (ln_head_snapshot line) \<union> {sn_id incoming} \<and>
        sn_policy x = merge_source_policy (ln_policy line) (ch_policy change) incoming base tip \<and>
        rp_lines t = bt_insert (file_name (ln_name line)) (line\<lparr>ln_head_snapshot := Some k\<rparr>) (rp_lines s)))"
proof -
  let ?policy = "merge_source_policy (ln_policy line) (ch_policy change) incoming base tip"
  have access: "can_access_merge_sources a [base, tip, Some incoming]
      [optional_snapshot_files base, optional_snapshot_files tip, sn_files incoming]"
    using run changed unfolding integrate_sources_def Let_def by (auto simp: cmd_any split: if_splits)
  consider "t = s"
    | ps r' where "store_conflicts E line change incoming ?policy ps s = (r', t)" "r \<noteq> Inr ()"
    | g r' u where "publish_texts g s = (r', u)" "t = u"
    | g u files where "publish_texts g s = (Inr (), u)" "publish_integration E line change incoming ?policy files u = (r, t)"
    using run unfolding integrate_sources_def Let_def by (auto simp: cmd_any split: if_splits prod.splits)
  then show ?thesis
  proof cases
    case 2
    then show ?thesis using store_conflicts_frame [OF 2(1)] access commit by (auto simp: commits_def)
  next
    case 3
    then show ?thesis using changed by (auto simp: publish_texts_def split: prod.splits)
  next
    case (4 g u files)
    have r: "r = Inr ()" using commit quiet_publish_integration [of True E line change incoming ?policy files] 4(2) by (auto simp: commits_def dest: quietD)
    have u: "rp_lines u = rp_lines s" "rp_snapshots u = rp_snapshots s" "rp_conflicts u = rp_conflicts s"
      using 4(1) by (auto simp: publish_texts_def split: prod.splits)
    obtain k a' h time where "rp_snapshots t = bt_insert k (integrated line change incoming ?policy files a' k h time) (rp_snapshots u)"
      "rp_lines t = bt_insert (file_name (ln_name line)) (line\<lparr>ln_head_snapshot := Some k\<rparr>) (rp_lines u)" "rp_conflicts t = rp_conflicts u" "fresh_from E u \<longrightarrow> map_of (rp_snapshots u) k = None"
      using publish_integration_records 4(2) r by blast
    moreover have "fresh_from E u \<longleftrightarrow> fresh_from E s"
      using 4(1) by (auto simp: publish_texts_def fresh_from_def split: prod.splits)
    ultimately show ?thesis using access r u
      by (intro conjI disjI2 exI [of _ k] exI [of _ "integrated line change incoming ?policy files a' k h time"])
        (simp_all add: integrated_fields)
  qed (use changed in simp)
qed

text \<open>
  C7: An integration publishes only what its actor may see and only in the ways the program documents. When
  lines, snapshots or conflicts change, the actor is an administrator or shares a domain with the line, the
  current change, and the base, line and incoming snapshots and every one of their files, and the change
  targets the line. Then either conflicts are reported and no line or snapshot changes, or no conflict
  changes, one snapshot is stored whose parents are the former head and the incoming snapshot, and only the
  integrated line moves, to it. The snapshot is public only if all its sources are, and otherwise for
  administrators. It replaces no other snapshot where the identifiers still to be drawn are unused, which
  every command keeps (\<open>fresh_from\<close>).
\<close>

theorem integrate_line_outcome:
  assumes "run_command E (LineIntegrate name actor_name) s = (r, t)"
    "rp_lines t \<noteq> rp_lines s \<or> rp_snapshots t \<noteq> rp_snapshots s \<or> rp_conflicts t \<noteq> rp_conflicts s"
  shows "\<exists>actor line i change incoming base head_snapshot. read_actor actor_name s = Inr actor \<and> read_line name s = Inr line \<and>
    ws_current_change (rp_workspace s) = Some i \<and> read_change i s = Inr change \<and> ch_target_line change = name \<and>
    read_optional_snapshot (ch_current_snapshot change) s = Inr (Some incoming) \<and>
    read_optional_snapshot (ln_head_snapshot line) s = Inr head_snapshot \<and>
    find_merge_base (ln_head_snapshot line) incoming (ch_base_snapshot change) s = Inr base \<and>
    may_see actor (ln_policy line) \<and> may_see actor (ch_policy change) \<and>
    (\<forall>x \<in> set_option base \<union> set_option head_snapshot \<union> {incoming}.
       may_see actor (sn_policy x) \<and> (\<forall>f \<in> set (sn_files x). may_see actor (fe_policy f))) \<and>
    (r = Inl (Failure IntegrationConflicted) \<and> rp_lines t = rp_lines s \<and> rp_snapshots t = rp_snapshots s \<or>
     r = Inr () \<and> rp_conflicts t = rp_conflicts s \<and>
     (\<exists>k x. rp_snapshots t = bt_insert k x (rp_snapshots s) \<and> (fresh_from E s \<longrightarrow> map_of (rp_snapshots s) k = None) \<and> sn_id x = k \<and> sn_parent_snapshot x = ln_head_snapshot line \<and>
        set (parents x) = set_option (ln_head_snapshot line) \<union> {sn_id incoming} \<and>
        ap_domains (sn_policy x) =
          (if \<forall>p \<in> {ln_policy line, ch_policy change} \<union> sn_policy ` (set_option base \<union> set_option head_snapshot \<union> {incoming}).
               ap_domains p = [PUBLIC_DOMAIN]
           then [PUBLIC_DOMAIN] else [ADMIN_DOMAIN]) \<and>
        rp_lines t = bt_insert (file_name name) (line\<lparr>ln_head_snapshot := Some k\<rparr>) (rp_lines s)))"
proof -
  obtain u where u: "integrate_line E name actor_name s = (r, u)" "t = (if commits r then u else s\<lparr>rp_blobs := rp_blobs u, rp_ticks := rp_ticks u\<rparr>)"
    using assms(1) by (auto simp: run_command_def split: prod.splits)
  then have c: "commits r" "t = u" using assms(2) by (auto split: if_splits)
  consider "t = s"
    | a i change line j incoming base tip where "read_actor actor_name s = Inr a" "read_line name s = Inr line"
      "ws_current_change (rp_workspace s) = Some i" "read_change i s = Inr change" "ch_target_line change = ln_name line"
      "ch_current_snapshot change = Some j" "read_snapshot j s = Inr incoming"
      "read_optional_snapshot (ln_head_snapshot line) s = Inr tip"
      "find_merge_base (ln_head_snapshot line) incoming (ch_base_snapshot change) s = Inr base"
      "can_access a (ln_policy line)" "can_access a (ch_policy change)"
      "integrate_sources E a line (change\<lparr>ch_base_snapshot := map_option sn_id base\<rparr>) incoming base tip s = (r, t)"
    using u(1) c(2) unfolding integrate_line_def current_change_id_def
    by (auto simp: cmd_any split: if_splits option.splits)
  then show ?thesis
  proof cases
    case (2 a i change line j incoming base tip)
    have n: "ln_name line = name" using read_line_Inr [OF 2(2)] by simp
    have x: "read_optional_snapshot (ch_current_snapshot change) s = Inr (Some incoming)"
      using 2(6,7) by (simp add: read_optional_snapshot_def)
    have same: "ch_policy (change\<lparr>ch_base_snapshot := map_option sn_id base\<rparr>) = ch_policy change" by simp
    note out = integrate_sources_outcome [OF 2(12) assms(2) c(1), unfolded n same]
    have access: "\<forall>x \<in> set_option base \<union> set_option tip \<union> {incoming}.
        may_see a (sn_policy x) \<and> (\<forall>f \<in> set (sn_files x). may_see a (fe_policy f))"
      using out unfolding merge_sources_may_see by blast
    show ?thesis
    proof (intro exI conjI)
      show "r = Inl (Failure IntegrationConflicted) \<and> rp_lines t = rp_lines s \<and> rp_snapshots t = rp_snapshots s \<or>
        r = Inr () \<and> rp_conflicts t = rp_conflicts s \<and>
        (\<exists>k x. rp_snapshots t = bt_insert k x (rp_snapshots s) \<and> (fresh_from E s \<longrightarrow> map_of (rp_snapshots s) k = None) \<and> sn_id x = k \<and>
          sn_parent_snapshot x = ln_head_snapshot line \<and> set (parents x) = set_option (ln_head_snapshot line) \<union> {sn_id incoming} \<and>
          ap_domains (sn_policy x) =
            (if \<forall>p \<in> {ln_policy line, ch_policy change} \<union> sn_policy ` (set_option base \<union> set_option tip \<union> {incoming}).
                 ap_domains p = [PUBLIC_DOMAIN]
             then [PUBLIC_DOMAIN] else [ADMIN_DOMAIN]) \<and>
          rp_lines t = bt_insert (file_name name) (line\<lparr>ln_head_snapshot := Some k\<rparr>) (rp_lines s))"
        using out unfolding merge_source_domains [symmetric] by metis
    qed (use 2(1-5,8-11) x n access in \<open>simp_all add: can_access_may_see\<close>)
  qed (use assms(2) in simp)
qed

section \<open>A sample environment\<close>

definition sample_fresh :: "nat \<Rightarrow> bytes" where
  "sample_fresh n = (if n < 10 then replicate 12 (of_nat (0x30 + n)) else [])"

definition sample_env :: cli_env where
  "sample_env = \<lparr>ev_fresh = sample_fresh, ev_now = (\<lambda>n. Inr (of_nat n)),
     ev_sha256 = (\<lambda>b. replicate 31 0 @ [of_nat (length b)]), ev_sha1 = (\<lambda>b. replicate 19 0 @ [of_nat (length b)]), ev_manifest_json = (\<lambda>files. Inr [of_nat (length files)]),
     ev_differ = sample_differ,
     ev_tree = DirEntry [0x61] (RegularFile (Inr [1, 2]) True)
       (DirEntry [0x62] (Directory (DirEntry [0x63] (SymbolicLink (Inr [0x61])) DirEnd)) DirEnd),
     ev_includes = (\<lambda>_ _ _. Inr True), ev_working = (\<lambda>_. Inr None), ev_change_available = (\<lambda>_. Inr ()),
     ev_stage_checkout = (\<lambda>_ _ _. Inr ())\<rparr>"

definition sample_repo :: "commit_metadata repo" where
  "sample_repo = snd (initialize sample_env empty_repo)"

definition sample_change :: "commit_metadata repo" where
  "sample_change = snd (run_command sample_env (ChangeNew [0x78] DEFAULT_LINE []) sample_repo)"

lemma sample_fresh_unique: "sample_fresh n \<noteq> [] \<Longrightarrow> sample_fresh m = sample_fresh n \<Longrightarrow> m = n"
  by (simp add: sample_fresh_def word_of_nat_eq_iff take_bit_eq_mod split: if_splits)

lemma sample_env_ok: "env_ok sample_env" "dir_ok (ev_tree sample_env)"
proof -
  have "sample_fresh n \<noteq> []" if "fresh_id sample_env n" for n
    using that strip_prefix_append [of snap_prefix "[]"]
    by (auto simp: fresh_id_def sample_env_def validate_object_id_def Let_def split: option.splits if_splits)
  then show "env_ok sample_env" using sample_fresh_unique by (auto simp: env_ok_def sample_env_def)
  show "dir_ok (ev_tree sample_env)" by code_simp
qed

lemma sample_runs:
  "fst (initialize sample_env (empty_repo :: commit_metadata repo)) = Inr ()"
  "fst (run_command sample_env (ChangeNew [0x78] DEFAULT_LINE []) sample_repo) = Inr ()"
  "fst (run_command sample_env (SnapshotNew [0x6d] []) sample_change) = Inr ()"
  by code_simp+

lemma sample_change_inv: "repo_inv sample_env sample_change"
proof -
  have "rp_snapshots sample_change = []" "repo_wf sample_change" "verify_records sample_env sample_change = Inr ()" by code_simp+
  then show ?thesis by (simp add: repo_inv_verify fresh_from_def)
qed

text \<open>The property at a snapshot of the sample tree, with its file and its symbolic link.\<close>

theorem command_keeps_verified_witness:
  "let t = snd (run_command sample_env (SnapshotNew [0x6d] []) sample_change) in
   repo_wf t \<and> verify_records sample_env t = Inr () \<and> map (map fe_path \<circ> sn_files \<circ> snd) (rp_snapshots t) = [[[0x61], [0x62, 0x2f, 0x63]]]"
proof -
  let ?t = "snd (run_command sample_env (SnapshotNew [0x6d] []) sample_change)"
  note i = sample_change_inv [unfolded repo_inv_verify]
  have "repo_wf ?t \<and> fresh_from sample_env ?t \<and> verify_records sample_env ?t = Inr ()"
    using i by (intro command_keeps_verified [OF sample_env_ok _ _ _ prod.collapse [symmetric]]) blast+
  moreover have "map (map fe_path \<circ> sn_files \<circ> snd) (rp_snapshots ?t) = [[[0x61], [0x62, 0x2f, 0x63]]]" by code_simp
  ultimately show ?thesis by (simp add: Let_def)
qed

theorem reachable_verified_witness:
  "let t = snd (run_command sample_env (SnapshotNew [0x6d] []) sample_change) in
   reachable sample_env t \<and> length (rp_snapshots t) = 1 \<and> verify_records sample_env t = Inr ()"
proof -
  let ?t = "snd (run_command sample_env (SnapshotNew [0x6d] []) sample_change)"
  have same: "same_services sample_env sample_env" by (simp add: same_services_def)
  note step = reachable.command [OF _ same sample_env_ok(2) prod.collapse [symmetric]]
  have "initialize sample_env empty_repo = (Inr (), sample_repo)"
    using sample_runs(1) by (simp add: sample_repo_def prod_eq_iff)
  then have "reachable sample_env sample_repo" by (rule reachable.initialized)
  then have "reachable sample_env sample_change" unfolding sample_change_def by (rule step)
  then have r: "reachable sample_env ?t" by (rule step)
  moreover have "length (rp_snapshots ?t) = 1" by code_simp
  ultimately show ?thesis using reachable_verified [OF sample_env_ok(1) r] by (simp add: Let_def)
qed

theorem scan_manifest_verifies_witness:
  "\<exists>files t. scan_working_tree sample_env sample_change = (Inr files, t) \<and> map fe_path files = [[0x61], [0x62, 0x2f, 0x63]] \<and>
     verify_manifest sample_env (rp_blobs t) files = Inr () \<and> length (rp_blobs t) = 2"
proof -
  obtain r t where run: "scan_working_tree sample_env sample_change = (r, t)" by fastforce
  have "map_sum id (map fe_path) (fst (scan_working_tree sample_env sample_change)) = Inr [[0x61], [0x62, 0x2f, 0x63]]" by code_simp
  then obtain files where files: "r = Inr files" "map fe_path files = [[0x61], [0x62, 0x2f, 0x63]]" using run by (auto simp: map_sum_Inr)
  have "length (rp_blobs (snd (scan_working_tree sample_env sample_change))) = 2" by code_simp
  then show ?thesis
    using run files scan_manifest_verifies [OF sample_env_ok run [unfolded files(1)]] by auto
qed

definition sample_snapshot :: "commit_metadata repo" where
  "sample_snapshot = snd (run_command sample_env (SnapshotNew [0x6d] []) sample_change)"

text \<open>The integration of the sample change into the default line.\<close>

theorem integrate_line_outcome_witness:
  "let (r, t) = run_command sample_env (LineIntegrate DEFAULT_LINE PUBLIC_DOMAIN) sample_snapshot in
   r = Inr () \<and> (\<exists>k x. rp_snapshots t = bt_insert k x (rp_snapshots sample_snapshot) \<and>
     map_of (rp_snapshots sample_snapshot) k = None \<and> sn_id x = k) \<and>
   map (ln_head_snapshot \<circ> snd) (rp_lines t) \<noteq> map (ln_head_snapshot \<circ> snd) (rp_lines sample_snapshot)"
proof -
  obtain r t where run: "run_command sample_env (LineIntegrate DEFAULT_LINE PUBLIC_DOMAIN) sample_snapshot = (r, t)" by fastforce
  have "fst (run_command sample_env (LineIntegrate DEFAULT_LINE PUBLIC_DOMAIN) sample_snapshot) = Inr ()" by code_simp
  then have r: "r = Inr ()" using run by simp
  have "map (ln_head_snapshot \<circ> snd) (rp_lines (snd (run_command sample_env (LineIntegrate DEFAULT_LINE PUBLIC_DOMAIN) sample_snapshot)))
      \<noteq> map (ln_head_snapshot \<circ> snd) (rp_lines sample_snapshot)" by code_simp
  then have moved: "map (ln_head_snapshot \<circ> snd) (rp_lines t) \<noteq> map (ln_head_snapshot \<circ> snd) (rp_lines sample_snapshot)" using run by simp
  then have changed: "rp_lines t \<noteq> rp_lines sample_snapshot" by auto
  have "repo_inv sample_env sample_snapshot" unfolding sample_snapshot_def
    by (rule run_inv [OF sample_change_inv sample_env_ok prod.collapse [symmetric]])
  then have "fresh_from sample_env sample_snapshot" by (simp add: repo_inv_def)
  with changed show ?thesis
    using integrate_line_outcome [OF run] moved r unfolding run by auto
qed

text \<open>The sample repository damaged so that its snapshot is its own parent.\<close>

definition cyclic_repo :: "commit_metadata repo" where
  "cyclic_repo = sample_snapshot
     \<lparr>rp_snapshots := map (\<lambda>(k, x). (k, x\<lparr>sn_parent_snapshot := Some k\<rparr>)) (rp_snapshots sample_snapshot),
      rp_lines := map (\<lambda>(k, l). (k, l\<lparr>ln_head_snapshot := Some (fst (hd (rp_snapshots sample_snapshot)))\<rparr>)) (rp_lines sample_snapshot)\<rparr>"

theorem command_returns_witness:
  "\<exists>r t. run_command sample_env (LineIntegrate DEFAULT_LINE PUBLIC_DOMAIN) cyclic_repo = (r, t) \<and> r \<noteq> Inl NoReturn \<and>
     r = Inl (Message ''snapshot ancestry contains a cycle'')"
proof -
  have "differ_ok (ev_differ sample_env)" by (simp add: sample_env_def sample_differ_ok)
  from command_returns [OF this, of "LineIntegrate DEFAULT_LINE PUBLIC_DOMAIN" cyclic_repo]
  obtain r t where "run_command sample_env (LineIntegrate DEFAULT_LINE PUBLIC_DOMAIN) cyclic_repo = (r, t)" "r \<noteq> Inl NoReturn" by blast
  moreover have "fst (run_command sample_env (LineIntegrate DEFAULT_LINE PUBLIC_DOMAIN) cyclic_repo) = Inl (Message ''snapshot ancestry contains a cycle'')"
    by code_simp
  ultimately show ?thesis by simp
qed

end
