(* ===== verification/Bootstrap_Spec.thy ===== *)
theory Bootstrap_Spec
  imports Store_Sample
begin

text \<open>
  What \<open>BootstrapGraph::validate\<close> establishes: the repository root names exactly the identifiers under
  which the decoder admits the bootstrap objects, and the objects refer to each other as a genesis must.
\<close>

text \<open>Each identifier the root names, with the object given for it.\<close>

definition bootstrap_members :: "bootstrap_graph \<Rightarrow> (object_id \<times> logical_object) list" where
  "bootstrap_members g =
     zip (rr_trusted_identities (bg_root g)) (map LIdentity (bg_identities g)) @
     [(rr_root_policy (bg_root g), LPolicy (bg_root_policy g)),
      (rr_bootstrap_key_envelope_set (bg_root g), LKeyEnvelopeSet (bg_key_envelope_set g)),
      (rr_genesis_operation (bg_root g), LOperation (bg_genesis_operation g))] @
     zip (rr_initial_line_states (bg_root g)) (map LLineState (bg_initial_line_states g))"

definition bootstrap_declarations :: "bootstrap_graph \<Rightarrow> line_advance_declaration list" where
  "bootstrap_declarations g =
     List.map_filter (\<lambda>a. case a of LineAdvance d \<Rightarrow> Some d | _ \<Rightarrow> None) (op_actions (bg_genesis_operation g))"

lemma collected_zip:
  assumes "collect_results (map f xs) = Inr ys" "(y, x) \<in> set (zip ys xs)"
  shows "f x = Inr y"
  using assms by (auto simp: collect_results_Inr set_zip list_eq_iff_nth_eq)

lemma collected_length: "collect_results (map f xs) = Inr ys \<Longrightarrow> length ys = length xs"
  by (auto simp: collect_results_Inr dest: arg_cong [where f = length])

lemma bootstrap_identity_Inr:
  "bootstrap_identity X alg x = Inr i \<Longrightarrow> object_identity X (logical X (LIdentity x)) alg = Inr i"
  by (simp add: bootstrap_identity_def signed_base_def split: if_splits)

lemma bootstrap_line_Inr:
  assumes "bootstrap_line X alg p genesis line = Inr i"
  shows "object_identity X (logical X (LLineState line)) alg = Inr i" "ls_policy_ref line = p" "ls_generation line = 0"
    "length (filter (\<lambda>d. line_advance_matches d line)
      (List.map_filter (\<lambda>a. case a of LineAdvance d \<Rightarrow> Some d | _ \<Rightarrow> None) (op_actions genesis))) = 1"
  using assms
  by (auto simp: bootstrap_line_def validate_transaction_def check_transaction_def signed_base_def split: if_splits)

text \<open>The tests that a validated bootstrap passed, in the order they are made.\<close>

lemma bootstrap_validate_Inr:
  assumes "bootstrap_validate X g alg = Inr ()"
  defines "root \<equiv> bg_root g" and "policy \<equiv> bg_root_policy g" and "genesis \<equiv> bg_genesis_operation g"
  defines "p \<equiv> \<lparr>pr_policy_id = po_policy_id policy, pr_version = rr_root_policy root\<rparr>"
  shows "collect_results (map (bootstrap_identity X alg) (bg_identities g)) = Inr (rr_trusted_identities root)"
    "collect_results (map (bootstrap_line X alg p genesis) (bg_initial_line_states g)) = Inr (rr_initial_line_states root)"
    "object_identity X (logical X (LPolicy policy)) alg = Inr (rr_root_policy root)"
    "object_identity X (logical X (LKeyEnvelopeSet (bg_key_envelope_set g))) alg = Inr (rr_bootstrap_key_envelope_set root)"
    "object_identity X (logical X (LOperation genesis)) alg = Inr (rr_genesis_operation root)"
    "po_key_envelope_set policy = rr_bootstrap_key_envelope_set root" "op_parents genesis = []" "op_policy_ref genesis = p"
    "\<forall>s \<in> set (rr_signatures root). bootstrap_signer (bg_identities g) s"
  using assms(1) unfolding root_def policy_def genesis_def p_def
  by (auto simp: bootstrap_validate_def Let_def signed_base_def split: if_splits)

lemma bootstrap_member_identity:
  assumes "bootstrap_validate X g alg = Inr ()" "(i, obj) \<in> set (bootstrap_members g)"
  shows "object_identity X (logical X obj) alg = Inr i"
proof -
  note v = bootstrap_validate_Inr [OF assms(1)]
  consider x where "obj = LIdentity x" "(i, x) \<in> set (zip (rr_trusted_identities (bg_root g)) (bg_identities g))"
    | "(i, obj) \<in> {(rr_root_policy (bg_root g), LPolicy (bg_root_policy g)),
        (rr_bootstrap_key_envelope_set (bg_root g), LKeyEnvelopeSet (bg_key_envelope_set g)),
        (rr_genesis_operation (bg_root g), LOperation (bg_genesis_operation g))}"
    | x where "obj = LLineState x" "(i, x) \<in> set (zip (rr_initial_line_states (bg_root g)) (bg_initial_line_states g))"
    using assms(2) by (auto simp: bootstrap_members_def zip_map2)
  then show ?thesis
  proof cases
    case 1
    then show ?thesis using bootstrap_identity_Inr [OF collected_zip [OF v(1)]] by simp
  next
    case 2
    then show ?thesis using v(3-5) by auto
  next
    case 3
    then show ?thesis using bootstrap_line_Inr(1) [OF collected_zip [OF v(2)]] by simp
  qed
qed

text \<open>
  C12: A repository can start from validated bootstrap material. If validation accepts, the root names one
  identifier per identity and per line, and every object it names, whose fields have their types, encodes
  and verifies under exactly that identifier when its bytes are decoded. The genesis operation has no
  parents and stands under the root policy, which names the bootstrap keys; every initial line is a first
  generation under that policy that the genesis operation declares exactly once; and every signature of the
  root was made with a signing key of a trusted actor.
\<close>

theorem bootstrap_sound:
  assumes valid: "bootstrap_validate X g alg = Inr ()" and wf: "\<forall>(i, obj) \<in> set (bootstrap_members g). logical_wf X obj"
  shows "length (rr_trusted_identities (bg_root g)) = length (bg_identities g) \<and>
    length (rr_initial_line_states (bg_root g)) = length (bg_initial_line_states g) \<and>
    (\<forall>(i, obj) \<in> set (bootstrap_members g). \<exists>bs a. object_encode X (logical X obj) = Inr bs \<and>
      any_decode_verified X bs i (object_limits (co_kind (logical X obj))) = Inr a \<and> admitted_as (logical X obj) a) \<and>
    op_parents (bg_genesis_operation g) = [] \<and> pr_version (op_policy_ref (bg_genesis_operation g)) = rr_root_policy (bg_root g) \<and>
    po_key_envelope_set (bg_root_policy g) = rr_bootstrap_key_envelope_set (bg_root g) \<and>
    (\<forall>line \<in> set (bg_initial_line_states g). ls_generation line = 0 \<and> ls_policy_ref line = op_policy_ref (bg_genesis_operation g) \<and>
      length (filter (\<lambda>d. line_advance_matches d line) (bootstrap_declarations g)) = 1) \<and>
    (\<forall>s \<in> set (rr_signatures (bg_root g)). \<exists>x \<in> set (bg_identities g). idn_subject_kind x = SubjectActor \<and>
      idn_subject x = sig_signer s \<and> (\<exists>key \<in> set (idn_signing_keys x). pk_key_id key = signing_key_id s))"
proof -
  note v = bootstrap_validate_Inr [OF valid]
  have "\<forall>line \<in> set (bg_initial_line_states g). \<exists>i. bootstrap_line X alg
      \<lparr>pr_policy_id = po_policy_id (bg_root_policy g), pr_version = rr_root_policy (bg_root g)\<rparr> (bg_genesis_operation g) line = Inr i"
    using v(2) unfolding collect_results_Inr by (metis (no_types, lifting) image_iff list.set_map)
  then have lines: "\<forall>line \<in> set (bg_initial_line_states g). ls_generation line = 0 \<and> ls_policy_ref line = op_policy_ref (bg_genesis_operation g) \<and>
      length (filter (\<lambda>d. line_advance_matches d line) (bootstrap_declarations g)) = 1"
    using bootstrap_line_Inr(2-4) v(8) unfolding bootstrap_declarations_def by (metis (no_types, lifting))
  have members: "\<forall>(i, obj) \<in> set (bootstrap_members g). \<exists>bs a. object_encode X (logical X obj) = Inr bs \<and>
      any_decode_verified X bs i (object_limits (co_kind (logical X obj))) = Inr a \<and> admitted_as (logical X obj) a"
    using wf bootstrap_member_identity [OF valid] logical_identified by (fastforce simp del: logical.simps)
  show ?thesis
    using collected_length [OF v(1)] collected_length [OF v(2)] members lines v(6-9) by (simp add: bootstrap_signer_def)
qed

section \<open>A concrete bootstrap\<close>

definition boot_signature :: "signature_purpose \<Rightarrow> signature" where
  "boot_signature p = Signature Ed25519 (replicate 16 1) (replicate 32 1) (replicate 64 1) p"

definition boot_identity :: identity where
  "boot_identity = \<lparr>idn_policy_ref = None, idn_subject_kind = SubjectActor, idn_subject = replicate 16 1, idn_version = 0,
     idn_previous = None,
     idn_signing_keys = [\<lparr>pk_algorithm = KeyEd25519, pk_key_id = replicate 32 1, pk_public_key = replicate 32 2, pk_not_before = None,
       pk_not_after = None\<rparr>],
     idn_encryption_keys = [], idn_issuer = replicate 16 1, idn_status = IdentityActive, idn_activation_operation = None,
     idn_not_after_operation = None, idn_signatures = [boot_signature ForIdentity]\<rparr>"

definition boot_identity_fields :: fields where
  "boot_identity_fields = identity_unsigned_map boot_identity @ [(13, signatures_value (idn_signatures boot_identity))]"

definition boot_keys :: key_envelope_set where
  "boot_keys = \<lparr>ke_policy_ref = None, ke_epoch = 0, ke_suite = X25519HkdfSha256Aes256Gcm,
     ke_recipients = [\<lparr>re_recipient = \<lparr>pn_kind = PrincipalActor, pn_identifier = [1]\<rparr>, re_key_id = replicate 32 1, re_envelope = [1]\<rparr>]\<rparr>"

definition boot_policy :: policy where
  "boot_policy = \<lparr>po_policy_ref = None, po_policy_id = replicate 16 3, po_version_sequence = 0, po_previous_version = None,
     po_principals = [], po_grants = [], po_redaction_mode = RedactOmit, po_derivation_rule = NoDerivation,
     po_declassification_requirements = [], po_key_epoch = 0,
     po_key_envelope_set = sample_id KeyEnvelopeSetKind 0 (key_envelope_set_map boot_keys), po_administrators = [],
     po_activation_constraints = [], po_signatures = [boot_signature ForPolicy]\<rparr>"

definition boot_policy_fields :: fields where
  "boot_policy_fields = policy_unsigned_map boot_policy @ [(15, Array (map signature_value (po_signatures boot_policy)))]"

definition boot_policy_ref :: policy_ref where
  "boot_policy_ref = \<lparr>pr_policy_id = replicate 16 3, pr_version = sample_id PolicyKind 0 boot_policy_fields\<rparr>"

definition boot_advance :: line_advance_declaration where
  "boot_advance = \<lparr>la_policy_ref = boot_policy_ref, la_line_id = replicate 16 4, la_display_name = [0x6d],
     la_head_snapshot = ObjectId 0 Sha256 (replicate 32 5), la_generation = 0, la_previous_state = None,
     la_integration_policy = boot_policy_ref, la_approval_policy = boot_policy_ref, la_release_policy = boot_policy_ref,
     la_visibility_policy = boot_policy_ref\<rparr>"

definition boot_operation :: operation where
  "boot_operation = \<lparr>op_policy_ref = boot_policy_ref, op_parents = [], op_actor = replicate 16 1, op_device = replicate 16 2,
     op_logical_time = 0, op_wall_time = \<lparr>utc_seconds = 0, offset_seconds = 0\<rparr>, op_actions = [LineAdvance boot_advance],
     op_inverse_payloads = [], op_public_envelope = None, op_private_payload = None, op_signature = boot_signature ForOperation,
     op_client_implementation = [0x72]\<rparr>"

definition boot_operation_fields :: fields where
  "boot_operation_fields = operation_unsigned_map boot_operation @ [(12, signature_value (op_signature boot_operation))]"

definition boot_line :: line_state where
  "boot_line = \<lparr>ls_policy_ref = boot_policy_ref, ls_line_id = replicate 16 4, ls_display_name = [0x6d],
     ls_head_snapshot = ObjectId 0 Sha256 (replicate 32 5), ls_generation = 0, ls_previous_state = None,
     ls_integration_policy = boot_policy_ref, ls_approval_policy = boot_policy_ref, ls_release_policy = boot_policy_ref,
     ls_visibility_policy = boot_policy_ref,
     ls_transaction_operation = sample_id OperationKind 0 boot_operation_fields,
     ls_signature = boot_signature ForLineState\<rparr>"

definition boot_line_fields :: fields where
  "boot_line_fields = line_state_unsigned_map boot_line @ [(13, signature_value (ls_signature boot_line))]"

definition boot_graph :: bootstrap_graph where
  "boot_graph = \<lparr>bg_root = \<lparr>rr_repository_id = replicate 16 6, rr_root_policy = pr_version boot_policy_ref,
       rr_trusted_identities = [sample_id IdentityKind 0 boot_identity_fields],
       rr_bootstrap_key_envelope_set = po_key_envelope_set boot_policy,
       rr_genesis_operation = ls_transaction_operation boot_line,
       rr_initial_line_states = [sample_id LineStateKind 0 boot_line_fields],
       rr_filesystem_profile = PortableProfile, rr_signatures = [boot_signature ForRepositoryRoot]\<rparr>,
     bg_root_policy = boot_policy, bg_identities = [boot_identity], bg_key_envelope_set = boot_keys,
     bg_genesis_operation = boot_operation, bg_initial_line_states = [boot_line]\<rparr>"

lemma boot_object_identity:
  assumes "co_validate obj = Inr ()" "co_value obj = Inr (Map m)" "co_kind obj = k" "co_schema obj = 0"
    "fits sample_externals (object_limits k) 0 (Map m)" "length (enc (Map m)) \<le> max_bytes (object_limits k)"
  shows "object_identity sample_externals obj Sha256 = Inr (sample_id k 0 m)"
  using assms by (simp add: object_identity_def object_encode_def object_encode_with_limits_def encode_with_limits_iff sample_id_def
      del: enc.simps)

lemmas boot_defs = boot_identity_def boot_identity_fields_def boot_keys_def boot_policy_def boot_policy_fields_def boot_policy_ref_def
  boot_advance_def boot_operation_def boot_operation_fields_def boot_line_def boot_line_fields_def boot_signature_def

lemmas boot_values = boot_defs identity_unsigned_map_def public_key_value_def key_envelope_set_map_def recipient_envelope_value_def
  policy_unsigned_map_def optional_header_def operation_unsigned_map_def line_state_unsigned_map_def line_advance_value_def
  registry_header_def header_def header_version_def optional_def signatures_value_def signature_value_def principal_value_def
  policy_ref_value_def stable_id_value_def text_value_def wall_time_value_def oid_array_def oid_def Let_def

lemma length_sample_id [simp]: "length (to_bytes (sample_id k v m)) = 35"
  by (simp add: length_to_bytes)

lemma length_fixed_id [simp]: "length (digest i) = 32 \<Longrightarrow> format_version i = 0 \<Longrightarrow> length (to_bytes i) = 35"
  by (simp add: length_to_bytes oid_wf_def)

lemma boot_checks:
  "identity_validate sample_externals boot_identity = Inr ()" "key_envelope_set_validate sample_externals boot_keys = Inr ()"
  "policy_validate boot_policy = Inr ()" "operation_validate sample_externals boot_operation = Inr ()"
  "line_state_validate sample_externals boot_line = Inr ()"
proof -
  have one: "sorted_unique_values sample_externals [v] what = Inr ()" if "fits sample_externals metadata 0 v" "length (enc v) \<le> 1048576" for v what
    unfolding sorted_unique_values_Inr [of _ _ _ 0] using that by (simp add: sorted_single del: enc.simps)
  have none: "sorted_unique_values sample_externals [] what = Inr ()" for what
    by (simp add: sorted_unique_values_def collect_results_def)
  show "identity_validate sample_externals boot_identity = Inr ()"
    by (simp add: identity_validate_def boot_values public_key_validate_def registry_signatures_def one none fits.simps head_def)
  show "key_envelope_set_validate sample_externals boot_keys = Inr ()"
    by (simp add: key_envelope_set_validate_def boot_values one fits.simps head_def)
  show "policy_validate boot_policy = Inr ()"
    by (simp add: policy_validate_def boot_defs ensure_signature_set_def ensure_signature_purpose_def)
  show "operation_validate sample_externals boot_operation = Inr ()"
    by (simp add: operation_validate_def boot_defs ensure_nfc_def ensure_signature_purpose_def line_advance_validate_def)
  show "line_state_validate sample_externals boot_line = Inr ()"
    by (simp add: line_state_validate_def boot_defs ensure_nfc_def ensure_signature_purpose_def)
qed

lemma boot_identities:
  "object_identity sample_externals (canonical_object.truncate (identity_object sample_externals boot_identity)) Sha256 =
    Inr (sample_id IdentityKind 0 boot_identity_fields)"
  "object_identity sample_externals (key_envelope_set_object sample_externals boot_keys) Sha256 =
    Inr (sample_id KeyEnvelopeSetKind 0 (key_envelope_set_map boot_keys))"
  "object_identity sample_externals (canonical_object.truncate (policy_object boot_policy)) Sha256 = Inr (sample_id PolicyKind 0 boot_policy_fields)"
  "object_identity sample_externals (canonical_object.truncate (operation_object sample_externals boot_operation)) Sha256 =
    Inr (sample_id OperationKind 0 boot_operation_fields)"
  "object_identity sample_externals (canonical_object.truncate (line_state_object sample_externals boot_line)) Sha256 =
    Inr (sample_id LineStateKind 0 boot_line_fields)"
proof -
  show "object_identity sample_externals (canonical_object.truncate (identity_object sample_externals boot_identity)) Sha256 =
    Inr (sample_id IdentityKind 0 boot_identity_fields)"
    unfolding signed_base_def [symmetric]
    by (rule boot_object_identity) (simp_all add: boot_checks identity_object_def signed_registry_object_def boot_identity_fields_def,
      simp_all add: boot_values object_limits_def fits.simps head_def)
  show "object_identity sample_externals (key_envelope_set_object sample_externals boot_keys) Sha256 =
    Inr (sample_id KeyEnvelopeSetKind 0 (key_envelope_set_map boot_keys))"
    by (rule boot_object_identity) (simp_all add: boot_checks key_envelope_set_object_def registry_object_def,
      simp_all add: boot_values object_limits_def fits.simps head_def)
  show "object_identity sample_externals (canonical_object.truncate (policy_object boot_policy)) Sha256 = Inr (sample_id PolicyKind 0 boot_policy_fields)"
    unfolding signed_base_def [symmetric]
    by (rule boot_object_identity) (simp_all add: boot_checks policy_object_def policy_value_def boot_policy_fields_def,
      simp_all add: boot_values object_limits_def fits.simps head_def)
  show "object_identity sample_externals (canonical_object.truncate (operation_object sample_externals boot_operation)) Sha256 =
    Inr (sample_id OperationKind 0 boot_operation_fields)"
    unfolding signed_base_def [symmetric]
    by (rule boot_object_identity) (simp_all add: boot_checks operation_object_def operation_value_def boot_operation_fields_def,
      simp_all add: boot_values object_limits_def fits.simps head_def)
  show "object_identity sample_externals (canonical_object.truncate (line_state_object sample_externals boot_line)) Sha256 =
    Inr (sample_id LineStateKind 0 boot_line_fields)"
    unfolding signed_base_def [symmetric]
    by (rule boot_object_identity) (simp_all add: boot_checks line_state_object_def line_state_value_def boot_line_fields_def,
      simp_all add: boot_values object_limits_def fits.simps head_def)
qed

lemma boot_sel:
  "op_actions boot_operation = [LineAdvance boot_advance]" "op_parents boot_operation = []" "op_policy_ref boot_operation = boot_policy_ref"
  "ls_transaction_operation boot_line = sample_id OperationKind 0 boot_operation_fields" "ls_generation boot_line = 0"
  "ls_previous_state boot_line = None" "ls_policy_ref boot_line = boot_policy_ref" "line_advance_matches boot_advance boot_line"
  "idn_version boot_identity = 0" "idn_policy_ref boot_identity = None" "idn_previous boot_identity = None"
  "idn_activation_operation boot_identity = None" "po_policy_ref boot_policy = None" "po_version_sequence boot_policy = 0"
  "po_previous_version boot_policy = None" "po_policy_id boot_policy = replicate 16 3"
  "po_key_envelope_set boot_policy = sample_id KeyEnvelopeSetKind 0 (key_envelope_set_map boot_keys)"
  "ke_policy_ref boot_keys = None" "ke_epoch boot_keys = 0"
  "pr_version boot_policy_ref = sample_id PolicyKind 0 boot_policy_fields"
  "\<lparr>pr_policy_id = replicate 16 3, pr_version = sample_id PolicyKind 0 boot_policy_fields\<rparr> = boot_policy_ref"
  "bootstrap_signer [boot_identity] (boot_signature ForRepositoryRoot)"
  by (simp_all add: boot_operation_def boot_line_def boot_identity_def boot_policy_def boot_keys_def boot_policy_ref_def
      line_advance_matches_def boot_advance_def bootstrap_signer_def boot_signature_def)

lemma boot_transaction: "validate_transaction sample_externals boot_line boot_operation = Inr ()"
proof -
  have "algorithm (ls_transaction_operation boot_line) = Sha256"
    by (simp add: boot_line_def sample_id_def from_payload_def Let_def)
  then show ?thesis
    by (simp add: validate_transaction_def check_transaction_def boot_identities boot_sel List.map_filter_def)
qed

lemma boot_valid: "bootstrap_validate sample_externals boot_graph Sha256 = Inr ()"
proof -
  have root: "repository_root_validate (bg_root boot_graph) = Inr ()"
    by (simp add: boot_graph_def repository_root_validate_def sorted_unique_ids_def MAX_REGISTRY_ITEMS_def registry_signatures_def
        boot_signature_def)
  have identity: "bootstrap_identity sample_externals Sha256 boot_identity = Inr (sample_id IdentityKind 0 boot_identity_fields)"
    by (simp add: bootstrap_identity_def boot_checks boot_identities boot_sel)
  have line: "bootstrap_line sample_externals Sha256 boot_policy_ref boot_operation boot_line = Inr (sample_id LineStateKind 0 boot_line_fields)"
    by (simp add: bootstrap_line_def boot_checks boot_identities boot_transaction boot_sel)
  show ?thesis
    using root
    by (simp add: bootstrap_validate_def boot_graph_def boot_checks identity line boot_identities boot_sel collect_results_def)
qed

lemma boot_wf: "\<forall>(i, obj) \<in> set (bootstrap_members boot_graph). logical_wf sample_externals obj"
  by (simp add: bootstrap_members_def boot_graph_def boot_defs identity_wf_def public_key_wf_def signature_wf_def policy_wf_def
      key_envelope_set_wf_def operation_wf_def line_advance_wf_def policy_ref_wf_def line_state_wf_def)
    (simp add: oid_wf_def)

text \<open>The property at the sample: its line verifies under the identifier that the root names for it.\<close>

theorem bootstrap_sound_witness:
  "bootstrap_validate sample_externals boot_graph Sha256 = Inr () \<and> length (bootstrap_members boot_graph) = 5 \<and>
    rr_initial_line_states (bg_root boot_graph) = [sample_id LineStateKind 0 boot_line_fields] \<and>
    (\<exists>bs a. object_encode sample_externals (logical sample_externals (LLineState boot_line)) = Inr bs \<and>
      any_decode_verified sample_externals bs (sample_id LineStateKind 0 boot_line_fields)
        (object_limits (co_kind (logical sample_externals (LLineState boot_line)))) = Inr a \<and>
      admitted_as (logical sample_externals (LLineState boot_line)) a)"
proof -
  have "length (bootstrap_members boot_graph) = 5"
    "(sample_id LineStateKind 0 boot_line_fields, LLineState boot_line) \<in> set (bootstrap_members boot_graph)"
    "rr_initial_line_states (bg_root boot_graph) = [sample_id LineStateKind 0 boot_line_fields]"
    by (simp_all add: bootstrap_members_def boot_graph_def)
  then show ?thesis using boot_valid bootstrap_sound [OF boot_valid boot_wf] by (fastforce simp del: logical.simps)
qed

end
