(* ===== verification/Spec2Isabelle.thy ===== *)
theory Spec2Isabelle
  imports Catalog References Graph_Spec Diff_Merge_Spec Store_Props Text_Merge_Spec Ancestry_Spec Repository_Props Bootstrap_Spec
begin

text \<open>
  A verification development for RGit, a version control system in Rust. All paths are under \<open>src/\<close>.

  \<^bold>\<open>The program.\<close> It has four layers.

  \<^item> \<open>crates/rgit-objects\<close>: the object format. Values are encoded in a restricted canonical CBOR; an object
    is a canonical map with a kind and a schema version; its identifier is a digest over a preimage with
    kind, version and payload. Typed admission (\<open>decode.rs\<close>) turns bytes back into objects and extracts
    the references between them. Content is cut into chunks by content (\<open>fastcdc.rs\<close>).
  \<^item> \<open>crates/rgit-graph\<close>: algorithms on given data: an index of a parent graph, flattened trees, their
    comparison and their three-way merge.
  \<^item> \<open>crates/rgit-store\<close>: an object store with references. A publication stages objects and moves several
    references at once if all of them still have their expected states and a validator agrees.
  \<^item> \<open>src/*.rs\<close>: the command-line program. It keeps JSON records (actors, changes, snapshots, lines,
    conflicts, resolutions, operations) and blobs, and has commands that snapshot a working tree,
    integrate changes into lines, resolve conflicts, and verify the repository.

  \<^bold>\<open>Conventions.\<close> A \<open>struct\<close> is a record, an \<open>enum\<close> a datatype, a function a definition of the same name where
  the name is free. \<open>Result\<close> is the sum type with \<open>Inl\<close> the error and \<open>Inr\<close> the value, composed by \<open>and_then\<close>
  like the question mark operator; every early return is a branch, in the order of the source. Texts are
  their UTF-8 bytes. Machine integers are words; \<open>usize\<close> has 64 bits and is a natural number with its bound
  written out where it can be reached. \<open>BTreeMap\<close> and \<open>BTreeSet\<close> are strictly sorted lists. A loop without a structural
  measure has the type \<open>option\<close>, with \<open>None\<close> for a run that does not return, and it is proved that it returns: no
  fuel is used for the results. Commands pass the repository as a state and can fail; their errors are the
  messages of the source without arguments, and \<open>NoReturn\<close> marks a call that does not return.

  \<^bold>\<open>Theories and sources.\<close>

  \<^item> \<open>Prelude\<close>: results, bytes, checked arithmetic, the external functions, the locale \<open>codec\<close>. \<open>Ordered\<close>:
    sorted maps and sets, locale \<open>ordered_map\<close>. \<open>Worklist\<close>: the traversal shared by graph and store, locale
    \<open>worklist\<close>.
  \<^item> \<open>Canonical\<close> (\<open>canonical.rs\<close>); \<open>Ident\<close> (\<open>id.rs\<close>); \<open>Paths\<close> (\<open>path.rs\<close>); \<open>Kinds\<close> (\<open>types.rs\<close>); \<open>FastCdc\<close> (\<open>fastcdc.rs\<close>);
    \<open>Objects\<close> (\<open>object.rs\<close>); \<open>Extended\<close> (\<open>extended.rs\<close>); \<open>Decoding\<close>, \<open>Roles\<close> and \<open>References\<close> (\<open>decode.rs\<close>).
  \<^item> \<open>Graph\<close> (\<open>reachability.rs\<close>); \<open>Tree\<close> (\<open>tree.rs\<close>); \<open>Diff_Merge\<close> (\<open>diff.rs\<close>, \<open>merge.rs\<close>).
  \<^item> \<open>Memory\<close> (\<open>model.rs\<close>, \<open>error.rs\<close>, \<open>store.rs\<close>, \<open>memory.rs\<close> of the store).
  \<^item> \<open>Access\<close> and \<open>Tree_Merge\<close> (access decisions and manifest merge of \<open>main.rs\<close>, \<open>tree_conflicts.rs\<close>); \<open>Text_Merge\<close>
    (\<open>text_merge.rs\<close>); \<open>Ancestry\<close> (\<open>ancestry.rs\<close>); \<open>Names\<close> (names and keys of \<open>main.rs\<close>, \<open>transaction.rs\<close>, \<open>git_bridge.rs\<close>);
    \<open>Repository\<close> (records and their reading and staging); \<open>Git_Objects\<close> (\<open>git_objects.rs\<close>); \<open>Working_Tree\<close> (scan and capture,
    \<open>main.rs\<close>, \<open>capture.rs\<close>, \<open>blob_io.rs\<close>); \<open>Commands\<close> (\<open>main.rs\<close>, \<open>lines.rs\<close>, \<open>identity.rs\<close>, \<open>checkout.rs\<close>, \<open>resolution.rs\<close>,
    \<open>git_remotes.rs\<close>, \<open>initialization.rs\<close>); \<open>Verify\<close> (\<open>verify.rs\<close>).
  \<^item> The theories with the suffix \<open>_Spec\<close> or \<open>_Props\<close> hold specifications and proofs for the theory of the same
    name; \<open>Object_Schemas\<close>, \<open>Content_Schemas\<close>, \<open>Metadata_Schemas\<close>, \<open>Operation_Schemas\<close> and \<open>Extended_Schemas\<close> prove the schema
    contract of each object, \<open>Catalog\<close> collects them; \<open>Store_Sample\<close> is the concrete store of the witnesses;
    \<open>Bootstrap_Spec\<close> is about the bootstrap material of \<open>extended.rs\<close>; \<open>Integration_Spec\<close> about the commands that publish
    snapshots and conflicts.

  \<^bold>\<open>What is shown.\<close>

  \<^item> Encoding: the encoder succeeds exactly on values that fit the limits, the decoder accepts exactly the
    specified encodings, and each inverts the other; identifiers, their text forms and their preimages, and
    the bytes a signature covers, determine what they stand for.
  \<^item> Objects: an object of any of the 31 kinds, both operation schemas included, encodes exactly when it
    validates and its value fits the limits of its kind, and its bytes are admitted under exactly its own
    identifier with its own fields. So encoders and the separately written
    shape checks of the decoder agree, field by field. Two byte strings that admit as the same object are
    equal. Validated bootstrap material is a consistent genesis.
  \<^item> Chunking: chunks concatenate to the input within their bounds, and do not depend on how the input is
    split into pushes; blobs name exactly their chunks.
  \<^item> Graph: construction of the index returns, fails exactly on duplicate nodes, unknown parents and
    cycles, and reports precisely the nodes on cycles; queries compute the transitive closure.
  \<^item> Trees: portable collisions, diff and merge agree with rules stated path by path.
  \<^item> Store: the invariant (objects verify, every reference has a complete acyclic closure of the right kinds)
    holds after any interleaving of operations, with a publication as two steps; every run is a run of an
    abstract table with an atomic compare-and-swap over several keys; a commit is linearizable; closures are
    exact and end.
  \<^item> Merge of manifests and texts: exact against the three-way rule, outputs never lie one inside the other,
    a text merge applies every edit of both sides once, and a conflict is shown exactly to those who may see
    all its sources. Ancestry: validation is exact and the merge base is the greatest common ancestor.
  \<^item> Commands: every command returns, even in a damaged repository; however it ends, it keeps a
    repository verified, so every repository reached
    from an initialized one verifies; an integration publishes only with access to all sources, stores one
    snapshot and moves only its line; a scanned manifest verifies.

  \<^bold>\<open>Interfaces.\<close> \<open>codec\<close> (an encoder and a partial decoder, interpreted by canonical CBOR and by binary
  identifiers), \<open>object_schema\<close> (what an encoder promises to admission, interpreted by every object),
  \<open>ordered_map\<close> (interpreted by the sorted lists) and \<open>worklist\<close> (interpreted by the cycle search and the ancestor
  query of the graph index and by the closure and ancestry traversals of the store).

  \<^bold>\<open>External code.\<close> The record \<open>externals\<close> has normalisation to NFC, case folding, SHA-256, BLAKE3 and base32. The
  laws used of them are hypotheses of the theorems: digests have 32 bytes, and base32 inverts. The record \<open>cli_env\<close>
  has the random identifiers and the clock by a running count, SHA-1 and SHA-256, the JSON text of a manifest,
  the diff of the \<open>similar\<close> crate, the working tree with the ignore rules, and the staging of a checkout. \<open>env_ok\<close>
  says that no valid identifier is drawn twice, \<open>dir_ok\<close> that the names in a directory are different and are
  names, \<open>differ_ok\<close> that the operations of a diff cover both texts in order and mark equal lines as equal. The
  witnesses instantiate all of them. Validators of publications are parameters as well.

  \<^bold>\<open>Bounds.\<close> The limits of the source are constants with their values: nesting, items and bytes of
  canonical values, \<open>MAX_REGISTRY_ITEMS\<close>, the chunk sizes, \<open>FILE_LIMIT\<close> (1 MiB) and \<open>TOTAL_LIMIT\<close> (64 MiB) of text merging. Lengths and
  generations have 64 bits; where a sum could overflow, the check of the source is part of the definition or the bound is
  a hypothesis.

  \<^bold>\<open>Not modelled.\<close> The durable store (\<open>loose.rs\<close>, \<open>sqlite.rs\<close>, \<open>sqlite_vfs.rs\<close>, \<open>platform.rs\<close>, \<open>edge_roles.rs\<close>), the journal
  of \<open>transaction.rs\<close>, worktrees, backup and the host checks of checkout are effects of the operating system
  and of a database. Import from and export to Git, remotes and tracking run the \<open>git\<close> executable. Parsing of
  arguments, commands that only print, JSON reports, debug formatters and matching of ignore rules are left out.
  A crash between the writes of a command is not modelled: the staged records of a command are committed together.
\<close>

end
